(* ===== verification/HR_Prelude.thy ===== *)
theory HR_Prelude
  imports Main "HOL-Library.Word"
begin

text \<open>
  Shared ground of the development: the machine integers the client uses, the exceptions it
  throws, and the effect of a member function that reads and writes an object and may throw.

  A C++ member function of class \<open>S\<close> returning \<open>T\<close> is a function of type
  \<open>('s, 'a) sm\<close>, from the object's state to a result and the state it leaves behind. The
  result is \<open>Inl e\<close> when exception \<open>e\<close> leaves the function. The state is returned in both
  cases, because what the function wrote before it threw stays written.
\<close>

unbundle bit_operations_syntax

section \<open>Machine integers\<close>

type_synonym byte = "8 word"
type_synonym u16 = "16 word"
type_synonym u32 = "32 word"
type_synonym u64 = "64 word"
type_synonym bytes = "byte list"

section \<open>Exceptions\<close>

text \<open>
  The parameters an \<open>InvalidResponseException\<close> prints into its message: the magic number
  received, the message ids expected and received, the operation codes expected and received,
  or the status the operation does not accept.
\<close>

datatype invalid_response =
    BadMagic byte
  | BadMessageId u64 u64
  | BadOperation byte byte
  | BadStatus byte

text \<open>
  The class hierarchy of \<open>exceptions.h\<close>. A \<open>TransportException\<close> carries the host, the port and
  the text given to \<open>throwIOErr\<close>. \<open>UndefinedBehaviour\<close> is not an exception of the client: it
  marks an execution that C++ leaves undefined (an index out of range, a null dereference, a
  shift past the width of the operand), so that such an execution is visible in the model.
  \<open>Blocked\<close> marks a thread that waits for another one, \<open>OutOfFuel\<close> a loop that has not ended
  within the number of rounds the model is given, and \<open>NotModelled\<close> an execution the model does not
  follow. No handler of the client catches these four.
  \<open>StdException\<close> is an exception of the C++ library, \<open>ThrownText\<close> a string literal that is thrown.
\<close>

datatype exn =
    TransportException string int string
  | RemoteNodeSuspectException string u64 byte
  | InvalidResponseException invalid_response
  | InternalException string
  | HotRodClientException string
  | RemoteCacheManagerNotStartedException
  | UnsupportedOperationException
  | HotRodClientTxStateException string string
  | HotRodClientRollbackException u32
  | HotRodClientTxRemoteStateException u32
  | CounterUpperBoundException string
  | CounterLowerBoundException string
  | NoSuchElementException string
  | QueueException string
  | StdException string
  | ThrownText string
  | UndefinedBehaviour string
  | Blocked
  | OutOfFuel
  | NotModelled string

text \<open>\<open>catch (const HotRodClientException&)\<close> accepts the class and its subclasses.\<close>

fun is_client_exn :: "exn \<Rightarrow> bool" where
  "is_client_exn (TransportException h p m) = True"
| "is_client_exn (RemoteNodeSuspectException m i s) = True"
| "is_client_exn (InvalidResponseException r) = True"
| "is_client_exn (InternalException m) = True"
| "is_client_exn (HotRodClientException m) = True"
| "is_client_exn RemoteCacheManagerNotStartedException = True"
| "is_client_exn UnsupportedOperationException = True"
| "is_client_exn (HotRodClientTxStateException a b) = True"
| "is_client_exn (HotRodClientRollbackException c) = True"
| "is_client_exn (HotRodClientTxRemoteStateException c) = True"
| "is_client_exn (CounterUpperBoundException n) = False"
| "is_client_exn (CounterLowerBoundException n) = False"
| "is_client_exn (NoSuchElementException m) = False"
| "is_client_exn (QueueException m) = False"
| "is_client_exn (StdException m) = False"
| "is_client_exn (ThrownText m) = False"
| "is_client_exn (UndefinedBehaviour m) = False"
| "is_client_exn Blocked = False"
| "is_client_exn OutOfFuel = False"
| "is_client_exn (NotModelled m) = False"

text \<open>\<open>catch (const Exception&)\<close> accepts every exception class of the client.\<close>

fun is_hr_exception :: "exn \<Rightarrow> bool" where
  "is_hr_exception (StdException m) = False"
| "is_hr_exception (ThrownText m) = False"
| "is_hr_exception (UndefinedBehaviour m) = False"
| "is_hr_exception Blocked = False"
| "is_hr_exception OutOfFuel = False"
| "is_hr_exception (NotModelled m) = False"
| "is_hr_exception _ = True"

text \<open>\<open>catch (std::exception&)\<close>: every class above derives from it.\<close>

definition is_std_exception :: "exn \<Rightarrow> bool" where
  "is_std_exception e \<longleftrightarrow> is_hr_exception e \<or> (case e of StdException m \<Rightarrow> True | _ \<Rightarrow> False)"

section \<open>State with exceptions\<close>

type_synonym ('s, 'a) sm = "'s \<Rightarrow> (exn + 'a) \<times> 's"

definition ret :: "'a \<Rightarrow> ('s, 'a) sm" where
  "ret x = (\<lambda>s. (Inr x, s))"

definition raise :: "exn \<Rightarrow> ('s, 'a) sm" where
  "raise e = (\<lambda>s. (Inl e, s))"

definition bind :: "('s, 'a) sm \<Rightarrow> ('a \<Rightarrow> ('s, 'b) sm) \<Rightarrow> ('s, 'b) sm" where
  "bind m f = (\<lambda>s. case m s of (Inl e, s') \<Rightarrow> (Inl e, s') | (Inr x, s') \<Rightarrow> f x s')"

definition seq :: "('s, 'a) sm \<Rightarrow> ('s, 'b) sm \<Rightarrow> ('s, 'b) sm" where
  "seq m k = bind m (\<lambda>_. k)"

definition gets :: "('s \<Rightarrow> 'a) \<Rightarrow> ('s, 'a) sm" where
  "gets f = (\<lambda>s. (Inr (f s), s))"

definition modify :: "('s \<Rightarrow> 's) \<Rightarrow> ('s, unit) sm" where
  "modify f = (\<lambda>s. (Inr (), f s))"

text \<open>\<open>try m catch\<close>: the handler sees the exception and the state the body left.\<close>

definition catch :: "('s, 'a) sm \<Rightarrow> (exn \<Rightarrow> ('s, 'a) sm) \<Rightarrow> ('s, 'a) sm" where
  "catch m h = (\<lambda>s. case m s of (Inl e, s') \<Rightarrow> h e s' | (Inr x, s') \<Rightarrow> (Inr x, s'))"

text \<open>Run a member function of a part of the object.\<close>

definition on_part :: "('s \<Rightarrow> 't) \<Rightarrow> ('t \<Rightarrow> 's \<Rightarrow> 's) \<Rightarrow> ('t, 'a) sm \<Rightarrow> ('s, 'a) sm" where
  "on_part g p m = (\<lambda>s. case m (g s) of (r, t) \<Rightarrow> (r, p t s))"

text \<open>A counted loop \<open>for (i = 0; i < n; i++)\<close> that collects the results of its body.\<close>

fun repeat_sm :: "nat \<Rightarrow> ('s, 'a) sm \<Rightarrow> ('s, 'a list) sm" where
  "repeat_sm 0 m = ret []"
| "repeat_sm (Suc n) m = bind m (\<lambda>x. bind (repeat_sm n m) (\<lambda>xs. ret (x # xs)))"

text \<open>A loop over the elements of a container.\<close>

fun for_each :: "'x list \<Rightarrow> ('x \<Rightarrow> ('s, unit) sm) \<Rightarrow> ('s, unit) sm" where
  "for_each [] f = ret ()"
| "for_each (x # xs) f = seq (f x) (for_each xs f)"

named_theorems sm_simps \<open>the equations of the state and exception effect\<close>

lemma ret_run [sm_simps]: "ret x s = (Inr x, s)"
  by (simp add: ret_def)

lemma raise_run [sm_simps]: "raise e s = (Inl e, s)"
  by (simp add: raise_def)

lemma gets_run [sm_simps]: "gets f s = (Inr (f s), s)"
  by (simp add: gets_def)

lemma modify_run [sm_simps]: "modify f s = (Inr (), f s)"
  by (simp add: modify_def)

lemma bind_run [sm_simps]:
  "bind m f s = (case m s of (Inl e, s') \<Rightarrow> (Inl e, s') | (Inr x, s') \<Rightarrow> f x s')"
  by (simp add: bind_def)

lemma seq_run [sm_simps]:
  "seq m k s = (case m s of (Inl e, s') \<Rightarrow> (Inl e, s') | (Inr x, s') \<Rightarrow> k s')"
  by (simp add: seq_def bind_def)

lemma catch_run [sm_simps]:
  "catch m h s = (case m s of (Inl e, s') \<Rightarrow> h e s' | (Inr x, s') \<Rightarrow> (Inr x, s'))"
  by (simp add: catch_def)

lemma on_part_run [sm_simps]: "on_part g p m s = (case m (g s) of (r, t) \<Rightarrow> (r, p t s))"
  by (simp add: on_part_def)

lemma bind_Inr [simp]: "m s = (Inr x, s') \<Longrightarrow> bind m f s = f x s'"
  by (simp add: bind_def)

lemma bind_Inl [simp]: "m s = (Inl e, s') \<Longrightarrow> bind m f s = (Inl e, s')"
  by (simp add: bind_def)

lemma seq_Inr [simp]: "m s = (Inr x, s') \<Longrightarrow> seq m k s = k s'"
  by (simp add: seq_def)

lemma seq_Inl [simp]: "m s = (Inl e, s') \<Longrightarrow> seq m k s = (Inl e, s')"
  by (simp add: seq_def)

lemma catch_Inl: "m s = (Inl e, s') \<Longrightarrow> catch m h s = h e s'"
  by (simp add: catch_def)

lemma catch_Inr: "m s = (Inr x, s') \<Longrightarrow> catch m h s = (Inr x, s')"
  by (simp add: catch_def)

lemma bind_eq_Inr:
  "bind m f s = (Inr y, t) \<longleftrightarrow> (\<exists>x s'. m s = (Inr x, s') \<and> f x s' = (Inr y, t))"
  by (auto simp: bind_def split: prod.splits sum.splits)

lemma seq_eq_Inr:
  "seq m k s = (Inr y, t) \<longleftrightarrow> (\<exists>x s'. m s = (Inr x, s') \<and> k s' = (Inr y, t))"
  by (simp add: seq_def bind_eq_Inr)

lemma bind_ret [simp]: "bind (ret x) f = f x"
  by (rule ext) (simp add: sm_simps)

lemma sm_bind_assoc: "bind (bind m f) g = bind m (\<lambda>x. bind (f x) g)"
  by (rule ext) (simp add: sm_simps split: prod.splits sum.splits)

text \<open>A counted loop whose body succeeds from every state it meets returns as many results.\<close>

lemma repeat_sm_length:
  "repeat_sm n m s = (Inr xs, t) \<Longrightarrow> length xs = n"
proof (induction n arbitrary: s xs)
  case 0
  then show ?case by (simp add: sm_simps)
next
  case (Suc n)
  then show ?case by (auto simp: bind_eq_Inr ret_run)
qed

section \<open>Pre- and postconditions\<close>

text \<open>
  \<open>hoare P m Q E\<close>: from a state with \<open>P\<close>, \<open>m\<close> returns a value and a state with \<open>Q\<close>, or throws an
  exception and leaves a state with \<open>E\<close>. The rules follow the structure of the program; where a
  step is not covered by one of them, \<open>hoareI\<close> goes back to the definition.
\<close>

definition hoare ::
  "('s \<Rightarrow> bool) \<Rightarrow> ('s, 'a) sm \<Rightarrow> ('a \<Rightarrow> 's \<Rightarrow> bool) \<Rightarrow> (exn \<Rightarrow> 's \<Rightarrow> bool) \<Rightarrow> bool" where
  "hoare P m Q E \<longleftrightarrow>
    (\<forall>s. P s \<longrightarrow> (case m s of (Inr x, s') \<Rightarrow> Q x s' | (Inl e, s') \<Rightarrow> E e s'))"

lemma hoareI:
  assumes "\<And>s x s'. P s \<Longrightarrow> m s = (Inr x, s') \<Longrightarrow> Q x s'" "\<And>s e s'. P s \<Longrightarrow> m s = (Inl e, s') \<Longrightarrow> E e s'"
  shows "hoare P m Q E"
  using assms by (auto simp: hoare_def split: prod.splits sum.splits)

lemma hoareD_Inr: "hoare P m Q E \<Longrightarrow> P s \<Longrightarrow> m s = (Inr x, s') \<Longrightarrow> Q x s'"
  by (fastforce simp: hoare_def)

lemma hoareD_Inl: "hoare P m Q E \<Longrightarrow> P s \<Longrightarrow> m s = (Inl e, s') \<Longrightarrow> E e s'"
  by (fastforce simp: hoare_def)

lemma hoare_conseq:
  "hoare P m Q E \<Longrightarrow> (\<And>s. P' s \<Longrightarrow> P s) \<Longrightarrow> (\<And>x s. Q x s \<Longrightarrow> Q' x s) \<Longrightarrow> (\<And>e s. E e s \<Longrightarrow> E' e s)
    \<Longrightarrow> hoare P' m Q' E'"
  by (fastforce simp: hoare_def split: prod.splits sum.splits)

lemma hoare_pre: "hoare P m Q E \<Longrightarrow> (\<And>s. P' s \<Longrightarrow> P s) \<Longrightarrow> hoare P' m Q E"
  by (rule hoare_conseq)

lemma hoare_ret [intro!]: "(\<And>s. P s \<Longrightarrow> Q x s) \<Longrightarrow> hoare P (ret x) Q E"
  by (simp add: hoare_def ret_run)

lemma hoare_raise [intro!]: "(\<And>s. P s \<Longrightarrow> E e s) \<Longrightarrow> hoare P (raise e) Q E"
  by (simp add: hoare_def raise_run)

lemma hoare_gets [intro!]: "(\<And>s. P s \<Longrightarrow> Q (f s) s) \<Longrightarrow> hoare P (gets f) Q E"
  by (simp add: hoare_def gets_run)

lemma hoare_modify [intro!]: "(\<And>s. P s \<Longrightarrow> Q () (f s)) \<Longrightarrow> hoare P (modify f) Q E"
  by (simp add: hoare_def modify_run)

lemma hoare_bind: "hoare P m R E \<Longrightarrow> (\<And>x. hoare (R x) (f x) Q E) \<Longrightarrow> hoare P (bind m f) Q E"
  unfolding hoare_def bind_run by (fastforce split: prod.splits sum.splits)

lemma hoare_seq: "hoare P m (\<lambda>_. R) E \<Longrightarrow> hoare R k Q E \<Longrightarrow> hoare P (seq m k) Q E"
  unfolding seq_def by (rule hoare_bind)

lemma hoare_gets_bind: "(\<And>x. hoare (\<lambda>s. P s \<and> x = g s) (f x) Q E) \<Longrightarrow> hoare P (bind (gets g) f) Q E"
  by (rule hoare_bind [of P _ "\<lambda>x s. P s \<and> x = g s"]) auto

lemma hoare_if [intro!]:
  "(c \<Longrightarrow> hoare P m Q E) \<Longrightarrow> (\<not> c \<Longrightarrow> hoare P n Q E) \<Longrightarrow> hoare P (if c then m else n) Q E"
  by simp

lemma hoare_fact: "(F \<Longrightarrow> hoare P m Q E) \<Longrightarrow> hoare (\<lambda>s. P s \<and> F) m Q E"
  by (auto simp: hoare_def)

lemma hoare_for_each:
  "(\<And>x. x \<in> set xs \<Longrightarrow> hoare I (f x) (\<lambda>_. I) E) \<Longrightarrow> hoare I (for_each xs f) (\<lambda>_. I) E"
  by (induction xs) (auto intro!: hoare_seq)

section \<open>Words\<close>

lemma unat_and_mask_lt: "unat (x AND mask n) < 2 ^ n" for x :: "'a::len word"
  by (metis take_bit_eq_mask take_bit_nat_less_exp unsigned_take_bit_eq)

lemma mask7_byte: "(0x7F :: byte) = mask 7"
  by (simp add: mask_eq_exp_minus_1)

lemma and_0x7F: "x AND 0x7F = take_bit 7 x" for x :: "'a::len word"
proof -
  have "(0x7F :: 'a word) = mask 7" by (simp add: mask_eq_exp_minus_1)
  then show ?thesis by (simp add: take_bit_eq_mask)
qed

lemma drop_bit_eq_0_iff_lt: "drop_bit n w = 0 \<longleftrightarrow> unat w < 2 ^ n" for w :: "'a::len word"
  by (metis drop_bit_eq_div div_eq_0_iff power_not_zero unat_drop_bit_eq unsigned_eq_0_iff
      zero_neq_numeral)

end
