(* ===== verification/HR_Containers.thy ===== *)
theory HR_Containers
  imports HR_Prelude "HOL-Library.Multiset"
begin

text \<open>
  The containers of the C++ library the client keeps its state in. A \<open>std::map\<close> is the list of its
  elements in the order of their keys, which is the order its iterators visit them in; a
  \<open>std::list\<close> or \<open>std::queue\<close> is a list. A queue held through a \<open>shared_ptr\<close> is an \<open>option\<close>,
  \<open>None\<close> being the null pointer that \<open>operator[]\<close> leaves behind for a key that is not there. Also
  here: numbers as text.
\<close>

type_synonym ('k, 'v) smap = "('k \<times> 'v) list"

text \<open>\<open>m[k] = v\<close>.\<close>

fun smap_put :: "'k::linorder \<Rightarrow> 'v \<Rightarrow> ('k, 'v) smap \<Rightarrow> ('k, 'v) smap" where
  "smap_put k v [] = [(k, v)]"
| "smap_put k v ((k', v') # m) =
     (if k < k' then (k, v) # (k', v') # m
      else if k = k' then (k, v) # m
      else (k', v') # smap_put k v m)"

text \<open>\<open>m.insert(std::pair(k, v))\<close> leaves an element that is there as it is.\<close>

definition smap_insert :: "'k::linorder \<Rightarrow> 'v \<Rightarrow> ('k, 'v) smap \<Rightarrow> ('k, 'v) smap" where
  "smap_insert k v m = (case map_of m k of None \<Rightarrow> smap_put k v m | Some _ \<Rightarrow> m)"

definition smap_erase :: "'k \<Rightarrow> ('k, 'v) smap \<Rightarrow> ('k, 'v) smap" where
  "smap_erase k m = filter (\<lambda>(k', v). k' \<noteq> k) m"

definition smap_ok :: "('k::linorder, 'v) smap \<Rightarrow> bool" where
  "smap_ok m \<longleftrightarrow> sorted_wrt (<) (map fst m)"

lemma map_of_smap_put [simp]: "map_of (smap_put k v m) = (map_of m)(k \<mapsto> v)"
  by (induction k v m rule: smap_put.induct) auto

lemma smap_put_keys [simp]: "fst ` set (smap_put k v m) = insert k (fst ` set m)"
  by (induction k v m rule: smap_put.induct) auto

lemma smap_ok_put: "smap_ok m \<Longrightarrow> smap_ok (smap_put k v m)"
proof (induction k v m rule: smap_put.induct)
  case (2 k v k' v' m)
  have "\<forall>y \<in> fst ` set (smap_put k v m). k' < y" if "k' < k"
    unfolding smap_put_keys using 2(2) that by (auto simp: smap_ok_def)
  then have "\<forall>x \<in> set (smap_put k v m). k' < fst x" if "k' < k"
    using that by blast
  then show ?case using 2 by (auto simp: smap_ok_def)
qed (simp add: smap_ok_def)

lemma smap_ok_insert: "smap_ok m \<Longrightarrow> smap_ok (smap_insert k v m)"
  by (simp add: smap_insert_def smap_ok_put split: option.splits)

lemma smap_ok_erase: "smap_ok m \<Longrightarrow> smap_ok (smap_erase k m)"
  by (induction m) (auto simp: smap_ok_def smap_erase_def)

lemma smap_ok_distinct: "smap_ok m \<Longrightarrow> distinct (map fst m)"
  by (simp add: smap_ok_def strict_sorted_iff)

lemma map_of_smap_erase [simp]: "map_of (smap_erase k m) = (map_of m)(k := None)"
  by (induction m) (auto simp: smap_erase_def)

lemma map_of_smap_insert:
  "map_of (smap_insert k v m) = (case map_of m k of None \<Rightarrow> (map_of m)(k \<mapsto> v) | Some _ \<Rightarrow> map_of m)"
  by (simp add: smap_insert_def split: option.splits)

lemma smap_put_same: "smap_ok m \<Longrightarrow> map_of m k = Some v \<Longrightarrow> smap_put k v m = m"
proof (induction k v m rule: smap_put.induct)
  case (2 k v k' v' m)
  have "map_of m k = None" if "k < k'"
    using 2(2) that by (force simp: smap_ok_def map_of_eq_None_iff)
  then show ?case using 2 by (auto simp: smap_ok_def split: if_splits)
qed simp

section \<open>Maps of queues\<close>

text \<open>The objects in the queues of a map, counted, and those of one queue.\<close>

definition objs :: "('k, 't list option) smap \<Rightarrow> 't multiset" where
  "objs m = sum_list (map (\<lambda>(k, q). mset (case q of Some xs \<Rightarrow> xs | None \<Rightarrow> [])) m)"

definition objs_at :: "('k, 't list option) smap \<Rightarrow> 'k \<Rightarrow> 't multiset" where
  "objs_at m k = mset (case map_of m k of Some (Some xs) \<Rightarrow> xs | _ \<Rightarrow> [])"

definition no_null :: "('k, 't list option) smap \<Rightarrow> bool" where
  "no_null m \<longleftrightarrow> (\<forall>k. map_of m k \<noteq> Some None)"

lemma objs_Nil [simp]: "objs [] = {#}"
  by (simp add: objs_def)

lemma objs_Cons [simp]:
  "objs ((k, q) # m) = mset (case q of Some xs \<Rightarrow> xs | None \<Rightarrow> []) + objs m"
  by (simp add: objs_def)

lemma objs_at_absent: "k \<notin> fst ` set m \<Longrightarrow> objs_at m k = {#}"
  by (simp add: objs_at_def map_of_eq_None_iff [THEN iffD2] split: option.splits)

lemma objs_at_Cons [simp]:
  "objs_at ((k', q) # m) k = (if k = k' then mset (case q of Some xs \<Rightarrow> xs | None \<Rightarrow> []) else objs_at m k)"
  by (simp add: objs_at_def split: option.splits)

lemma objs_at_subset: "objs_at m k \<subseteq># objs m"
proof (induction m)
  case (Cons a m)
  obtain k' q where "a = (k', q)" by fastforce
  then show ?case using Cons.IH by (auto simp: subset_mset.add_increasing)
qed (simp add: objs_at_def)

lemma objs_put:
  assumes "smap_ok m"
  shows "objs (smap_put k (Some q) m) + objs_at m k = objs m + mset q"
  using assms
proof (induction k "Some q" m rule: smap_put.induct)
  case (1 k)
  then show ?case by (simp add: objs_at_def)
next
  case (2 k k' v' m)
  have "objs_at m k = {#}" if "k < k'"
    using 2(2) that by (intro objs_at_absent) (auto simp: smap_ok_def)
  then show ?case using 2 by (auto simp: smap_ok_def ac_simps)
qed

lemma objs_put_some:
  assumes "smap_ok m" "map_of m k = Some (Some q)"
  shows "objs (smap_put k (Some q') m) + mset q = objs m + mset q'"
  using objs_put [OF assms(1), of k q'] assms(2) by (simp add: objs_at_def)

lemma objs_erase:
  assumes "smap_ok m"
  shows "objs (smap_erase k m) + objs_at m k = objs m"
  using assms
proof (induction m)
  case (Cons a m)
  obtain k' q where a: "a = (k', q)" by fastforce
  have "smap_erase k m = m" if "k = k'"
    using Cons.prems that a by (auto simp: smap_ok_def smap_erase_def filter_id_conv)
  moreover have "smap_ok m" using Cons.prems by (simp add: smap_ok_def)
  ultimately show ?case using Cons.IH a by (auto simp: smap_erase_def ac_simps)
qed (simp add: smap_erase_def objs_at_def)

lemma no_null_put [simp]: "no_null m \<Longrightarrow> no_null (smap_put k (Some q) m)"
  by (simp add: no_null_def)

lemma no_null_insert [simp]: "no_null m \<Longrightarrow> no_null (smap_insert k (Some q) m)"
  by (simp add: no_null_def map_of_smap_insert split: option.splits)

lemma no_null_erase [simp]: "no_null m \<Longrightarrow> no_null (smap_erase k m)"
  by (simp add: no_null_def)

section \<open>Ownership\<close>

text \<open>The objects \<open>U\<close> are all among \<open>A\<close>, and none is counted twice.\<close>

definition owned :: "'t multiset \<Rightarrow> 't set \<Rightarrow> bool" where
  "owned U A \<longleftrightarrow> (\<forall>t. count U t \<le> 1) \<and> set_mset U \<subseteq> A"

lemma owned_empty [simp]: "owned {#} A"
  by (simp add: owned_def)

lemma owned_add: "owned (add_mset t U) A \<longleftrightarrow> t \<in> A \<and> t \<notin># U \<and> owned U A"
  by (auto simp: owned_def not_in_iff)

lemma owned_fresh: "owned U A \<Longrightarrow> t \<notin> A \<Longrightarrow> owned (add_mset t U) (insert t A)"
  by (auto simp: owned_add) (auto simp: owned_def)

lemma owned_remove: "owned (add_mset t U) A \<Longrightarrow> owned U (A - {t})"
  by (auto simp: owned_add) (auto simp: owned_def)

lemma owned_mono: "owned U A \<Longrightarrow> V \<subseteq># U \<Longrightarrow> owned V A"
  unfolding owned_def by (meson mset_subset_eqD mset_subset_eq_count le_trans subset_iff)

lemma owned_removeAll: "owned (mset q + U) A \<Longrightarrow> t \<in> set q \<Longrightarrow> mset q = add_mset t (mset (removeAll t q))"
proof (rule multiset_eqI)
  fix x assume o: "owned (mset q + U) A" and t: "t \<in> set q"
  have "count (mset q) t \<le> 1" using o by (auto simp: owned_def dest!: spec [of _ t])
  moreover have "0 < count (mset q) t" using t by simp
  ultimately show "count (mset q) x = count (add_mset t (mset (removeAll t q))) x"
    by (cases "t = x") (auto simp: le_Suc_eq count_eq_zero_iff mset_filter removeAll_filter_not_eq)
qed

section \<open>Text\<close>

text \<open>\<open>std::to_string\<close> of a number.\<close>

fun to_string_nat :: "nat \<Rightarrow> bytes" where
  "to_string_nat n = (if n < 10 then [of_nat (48 + n)] else to_string_nat (n div 10) @ [of_nat (48 + n mod 10)])"

definition to_string :: "int \<Rightarrow> bytes" where
  "to_string i = (if i < 0 then 45 # to_string_nat (nat (- i)) else to_string_nat (nat i))"

definition ascii :: "string \<Rightarrow> bytes" where
  "ascii = map of_char"

end
