(* ===== verification/HR_Murmur.thy ===== *)
theory HR_Murmur
  imports HR_Prelude
begin

text \<open>
  \<open>impl/hash/MurmurHash3.cpp\<close>: the hash that places keys on the segments of the server ring.
  The code computes with \<open>int64_t\<close>; addition, multiplication and exclusive or give the same bits
  on \<open>u64\<close>, and the only right shifts go through \<open>uint64_t\<close> parameters. The bytes of the tail are
  \<open>int8_t\<close>, so each is sign extended (\<open>scast\<close>) before it is shifted. \<open>getblock64\<close> reads an
  \<open>int64_t\<close> from memory, in the byte order of a little endian host. The length of a key is below
  \<open>2 ^ 31\<close>, as the parameter \<open>int32_t len\<close> has to hold it.
\<close>

definition rotl64 :: "u64 \<Rightarrow> nat \<Rightarrow> u64" where
  "rotl64 x r = push_bit r x OR drop_bit (64 - r) x"

definition getblock64 :: "bytes \<Rightarrow> nat \<Rightarrow> u64" where
  "getblock64 p i = foldr (\<lambda>b acc. push_bit 8 acc OR ucast b) (take 8 (drop (8 * i) p)) 0"

definition fmix64 :: "u64 \<Rightarrow> u64" where
  "fmix64 k0 =
    (let k1 = k0 XOR drop_bit 33 k0;
         k2 = k1 * 0xff51afd7ed558ccd;
         k3 = k2 XOR drop_bit 33 k2;
         k4 = k3 * 0xc4ceb9fe1a85ec53
     in k4 XOR drop_bit 33 k4)"

record murmur_state =
  mh1 :: u64
  mh2 :: u64
  mc1 :: u64
  mc2 :: u64

definition bmix :: "u64 \<Rightarrow> u64 \<Rightarrow> murmur_state \<Rightarrow> murmur_state" where
  "bmix k1 k2 s =
    (let k1' = rotl64 (k1 * mc1 s) 23 * mc2 s;
         h1' = (mh1 s XOR k1') + mh2 s;
         h2' = rotl64 (mh2 s) 41;
         k2' = rotl64 (k2 * mc2 s) 23 * mc1 s;
         h2'' = (h2' XOR k2') + h1'
     in \<lparr>mh1 = h1' * 3 + 0x52dce729, mh2 = h2'' * 3 + 0x38495ab5,
         mc1 = mc1 s * 5 + 0x7b7d159c, mc2 = mc2 s * 5 + 0x6bce6396\<rparr>)"

definition murmur_init :: "u32 \<Rightarrow> murmur_state" where
  "murmur_init seed =
    \<lparr>mh1 = 0x9368e53c2f6af274 XOR scast seed, mh2 = 0x586dcd208f7cd3fd XOR scast seed,
     mc1 = 0x87c37b91114253d5, mc2 = 0x4cf5ad432745937f\<rparr>"

text \<open>\<open>k ^= ((int64_t) tail[lo + i]) << (8 * i)\<close> for the bytes from \<open>hi - 1\<close> down to \<open>lo\<close>.\<close>

definition tail_word :: "bytes \<Rightarrow> nat \<Rightarrow> nat \<Rightarrow> u64" where
  "tail_word tb lo hi =
     fold (\<lambda>i k. k XOR push_bit (8 * (i - lo)) (scast (tb ! i))) (rev [lo..<hi]) 0"

definition murmur_final :: "u32 \<Rightarrow> murmur_state \<Rightarrow> u64" where
  "murmur_final len s =
    (let h2a = mh2 s XOR scast len;
         h1a = mh1 s + h2a;
         h2b = h2a + h1a
     in fmix64 h1a + fmix64 h2b)"

definition MurmurHash3_x64_64 :: "bytes \<Rightarrow> u32 \<Rightarrow> u64" where
  "MurmurHash3_x64_64 key seed =
    (let len = length key;
         nblocks = len div 16;
         s = fold (\<lambda>i. bmix (getblock64 key (i * 2)) (getblock64 key (i * 2 + 1)))
                [0..<nblocks] (murmur_init seed);
         tb = drop (nblocks * 16) key;
         n = len mod 16;
         k2 = tail_word tb 8 n;
         k1 = tail_word tb 0 (min n 8);
         s' = (if n \<noteq> 0 then bmix k1 k2 s else s)
     in murmur_final (of_nat len) s')"

definition MurmurHash3_x64_32 :: "bytes \<Rightarrow> u32 \<Rightarrow> u32" where
  "MurmurHash3_x64_32 key seed = ucast (drop_bit 32 (MurmurHash3_x64_64 key seed))"

definition MurmurHash3_hash :: "bytes \<Rightarrow> u32" where
  "MurmurHash3_hash key = MurmurHash3_x64_32 key 9001"

text \<open>The overload for an \<open>int32_t\<close>, written out in the source with the loop unrolled.\<close>

definition MurmurHash3_hash_int :: "u32 \<Rightarrow> u32" where
  "MurmurHash3_hash_int key =
    (let b0 = ucast key :: byte;
         b1 = ucast (drop_bit 8 key) :: byte;
         b2 = ucast (drop_bit 16 key) :: byte;
         b3 = ucast (drop_bit 24 key) :: byte;
         h1a = 0x9368e53c2f6af274 XOR 9001 :: u64;
         h2a = 0x586dcd208f7cd3fd XOR 9001;
         c1a = 0x87c37b91114253d5;
         c2a = 0x4cf5ad432745937f;
         k1a = (((0 XOR push_bit 24 (scast b3)) XOR push_bit 16 (scast b2))
                  XOR push_bit 8 (scast b1)) XOR scast b0;
         k1b = rotl64 (k1a * c1a) 23 * c2a;
         h1b = (h1a XOR k1b) + h2a;
         h2b = rotl64 h2a 41;
         k2b = rotl64 (0 * c2a) 23 * c1a;
         h2c = (h2b XOR k2b) + h1b;
         h1d = h1b * 3 + 0x52dce729;
         h2d = h2c * 3 + 0x38495ab5;
         h2e = h2d XOR 4;
         h1e = h1d + h2e;
         h2f = h2e + h1e
     in ucast (drop_bit 32 (fmix64 h1e + fmix64 h2f)))"

text \<open>The little endian bytes of a 32-bit integer, as it lies in memory.\<close>

definition le_bytes32 :: "u32 \<Rightarrow> bytes" where
  "le_bytes32 v = map (\<lambda>i. ucast (drop_bit (8 * i) v)) [0..<4]"

lemma tail_word_empty: "hi \<le> lo \<Longrightarrow> tail_word tb lo hi = 0"
  by (simp add: tail_word_def)

lemma tail_word_4:
  "tail_word [a, b, c, d] 0 4 = (((0 XOR push_bit 24 (scast d)) XOR push_bit 16 (scast c))
     XOR push_bit 8 (scast b)) XOR scast a"
  by (simp add: tail_word_def upt_rec)

lemma le_bytes32_eq:
  "le_bytes32 v = [ucast v, ucast (drop_bit 8 v), ucast (drop_bit 16 v), ucast (drop_bit 24 v)]"
  by (simp add: le_bytes32_def upt_rec)

text \<open>
  C40. The hash of an \<open>int32_t\<close>, which the source writes out by hand, equals the hash of the four
  bytes of that integer in memory, for each of the \<open>2 ^ 32\<close> keys.
\<close>

theorem hash_int_eq_hash_bytes: "MurmurHash3_hash_int key = MurmurHash3_hash (le_bytes32 key)"
proof -
  have "MurmurHash3_x64_64 (le_bytes32 key) 9001
      = murmur_final 4 (bmix (tail_word (le_bytes32 key) 0 4) 0 (murmur_init 9001))"
    by (simp add: MurmurHash3_x64_64_def le_bytes32_eq tail_word_empty)
  then show ?thesis
    by (simp add: MurmurHash3_hash_int_def MurmurHash3_hash_def MurmurHash3_x64_32_def Let_def
        tail_word_4 le_bytes32_eq murmur_final_def bmix_def murmur_init_def)
qed

text \<open>
  \<open>fmix64\<close> loses no information: each of its five steps can be undone, so two hash states that
  differ before the final mix differ after it.
\<close>

lemma drop_xor_self_inj:
  fixes x y :: u64
  assumes "x XOR drop_bit 33 x = y XOR drop_bit 33 y"
  shows "x = y"
proof -
  have inv: "z = (z XOR drop_bit 33 z) XOR drop_bit 33 (z XOR drop_bit 33 z)" for z :: u64
    by (rule bit_word_eqI) (auto simp: bit_simps)
  show ?thesis using inv [of x] inv [of y] assms by metis
qed

lemma mult_inverse_inj:
  fixes x y c d :: u64
  assumes "c * d = 1" and "x * c = y * c"
  shows "x = y"
proof -
  have "x * c * d = y * c * d" using assms(2) by simp
  then show ?thesis by (simp only: mult.assoc assms(1) mult_1_right)
qed

text \<open>
  The finalization mix of MurmurHash3 is injective on 64-bit words, hence a bijection: forcing
  the bits to avalanche never makes two different states collide.
\<close>

theorem fmix64_bij: "bij fmix64"
proof -
  have inv1: "(0xff51afd7ed558ccd :: u64) * 0x4f74430c22a54005 = 1"
    and inv2: "(0xc4ceb9fe1a85ec53 :: u64) * 0x9cb4b2f8129337db = 1"
    by simp_all
  have "inj fmix64"
    by (rule injI)
       (auto simp: fmix64_def Let_def
         dest!: drop_xor_self_inj mult_inverse_inj [OF inv1] mult_inverse_inj [OF inv2])
  then show ?thesis
    by (simp add: bij_def finite_UNIV_inj_surj)
qed

end
