(* ===== verification/HR_Topology.thy ===== *)
theory HR_Topology
  imports HR_Prelude HR_Murmur "HOL-Library.Char_ord" "HOL-Library.List_Lexorder" "HOL-Library.Multiset"
begin

text \<open>
  The servers of a cluster and how a request chooses one: \<open>InetSocketAddress.cpp\<close>,
  \<open>RoundRobinBalancingStrategy.cpp\<close>, \<open>SegmentConsistentHash\<close> and \<open>TopologyInfo.cpp\<close>.

  An \<open>inet\<close> is an address as the containers of the client see it: \<open>std::map\<close>, \<open>std::set\<close>,
  \<open>std::sort\<close> and \<open>std::set_difference\<close> all compare with \<open>operator<\<close>, which reads the host name
  and the port. The set of resolved addresses is read by \<open>operator==\<close> only and is not copied by
  \<open>operator=\<close>; \<open>inet_eq\<close> takes it as an argument.
\<close>

section \<open>InetSocketAddress\<close>

datatype inet = Inet (hostname: string) (port: int)

text \<open>The constructor casts the port to \<open>unsigned short\<close>.\<close>

definition InetSocketAddress :: "string \<Rightarrow> int \<Rightarrow> inet" where
  "InetSocketAddress host p = Inet host (p mod 65536)"

text \<open>The default constructor, and \<open>isEmpty\<close>.\<close>

definition empty_inet :: inet where
  "empty_inet = Inet [] 0"

definition inet_isEmpty :: "inet \<Rightarrow> bool" where
  "inet_isEmpty a \<longleftrightarrow> port a = 0 \<and> hostname a = []"

definition isSameHost :: "string list \<Rightarrow> string list \<Rightarrow> bool" where
  "isSameHost lhs rhs \<longleftrightarrow> list_ex (\<lambda>a. a \<in> set rhs) lhs"

definition inet_eq :: "inet \<times> string list \<Rightarrow> inet \<times> string list \<Rightarrow> bool" where
  "inet_eq l r =
    (if port (fst l) \<noteq> port (fst r) then False
     else if hostname (fst l) \<noteq> hostname (fst r) then isSameHost (snd l) (snd r) else True)"

definition inet_less :: "inet \<Rightarrow> inet \<Rightarrow> bool" where
  "inet_less l r =
    (if hostname l = hostname r then port l < port r else hostname l < hostname r)"

instantiation inet :: linorder
begin

definition less_inet :: "inet \<Rightarrow> inet \<Rightarrow> bool" where
  "less_inet = inet_less"

definition less_eq_inet :: "inet \<Rightarrow> inet \<Rightarrow> bool" where
  "less_eq_inet l r \<longleftrightarrow> l = r \<or> inet_less l r"

instance
  by standard
     (auto simp: less_inet_def less_eq_inet_def inet_less_def inet.expand split: if_splits)

end

section \<open>RoundRobinBalancingStrategy\<close>

record round_robin =
  rr_servers :: "inet list"
  rr_index :: nat

definition RoundRobinBalancingStrategy :: round_robin where
  "RoundRobinBalancingStrategy = \<lparr>rr_servers = [], rr_index = 0\<rparr>"

definition rr_setServers :: "inet list \<Rightarrow> round_robin \<Rightarrow> round_robin" where
  "rr_setServers s b =
    (if rr_index b \<ge> length s then \<lparr>rr_servers = s, rr_index = 0\<rparr>
     else b\<lparr>rr_servers := s\<rparr>)"

definition rr_advance :: "nat \<Rightarrow> nat \<Rightarrow> nat" where
  "rr_advance n i = (if n \<le> i + 1 then 0 else i + 1)"

text \<open>The \<open>for\<close> loop, with the number of rounds left.\<close>

fun nextServer_loop :: "inet set \<Rightarrow> nat \<Rightarrow> (round_robin, inet) sm" where
  "nextServer_loop failed 0 b =
     (Inl (HotRodClientException ''Balancing: No more server available.''), b)"
| "nextServer_loop failed (Suc k) b =
     (let i = rr_advance (length (rr_servers b)) (rr_index b);
          b' = b\<lparr>rr_index := i\<rparr>;
          server = rr_servers b ! i
      in if server \<notin> failed then (Inr server, b') else nextServer_loop failed k b')"

definition nextServer :: "inet set \<Rightarrow> (round_robin, inet) sm" where
  "nextServer failed b = nextServer_loop failed (length (rr_servers b)) b"

text \<open>The index stays inside the server list, whatever servers are set and asked for.\<close>

definition rr_ok :: "round_robin \<Rightarrow> bool" where
  "rr_ok b \<longleftrightarrow> rr_index b = 0 \<or> rr_index b < length (rr_servers b)"

lemma rr_advance_lt: "0 < n \<Longrightarrow> rr_advance n i < n"
  by (simp add: rr_advance_def)

lemma rr_advance_mod: "i < n \<Longrightarrow> rr_advance n i = (i + 1) mod n"
  by (auto simp: rr_advance_def le_Suc_eq)

lemma rr_ok_init: "rr_ok RoundRobinBalancingStrategy"
  by (simp add: rr_ok_def RoundRobinBalancingStrategy_def)

lemma rr_ok_setServers: "rr_ok (rr_setServers s b)"
  by (simp add: rr_ok_def rr_setServers_def)

lemma upt_from_1: "[1..<Suc (Suc k)] = 1 # map Suc [1..<Suc k]"
  by (subst upt_conv_Cons) (simp_all add: map_Suc_upt del: upt_Suc)

lemma mod_add_shift: "((i + 1) mod n + j) mod n = (i + Suc j) mod (n::nat)"
  by (simp add: mod_add_left_eq)

text \<open>
  The loop inspects the positions after the index, cyclically, and stops at the first server
  that has not failed.
\<close>

lemma nextServer_loop_spec:
  assumes "rr_index b < length (rr_servers b)"
  shows "nextServer_loop failed k b =
    (case find (\<lambda>j. rr_servers b ! ((rr_index b + j) mod length (rr_servers b)) \<notin> failed) [1..<Suc k] of
       Some j \<Rightarrow> (Inr (rr_servers b ! ((rr_index b + j) mod length (rr_servers b))),
                   b\<lparr>rr_index := (rr_index b + j) mod length (rr_servers b)\<rparr>)
     | None \<Rightarrow> (Inl (HotRodClientException ''Balancing: No more server available.''),
                 b\<lparr>rr_index := (rr_index b + k) mod length (rr_servers b)\<rparr>))"
  using assms
proof (induction failed k b rule: nextServer_loop.induct)
  case (1 failed b)
  then show ?case by simp
next
  case (2 failed k b)
  let ?n = "length (rr_servers b)"
  let ?i = "rr_advance ?n (rr_index b)"
  have i: "?i = (rr_index b + 1) mod ?n" using "2.prems" by (rule rr_advance_mod)
  have lt: "?i < ?n" using "2.prems" by (intro rr_advance_lt) linarith
  show ?case
  proof (cases "rr_servers b ! ?i \<notin> failed")
    case True
    moreover have "find P [1..<Suc (Suc k)] = Some 1" if "P 1" for P :: "nat \<Rightarrow> bool"
      unfolding upt_from_1 using that by simp
    ultimately show ?thesis using i by (simp add: Let_def del: upt_Suc)
  next
    case False
    define P where "P j \<longleftrightarrow> rr_servers b ! ((rr_index b + j) mod ?n) \<notin> failed" for j
    have "find P [1..<Suc (Suc k)] = map_option Suc (find (P \<circ> Suc) [1..<Suc k])"
    proof -
      have "\<not> P 1" using False i by (simp add: P_def)
      moreover have "find P (map Suc xs) = map_option Suc (find (P \<circ> Suc) xs)" for xs
        by (induction xs) auto
      ultimately show ?thesis by (simp only: upt_from_1 find.simps if_False)
    qed
    moreover have "(P \<circ> Suc) = (\<lambda>j. rr_servers b ! ((?i + j) mod ?n) \<notin> failed)"
      by (rule ext) (simp add: P_def i mod_add_shift [simplified])
    moreover have "nextServer_loop failed (Suc k) b = nextServer_loop failed k (b\<lparr>rr_index := ?i\<rparr>)"
      using False by (simp add: Let_def)
    moreover note "2.IH" [OF refl refl refl, of] False lt
    ultimately show ?thesis
      unfolding P_def
      by (simp add: i mod_add_shift [simplified] del: upt_Suc nextServer_loop.simps split: option.splits)
  qed
qed

lemma rr_ok_index: "rr_ok b \<Longrightarrow> rr_servers b \<noteq> [] \<Longrightarrow> rr_index b < length (rr_servers b)"
  by (auto simp: rr_ok_def)

lemma nextServer_keeps:
  assumes "nextServer failed b = (r, b')" "rr_ok b"
  shows "rr_ok b' \<and> rr_servers b' = rr_servers b"
proof (cases "rr_servers b = []")
  case True
  then show ?thesis using assms by (simp add: nextServer_def)
next
  case False
  then show ?thesis
    using assms nextServer_loop_spec [OF rr_ok_index, of b failed "length (rr_servers b)"]
    by (auto simp: nextServer_def rr_ok_def split: option.splits)
qed

lemma find_upt_None: "find P [1..<Suc k] = None \<longleftrightarrow> (\<forall>j. 1 \<le> j \<and> j \<le> k \<longrightarrow> \<not> P j)"
  by (auto simp: find_None_iff)

text \<open>One round meets every position of the list.\<close>

lemma cyclic_cover:
  assumes "i < n" "q < (n::nat)"
  obtains j where "1 \<le> j" "j \<le> n" "(i + j) mod n = q"
proof (cases "i < q")
  case True
  then show ?thesis using that [of "q - i"] assms by simp
next
  case False
  have "(i + (n + q - i)) mod n = q" using assms False by simp
  then show ?thesis using that [of "n + q - i"] assms False by simp
qed

lemma nextServer_None:
  assumes "rr_index b < length (rr_servers b)"
  shows "find (\<lambda>j. rr_servers b ! ((rr_index b + j) mod length (rr_servers b)) \<notin> failed)
      [1..<Suc (length (rr_servers b))] = None \<longleftrightarrow> set (rr_servers b) \<subseteq> failed"
    (is "?L \<longleftrightarrow> ?R")
proof
  assume ?R
  then show ?L using assms
    unfolding find_upt_None by (auto intro!: subsetD [OF \<open>?R\<close>] nth_mem mod_less_divisor)
next
  assume L: ?L
  show ?R
  proof
    fix x assume "x \<in> set (rr_servers b)"
    then obtain q where q: "q < length (rr_servers b)" "x = rr_servers b ! q"
      by (auto simp: in_set_conv_nth)
    then obtain j where "1 \<le> j" "j \<le> length (rr_servers b)"
      "(rr_index b + j) mod length (rr_servers b) = q"
      using cyclic_cover [OF assms q(1)] by blast
    then show "x \<in> failed" using L q unfolding find_upt_None by auto
  qed
qed

lemma nextServer_ok:
  assumes "rr_ok b"
  shows "case nextServer failed b of
      (Inr server, b') \<Rightarrow> server \<in> set (rr_servers b) - failed \<and> rr_ok b' \<and> rr_servers b' = rr_servers b
    | (Inl e, b') \<Rightarrow> e = HotRodClientException ''Balancing: No more server available.''
        \<and> set (rr_servers b) \<subseteq> failed \<and> rr_ok b' \<and> rr_servers b' = rr_servers b"
proof (cases "rr_servers b = []")
  case True
  then show ?thesis using assms by (simp add: nextServer_def)
next
  case False
  then have lt: "rr_index b < length (rr_servers b)" using assms rr_ok_index by blast
  obtain r b' where r: "nextServer failed b = (r, b')" by fastforce
  have keeps: "rr_ok b' \<and> rr_servers b' = rr_servers b" using r assms by (rule nextServer_keeps)
  show ?thesis
  proof (cases r)
    case (Inl e)
    then have "e = HotRodClientException ''Balancing: No more server available.'' \<and> set (rr_servers b) \<subseteq> failed"
      using r nextServer_loop_spec [OF lt, of failed "length (rr_servers b)"] nextServer_None [OF lt, of failed]
      by (auto simp: nextServer_def split: option.splits)
    then show ?thesis using r Inl keeps by simp
  next
    case (Inr server)
    then have "server \<in> set (rr_servers b) - failed"
      using r nextServer_loop_spec [OF lt, of failed "length (rr_servers b)"] False
      by (auto simp: nextServer_def find_Some_iff split: option.splits intro!: nth_mem mod_less_divisor)
    then show ?thesis using r Inr keeps by simp
  qed
qed

text \<open>
  The balancer answers with a server of its list that is not among the failed ones whenever
  there is one, and throws exactly when every server of the list has failed.
\<close>

theorem nextServer_spec:
  assumes "rr_ok b"
  shows "case nextServer failed b of
      (Inr server, b') \<Rightarrow> server \<in> set (rr_servers b) - failed \<and> rr_ok b' \<and> rr_servers b' = rr_servers b
    | (Inl e, b') \<Rightarrow> e = HotRodClientException ''Balancing: No more server available.''
        \<and> set (rr_servers b) \<subseteq> failed \<and> rr_ok b' \<and> rr_servers b' = rr_servers b"
  by (rule nextServer_ok [OF assms])

definition three_servers :: round_robin where
  "three_servers = \<lparr>rr_servers = [Inet ''a'' 1, Inet ''b'' 1, Inet ''c'' 1], rr_index = 1\<rparr>"

theorem nextServer_spec_witness:
  "rr_ok three_servers
   \<and> nextServer {Inet ''c'' 1} three_servers = (Inr (Inet ''a'' 1), three_servers\<lparr>rr_index := 0\<rparr>)
   \<and> Inet ''a'' 1 \<in> set (rr_servers three_servers) - {Inet ''c'' 1}"
proof -
  have ok: "rr_ok three_servers" by (simp add: rr_ok_def three_servers_def)
  have run: "nextServer {Inet ''c'' 1} three_servers = (Inr (Inet ''a'' 1), three_servers\<lparr>rr_index := 0\<rparr>)"
    by (simp add: nextServer_def three_servers_def rr_advance_def numeral_3_eq_3 Let_def)
  show ?thesis using nextServer_spec [OF ok, of "{Inet ''c'' 1}"] ok run by simp
qed

text \<open>The balancer called \<open>k\<close> times with no failed server.\<close>

fun next_servers :: "nat \<Rightarrow> (round_robin, inet list) sm" where
  "next_servers 0 b = (Inr [], b)"
| "next_servers (Suc k) b = bind (nextServer {}) (\<lambda>s. bind (next_servers k) (\<lambda>ss. ret (s # ss))) b"

lemma nextServer_no_failed:
  assumes "rr_index b < length (rr_servers b)"
  shows "nextServer {} b = (Inr (rr_servers b ! ((rr_index b + 1) mod length (rr_servers b))),
     b\<lparr>rr_index := (rr_index b + 1) mod length (rr_servers b)\<rparr>)"
proof -
  have "find (\<lambda>j. True) [1..<Suc (length (rr_servers b))] = Some 1"
    using assms by (subst upt_conv_Cons) (auto simp del: upt_Suc)
  then show ?thesis using nextServer_loop_spec [OF assms, of "{}"] by (simp add: nextServer_def)
qed

lemma next_servers_spec:
  assumes "rr_index b < length (rr_servers b)"
  shows "next_servers k b =
    (Inr (map (\<lambda>j. rr_servers b ! ((rr_index b + j) mod length (rr_servers b))) [1..<Suc k]),
     b\<lparr>rr_index := (rr_index b + k) mod length (rr_servers b)\<rparr>)"
  using assms
proof (induction k arbitrary: b)
  case 0
  then show ?case by simp
next
  case (Suc k)
  let ?n = "length (rr_servers b)"
  let ?b = "b\<lparr>rr_index := (rr_index b + 1) mod ?n\<rparr>"
  have "rr_index ?b < length (rr_servers ?b)" using Suc.prems by (auto intro!: mod_less_divisor)
  then have "next_servers k ?b = (Inr (map (\<lambda>j. rr_servers b ! ((rr_index b + Suc j) mod ?n)) [1..<Suc k]),
     b\<lparr>rr_index := (rr_index b + Suc k) mod ?n\<rparr>)"
    using Suc.IH [of ?b] by (simp add: mod_add_shift [simplified])
  then show ?case
    using nextServer_no_failed [OF Suc.prems]
    unfolding upt_from_1 by (simp add: ret_run comp_def del: upt_Suc)
qed

lemma mset_rotate_list: "mset (rotate n xs) = mset xs"
  by (simp add: rotate_drop_take) (metis append_take_drop_id mset_append union_commute)

text \<open>
  The balancer is fair: from any state, a round of as many calls as there are servers uses
  every server exactly as often as the list holds it, and comes back to the same position.
\<close>

theorem round_robin_fair:
  assumes "rr_ok b" "rr_servers b \<noteq> []"
  shows "\<exists>ss. next_servers (length (rr_servers b)) b = (Inr ss, b) \<and> mset ss = mset (rr_servers b)"
proof -
  let ?n = "length (rr_servers b)" and ?i = "rr_index b"
  have lt: "?i < ?n" using assms rr_ok_index by blast
  have "map (\<lambda>j. rr_servers b ! ((?i + j) mod ?n)) [1..<Suc ?n] = rotate (Suc ?i) (rr_servers b)"
    by (rule nth_equalityI) (auto simp: nth_rotate add.commute simp del: upt_Suc rotate_Suc)
  then have "next_servers ?n b = (Inr (rotate (Suc ?i) (rr_servers b)), b)"
    using next_servers_spec [OF lt, of ?n] lt by simp
  then show ?thesis using mset_rotate_list by blast
qed

theorem round_robin_fair_witness:
  "\<exists>ss. next_servers 3 three_servers = (Inr ss, three_servers)
     \<and> mset ss = {#Inet ''a'' 1, Inet ''b'' 1, Inet ''c'' 1#}"
proof -
  have "rr_ok three_servers" "rr_servers three_servers \<noteq> []"
    by (simp_all add: rr_ok_def three_servers_def)
  from round_robin_fair [OF this] show ?thesis by (simp add: three_servers_def numeral_3_eq_3)
qed

section \<open>SegmentConsistentHash\<close>

record segment_hash =
  segmentOwners :: "inet list list"
  numSegments :: u32
  segmentSize :: u32

definition SegmentConsistentHash :: segment_hash where
  "SegmentConsistentHash = \<lparr>segmentOwners = [], numSegments = 0, segmentSize = 0\<rparr>"

text \<open>\<open>(uint32_t)(0x7FFFFFFFUL/num)+1\<close>: the quotient is an \<open>unsigned long\<close>.\<close>

definition getSegmentSize :: "u32 \<Rightarrow> exn + u32" where
  "getSegmentSize num =
    (if num = 0 then Inl (UndefinedBehaviour ''division by zero'')
     else Inr (ucast ((0x7FFFFFFF :: u64) div ucast num) + 1))"

definition sch_init :: "inet list list \<Rightarrow> u32 \<Rightarrow> exn + segment_hash" where
  "sch_init owners num =
    (case getSegmentSize num of
       Inl e \<Rightarrow> Inl e
     | Inr sz \<Rightarrow> Inr \<lparr>segmentOwners = owners, numSegments = num, segmentSize = sz\<rparr>)"

definition getNormalizedHash :: "bytes \<Rightarrow> u32" where
  "getNormalizedHash key = MurmurHash3_hash key AND 0x7fffffff"

definition getSegment :: "bytes \<Rightarrow> segment_hash \<Rightarrow> exn + u32" where
  "getSegment key h =
    (if segmentSize h = 0 then Inl (UndefinedBehaviour ''division by zero'')
     else Inr (getNormalizedHash key div segmentSize h))"

definition getServer :: "bytes \<Rightarrow> segment_hash \<Rightarrow> exn + inet" where
  "getServer key h =
    (case getSegment key h of
       Inl e \<Rightarrow> Inl e
     | Inr seg \<Rightarrow>
         if length (segmentOwners h) \<le> unat seg \<or> segmentOwners h ! unat seg = []
         then Inl (UndefinedBehaviour ''index'')
         else Inr (hd (segmentOwners h ! unat seg)))"

text \<open>\<open>m[k].push_back(v)\<close> on a map of vectors.\<close>

definition push_at :: "'k \<Rightarrow> 'v \<Rightarrow> ('k \<rightharpoonup> 'v list) \<Rightarrow> ('k \<rightharpoonup> 'v list)" where
  "push_at k v m = m(k \<mapsto> (case m k of None \<Rightarrow> [v] | Some vs \<Rightarrow> vs @ [v]))"

definition getSegmentsByServers :: "segment_hash \<Rightarrow> (inet \<rightharpoonup> nat list)" where
  "getSegmentsByServers h =
    fold (\<lambda>(i, owners). fold (\<lambda>own. push_at own i) owners) (enumerate 0 (segmentOwners h)) Map.empty"

lemma normalized_hash_le: "unat (getNormalizedHash key) \<le> 0x7FFFFFFF"
proof -
  have "(0x7fffffff :: u32) = mask 31" by (simp add: mask_eq_exp_minus_1)
  then have "unat (getNormalizedHash key) < 2 ^ 31"
    using unat_and_mask_lt [of "MurmurHash3_hash key" 31] by (simp only: getNormalizedHash_def)
  then show ?thesis by simp
qed

lemma segment_size_unat:
  assumes "getSegmentSize num = Inr sz"
  shows "unat sz = 0x7FFFFFFF div unat num + 1" and "num \<noteq> 0"
proof -
  from assms have num: "num \<noteq> 0" and sz: "sz = ucast ((0x7FFFFFFF :: u64) div ucast num) + 1"
    by (auto simp: getSegmentSize_def split: if_splits)
  have q: "unat ((0x7FFFFFFF :: u64) div ucast num) = 0x7FFFFFFF div unat num"
  proof -
    have "unat num < 2 ^ 64" by (rule less_le_trans [OF unsigned_less]) simp
    then have "unat (ucast num :: u64) = unat num"
      by (simp add: unsigned_ucast_eq take_bit_nat_eq_self)
    then show ?thesis by (simp add: unat_div_distrib)
  qed
  have le: "0x7FFFFFFF div unat num \<le> (0x7FFFFFFF :: nat)"
    by (rule div_le_dividend)
  then have "0x7FFFFFFF div unat num < (2 :: nat) ^ 32" by (rule le_less_trans) simp
  then have "unat (ucast ((0x7FFFFFFF :: u64) div ucast num) :: u32) = 0x7FFFFFFF div unat num"
    by (simp add: unsigned_ucast_eq q take_bit_nat_eq_self)
  moreover have "Suc (0x7FFFFFFF div unat num) < 4294967296"
    by (rule le_less_trans [OF Suc_le_mono [THEN iffD2, OF le]]) simp
  ultimately show "unat sz = 0x7FFFFFFF div unat num + 1"
    unfolding sz unat_word_ariths by simp
  show "num \<noteq> 0" by (fact num)
qed

lemma getSegment_in_range:
  assumes "sch_init owners num = Inr h"
  shows "\<exists>seg. getSegment key h = Inr seg \<and> unat seg < unat num"
proof -
  let ?M = "0x7FFFFFFF :: nat"
  obtain sz where sz: "getSegmentSize num = Inr sz" "segmentSize h = sz"
    using assms by (auto simp: sch_init_def split: sum.splits)
  have u: "unat sz = ?M div unat num + 1" and n: "0 < unat num"
    using segment_size_unat [OF sz(1)] by (auto simp: unat_gt_0)
  have "sz \<noteq> 0" using u by (metis add_is_0 unsigned_0 zero_neq_one)
  then have seg: "getSegment key h = Inr (getNormalizedHash key div sz)"
    using sz by (simp add: getSegment_def)
  have "?M < unat num * (?M div unat num + 1)"
    using dividend_less_times_div [OF n, of ?M] by (simp add: algebra_simps)
  then have "unat (getNormalizedHash key) < unat num * unat sz"
    using normalized_hash_le [of key] unfolding u by linarith
  then have "unat (getNormalizedHash key div sz) < unat num"
    by (simp add: unat_div_distrib less_mult_imp_div_less mult.commute)
  with seg show ?thesis by blast
qed

text \<open>
  C39. Every key falls into one of the segments a server announces (at least one), whatever their
  number; with an owner list per segment and an owner in each, the routing of a key never leaves
  the tables and answers with the first owner of the key's segment.
\<close>

theorem getServer_owner:
  assumes "sch_init owners num = Inr h" "length owners = unat num" "[] \<notin> set owners"
  shows "\<exists>seg. getSegment key h = Inr seg \<and> unat seg < length owners
      \<and> getServer key h = Inr (hd (owners ! unat seg))"
proof -
  obtain seg where seg: "getSegment key h = Inr seg" "unat seg < length owners"
    using getSegment_in_range [OF assms(1), of key] assms(2) by auto
  moreover have "segmentOwners h = owners"
    using assms(1) by (auto simp: sch_init_def split: sum.splits)
  moreover have "owners ! unat seg \<noteq> []"
    using seg(2) assms(3) nth_mem by fastforce
  ultimately show ?thesis by (simp add: getServer_def)
qed

lemma getServer_owner_witness:
  "(\<exists>h. sch_init [[Inet ''a'' 1], [Inet ''b'' 2]] 2 = Inr h)
   \<and> (\<exists>seg. getSegment [1, 2] \<lparr>segmentOwners = [[Inet ''a'' 1], [Inet ''b'' 2]],
          numSegments = 2, segmentSize = 0x40000000\<rparr> = Inr seg \<and> unat seg < 2)"
proof -
  have i: "sch_init [[Inet ''a'' 1], [Inet ''b'' 2]] 2
      = Inr \<lparr>segmentOwners = [[Inet ''a'' 1], [Inet ''b'' 2]], numSegments = 2, segmentSize = 0x40000000\<rparr>"
    by (simp add: sch_init_def getSegmentSize_def)
  from getServer_owner [OF i, of "[1, 2]"] show ?thesis using i by auto
qed

text \<open>The server map is the inverse of the owner table.\<close>

lemma push_at_set: "set (case push_at k v m k' of None \<Rightarrow> [] | Some vs \<Rightarrow> vs)
    = set (case m k' of None \<Rightarrow> [] | Some vs \<Rightarrow> vs) \<union> (if k' = k then {v} else {})"
  by (auto simp: push_at_def split: option.splits)

definition segs_of :: "(inet \<rightharpoonup> nat list) \<Rightarrow> inet \<Rightarrow> nat set" where
  "segs_of m s = set (case m s of None \<Rightarrow> [] | Some vs \<Rightarrow> vs)"

lemma segs_of_push_at: "segs_of (push_at k v m) s = segs_of m s \<union> (if s = k then {v} else {})"
  by (simp add: segs_of_def push_at_set)

lemma segs_of_owners:
  "segs_of (fold (\<lambda>own. push_at own i) owners m) s = segs_of m s \<union> (if s \<in> set owners then {i} else {})"
  by (induction owners arbitrary: m) (auto simp: segs_of_push_at)

lemma segs_of_table:
  "segs_of (fold (\<lambda>(i, owners). fold (\<lambda>own. push_at own i) owners) ps m) s
     = segs_of m s \<union> {i. \<exists>owners. (i, owners) \<in> set ps \<and> s \<in> set owners}"
  by (induction ps arbitrary: m) (auto simp: segs_of_owners split: if_splits)

text \<open>
  The table of segments by server inverts the table of owners by segment: a server is listed
  with exactly the segments it owns.
\<close>

theorem getSegmentsByServers_inverse:
  "segs_of (getSegmentsByServers h) s
     = {i. i < length (segmentOwners h) \<and> s \<in> set (segmentOwners h ! i)}"
proof -
  have "segs_of Map.empty s = {}" by (simp add: segs_of_def)
  then show ?thesis
    by (auto simp: getSegmentsByServers_def segs_of_table in_set_enumerate_eq)
qed

section \<open>TopologyInfo\<close>

text \<open>
  A \<open>shared_ptr<ConsistentHash>\<close> that may be null is an \<open>option\<close>. The list \<open>ti_servers\<close> is the
  list \<open>initialServers\<close> of the \<open>TransportFactory\<close>, which \<open>TopologyInfo\<close> holds by reference.
\<close>

record topology_info =
  consistentHashByCacheName :: "bytes \<rightharpoonup> segment_hash option"
  segmentsByCache :: "bytes \<rightharpoonup> u32"
  topologyIdsByCache :: "bytes \<rightharpoonup> u32"
  ti_servers :: "inet list"

record cache_topology_info =
  segmentPerServers :: "inet \<rightharpoonup> nat list"
  cti_numSegment :: u32
  cti_topologyId :: u32

definition TopologyInfo :: "inet list \<Rightarrow> topology_info" where
  "TopologyInfo servers =
    \<lparr>consistentHashByCacheName = Map.empty, segmentsByCache = Map.empty,
     topologyIdsByCache = [[] \<mapsto> - 1], ti_servers = servers\<rparr>"

lemma TopologyInfo_servers [simp]: "ti_servers (TopologyInfo servers) = servers"
  by (simp add: TopologyInfo_def)

text \<open>\<open>std::map::insert\<close> keeps an element that is there.\<close>

definition createTopologyId :: "bytes \<Rightarrow> u32 \<Rightarrow> (topology_info, u32) sm" where
  "createTopologyId cacheName i t =
    (Inr i, case topologyIdsByCache t cacheName of
              Some _ \<Rightarrow> t
            | None \<Rightarrow> t\<lparr>topologyIdsByCache := (topologyIdsByCache t)(cacheName \<mapsto> i)\<rparr>)"

definition ti_updateServers :: "inet list \<Rightarrow> topology_info \<Rightarrow> topology_info" where
  "ti_updateServers servers t = t\<lparr>ti_servers := servers\<rparr>"

definition updateTopology ::
  "inet list list \<Rightarrow> u32 \<Rightarrow> byte \<Rightarrow> bytes \<Rightarrow> u32 \<Rightarrow> (topology_info, unit) sm" where
  "updateTopology owners numSegment hashFunctionVersion cacheName topologyId =
    (\<lambda>t. case sch_init owners numSegment of
           Inl e \<Rightarrow> (Inl e, t)
         | Inr hash \<Rightarrow>
             seq (createTopologyId cacheName topologyId)
                 (modify (\<lambda>t. t\<lparr>segmentsByCache := (segmentsByCache t)(cacheName \<mapsto> numSegment),
                               topologyIdsByCache := (topologyIdsByCache t)(cacheName \<mapsto> topologyId),
                               consistentHashByCacheName :=
                                 (consistentHashByCacheName t)(cacheName \<mapsto> Some hash)\<rparr>)) t)"

text \<open>\<open>m[k]\<close> on a map of integers: an absent key is inserted with the value 0.\<close>

definition segmentsByCache_at :: "bytes \<Rightarrow> (topology_info, u32) sm" where
  "segmentsByCache_at cacheName t =
    (case segmentsByCache t cacheName of
       Some n \<Rightarrow> (Inr n, t)
     | None \<Rightarrow> (Inr 0, t\<lparr>segmentsByCache := (segmentsByCache t)(cacheName \<mapsto> 0)\<rparr>))"

definition topologyIdsByCache_at :: "bytes \<Rightarrow> (topology_info, u32) sm" where
  "topologyIdsByCache_at cacheName t =
    (case topologyIdsByCache t cacheName of
       Some n \<Rightarrow> (Inr n, t)
     | None \<Rightarrow> (Inr 0, t\<lparr>topologyIdsByCache := (topologyIdsByCache t)(cacheName \<mapsto> 0)\<rparr>))"

definition getCacheTopologyInfo :: "bytes \<Rightarrow> (topology_info, cache_topology_info) sm" where
  "getCacheTopologyInfo cacheName t =
    (case consistentHashByCacheName t cacheName of
       Some None \<Rightarrow> (Inl (UndefinedBehaviour ''null pointer''), t)
     | Some (Some h) \<Rightarrow>
         bind (segmentsByCache_at cacheName) (\<lambda>n.
         bind (topologyIdsByCache_at cacheName) (\<lambda>i.
         ret \<lparr>segmentPerServers = getSegmentsByServers h, cti_numSegment = n, cti_topologyId = i\<rparr>)) t
     | None \<Rightarrow>
         bind (segmentsByCache_at cacheName) (\<lambda>n.
         bind (topologyIdsByCache_at cacheName) (\<lambda>i.
         ret \<lparr>segmentPerServers =
                 (\<lambda>s. if s \<in> set (ti_servers t) then Some [0..<unat n] else None),
              cti_numSegment = n, cti_topologyId = i\<rparr>)) t)"

text \<open>\<open>if (!element->second) return element->second->getServer(key);\<close>\<close>

definition getHashAwareServer :: "bytes \<Rightarrow> bytes \<Rightarrow> topology_info \<Rightarrow> exn + inet" where
  "getHashAwareServer key cacheName t =
    (case consistentHashByCacheName t cacheName of
       Some None \<Rightarrow> Inl (UndefinedBehaviour ''null pointer'')
     | Some (Some h) \<Rightarrow> Inr empty_inet
     | None \<Rightarrow> Inr empty_inet)"

text \<open>No hash pointer of the table is null.\<close>

definition ti_ok :: "topology_info \<Rightarrow> bool" where
  "ti_ok t \<longleftrightarrow> (\<forall>c. consistentHashByCacheName t c \<noteq> Some None)"

lemma ti_ok_init: "ti_ok (TopologyInfo servers)"
  by (simp add: ti_ok_def TopologyInfo_def)

lemma ti_ok_updateServers [simp]: "ti_ok (ti_updateServers s t) = ti_ok t"
  by (simp add: ti_ok_def ti_updateServers_def)

lemma ti_ok_updateTopology:
  "ti_ok t \<Longrightarrow> updateTopology ow n v c i t = (r, t') \<Longrightarrow> ti_ok t'"
  by (auto simp: updateTopology_def ti_ok_def createTopologyId_def sm_simps
      split: sum.splits option.splits if_splits)

lemma ti_ok_getCacheTopologyInfo:
  "ti_ok t \<Longrightarrow> getCacheTopologyInfo c t = (r, t') \<Longrightarrow> ti_ok t' \<and> (\<exists>x. r = Inr x)"
  by (auto simp: getCacheTopologyInfo_def ti_ok_def segmentsByCache_at_def topologyIdsByCache_at_def
      sm_simps split: option.splits)

text \<open>
  What a topology update stores is what a later query returns: after \<open>updateTopology\<close> the
  query of the same cache answers with the announced id, the number of segments and the inverse
  of the announced owner table, and changes nothing.
\<close>

theorem topology_update_query:
  assumes "num \<noteq> 0"
  shows "\<exists>t'. updateTopology owners num v cacheName i t = (Inr (), t')
     \<and> (\<exists>h. sch_init owners num = Inr h
          \<and> getCacheTopologyInfo cacheName t' =
              (Inr \<lparr>segmentPerServers = getSegmentsByServers h, cti_numSegment = num, cti_topologyId = i\<rparr>, t'))"
  using assms
  by (auto simp: updateTopology_def sch_init_def getSegmentSize_def createTopologyId_def sm_simps
      getCacheTopologyInfo_def segmentsByCache_at_def topologyIdsByCache_at_def split: option.splits)

lemma topology_update_query_witness:
  "\<exists>t'. updateTopology [[Inet ''a'' 1]] 1 3 [] 7 (TopologyInfo [Inet ''a'' 1]) = (Inr (), t')
    \<and> topologyIdsByCache t' [] = Some 7"
  using topology_update_query [of 1 "[[Inet ''a'' 1]]" 3 "[]" 7 "TopologyInfo [Inet ''a'' 1]"]
  by (auto simp: updateTopology_def sch_init_def getSegmentSize_def createTopologyId_def sm_simps
      TopologyInfo_def)

text \<open>
  \<open>getHashAwareServer\<close> never routes by hash: in every table whose pointers are not null it
  answers with the empty address, also for a cache whose consistent hash is known and would
  name an owner. The test of the pointer is inverted.
\<close>

theorem getHashAwareServer_never_routes:
  assumes "ti_ok t"
  shows "getHashAwareServer key cacheName t = Inr empty_inet"
  using assms by (auto simp: getHashAwareServer_def ti_ok_def split: option.splits)

lemma getHashAwareServer_never_routes_witness:
  "(\<exists>h. sch_init [[Inet ''a'' 1]] 1 = Inr h \<and> getServer [1] h = Inr (Inet ''a'' 1)
     \<and> getHashAwareServer [1] [] ((TopologyInfo [])\<lparr>consistentHashByCacheName := [[] \<mapsto> Some h]\<rparr>)
         = Inr empty_inet)"
proof -
  obtain h where h: "sch_init [[Inet ''a'' 1]] 1 = Inr h"
    by (simp add: sch_init_def getSegmentSize_def)
  obtain seg where seg: "getSegment [1] h = Inr seg" "unat seg < 1"
    using getSegment_in_range [OF h, of "[1]"] by auto
  have "segmentOwners h = [[Inet ''a'' 1]]"
    using h by (auto simp: sch_init_def split: sum.splits)
  then have "getServer [1] h = Inr (Inet ''a'' 1)"
    using seg by (simp add: getServer_def)
  moreover have "ti_ok ((TopologyInfo [])\<lparr>consistentHashByCacheName := [[] \<mapsto> Some h]\<rparr>)"
    by (simp add: ti_ok_def)
  note getHashAwareServer_never_routes [OF this, of "[1]" "[]"]
  ultimately show ?thesis using h by blast
qed

end
