(* ===== verification/HR_Pool.thy ===== *)
theory HR_Pool
  imports HR_Containers HR_Topology
begin

text \<open>
  \<open>sys/BlockingQueue.h\<close> and \<open>impl/transport/tcp/ConnectionPool.cpp\<close>: the pool of connections.

  A pool keeps, per server, a queue of idle and a queue of busy transports, and counts both.
  The transports are made, tested and destroyed by an \<open>AbstractObjectFactory\<close>, an abstract class
  in the source and a record of functions here; \<open>'w\<close> is the state those functions act on and
  \<open>'t\<close> the type of \<open>TcpTransport*\<close>. Every member function of the pool runs under the pool's
  mutex, so it is one step of the model; \<open>BlockingQueue::pop\<close> on an empty queue waits for another
  thread, which is the outcome \<open>Blocked\<close>.
\<close>

section \<open>BlockingQueue\<close>

text \<open>A capacity of 0 means unbounded, which is how the pool creates its queues.\<close>

definition bq_push :: "nat \<Rightarrow> 'a \<Rightarrow> ('a list, unit) sm" where
  "bq_push capacity v q =
    (if 0 < capacity \<and> length q = capacity then (Inl (QueueException ''Queue is full''), q)
     else (Inr (), q @ [v]))"

definition bq_offer :: "nat \<Rightarrow> 'a \<Rightarrow> ('a list, bool) sm" where
  "bq_offer capacity v q =
    (if 0 < capacity \<and> length q = capacity then (Inr False, q) else (Inr True, q @ [v]))"

definition bq_pop :: "('a list, 'a) sm" where
  "bq_pop q = (case q of [] \<Rightarrow> (Inl Blocked, q) | x # xs \<Rightarrow> (Inr x, xs))"

definition bq_popOrThrow :: "('a list, 'a) sm" where
  "bq_popOrThrow q =
    (case q of [] \<Rightarrow> (Inl (NoSuchElementException ''Reached maximum number of connections''), q)
     | x # xs \<Rightarrow> (Inr x, xs))"

definition bq_poll :: "('a list, 'a option) sm" where
  "bq_poll q = (case q of [] \<Rightarrow> (Inr None, q) | x # xs \<Rightarrow> (Inr (Some x), xs))"

definition bq_remove :: "'a \<Rightarrow> ('a list, bool) sm" where
  "bq_remove v q = (Inr (length (removeAll v q) \<noteq> length q), removeAll v q)"

lemmas bq_defs = bq_push_def bq_offer_def bq_pop_def bq_popOrThrow_def bq_poll_def bq_remove_def

section \<open>Configuration and state\<close>

datatype exhausted_action = EXCEPTION | WAIT | CREATE_NEW

record pool_config =
  maxActive :: int
  maxTotal :: int
  minIdle :: int
  exhaustedAction :: exhausted_action
  testOnBorrow :: bool
  testOnReturn :: bool

datatype ping_result = SUCCESS | SUCCESS_WITH_COMPAT | CACHE_DOES_NOT_EXIST | FAIL

record ('w, 't) obj_factory =
  makeObject :: "inet \<Rightarrow> ('w, 't) sm"
  destroyObject :: "inet \<Rightarrow> 't \<Rightarrow> ('w, unit) sm"
  obj_ping :: "'t \<Rightarrow> ('w, ping_result) sm"

record ('w, 't) pool =
  idle :: "(inet, 't list option) smap"
  busy :: "(inet, 't list option) smap"
  allocationQueue :: "inet list"
  closed :: bool
  totalIdle :: int
  totalActive :: int
  world :: 'w

definition ConnectionPool :: "'w \<Rightarrow> ('w, 't) pool" where
  "ConnectionPool w = \<lparr>idle = [], busy = [], allocationQueue = [], closed = False,
     totalIdle = 0, totalActive = 0, world = w\<rparr>"

definition on_world :: "('w, 'a) sm \<Rightarrow> (('w, 't) pool, 'a) sm" where
  "on_world m = on_part world (\<lambda>w p. p\<lparr>world := w\<rparr>) m"

definition validateObject :: "('w, 't) obj_factory \<Rightarrow> inet \<Rightarrow> 't \<Rightarrow> ('w, bool) sm" where
  "validateObject fac key t = bind (obj_ping fac t) (\<lambda>r. ret (r = SUCCESS))"

text \<open>
  \<open>idle[key]->f()\<close>: a function of the queue behind the pointer. For a key that is not there
  \<open>operator[]\<close> yields a null pointer.
\<close>

definition on_idle :: "inet \<Rightarrow> ('t list, 'a) sm \<Rightarrow> (('w, 't) pool, 'a) sm" where
  "on_idle key f p =
    (case map_of (idle p) key of
       Some (Some q) \<Rightarrow> (case f q of (r, q') \<Rightarrow> (r, p\<lparr>idle := smap_put key (Some q') (idle p)\<rparr>))
     | _ \<Rightarrow> (Inl (UndefinedBehaviour ''null pointer''), p))"

definition on_busy :: "inet \<Rightarrow> ('t list, 'a) sm \<Rightarrow> (('w, 't) pool, 'a) sm" where
  "on_busy key f p =
    (case map_of (busy p) key of
       Some (Some q) \<Rightarrow> (case f q of (r, q') \<Rightarrow> (r, p\<lparr>busy := smap_put key (Some q') (busy p)\<rparr>))
     | _ \<Rightarrow> (Inl (UndefinedBehaviour ''null pointer''), p))"

definition add_idle :: "int \<Rightarrow> (('w, 't) pool, unit) sm" where
  "add_idle n = modify (\<lambda>p. p\<lparr>totalIdle := totalIdle p + n\<rparr>)"

definition add_active :: "int \<Rightarrow> (('w, 't) pool, unit) sm" where
  "add_active n = modify (\<lambda>p. p\<lparr>totalActive := totalActive p + n\<rparr>)"

definition idle_size :: "inet \<Rightarrow> (('w, 't) pool, nat) sm" where
  "idle_size key = on_idle key (gets length)"

definition busy_size :: "inet \<Rightarrow> (('w, 't) pool, nat) sm" where
  "busy_size key = on_busy key (gets length)"

section \<open>Member functions\<close>

definition calculateMinIdleGrow :: "pool_config \<Rightarrow> inet \<Rightarrow> (('w, 't) pool, int) sm" where
  "calculateMinIdleGrow cfg key =
    bind (idle_size key) (\<lambda>n.
    bind (gets (\<lambda>p. maxTotal cfg - totalIdle p - totalActive p)) (\<lambda>room.
    let grown = minIdle cfg - int n in
    ret (if 0 < maxTotal cfg then min grown (max 0 room) else grown)))"

text \<open>\<open>while (grown > 0) { idle[key]->push(&factory->makeObject(key)); grown--; totalIdle++; }\<close>\<close>

fun grow_idle :: "('w, 't) obj_factory \<Rightarrow> inet \<Rightarrow> nat \<Rightarrow> (('w, 't) pool, unit) sm" where
  "grow_idle fac key 0 = ret ()"
| "grow_idle fac key (Suc grown) =
     bind (on_world (makeObject fac key)) (\<lambda>t.
     seq (on_idle key (bq_push 0 t)) (seq (add_idle 1) (grow_idle fac key grown)))"

definition ensureMinIdle :: "pool_config \<Rightarrow> ('w, 't) obj_factory \<Rightarrow> inet \<Rightarrow> (('w, 't) pool, unit) sm" where
  "ensureMinIdle cfg fac key = bind (calculateMinIdleGrow cfg key) (\<lambda>grown. grow_idle fac key (nat grown))"

definition addObject :: "pool_config \<Rightarrow> ('w, 't) obj_factory \<Rightarrow> inet \<Rightarrow> (('w, 't) pool, unit) sm" where
  "addObject cfg fac key p =
    (if map_of (idle p) key \<noteq> None then (Inr (), p)
     else ensureMinIdle cfg fac key
            (p\<lparr>idle := smap_insert key (Some []) (idle p), busy := smap_insert key (Some []) (busy p)\<rparr>))"

definition preparePool :: "pool_config \<Rightarrow> ('w, 't) obj_factory \<Rightarrow> inet \<Rightarrow> (('w, 't) pool, unit) sm" where
  "preparePool cfg fac key = addObject cfg fac key"

definition hasReachedMaxTotal :: "pool_config \<Rightarrow> ('w, 't) pool \<Rightarrow> bool" where
  "hasReachedMaxTotal cfg p \<longleftrightarrow> 0 < maxTotal cfg \<and> maxTotal cfg \<le> totalActive p + totalIdle p"

text \<open>The \<open>for\<close> loop of \<open>tryRemoveIdle\<close>: the key found so far and the size of its queue.\<close>

fun pick_idle :: "int \<Rightarrow> inet option \<Rightarrow> nat \<Rightarrow> (inet, 't list option) smap \<Rightarrow> exn + inet option" where
  "pick_idle minI best longer [] = Inr best"
| "pick_idle minI best longer ((k, None) # m) = Inl (UndefinedBehaviour ''null pointer'')"
| "pick_idle minI best longer ((k, Some q) # m) =
     (if 0 < minI \<and> minI < int (length q) then Inr (Some k)
      else if longer < length q then pick_idle minI (Some k) (length q) m
      else pick_idle minI best longer m)"

text \<open>
  The outer loop is repeated when the queue found has been emptied meanwhile; under the mutex
  that cannot happen, so a round that finds it empty would go on for ever.
\<close>

definition tryRemoveIdle :: "pool_config \<Rightarrow> ('w, 't) obj_factory \<Rightarrow> (('w, 't) pool, bool) sm" where
  "tryRemoveIdle cfg fac =
    bind (gets (\<lambda>p. pick_idle (minIdle cfg) None 0 (idle p))) (\<lambda>r.
    case r of
      Inl e \<Rightarrow> raise e
    | Inr None \<Rightarrow> ret False
    | Inr (Some key) \<Rightarrow>
        bind (on_idle key bq_poll) (\<lambda>x.
        case x of
          None \<Rightarrow> raise OutOfFuel
        | Some t \<Rightarrow> seq (on_world (destroyObject fac key t)) (seq (add_idle (- 1)) (ret True))))"

definition tryRemoveIdleOrAskAllocate ::
  "pool_config \<Rightarrow> ('w, 't) obj_factory \<Rightarrow> inet \<Rightarrow> (('w, 't) pool, bool) sm" where
  "tryRemoveIdleOrAskAllocate cfg fac key =
    bind (tryRemoveIdle cfg fac) (\<lambda>ok.
    if ok then ret True
    else seq (modify (\<lambda>p. p\<lparr>allocationQueue := allocationQueue p @ [key]\<rparr>)) (ret False))"

text \<open>
  The condition under which \<open>borrowObject\<close> creates a transport; its conjuncts are evaluated from
  left to right and the last one may destroy an idle transport or queue the key.
\<close>

definition can_create :: "pool_config \<Rightarrow> ('w, 't) obj_factory \<Rightarrow> inet \<Rightarrow> (('w, 't) pool, bool) sm" where
  "can_create cfg fac key =
    bind (idle_size key) (\<lambda>ni.
    if ni \<noteq> 0 then ret False
    else bind (busy_size key) (\<lambda>nb.
    if \<not> (maxActive cfg < 0 \<or> int nb < maxActive cfg) then ret False
    else bind (gets (hasReachedMaxTotal cfg)) (\<lambda>reached.
    if \<not> reached then ret True else tryRemoveIdleOrAskAllocate cfg fac key)))"

text \<open>
  \<open>while (obj == NULL || (isTestOnBorrow() && !validateObject(key, *obj)))\<close>. The loop has no bound
  of its own: a factory that keeps making transports which fail the test keeps it going, so the
  number of rounds is an argument.
\<close>

fun borrow_loop ::
  "pool_config \<Rightarrow> ('w, 't) obj_factory \<Rightarrow> inet \<Rightarrow> nat \<Rightarrow> 't option \<Rightarrow> (('w, 't) pool, 't) sm" where
  "borrow_loop cfg fac key 0 obj = raise OutOfFuel"
| "borrow_loop cfg fac key (Suc n) obj =
     bind (case obj of
             None \<Rightarrow> ret None
           | Some t \<Rightarrow>
               if testOnBorrow cfg
               then bind (on_world (validateObject fac key t)) (\<lambda>valid.
                    if valid then ret (Some t)
                    else seq (on_world (destroyObject fac key t)) (ret None))
               else ret (Some t)) (\<lambda>checked.
     case checked of
       Some t \<Rightarrow> ret t
     | None \<Rightarrow>
         bind (can_create cfg fac key) (\<lambda>create.
         if create
         then bind (on_world (makeObject fac key)) (\<lambda>t. borrow_loop cfg fac key n (Some t))
         else bind (on_idle key (if exhaustedAction cfg = EXCEPTION then bq_popOrThrow else bq_pop)) (\<lambda>t.
              seq (add_idle (- 1)) (borrow_loop cfg fac key n (Some t)))))"

definition borrowObject ::
  "nat \<Rightarrow> pool_config \<Rightarrow> ('w, 't) obj_factory \<Rightarrow> inet \<Rightarrow> (('w, 't) pool, 't) sm" where
  "borrowObject fuel cfg fac key p =
    (if closed p then (Inl (HotRodClientException ''Pool is closed''), p)
     else if map_of (idle p) key = None \<or> map_of (busy p) key = None
     then (Inl (HotRodClientException ''Pool has no idle or no busy transports.''), p)
     else
       bind (on_idle key bq_poll) (\<lambda>obj.
       seq (if obj \<noteq> None then add_idle (- 1) else ret ())
       (bind (borrow_loop cfg fac key fuel obj) (\<lambda>t.
        seq (on_busy key (bq_push 0 t)) (seq (add_active 1) (ret t))))) p)"

text \<open>
  The allocation for another key that a return or an invalidation can trigger: the front of the
  allocation queue is removed before the transport is made.
\<close>

definition allocate_waiting :: "('w, 't) obj_factory \<Rightarrow> (('w, 't) pool, unit) sm" where
  "allocate_waiting fac =
    bind (gets allocationQueue) (\<lambda>q.
    seq (modify (\<lambda>p. p\<lparr>allocationQueue := tl q\<rparr>))
    (bind (on_world (makeObject fac (hd q))) (\<lambda>t.
     seq (on_idle (hd q) (bq_push 0 t)) (add_idle 1))))"

definition invalidateObject ::
  "pool_config \<Rightarrow> ('w, 't) obj_factory \<Rightarrow> inet \<Rightarrow> 't option \<Rightarrow> (('w, 't) pool, unit) sm" where
  "invalidateObject cfg fac key val =
    bind (gets (hasReachedMaxTotal cfg)) (\<lambda>maxTotalReached.
    case val of
      None \<Rightarrow> ret ()
    | Some t \<Rightarrow>
        bind (gets (\<lambda>p. map_of (busy p) key)) (\<lambda>found.
        if found = None then raise (HotRodClientException ''No busy queue for address!'')
        else
        bind (on_busy key (bq_remove t)) (\<lambda>_.
        seq (add_active (- 1))
        (bind (busy_size key) (\<lambda>nb.
         seq (if nb = 0
              then bind (gets (\<lambda>p. map_of (idle p) key)) (\<lambda>i.
                   if i = None then raise (HotRodClientException ''No idle queue for address!'')
                   else bind (idle_size key) (\<lambda>_. ret ()))
              else ret ())
        (bind (gets allocationQueue) (\<lambda>q.
         seq (if maxTotalReached \<and> q \<noteq> [] then allocate_waiting fac else ret ())
        (on_world (destroyObject fac key t)))))))))"

definition returnObject ::
  "pool_config \<Rightarrow> ('w, 't) obj_factory \<Rightarrow> inet \<Rightarrow> 't \<Rightarrow> (('w, 't) pool, unit) sm" where
  "returnObject cfg fac key val =
    bind (gets (hasReachedMaxTotal cfg)) (\<lambda>maxTotalReached.
    bind (gets (\<lambda>p. map_of (busy p) key)) (\<lambda>b.
    seq (if b \<noteq> None then bind (on_busy key (bq_remove val)) (\<lambda>_. add_active (- 1)) else ret ())
    (bind (gets closed) (\<lambda>cl.
     bind (if cl then ret False
           else if testOnReturn cfg then on_world (validateObject fac key val) else ret True) (\<lambda>ok.
     bind (gets allocationQueue) (\<lambda>q.
     bind (if maxTotalReached \<and> q \<noteq> []
           then seq (allocate_waiting fac)
               (bind (idle_size key) (\<lambda>ni. seq (if ni = 0 then bind (busy_size key) (\<lambda>_. ret ()) else ret ())
                (ret False)))
           else ret ok) (\<lambda>ok.
     bind (if ok
           then bind (gets (\<lambda>p. map_of (idle p) key)) (\<lambda>i.
                if i \<noteq> None
                then bind (on_idle key (bq_offer 0 val)) (\<lambda>took. seq (if took then add_idle 1 else ret ()) (ret took))
                else ret False)
           else ret False) (\<lambda>ok.
     if ok then ret () else on_world (destroyObject fac key val)))))))))"

text \<open>\<open>clear(key, queue)\<close>: pop and destroy until the queue is empty.\<close>

fun clear_queue :: "('w, 't) obj_factory \<Rightarrow> inet \<Rightarrow> ('t list \<Rightarrow> ('w, 't) pool \<Rightarrow> ('w, 't) pool) \<Rightarrow> 't list
    \<Rightarrow> (('w, 't) pool, unit) sm" where
  "clear_queue fac key upd [] = ret ()"
| "clear_queue fac key upd (t # ts) =
     seq (modify (upd ts)) (seq (on_world (destroyObject fac key t)) (clear_queue fac key upd ts))"

definition clear_key :: "('w, 't) obj_factory \<Rightarrow> inet \<Rightarrow> (('w, 't) pool, unit) sm" where
  "clear_key fac key p =
    (case map_of (idle p) key of
       Some (Some q) \<Rightarrow>
         seq (add_idle (- int (length q)))
         (seq (clear_queue fac key (\<lambda>ts p. p\<lparr>idle := smap_put key (Some ts) (idle p)\<rparr>) q)
              (modify (\<lambda>p. p\<lparr>idle := smap_erase key (idle p)\<rparr>))) p
     | Some None \<Rightarrow> (Inr (), p)
     | None \<Rightarrow> (Inr (), p\<lparr>idle := smap_put key None (idle p)\<rparr>))"

definition clear_idle_map :: "('w, 't) obj_factory \<Rightarrow> (('w, 't) pool, unit) sm" where
  "clear_idle_map fac =
    bind (gets idle) (\<lambda>m.
    seq (for_each m (\<lambda>(key, q). case q of
          None \<Rightarrow> ret ()
        | Some ts \<Rightarrow> clear_queue fac key (\<lambda>ts p. p\<lparr>idle := smap_put key (Some ts) (idle p)\<rparr>) ts))
        (modify (\<lambda>p. p\<lparr>idle := []\<rparr>)))"

definition clear_busy_map :: "('w, 't) obj_factory \<Rightarrow> (('w, 't) pool, unit) sm" where
  "clear_busy_map fac =
    bind (gets busy) (\<lambda>m.
    seq (for_each m (\<lambda>(key, q). case q of
          None \<Rightarrow> ret ()
        | Some ts \<Rightarrow> clear_queue fac key (\<lambda>ts p. p\<lparr>busy := smap_put key (Some ts) (busy p)\<rparr>) ts))
        (modify (\<lambda>p. p\<lparr>busy := []\<rparr>)))"

definition pool_clear :: "('w, 't) obj_factory \<Rightarrow> (('w, 't) pool, unit) sm" where
  "pool_clear fac =
    seq (clear_idle_map fac) (seq (clear_busy_map fac)
      (modify (\<lambda>p. p\<lparr>totalIdle := 0, totalActive := 0\<rparr>)))"

definition pool_close :: "('w, 't) obj_factory \<Rightarrow> (('w, 't) pool, unit) sm" where
  "pool_close fac = seq (modify (\<lambda>p. p\<lparr>closed := True\<rparr>)) (pool_clear fac)"

definition getNumActive :: "inet \<Rightarrow> ('w, 't) pool \<Rightarrow> int" where
  "getNumActive key p = (case map_of (busy p) key of Some (Some q) \<Rightarrow> int (length q) | _ \<Rightarrow> 0)"

definition getNumIdle :: "inet \<Rightarrow> ('w, 't) pool \<Rightarrow> int" where
  "getNumIdle key p = (case map_of (idle p) key of Some (Some q) \<Rightarrow> int (length q) | _ \<Rightarrow> 0)"

end
