(* ===== verification/HR_Pool_Correct.thy ===== *)
theory HR_Pool_Correct
  imports HR_Pool
begin

text \<open>
  The contract of an object factory as a locale, and the invariant of the connection pool proved
  for every factory that keeps it. \<open>alive w\<close> are the transports that have been made and not yet
  destroyed.

  The invariant \<open>pool_ok cfg n F\<close> says that the counters count the queues, that the queues and
  the transports in flight \<open>F\<close> hold no transport twice and only live ones, and that \<open>maxTotal\<close>
  leaves room for \<open>n\<close> more. An execution that dereferences a null pointer is undefined, and no
  claim is made on the state it leaves.
\<close>

definition pool_struct :: "pool_config \<Rightarrow> nat \<Rightarrow> ('w, 't) pool \<Rightarrow> bool" where
  "pool_struct cfg n p \<longleftrightarrow>
     smap_ok (idle p) \<and> smap_ok (busy p) \<and> no_null (idle p) \<and> no_null (busy p)
     \<and> totalIdle p = int (size (objs (idle p))) \<and> totalActive p = int (size (objs (busy p)))
     \<and> (0 < maxTotal cfg \<longrightarrow> totalIdle p + totalActive p + int n \<le> maxTotal cfg)"

lemma pool_struct_world [simp]: "pool_struct cfg n (p\<lparr>world := w\<rparr>) = pool_struct cfg n p"
  by (simp add: pool_struct_def)

lemma world_idle_commute:
  "p\<lparr>world := w, totalIdle := i\<rparr> = p\<lparr>totalIdle := i, world := w\<rparr>" for p :: "('w, 't) pool"
  by simp

locale object_factory =
  fixes fac :: "('w, 't) obj_factory"
    and alive :: "'w \<Rightarrow> 't set"
  assumes make_Inr: "makeObject fac k w = (Inr t, w') \<Longrightarrow> t \<notin> alive w \<and> alive w' = insert t (alive w)"
    and make_Inl: "makeObject fac k w = (Inl e, w') \<Longrightarrow> alive w' = alive w"
    and destroy_alive: "t \<in> alive w \<Longrightarrow> \<exists>w'. destroyObject fac k t w = (Inr (), w') \<and> alive w' = alive w - {t}"
    and ping_alive: "t \<in> alive w \<Longrightarrow> alive (snd (obj_ping fac t w)) = alive w"
begin

definition pool_ok :: "pool_config \<Rightarrow> nat \<Rightarrow> 't multiset \<Rightarrow> ('w, 't) pool \<Rightarrow> bool" where
  "pool_ok cfg n F p \<longleftrightarrow> pool_struct cfg n p \<and> owned (objs (idle p) + objs (busy p) + F) (alive (world p))"

definition pool_err :: "pool_config \<Rightarrow> exn \<Rightarrow> ('w, 't) pool \<Rightarrow> bool" where
  "pool_err cfg e p \<longleftrightarrow> (\<exists>m. e = UndefinedBehaviour m) \<or> pool_ok cfg 0 {#} p"

lemma pool_ok_weaken: "pool_ok cfg n F p \<Longrightarrow> m \<le> n \<Longrightarrow> G \<subseteq># F \<Longrightarrow> pool_ok cfg m G p"
  unfolding pool_ok_def pool_struct_def
  by (auto elim!: owned_mono)

lemma pool_ok_err: "pool_ok cfg n F p \<Longrightarrow> pool_err cfg e p"
  unfolding pool_err_def by (auto intro: pool_ok_weaken)

lemma pool_err_UB [simp]: "pool_err cfg (UndefinedBehaviour m) p"
  by (simp add: pool_err_def)

text \<open>What the world does.\<close>

lemma world_make:
  "hoare (pool_ok cfg n F) (on_world (makeObject fac k)) (\<lambda>t. pool_ok cfg n (add_mset t F)) (pool_err cfg)"
proof (rule hoareI)
  fix p t p' assume p: "pool_ok cfg n F p" and m: "on_world (makeObject fac k) p = (Inr t, p')"
  then obtain w' where w: "makeObject fac k (world p) = (Inr t, w')" "p' = p\<lparr>world := w'\<rparr>"
    by (auto simp: on_world_def on_part_run split: prod.splits)
  show "pool_ok cfg n (add_mset t F) p'"
    using p make_Inr [OF w(1)] owned_fresh [of "objs (idle p) + objs (busy p) + F" "alive (world p)" t]
    unfolding w(2) by (simp add: pool_ok_def)
next
  fix p e p' assume p: "pool_ok cfg n F p" and m: "on_world (makeObject fac k) p = (Inl e, p')"
  then obtain w' where w: "makeObject fac k (world p) = (Inl e, w')" "p' = p\<lparr>world := w'\<rparr>"
    by (auto simp: on_world_def on_part_run split: prod.splits)
  have "pool_ok cfg n F p'"
    using p make_Inl [OF w(1)] unfolding w(2) by (simp add: pool_ok_def)
  then show "pool_err cfg e p'" by (rule pool_ok_err)
qed

lemma world_destroy:
  "hoare (pool_ok cfg n (add_mset t F)) (on_world (destroyObject fac k t)) (\<lambda>_. pool_ok cfg n F) E"
proof -
  have "\<exists>w'. destroyObject fac k t (world p) = (Inr (), w') \<and> pool_ok cfg n F (p\<lparr>world := w'\<rparr>)"
    if p: "pool_ok cfg n (add_mset t F) p" for p
  proof -
    have "owned (add_mset t (objs (idle p) + objs (busy p) + F)) (alive (world p))"
      using p by (simp add: pool_ok_def)
    then have "t \<in> alive (world p)" "owned (objs (idle p) + objs (busy p) + F) (alive (world p) - {t})"
      by (auto simp: owned_add dest: owned_remove) (auto simp: owned_def)
    then show ?thesis
      using destroy_alive [of t "world p" k] p by (auto simp: pool_ok_def)
  qed
  then show ?thesis
    by (fastforce simp: hoare_def on_world_def on_part_run)
qed

lemma world_validate:
  "hoare (pool_ok cfg n (add_mset t F)) (on_world (validateObject fac k t))
     (\<lambda>_. pool_ok cfg n (add_mset t F)) (pool_err cfg)"
proof -
  have "pool_ok cfg n (add_mset t F) (p\<lparr>world := snd (validateObject fac k t (world p))\<rparr>)"
    if "pool_ok cfg n (add_mset t F) p" for p
  proof -
    have "t \<in> alive (world p)" using that by (auto simp: pool_ok_def owned_add)
    moreover obtain r w where r: "obj_ping fac t (world p) = (r, w)" by fastforce
    ultimately have "alive w = alive (world p)" using ping_alive [of t "world p"] by simp
    then have "alive (snd (validateObject fac k t (world p))) = alive (world p)"
      using r by (cases r) (simp_all add: validateObject_def bind_run ret_run)
    then show ?thesis using that by (simp add: pool_ok_def)
  qed
  then have *: "pool_ok cfg n (add_mset t F) p'"
    if "pool_ok cfg n (add_mset t F) p" "on_world (validateObject fac k t) p = (r, p')" for p r p'
    using that by (fastforce simp: on_world_def on_part_run split: prod.splits)
  show ?thesis using * pool_ok_err by (intro hoareI) blast+
qed

text \<open>Moving a transport in or out of a queue, with the counter adjusted.\<close>

lemma idle_take:
  assumes "pool_ok cfg n F p" "map_of (idle p) k = Some (Some (t # ts))"
  shows "pool_ok cfg (Suc n) (add_mset t F)
    (p\<lparr>idle := smap_put k (Some ts) (idle p), totalIdle := totalIdle p - 1\<rparr>)"
proof -
  have "objs (idle p) = add_mset t (objs (smap_put k (Some ts) (idle p)))"
    using objs_put_some [OF _ assms(2), of ts] assms(1) by (auto simp: pool_ok_def pool_struct_def)
  then show ?thesis using assms(1) by (auto simp: pool_ok_def pool_struct_def smap_ok_put)
qed

lemma idle_put:
  assumes "pool_ok cfg (Suc n) (add_mset t F) p" "map_of (idle p) k = Some (Some ts)"
  shows "pool_ok cfg n F (p\<lparr>idle := smap_put k (Some (ts @ [t])) (idle p), totalIdle := totalIdle p + 1\<rparr>)"
proof -
  have "objs (smap_put k (Some (ts @ [t])) (idle p)) = add_mset t (objs (idle p))"
    using objs_put_some [OF _ assms(2), of "ts @ [t]"] assms(1) by (auto simp: pool_ok_def pool_struct_def)
  then show ?thesis using assms(1) by (auto simp: pool_ok_def pool_struct_def smap_ok_put)
qed

lemma busy_put:
  assumes "pool_ok cfg (Suc n) (add_mset t F) p" "map_of (busy p) k = Some (Some ts)"
  shows "pool_ok cfg n F (p\<lparr>busy := smap_put k (Some (ts @ [t])) (busy p), totalActive := totalActive p + 1\<rparr>)"
proof -
  have "objs (smap_put k (Some (ts @ [t])) (busy p)) = add_mset t (objs (busy p))"
    using objs_put_some [OF _ assms(2), of "ts @ [t]"] assms(1) by (auto simp: pool_ok_def pool_struct_def)
  then show ?thesis using assms(1) by (auto simp: pool_ok_def pool_struct_def smap_ok_put)
qed

lemma busy_take:
  assumes p: "pool_ok cfg n F p" and q: "map_of (busy p) k = Some (Some q)" and t: "t \<in> set q"
  shows "pool_ok cfg (Suc n) (add_mset t F)
    (p\<lparr>busy := smap_put k (Some (removeAll t q)) (busy p), totalActive := totalActive p - 1\<rparr>)"
proof -
  have "mset q \<subseteq># objs (busy p)" using objs_at_subset [of "busy p" k] q by (simp add: objs_at_def)
  then have "mset q \<subseteq># objs (idle p) + objs (busy p) + F"
    by (metis mset_subset_eq_add_left mset_subset_eq_add_right subset_mset.order_trans)
  then have "owned (mset q + {#}) (alive (world p))"
    using p by (auto simp: pool_ok_def elim!: owned_mono)
  then have "mset q = add_mset t (mset (removeAll t q))" using t by (rule owned_removeAll)
  then have "objs (busy p) = add_mset t (objs (smap_put k (Some (removeAll t q)) (busy p)))"
    using objs_put_some [OF _ q, of "removeAll t q"] p by (auto simp: pool_ok_def pool_struct_def)
  then show ?thesis using p by (auto simp: pool_ok_def pool_struct_def smap_ok_put)
qed

lemma idle_same: "pool_ok cfg n F p \<Longrightarrow> map_of (idle p) k = Some (Some q)
    \<Longrightarrow> p\<lparr>idle := smap_put k (Some q) (idle p)\<rparr> = p"
  by (simp add: pool_ok_def pool_struct_def smap_put_same)

lemma busy_same: "pool_ok cfg n F p \<Longrightarrow> map_of (busy p) k = Some (Some q)
    \<Longrightarrow> p\<lparr>busy := smap_put k (Some q) (busy p)\<rparr> = p"
  by (simp add: pool_ok_def pool_struct_def smap_put_same)

lemma on_idle_size:
  "hoare (pool_ok cfg n F) (idle_size k)
     (\<lambda>m p. pool_ok cfg n F p \<and> (\<exists>q. map_of (idle p) k = Some (Some q) \<and> m = length q)) (pool_err cfg)"
  by (auto simp: hoare_def idle_size_def on_idle_def gets_run idle_same split: option.splits)

lemma idle_size_keeps: "hoare (pool_ok cfg n F) (idle_size k) (\<lambda>m. pool_ok cfg n F) (pool_err cfg)"
  by (rule hoare_conseq [OF on_idle_size]) auto

lemma on_busy_size:
  "hoare (pool_ok cfg n F) (busy_size k) (\<lambda>m. pool_ok cfg n F) (pool_err cfg)"
  by (auto simp: hoare_def busy_size_def on_busy_def gets_run busy_same split: option.splits)

lemma on_idle_poll:
  "hoare (pool_ok cfg n F) (on_idle k bq_poll)
     (\<lambda>obj p. case obj of None \<Rightarrow> pool_ok cfg n F p
        | Some t \<Rightarrow> pool_ok cfg (Suc n) (add_mset t F) (p\<lparr>totalIdle := totalIdle p - 1\<rparr>)) (pool_err cfg)"
  by (auto simp: hoare_def on_idle_def bq_poll_def idle_same dest: idle_take split: option.splits list.splits)

lemma on_idle_pop:
  "hoare (pool_ok cfg n F) (on_idle k (if c then bq_popOrThrow else bq_pop))
     (\<lambda>t p. pool_ok cfg (Suc n) (add_mset t F) (p\<lparr>totalIdle := totalIdle p - 1\<rparr>)) (pool_err cfg)"
  by (auto simp: hoare_def on_idle_def bq_pop_def bq_popOrThrow_def idle_same pool_ok_err
      dest: idle_take split: option.splits list.splits)

lemma on_idle_push:
  "hoare (pool_ok cfg (Suc n) (add_mset t F)) (on_idle k (bq_push 0 t))
     (\<lambda>_ p. pool_ok cfg n F (p\<lparr>totalIdle := totalIdle p + 1\<rparr>)) (pool_err cfg)"
  by (auto simp: hoare_def on_idle_def bq_push_def dest: idle_put split: option.splits)

lemma on_busy_push:
  "hoare (pool_ok cfg (Suc n) (add_mset t F)) (on_busy k (bq_push 0 t))
     (\<lambda>_ p. pool_ok cfg n F (p\<lparr>totalActive := totalActive p + 1\<rparr>)) (pool_err cfg)"
  by (auto simp: hoare_def on_busy_def bq_push_def dest: busy_put split: option.splits)

lemma on_busy_remove:
  "hoare (\<lambda>p. pool_ok cfg n F p \<and> t \<in># objs_at (busy p) k) (on_busy k (bq_remove t))
     (\<lambda>_ p. pool_ok cfg (Suc n) (add_mset t F) (p\<lparr>totalActive := totalActive p - 1\<rparr>)) (pool_err cfg)"
  by (auto simp: hoare_def on_busy_def bq_remove_def objs_at_def dest: busy_take split: option.splits)

lemma add_idle_wp: "hoare (\<lambda>p. Q (p\<lparr>totalIdle := totalIdle p + i\<rparr>)) (add_idle i) (\<lambda>_. Q) E"
  by (auto simp: add_idle_def)

lemma add_active_wp: "hoare (\<lambda>p. Q (p\<lparr>totalActive := totalActive p + i\<rparr>)) (add_active i) (\<lambda>_. Q) E"
  by (auto simp: add_active_def)

text \<open>The member functions.\<close>

lemma pool_ok_room:
  assumes "pool_ok cfg n F p" "0 < maxTotal cfg \<Longrightarrow> totalIdle p + totalActive p + int m \<le> maxTotal cfg"
  shows "pool_ok cfg m F p"
  using assms by (simp add: pool_ok_def pool_struct_def)

lemma pool_ok_bound: "pool_ok cfg n F p \<Longrightarrow> 0 < maxTotal cfg \<Longrightarrow> totalIdle p + totalActive p \<le> maxTotal cfg"
  by (simp add: pool_ok_def pool_struct_def)

lemma grow_idle_ok: "hoare (pool_ok cfg n {#}) (grow_idle fac k n) (\<lambda>_. pool_ok cfg 0 {#}) (pool_err cfg)"
proof (induction n)
  case 0
  then show ?case by auto
next
  case (Suc n)
  have "hoare (pool_ok cfg (Suc n) {#t#})
      (seq (on_idle k (bq_push 0 t)) (seq (add_idle 1) (grow_idle fac k n))) (\<lambda>_. pool_ok cfg 0 {#}) (pool_err cfg)"
    for t by (rule hoare_seq [OF on_idle_push hoare_seq [OF add_idle_wp Suc.IH]])
  then show ?case by (auto intro: hoare_bind [OF world_make])
qed

lemma ensureMinIdle_ok: "hoare (pool_ok cfg 0 {#}) (ensureMinIdle cfg fac k) (\<lambda>_. pool_ok cfg 0 {#}) (pool_err cfg)"
proof -
  have grow: "hoare (pool_ok cfg (nat g) {#}) (grow_idle fac k (nat g)) (\<lambda>_. pool_ok cfg 0 {#}) (pool_err cfg)" for g
    by (rule grow_idle_ok)
  have "hoare (pool_ok cfg 0 {#}) (calculateMinIdleGrow cfg k) (\<lambda>g. pool_ok cfg (nat g) {#}) (pool_err cfg)"
    unfolding calculateMinIdleGrow_def Let_def
  proof (rule hoare_bind [OF on_idle_size], rule hoare_gets_bind, rule hoare_ret)
    fix m r p
    assume "(pool_ok cfg 0 {#} p \<and> (\<exists>q. map_of (idle p) k = Some (Some q) \<and> m = length q))
      \<and> r = maxTotal cfg - totalIdle p - totalActive p"
    then show "pool_ok cfg (nat (if 0 < maxTotal cfg then min (minIdle cfg - int m) (max 0 r)
        else minIdle cfg - int m)) {#} p"
      by - (rule pool_ok_room [where n = 0], auto dest: pool_ok_bound)
  qed
  then show ?thesis unfolding ensureMinIdle_def by (rule hoare_bind) (rule grow)
qed

lemma addObject_ok: "hoare (pool_ok cfg 0 {#}) (addObject cfg fac k) (\<lambda>_. pool_ok cfg 0 {#}) (pool_err cfg)"
proof -
  have "pool_ok cfg 0 {#} (p\<lparr>idle := smap_insert k (Some []) (idle p), busy := smap_insert k (Some []) (busy p)\<rparr>)"
    if "pool_ok cfg 0 {#} p" for p
  proof -
    have "objs (smap_insert k (Some []) m) = objs m" if "smap_ok m" for m :: "(inet, 't list option) smap"
      using objs_put [OF that, of k "[]"]
      by (auto simp: smap_insert_def objs_at_def split: option.splits)
    then show ?thesis using that by (auto simp: pool_ok_def pool_struct_def smap_ok_insert)
  qed
  then show ?thesis
    using ensureMinIdle_ok [of cfg k] by (auto simp: hoare_def addObject_def)
qed

lemma pick_idle_null: "no_null m \<Longrightarrow> smap_ok m \<Longrightarrow> pick_idle i b l m = Inl e \<Longrightarrow> False"
proof (induction i b l m rule: pick_idle.induct)
  case (2 i b l k m)
  then have "map_of ((k, None) # m) k \<noteq> Some None" unfolding no_null_def by blast
  then show ?case by simp
next
  case (3 i b l k q m)
  have "no_null m" using 3(3,4)
    by (auto simp: no_null_def smap_ok_def map_of_eq_None_iff [THEN iffD2] split: if_splits)
       (metis fst_conv image_eqI map_of_SomeD order_less_irrefl)
  then show ?case using 3 by (auto simp: smap_ok_def split: if_splits)
qed simp

lemma world_destroy_idle:
  "hoare (\<lambda>p. pool_ok cfg n (add_mset t F) (p\<lparr>totalIdle := totalIdle p + i\<rparr>)) (on_world (destroyObject fac k t))
     (\<lambda>_ p. pool_ok cfg n F (p\<lparr>totalIdle := totalIdle p + i\<rparr>)) E"
proof -
  have "case on_world (destroyObject fac k t) p of
      (Inr x, p') \<Rightarrow> pool_ok cfg n F (p'\<lparr>totalIdle := totalIdle p' + i\<rparr>) | (Inl e, p') \<Rightarrow> E e p'"
    if "pool_ok cfg n (add_mset t F) (p\<lparr>totalIdle := totalIdle p + i\<rparr>)" for p
  proof -
    obtain r w where r: "destroyObject fac k t (world p) = (r, w)" by fastforce
    then show ?thesis
      using world_destroy [of cfg n t F k "\<lambda>_ _. False"] that
      by (cases r) (auto simp: hoare_def on_world_def on_part_run world_idle_commute
          dest!: spec [of _ "p\<lparr>totalIdle := totalIdle p + i\<rparr>"])
  qed
  then show ?thesis by (simp add: hoare_def)
qed

lemma tryRemoveIdle_ok:
  "hoare (pool_ok cfg 0 {#}) (tryRemoveIdle cfg fac)
     (\<lambda>ok p. pool_ok cfg (if ok then 1 else 0) {#} p) (pool_err cfg)"
proof -
  have poll: "hoare (pool_ok cfg 0 {#})
      (bind (on_idle k bq_poll) (\<lambda>x. case x of None \<Rightarrow> raise OutOfFuel
        | Some t \<Rightarrow> seq (on_world (destroyObject fac k t)) (seq (add_idle (- 1)) (ret True))))
      (\<lambda>ok p. pool_ok cfg (if ok then 1 else 0) {#} p) (pool_err cfg)" for k
  proof (rule hoare_bind [OF on_idle_poll])
    fix x
    show "hoare (\<lambda>p. case x of None \<Rightarrow> pool_ok cfg 0 {#} p
        | Some t \<Rightarrow> pool_ok cfg (Suc 0) (add_mset t {#}) (p\<lparr>totalIdle := totalIdle p - 1\<rparr>))
      (case x of None \<Rightarrow> raise OutOfFuel
        | Some t \<Rightarrow> seq (on_world (destroyObject fac k t)) (seq (add_idle (- 1)) (ret True)))
      (\<lambda>ok p. pool_ok cfg (if ok then 1 else 0) {#} p) (pool_err cfg)"
    proof (cases x)
      case None
      then show ?thesis by (auto simp: pool_ok_err)
    next
      case (Some t)
      have "hoare (\<lambda>p. pool_ok cfg (Suc 0) {#} (p\<lparr>totalIdle := totalIdle p - 1\<rparr>)) (add_idle (- 1))
          (\<lambda>_. pool_ok cfg (Suc 0) {#}) (pool_err cfg)"
        using add_idle_wp [of "pool_ok cfg (Suc 0) {#}" "- 1"] by simp
      then show ?thesis
        using Some world_destroy_idle [of cfg "Suc 0" t "{#}" "- 1" k "pool_err cfg"]
        by (auto intro!: hoare_seq elim!: hoare_seq)
    qed
  qed
  show ?thesis
    unfolding tryRemoveIdle_def
  proof (rule hoare_gets_bind)
    fix r
    show "hoare (\<lambda>p. pool_ok cfg 0 {#} p \<and> r = pick_idle (minIdle cfg) None 0 (idle p))
      (case r of Inl e \<Rightarrow> raise e | Inr None \<Rightarrow> ret False
       | Inr (Some key) \<Rightarrow> bind (on_idle key bq_poll) (\<lambda>x. case x of None \<Rightarrow> raise OutOfFuel
          | Some t \<Rightarrow> seq (on_world (destroyObject fac key t)) (seq (add_idle (- 1)) (ret True))))
      (\<lambda>ok p. pool_ok cfg (if ok then 1 else 0) {#} p) (pool_err cfg)"
      by (auto split: sum.split option.split simp: pool_ok_err intro: hoare_pre [OF poll])
  qed
qed

lemma can_create_ok:
  "hoare (pool_ok cfg 0 {#}) (can_create cfg fac k) (\<lambda>ok. pool_ok cfg (if ok then 1 else 0) {#}) (pool_err cfg)"
proof -
  let ?Q = "\<lambda>ok. pool_ok cfg (if ok then 1 else 0) {#}"
  have ask: "hoare (pool_ok cfg 0 {#}) (tryRemoveIdleOrAskAllocate cfg fac k) ?Q (pool_err cfg)"
    unfolding tryRemoveIdleOrAskAllocate_def
  proof (rule hoare_bind [OF tryRemoveIdle_ok])
    fix ok
    show "hoare (pool_ok cfg (if ok then 1 else 0) {#})
      (if ok then ret True else seq (modify (\<lambda>p. p\<lparr>allocationQueue := allocationQueue p @ [k]\<rparr>)) (ret False))
      ?Q (pool_err cfg)"
      by (auto intro!: hoare_seq [where R = "pool_ok cfg 0 {#}"] simp: pool_ok_def pool_struct_def)
  qed
  have "hoare (pool_ok cfg 0 {#}) (bind (gets (hasReachedMaxTotal cfg)) (\<lambda>reached.
      if \<not> reached then ret True else tryRemoveIdleOrAskAllocate cfg fac k)) ?Q (pool_err cfg)"
  proof (rule hoare_gets_bind)
    fix r
    show "hoare (\<lambda>p. pool_ok cfg 0 {#} p \<and> r = hasReachedMaxTotal cfg p)
      (if \<not> r then ret True else tryRemoveIdleOrAskAllocate cfg fac k) ?Q (pool_err cfg)"
      by (auto intro: hoare_pre [OF ask] simp: hasReachedMaxTotal_def pool_ok_def pool_struct_def)
  qed
  then show ?thesis
    unfolding can_create_def
    by (auto intro!: hoare_bind [OF idle_size_keeps] hoare_bind [OF on_busy_size])
qed

lemma borrow_loop_ok:
  "hoare (\<lambda>p. case obj of None \<Rightarrow> pool_ok cfg 0 {#} p | Some t \<Rightarrow> pool_ok cfg 1 {#t#} p)
     (borrow_loop cfg fac k n obj) (\<lambda>t. pool_ok cfg 1 {#t#}) (pool_err cfg)"
proof (induction n arbitrary: obj)
  case 0
  then show ?case by (auto simp: pool_ok_err split: option.splits)
next
  case (Suc n)
  let ?P = "\<lambda>obj p. case obj of None \<Rightarrow> pool_ok cfg 0 {#} p | Some t \<Rightarrow> pool_ok cfg 1 {#t#} p"
  let ?check = "case obj of None \<Rightarrow> ret None | Some t \<Rightarrow> if testOnBorrow cfg
      then bind (on_world (validateObject fac k t)) (\<lambda>valid. if valid then ret (Some t)
           else seq (on_world (destroyObject fac k t)) (ret None)) else ret (Some t)"
  have drop: "hoare (pool_ok cfg (Suc 0) {#t#}) (on_world (destroyObject fac k t)) (\<lambda>_. pool_ok cfg 0 {#}) (pool_err cfg)" for t
    by (rule hoare_conseq [OF world_destroy [of cfg "Suc 0" t "{#}"]]) (auto intro: pool_ok_weaken)
  have "hoare (?P obj) ?check ?P (pool_err cfg)"
    by (cases obj) (auto intro!: hoare_bind [OF world_validate] hoare_seq [OF drop])
  moreover have "hoare (?P x) (case x of Some t \<Rightarrow> ret t
     | None \<Rightarrow> bind (can_create cfg fac k) (\<lambda>create. if create
         then bind (on_world (makeObject fac k)) (\<lambda>t. borrow_loop cfg fac k n (Some t))
         else bind (on_idle k (if exhaustedAction cfg = EXCEPTION then bq_popOrThrow else bq_pop)) (\<lambda>t.
              seq (add_idle (- 1)) (borrow_loop cfg fac k n (Some t)))))
     (\<lambda>t. pool_ok cfg 1 {#t#}) (pool_err cfg)" for x
  proof (cases x)
    case None
    have loop: "hoare (pool_ok cfg 1 {#t#}) (borrow_loop cfg fac k n (Some t)) (\<lambda>t. pool_ok cfg 1 {#t#}) (pool_err cfg)" for t
      using Suc.IH [of "Some t"] by simp
    have make: "hoare (pool_ok cfg 1 {#}) (bind (on_world (makeObject fac k)) (\<lambda>t. borrow_loop cfg fac k n (Some t)))
        (\<lambda>t. pool_ok cfg 1 {#t#}) (pool_err cfg)"
      by (rule hoare_bind [OF world_make loop])
    have dec: "hoare (\<lambda>p. pool_ok cfg (Suc 0) {#t#} (p\<lparr>totalIdle := totalIdle p - 1\<rparr>))
        (seq (add_idle (- 1)) (borrow_loop cfg fac k n (Some t))) (\<lambda>t. pool_ok cfg 1 {#t#}) (pool_err cfg)" for t
      using hoare_seq [OF add_idle_wp [of "pool_ok cfg 1 {#t#}" "- 1"] loop] by simp
    have pop: "hoare (pool_ok cfg 0 {#}) (bind (on_idle k (if exhaustedAction cfg = EXCEPTION then bq_popOrThrow else bq_pop))
        (\<lambda>t. seq (add_idle (- 1)) (borrow_loop cfg fac k n (Some t)))) (\<lambda>t. pool_ok cfg 1 {#t#}) (pool_err cfg)"
      by (rule hoare_bind [OF on_idle_pop dec])
    show ?thesis using None make pop by (auto intro!: hoare_bind [OF can_create_ok])
  qed auto
  ultimately show ?case unfolding borrow_loop.simps by (rule hoare_bind)
qed

lemma borrowObject_ok:
  "hoare (pool_ok cfg 0 {#}) (borrowObject fuel cfg fac k) (\<lambda>t. pool_ok cfg 0 {#}) (pool_err cfg)"
proof -
  have push: "hoare (pool_ok cfg 1 {#t#}) (seq (on_busy k (bq_push 0 t)) (seq (add_active 1) (ret t)))
      (\<lambda>_. pool_ok cfg 0 {#}) (pool_err cfg)" for t
    using on_busy_push [of cfg 0 t "{#}" k]
    by (auto intro!: hoare_seq [OF _ hoare_seq [OF add_active_wp]])
  have "hoare (pool_ok cfg 0 {#})
     (bind (on_idle k bq_poll) (\<lambda>obj. seq (if obj \<noteq> None then add_idle (- 1) else ret ())
       (bind (borrow_loop cfg fac k fuel obj) (\<lambda>t. seq (on_busy k (bq_push 0 t)) (seq (add_active 1) (ret t))))))
     (\<lambda>_. pool_ok cfg 0 {#}) (pool_err cfg)"
  proof (rule hoare_bind [OF on_idle_poll])
    fix obj
    have dec: "hoare (\<lambda>p. case obj of None \<Rightarrow> pool_ok cfg 0 {#} p
          | Some t \<Rightarrow> pool_ok cfg (Suc 0) (add_mset t {#}) (p\<lparr>totalIdle := totalIdle p - 1\<rparr>))
        (if obj \<noteq> None then add_idle (- 1) else ret ())
        (\<lambda>_ p. case obj of None \<Rightarrow> pool_ok cfg 0 {#} p | Some t \<Rightarrow> pool_ok cfg 1 {#t#} p) (pool_err cfg)"
      using add_idle_wp [of "pool_ok cfg 1 {#the obj#}" "- 1"] by (cases obj) auto
    show "hoare (\<lambda>p. case obj of None \<Rightarrow> pool_ok cfg 0 {#} p
          | Some t \<Rightarrow> pool_ok cfg (Suc 0) (add_mset t {#}) (p\<lparr>totalIdle := totalIdle p - 1\<rparr>))
        (seq (if obj \<noteq> None then add_idle (- 1) else ret ())
       (bind (borrow_loop cfg fac k fuel obj) (\<lambda>t. seq (on_busy k (bq_push 0 t)) (seq (add_active 1) (ret t)))))
        (\<lambda>_. pool_ok cfg 0 {#}) (pool_err cfg)"
      by (rule hoare_seq [OF dec hoare_bind [OF borrow_loop_ok push]])
  qed
  then show ?thesis by (auto simp: hoare_def borrowObject_def pool_ok_err)
qed

lemma allocate_waiting_ok:
  "hoare (\<lambda>p. pool_ok cfg 1 F p \<and> allocationQueue p \<noteq> []) (allocate_waiting fac)
     (\<lambda>_. pool_ok cfg 0 F) (pool_err cfg)"
proof -
  have "hoare (pool_ok cfg 1 F) (bind (on_world (makeObject fac k)) (\<lambda>t.
      seq (on_idle k (bq_push 0 t)) (add_idle 1))) (\<lambda>_. pool_ok cfg 0 F) (pool_err cfg)" for k
    using hoare_bind [OF world_make hoare_seq [OF on_idle_push add_idle_wp], of cfg 0 F k "\<lambda>_. k"] by simp
  then show ?thesis
    unfolding allocate_waiting_def
    by (intro hoare_gets_bind hoare_seq [where R = "pool_ok cfg 1 F"])
       (auto simp: pool_ok_def pool_struct_def)
qed

text \<open>
  Removing a busy transport makes room for one, so the allocation for a waiting key stays within
  the limit.
\<close>

lemma remove_active:
  "hoare (\<lambda>p. pool_ok cfg 0 {#} p \<and> t \<in># objs_at (busy p) k)
     (bind (on_busy k (bq_remove t)) (\<lambda>_. seq (add_active (- 1)) m)) Q (pool_err cfg)"
  if "hoare (pool_ok cfg 1 {#t#}) m Q (pool_err cfg)"
proof -
  have "hoare (\<lambda>p. pool_ok cfg (Suc 0) {#t#} (p\<lparr>totalActive := totalActive p - 1\<rparr>))
      (seq (add_active (- 1)) m) Q (pool_err cfg)"
    using hoare_seq [OF add_active_wp [of "pool_ok cfg 1 {#t#}" "- 1"] that] by simp
  then show ?thesis by (rule hoare_bind [OF on_busy_remove])
qed

lemma drop_one: "hoare (pool_ok cfg n {#t#}) (on_world (destroyObject fac k t)) (\<lambda>_. pool_ok cfg 0 {#}) (pool_err cfg)"
  by (rule hoare_conseq [OF world_destroy [of cfg n t "{#}"]]) (auto intro: pool_ok_weaken)

lemma allocate_if:
  "hoare (\<lambda>p. pool_ok cfg 1 F p \<and> q = allocationQueue p)
     (if c \<and> q \<noteq> [] then allocate_waiting fac else ret ()) (\<lambda>_. pool_ok cfg 0 F) (pool_err cfg)"
  by (auto intro: hoare_pre [OF allocate_waiting_ok] pool_ok_weaken)

lemma invalidateObject_ok:
  "hoare (\<lambda>p. pool_ok cfg 0 {#} p \<and> (\<forall>t. val = Some t \<longrightarrow> t \<in># objs_at (busy p) k))
     (invalidateObject cfg fac k val) (\<lambda>_. pool_ok cfg 0 {#}) (pool_err cfg)"
proof (cases val)
  case None
  then show ?thesis unfolding invalidateObject_def by (intro hoare_gets_bind) auto
next
  case (Some t)
  let ?tail = "\<lambda>reached. bind (gets allocationQueue) (\<lambda>q.
         seq (if reached \<and> q \<noteq> [] then allocate_waiting fac else ret ()) (on_world (destroyObject fac k t)))"
  let ?wake = "bind (gets (\<lambda>p. map_of (idle p) k)) (\<lambda>i.
      if i = None then raise (HotRodClientException ''No idle queue for address!'')
      else bind (idle_size k) (\<lambda>_. ret ()))"
  have tail: "hoare (pool_ok cfg 1 {#t#}) (?tail reached) (\<lambda>_. pool_ok cfg 0 {#}) (pool_err cfg)" for reached
    by (intro hoare_gets_bind hoare_seq [OF allocate_if drop_one])
  have wake: "hoare (pool_ok cfg 1 {#t#}) ?wake (\<lambda>_. pool_ok cfg 1 {#t#}) (pool_err cfg)"
    by (intro hoare_gets_bind) (auto simp: pool_ok_err intro!: hoare_bind [OF hoare_pre [OF idle_size_keeps]])
  have "hoare (pool_ok cfg 1 {#t#}) (if nb = 0 then ?wake else ret ()) (\<lambda>_. pool_ok cfg 1 {#t#}) (pool_err cfg)" for nb :: nat
    using wake by auto
  then have body: "hoare (pool_ok cfg 1 {#t#}) (bind (busy_size k) (\<lambda>nb. seq (if nb = 0 then ?wake else ret ()) (?tail reached)))
      (\<lambda>_. pool_ok cfg 0 {#}) (pool_err cfg)" for reached
    by (intro hoare_bind [OF on_busy_size] hoare_seq [OF _ tail])
  show ?thesis
    unfolding invalidateObject_def Some option.case
    by (intro hoare_gets_bind hoare_if hoare_raise hoare_pre [OF remove_active [OF body]])
       (auto simp: pool_ok_err)
qed

lemma returnObject_ok:
  "hoare (\<lambda>p. pool_ok cfg 0 {#} p \<and> t \<in># objs_at (busy p) k) (returnObject cfg fac k t)
     (\<lambda>_. pool_ok cfg 0 {#}) (pool_err cfg)"
proof -
  let ?keep = "\<lambda>ok::bool. if ok
           then bind (gets (\<lambda>p. map_of (idle p) k)) (\<lambda>i. if i \<noteq> None
                then bind (on_idle k (bq_offer 0 t)) (\<lambda>took. seq (if took then add_idle 1 else ret ()) (ret took))
                else ret False)
           else ret False"
  let ?fin = "\<lambda>ok. if ok then ret () else on_world (destroyObject fac k t)"
  let ?alloc = "\<lambda>c q ok. if c \<and> q \<noteq> []
           then seq (allocate_waiting fac)
               (bind (idle_size k) (\<lambda>ni. seq (if ni = 0 then bind (busy_size k) (\<lambda>_. ret ()) else ret ()) (ret False)))
           else ret ok"
  let ?valid = "\<lambda>cl. if cl then ret False
           else if testOnReturn cfg then on_world (validateObject fac k t) else ret True"
  have offer: "hoare (pool_ok cfg 1 {#t#}) (on_idle k (bq_offer 0 t))
      (\<lambda>took p. took \<and> pool_ok cfg 0 {#} (p\<lparr>totalIdle := totalIdle p + 1\<rparr>)) (pool_err cfg)"
    using on_idle_push [of cfg 0 t "{#}" k] by (auto simp: hoare_def on_idle_def bq_push_def bq_offer_def split: option.splits)
  have took: "hoare (\<lambda>p. took \<and> pool_ok cfg 0 {#} (p\<lparr>totalIdle := totalIdle p + 1\<rparr>))
      (seq (if took then add_idle 1 else ret ()) (ret took)) (\<lambda>ok. pool_ok cfg 0 (if ok then {#} else {#t#})) (pool_err cfg)" for took
    using add_idle_wp [of "pool_ok cfg 0 {#}" 1] by (cases took) (auto intro!: hoare_seq)
  have keep: "hoare (pool_ok cfg (if ok then 1 else 0) {#t#}) (?keep ok)
      (\<lambda>ok. pool_ok cfg 0 (if ok then {#} else {#t#})) (pool_err cfg)" for ok
    by (cases ok) (auto intro!: hoare_gets_bind hoare_bind [OF hoare_pre [OF offer] took] intro: pool_ok_weaken)
  have fin: "hoare (pool_ok cfg 0 (if ok then {#} else {#t#})) (?fin ok) (\<lambda>_. pool_ok cfg 0 {#}) (pool_err cfg)" for ok
    using drop_one [of cfg 0 t k] by auto
  have alloc: "hoare (\<lambda>p. pool_ok cfg 1 {#t#} p \<and> q = allocationQueue p) (?alloc c q ok)
      (\<lambda>ok. pool_ok cfg (if ok then 1 else 0) {#t#}) (pool_err cfg)" for c q ok
  proof -
    have "hoare (\<lambda>p. pool_ok cfg (Suc 0) {#t#} p \<and> q = allocationQueue p) (allocate_waiting fac)
        (\<lambda>_. pool_ok cfg 0 {#t#}) (pool_err cfg)" if "q \<noteq> []"
      by (rule hoare_pre [OF allocate_waiting_ok]) (use that in auto)
    then show ?thesis
      by (auto intro!: hoare_bind [OF idle_size_keeps] hoare_seq [where R = "pool_ok cfg 0 {#t#}"]
          hoare_bind [OF on_busy_size] intro: pool_ok_weaken)
  qed
  have valid: "hoare (pool_ok cfg 1 {#t#}) (?valid cl) (\<lambda>_. pool_ok cfg 1 {#t#}) (pool_err cfg)" for cl
    using world_validate [of cfg 1 t "{#}" k] by auto
  have tail: "hoare (pool_ok cfg 1 {#t#}) (bind (gets closed) (\<lambda>cl. bind (?valid cl) (\<lambda>ok.
      bind (gets allocationQueue) (\<lambda>q. bind (?alloc c q ok) (\<lambda>ok. bind (?keep ok) ?fin)))))
      (\<lambda>_. pool_ok cfg 0 {#}) (pool_err cfg)" for c
    by (intro hoare_gets_bind hoare_bind [OF hoare_pre [OF valid]] hoare_bind [OF alloc] hoare_bind [OF keep] fin) auto
  have "t \<in># objs_at (busy p) k \<Longrightarrow> map_of (busy p) k \<noteq> None" for p :: "('w, 't) pool"
    by (cases "map_of (busy p) k") (auto simp: objs_at_def)
  then show ?thesis
    unfolding returnObject_def
    using remove_active [OF tail]
    by (intro hoare_gets_bind) (auto simp: hoare_def seq_def sm_bind_assoc split: option.splits)
qed

text \<open>
  \<open>addObject\<close> is never undefined: it makes the queues it needs. It adds the server and no other,
  also when a connection fails, and its only exceptions are those of the connections it makes.
\<close>

definition has_queues :: "inet \<Rightarrow> inet set \<Rightarrow> inet set \<Rightarrow> ('w, 't) pool \<Rightarrow> bool" where
  "has_queues k D B p \<longleftrightarrow> (\<exists>q. map_of (idle p) k = Some (Some q)) \<and> dom (map_of (idle p)) = D
     \<and> dom (map_of (busy p)) = B"

lemma on_idle_queues:
  assumes "\<And>q. \<exists>x q'. f q = (Inr x, q')"
  shows "hoare (has_queues k D B) (on_idle k f) (\<lambda>_. has_queues k D B) E"
proof -
  have "\<exists>x q'. on_idle k f p = (Inr x, p\<lparr>idle := smap_put k (Some q') (idle p)\<rparr>)" if has: "has_queues k D B p" for p
  proof -
    obtain q where "map_of (idle p) k = Some (Some q)" using has by (auto simp: has_queues_def)
    moreover obtain x q' where "f q = (Inr x, q')" using assms by blast
    ultimately show ?thesis by (auto simp: on_idle_def)
  qed
  then show ?thesis
    by (fastforce simp: hoare_def has_queues_def insert_absorb domI)
qed

lemma grow_idle_queues:
  "hoare (has_queues k D B) (grow_idle fac k n) (\<lambda>_. has_queues k D B)
     (\<lambda>e p. has_queues k D B p \<and> (\<exists>w w'. makeObject fac k w = (Inl e, w')))"
proof (induction n)
  case 0
  then show ?case by auto
next
  case (Suc n)
  let ?E = "\<lambda>e p. has_queues k D B p \<and> (\<exists>w w'. makeObject fac k w = (Inl e, w'))"
  have "hoare (has_queues k D B) (on_world (makeObject fac k)) (\<lambda>_. has_queues k D B) ?E"
    by (rule hoareI) (auto simp: on_world_def on_part_run has_queues_def split: prod.splits)
  moreover have "hoare (has_queues k D B) (on_idle k (bq_push 0 t)) (\<lambda>_. has_queues k D B) ?E" for t
    by (rule on_idle_queues) (simp add: bq_push_def)
  moreover have "hoare (has_queues k D B) (add_idle 1) (\<lambda>_. has_queues k D B) ?E"
    by (auto simp: add_idle_def has_queues_def)
  ultimately show ?case
    unfolding grow_idle.simps using Suc.IH by (intro hoare_bind hoare_seq) auto
qed

lemma addObject_total:
  assumes ok: "pool_ok cfg 0 {#} p" and run: "addObject cfg fac k p = (r, p')"
    and net: "\<And>w e w' m. makeObject fac k w = (Inl e, w') \<Longrightarrow> e \<noteq> UndefinedBehaviour m"
  shows "pool_ok cfg 0 {#} p'" "dom (map_of (idle p')) = insert k (dom (map_of (idle p)))"
    and "map_of (idle p) k = None \<Longrightarrow> dom (map_of (busy p')) = insert k (dom (map_of (busy p)))"
    and "map_of (idle p) k \<noteq> None \<Longrightarrow> p' = p"
    and "r = Inl e \<Longrightarrow> \<exists>w w'. makeObject fac k w = (Inl e, w')"
proof -
  let ?p = "p\<lparr>idle := smap_insert k (Some []) (idle p), busy := smap_insert k (Some []) (busy p)\<rparr>"
  let ?D = "insert k (dom (map_of (idle p)))" and ?B = "insert k (dom (map_of (busy p)))"
  let ?E = "\<lambda>e p. has_queues k ?D ?B p \<and> (\<exists>w w'. makeObject fac k w = (Inl e, w'))"
  have size: "hoare (has_queues k ?D ?B) (idle_size k) (\<lambda>_. has_queues k ?D ?B) ?E"
    unfolding idle_size_def by (rule on_idle_queues) (simp add: gets_run)
  have room: "hoare (has_queues k ?D ?B) (calculateMinIdleGrow cfg k) (\<lambda>_. has_queues k ?D ?B) ?E"
    unfolding calculateMinIdleGrow_def Let_def by (rule hoare_bind [OF size], rule hoare_gets_bind) auto
  have all: "hoare (has_queues k ?D ?B) (ensureMinIdle cfg fac k) (\<lambda>_. has_queues k ?D ?B) ?E"
    unfolding ensureMinIdle_def by (rule hoare_bind [OF room grow_idle_queues])
  have new: "has_queues k ?D ?B ?p \<and> ensureMinIdle cfg fac k ?p = (r, p')" if "map_of (idle p) k = None"
    using that run
    by (auto simp: has_queues_def addObject_def map_of_smap_insert split: option.splits if_splits)
  then have has: "has_queues k ?D ?B p'" if "map_of (idle p) k = None"
    using that all by (cases r) (auto dest: hoareD_Inr hoareD_Inl)
  have r: "\<exists>w w'. makeObject fac k w = (Inl e, w')" if "r = Inl e" for e
  proof (cases "map_of (idle p) k")
    case None
    then show ?thesis using new that all by (auto dest: hoareD_Inl)
  next
    case (Some q)
    then show ?thesis using run that by (simp add: addObject_def)
  qed
  show "pool_ok cfg 0 {#} p'"
  proof (cases r)
    case (Inl e)
    then have "pool_err cfg e p'" using hoareD_Inl [OF addObject_ok ok] run by blast
    moreover have "e \<noteq> UndefinedBehaviour m" for m using r [OF Inl] net by blast
    ultimately show ?thesis by (auto simp: pool_err_def)
  next
    case (Inr u)
    then show ?thesis using hoareD_Inr [OF addObject_ok ok] run by blast
  qed
  show "\<exists>w w'. makeObject fac k w = (Inl e, w')" if "r = Inl e" using that by (rule r)
  show same: "p' = p" if "map_of (idle p) k \<noteq> None" using that run by (simp add: addObject_def)
  show "dom (map_of (idle p')) = ?D"
    using has same by (cases "map_of (idle p) k") (auto simp: has_queues_def)
  show "dom (map_of (busy p')) = ?B" if "map_of (idle p) k = None" using has that by (simp add: has_queues_def)
qed

text \<open>
  Emptying queues. While it runs the counters lag behind, so the invariant is on the queues and
  on what is alive.
\<close>

definition queues_ok :: "('w, 't) pool \<Rightarrow> bool" where
  "queues_ok p \<longleftrightarrow> smap_ok (idle p) \<and> smap_ok (busy p) \<and> no_null (idle p) \<and> no_null (busy p)
     \<and> owned (objs (idle p) + objs (busy p)) (alive (world p))"

lemma destroy_step:
  assumes "owned (add_mset t U) (alive (world p))"
  obtains w where "on_world (destroyObject fac k t) p = (Inr (), p\<lparr>world := w\<rparr>)" "owned U (alive w)"
  using assms destroy_alive [of t "world p" k] owned_remove [OF assms]
  by (fastforce simp: owned_add on_world_def on_part_run)

lemma clear_idle_queue:
  assumes "queues_ok p" "map_of (idle p) k = Some (Some ts)"
  shows "\<exists>p'. clear_queue fac k (\<lambda>ts p. p\<lparr>idle := smap_put k (Some ts) (idle p)\<rparr>) ts p = (Inr (), p')
     \<and> queues_ok p' \<and> map_of (idle p') = (map_of (idle p))(k \<mapsto> Some []) \<and> busy p' = busy p
     \<and> totalIdle p' = totalIdle p \<and> totalActive p' = totalActive p
     \<and> objs (idle p) = objs (idle p') + mset ts"
  using assms
proof (induction ts arbitrary: p)
  case Nil
  then show ?case by (auto simp: ret_run fun_upd_idem)
next
  case (Cons t ts)
  let ?p = "p\<lparr>idle := smap_put k (Some ts) (idle p)\<rparr>"
  have split: "objs (idle p) = add_mset t (objs (idle ?p))"
    using objs_put_some [OF _ Cons.prems(2), of ts] Cons.prems(1) by (auto simp: queues_ok_def)
  then have "owned (add_mset t (objs (idle ?p) + objs (busy ?p))) (alive (world ?p))"
    using Cons.prems(1) by (simp add: queues_ok_def)
  then obtain w where w: "on_world (destroyObject fac k t) ?p = (Inr (), ?p\<lparr>world := w\<rparr>)"
    "owned (objs (idle ?p) + objs (busy ?p)) (alive w)" by (rule destroy_step)
  have "queues_ok (?p\<lparr>world := w\<rparr>)"
    using Cons.prems(1) w(2) by (simp add: queues_ok_def smap_ok_put)
  from Cons.IH [OF this] show ?case
    using w(1) split by (auto simp: modify_run seq_run fun_eq_iff)
qed

lemma clear_busy_queue:
  assumes "queues_ok p" "map_of (busy p) k = Some (Some ts)"
  shows "\<exists>p'. clear_queue fac k (\<lambda>ts p. p\<lparr>busy := smap_put k (Some ts) (busy p)\<rparr>) ts p = (Inr (), p')
     \<and> queues_ok p' \<and> map_of (busy p') = (map_of (busy p))(k \<mapsto> Some []) \<and> idle p' = idle p"
  using assms
proof (induction ts arbitrary: p)
  case Nil
  then show ?case by (auto simp: ret_run fun_upd_idem)
next
  case (Cons t ts)
  let ?p = "p\<lparr>busy := smap_put k (Some ts) (busy p)\<rparr>"
  have "objs (busy p) = add_mset t (objs (busy ?p))"
    using objs_put_some [OF _ Cons.prems(2), of ts] Cons.prems(1) by (auto simp: queues_ok_def)
  then have "owned (add_mset t (objs (idle ?p) + objs (busy ?p))) (alive (world ?p))"
    using Cons.prems(1) by (simp add: queues_ok_def)
  then obtain w where w: "on_world (destroyObject fac k t) ?p = (Inr (), ?p\<lparr>world := w\<rparr>)"
    "owned (objs (idle ?p) + objs (busy ?p)) (alive w)" by (rule destroy_step)
  have "queues_ok (?p\<lparr>world := w\<rparr>)"
    using Cons.prems(1) w(2) by (simp add: queues_ok_def smap_ok_put)
  from Cons.IH [OF this] show ?case
    using w(1) by (auto simp: modify_run seq_run fun_eq_iff)
qed

lemma clear_key_ok:
  assumes "pool_ok cfg 0 {#} p" "map_of (idle p) k \<noteq> None"
  shows "\<exists>p'. clear_key fac k p = (Inr (), p') \<and> pool_ok cfg 0 {#} p'
     \<and> map_of (idle p') = (map_of (idle p))(k := None) \<and> busy p' = busy p"
proof -
  have "map_of (idle p) k \<noteq> Some None"
    using assms(1) by (simp add: pool_ok_def pool_struct_def no_null_def)
  then obtain q where q: "map_of (idle p) k = Some (Some q)" using assms(2) by auto
  let ?p = "p\<lparr>totalIdle := totalIdle p - int (length q)\<rparr>"
  have "queues_ok ?p" using assms(1) by (simp add: queues_ok_def pool_ok_def pool_struct_def)
  then obtain p1 where p1: "clear_queue fac k (\<lambda>ts p. p\<lparr>idle := smap_put k (Some ts) (idle p)\<rparr>) q ?p = (Inr (), p1)"
    "queues_ok p1" "map_of (idle p1) = (map_of (idle p))(k \<mapsto> Some [])" "busy p1 = busy p"
    "totalIdle p1 = totalIdle p - int (length q)" "totalActive p1 = totalActive p"
    "objs (idle p) = objs (idle p1) + mset q"
    using clear_idle_queue [of ?p k q] q by auto
  have e: "objs (smap_erase k (idle p1)) = objs (idle p1)"
    using objs_erase [of "idle p1" k] p1(2,3) by (simp add: queues_ok_def objs_at_def)
  have "pool_ok cfg 0 {#} (p1\<lparr>idle := smap_erase k (idle p1)\<rparr>)"
    using assms(1) p1(2,4-7) e by (auto simp: pool_ok_def pool_struct_def queues_ok_def smap_ok_erase)
  then show ?thesis
    using q p1(1,3,4) by (auto simp: clear_key_def seq_run add_idle_def modify_run)
qed

lemma clear_idle_all:
  assumes "queues_ok p" "distinct (map fst m)" "\<forall>(k, q) \<in> set m. map_of (idle p) k = Some q"
  shows "\<exists>p'. for_each m (\<lambda>(key, q). case q of None \<Rightarrow> ret ()
        | Some ts \<Rightarrow> clear_queue fac key (\<lambda>ts p. p\<lparr>idle := smap_put key (Some ts) (idle p)\<rparr>) ts) p = (Inr (), p')
     \<and> queues_ok p' \<and> busy p' = busy p"
  using assms
proof (induction m arbitrary: p)
  case Nil
  then show ?case by (simp add: ret_run)
next
  case (Cons a m)
  obtain k q where a: "a = (k, q)" by fastforce
  then have "map_of (idle p) k = Some q" using Cons.prems(3) by simp
  moreover obtain ts where "q = Some ts"
    using calculation Cons.prems(1) by (cases q) (auto simp: queues_ok_def no_null_def)
  ultimately obtain p1 where p1: "clear_queue fac k (\<lambda>ts p. p\<lparr>idle := smap_put k (Some ts) (idle p)\<rparr>) ts p = (Inr (), p1)"
    "queues_ok p1" "map_of (idle p1) = (map_of (idle p))(k \<mapsto> Some [])" "busy p1 = busy p"
    using clear_idle_queue [of p k ts] Cons.prems(1) by auto
  have "\<forall>(k, q) \<in> set m. map_of (idle p1) k = Some q"
    using Cons.prems(2,3) a p1(3) by (force split: prod.splits)
  with Cons.IH [OF p1(2)] Cons.prems(2) p1(1,4) show ?case
    by (auto simp: a \<open>q = Some ts\<close> seq_run)
qed

lemma clear_busy_all:
  assumes "queues_ok p" "distinct (map fst m)" "\<forall>(k, q) \<in> set m. map_of (busy p) k = Some q"
  shows "\<exists>p'. for_each m (\<lambda>(key, q). case q of None \<Rightarrow> ret ()
        | Some ts \<Rightarrow> clear_queue fac key (\<lambda>ts p. p\<lparr>busy := smap_put key (Some ts) (busy p)\<rparr>) ts) p = (Inr (), p')
     \<and> queues_ok p' \<and> idle p' = idle p"
  using assms
proof (induction m arbitrary: p)
  case Nil
  then show ?case by (simp add: ret_run)
next
  case (Cons a m)
  obtain k q where a: "a = (k, q)" by fastforce
  then have "map_of (busy p) k = Some q" using Cons.prems(3) by simp
  moreover obtain ts where "q = Some ts"
    using calculation Cons.prems(1) by (cases q) (auto simp: queues_ok_def no_null_def)
  ultimately obtain p1 where p1: "clear_queue fac k (\<lambda>ts p. p\<lparr>busy := smap_put k (Some ts) (busy p)\<rparr>) ts p = (Inr (), p1)"
    "queues_ok p1" "map_of (busy p1) = (map_of (busy p))(k \<mapsto> Some [])" "idle p1 = idle p"
    using clear_busy_queue [of p k ts] Cons.prems(1) by auto
  have "\<forall>(k, q) \<in> set m. map_of (busy p1) k = Some q"
    using Cons.prems(2,3) a p1(3) by (force split: prod.splits)
  with Cons.IH [OF p1(2)] Cons.prems(2) p1(1,4) show ?case
    by (auto simp: a \<open>q = Some ts\<close> seq_run)
qed

lemma map_of_self: "smap_ok m \<Longrightarrow> \<forall>(k, q) \<in> set m. map_of m k = Some q"
  by (auto simp: smap_ok_distinct)

lemma pool_clear_ok:
  assumes "queues_ok p"
  shows "\<exists>p'. pool_clear fac p = (Inr (), p') \<and> idle p' = [] \<and> busy p' = [] \<and> totalIdle p' = 0 \<and> totalActive p' = 0
     \<and> pool_ok cfg 0 {#} p'"
proof -
  obtain p1 where p1: "for_each (idle p) (\<lambda>(key, q). case q of None \<Rightarrow> ret ()
        | Some ts \<Rightarrow> clear_queue fac key (\<lambda>ts p. p\<lparr>idle := smap_put key (Some ts) (idle p)\<rparr>) ts) p = (Inr (), p1)"
    "queues_ok p1" "busy p1 = busy p"
    using clear_idle_all [OF assms, of "idle p"] assms map_of_self [of "idle p"] smap_ok_distinct [of "idle p"]
    by (auto simp: queues_ok_def)
  let ?p1 = "p1\<lparr>idle := []\<rparr>"
  have "objs (busy p1) \<subseteq># objs (idle p1) + objs (busy p1)" by simp
  then have q1: "queues_ok ?p1"
    using p1(2) by (auto simp: queues_ok_def smap_ok_def no_null_def elim: owned_mono)
  obtain p2 where p2: "for_each (busy p1) (\<lambda>(key, q). case q of None \<Rightarrow> ret ()
        | Some ts \<Rightarrow> clear_queue fac key (\<lambda>ts p. p\<lparr>busy := smap_put key (Some ts) (busy p)\<rparr>) ts) ?p1 = (Inr (), p2)"
    "idle p2 = []"
    using clear_busy_all [OF q1, of "busy p1"] q1 map_of_self [of "busy p1"] smap_ok_distinct [of "busy p1"]
    by (auto simp: queues_ok_def)
  have "pool_clear fac p = (Inr (), p2\<lparr>busy := [], totalIdle := 0, totalActive := 0\<rparr>)"
    using p1(1) p2(1) by (simp add: pool_clear_def clear_idle_map_def clear_busy_map_def sm_simps)
  then show ?thesis using p2(2) by (auto simp: pool_ok_def pool_struct_def smap_ok_def no_null_def)
qed

end

end
