(* ===== verification/HR_Stream.thy ===== *)
theory HR_Stream
  imports HR_Prelude
begin

text \<open>
  The byte streams of a connection: \<open>sys/posix/Socket.cpp\<close> (\<open>Socket::read\<close>, \<open>Socket::write\<close>)
  and the buffered streams of \<open>impl/transport/tcp/Socket.cpp\<close>. The operating system's \<open>recv\<close>
  and \<open>send\<close> are parameters: functions of the kernel's state \<open>'k\<close>. What the client relies
  on is the predicate \<open>recv_ok\<close>.

  \<open>stream_read\<close> is the specification of an input stream, a list of bytes consumed from the
  front; the theories above this one use it, and \<open>input_read_refines\<close> shows that
  \<open>InputStream::read\<close> implements it, however the kernel cuts the stream into pieces.
\<close>

section \<open>The socket\<close>

datatype recv_result = Received bytes | RecvError int

type_synonym 'k recv_fn = "nat \<Rightarrow> 'k \<Rightarrow> recv_result \<times> 'k"
type_synonym 'k send_fn = "bytes \<Rightarrow> 'k \<Rightarrow> int \<times> 'k"

definition EINTR :: int where "EINTR = 4"
definition EAGAIN :: int where "EAGAIN = 11"

record 'k istream =
  ibuffer :: bytes
  iptr :: nat
  icapacity :: nat
  ihasMore :: bool
  shost :: string
  sport :: int
  kern :: 'k

definition BufferSize :: nat where "BufferSize = 1024"

definition throwIOErr :: "'k istream \<Rightarrow> string \<Rightarrow> exn" where
  "throwIOErr s msg = TransportException (shost s) (sport s) msg"

text \<open>\<open>recv\<close> failed with \<open>errno = n\<close>.\<close>

definition recv_failed :: "int \<Rightarrow> ('k istream, bytes) sm" where
  "recv_failed n = (\<lambda>s. if n = EAGAIN then (Inl (throwIOErr s ''timeout''), s)
                        else (Inl (throwIOErr s ''read''), s))"

definition socket_read :: "'k recv_fn \<Rightarrow> nat \<Rightarrow> ('k istream, bytes) sm" where
  "socket_read recv len = (\<lambda>s.
     case recv len (kern s) of
       (Received d, k) \<Rightarrow>
         if d \<noteq> [] then (Inr d, s\<lparr>kern := k\<rparr>)
         else (Inl (throwIOErr s ''no read''), s\<lparr>kern := k\<rparr>)
     | (RecvError n, k) \<Rightarrow>
         if n = EINTR then
           (case recv len k of
              (Received d, k') \<Rightarrow>
                if d \<noteq> [] then (Inr d, s\<lparr>kern := k'\<rparr>)
                else (Inl (throwIOErr s ''no read''), s\<lparr>kern := k'\<rparr>)
            | (RecvError n', k') \<Rightarrow> recv_failed n' (s\<lparr>kern := k'\<rparr>))
         else recv_failed n (s\<lparr>kern := k\<rparr>))"

definition socket_write :: "'k send_fn \<Rightarrow> bytes \<Rightarrow> ('k istream, unit) sm" where
  "socket_write snd_fn p = (\<lambda>s.
     case snd_fn p (kern s) of (n, k) \<Rightarrow>
       if n = -1 then (Inl (throwIOErr s ''write''), s\<lparr>kern := k\<rparr>)
       else if n \<noteq> int (length p) then (Inl (throwIOErr s ''write error''), s\<lparr>kern := k\<rparr>)
       else (Inr (), s\<lparr>kern := k\<rparr>))"

section \<open>The buffered input stream\<close>

text \<open>The bytes \<open>[ptr, ptr + capacity)\<close> of the buffer.\<close>

definition buffered :: "'k istream \<Rightarrow> bytes" where
  "buffered s = take (icapacity s) (drop (iptr s) (ibuffer s))"

text \<open>A successful \<open>socket.read(&buffer[0], n)\<close> and the three assignments after it.\<close>

definition refill :: "bytes \<Rightarrow> 'k istream \<Rightarrow> 'k istream" where
  "refill d s = s\<lparr>ibuffer := d @ drop (length d) (ibuffer s), icapacity := length d, iptr := 0,
                 ihasMore := \<not> length d < BufferSize\<rparr>"

lemma icapacity_refill [simp]: "icapacity (refill d s) = length d"
  by (simp add: refill_def)

lemma socket_read_nonempty: "socket_read recv n s = (Inr d, s') \<Longrightarrow> d \<noteq> []"
  by (auto simp: socket_read_def recv_failed_def split: prod.splits recv_result.splits if_splits)

text \<open>
  \<open>InputStream::read(char*, size_t)\<close>. \<open>acc\<close> is what has been copied to the caller's buffer.
  When \<open>socket.read\<close> throws, neither \<open>capacity\<close> nor \<open>ptr\<close> has been assigned.
\<close>

function input_read_loop :: "'k recv_fn \<Rightarrow> nat \<Rightarrow> bytes \<Rightarrow> ('k istream, bytes) sm" where
  "input_read_loop recv sz acc s =
     (if icapacity s < sz then
        (let acc' = (if icapacity s \<noteq> 0 then acc @ buffered s else acc);
             sz' = (if icapacity s \<noteq> 0 then sz - icapacity s else sz)
         in case socket_read recv (if sz' < BufferSize then sz' else BufferSize) s of
              (Inl e, s') \<Rightarrow> (Inl e, s')
            | (Inr d, s') \<Rightarrow> input_read_loop recv sz' acc' (refill d s'))
      else (Inr (acc @ take sz (drop (iptr s) (ibuffer s))),
            s\<lparr>iptr := iptr s + sz, icapacity := icapacity s - sz\<rparr>))"
  by pat_completeness auto

termination
proof (relation "measure (\<lambda>(recv, sz, acc, s). 2 * sz + (if icapacity s = 0 then 1 else 0))")
  show "wf (measure (\<lambda>(recv :: 'k recv_fn, sz, acc :: bytes, s :: 'k istream).
    2 * sz + (if icapacity s = 0 then 1 else 0)))" by simp
qed (auto dest: socket_read_nonempty [OF sym] split: if_splits)

declare input_read_loop.simps [simp del]

definition input_read :: "'k recv_fn \<Rightarrow> nat \<Rightarrow> ('k istream, bytes) sm" where
  "input_read recv sz = input_read_loop recv sz []"

text \<open>\<open>InputStream::read()\<close>.\<close>

definition input_read1 :: "'k recv_fn \<Rightarrow> ('k istream, byte) sm" where
  "input_read1 recv = bind (input_read recv 1) (\<lambda>bs. ret (hd bs))"

section \<open>The buffered output stream\<close>

record 'k ostream =
  obuf :: bytes
  osock :: "'k istream"

definition output_write :: "bytes \<Rightarrow> ('k ostream, unit) sm" where
  "output_write p = modify (\<lambda>s. s\<lparr>obuf := obuf s @ p\<rparr>)"

definition output_write1 :: "byte \<Rightarrow> ('k ostream, unit) sm" where
  "output_write1 c = modify (\<lambda>s. s\<lparr>obuf := obuf s @ [c]\<rparr>)"

definition output_flush :: "'k send_fn \<Rightarrow> ('k ostream, unit) sm" where
  "output_flush snd_fn = (\<lambda>s.
     seq (on_part osock (\<lambda>k s. s\<lparr>osock := k\<rparr>) (socket_write snd_fn (obuf s)))
         (modify (\<lambda>s. s\<lparr>obuf := []\<rparr>)) s)"

section \<open>Specification and refinement\<close>

record rstream =
  rhost :: string
  rport :: int
  pending :: bytes

definition stream_read :: "nat \<Rightarrow> (rstream, bytes) sm" where
  "stream_read n = (\<lambda>s.
     if n \<le> length (pending s) then (Inr (take n (pending s)), s\<lparr>pending := drop n (pending s)\<rparr>)
     else (Inl (TransportException (rhost s) (rport s) ''no read''), s\<lparr>pending := []\<rparr>))"

text \<open>
  The documented behaviour of \<open>recv\<close> on a connection that delivers the stream \<open>strm k\<close>: it
  returns at most the requested number of bytes from the front of what is left, and nothing
  only when nothing is left.
\<close>

definition recv_ok :: "'k recv_fn \<Rightarrow> ('k \<Rightarrow> bytes) \<Rightarrow> bool" where
  "recv_ok recv strm \<longleftrightarrow> (\<forall>len k. 0 < len \<longrightarrow>
     (\<exists>d k'. recv len k = (Received d, k') \<and> length d \<le> len \<and> strm k = d @ strm k' \<and>
             (d = [] \<longrightarrow> strm k = [])))"

definition istream_wf :: "'k istream \<Rightarrow> bool" where
  "istream_wf s \<longleftrightarrow> length (ibuffer s) = BufferSize \<and> iptr s + icapacity s \<le> BufferSize"

definition content :: "('k \<Rightarrow> bytes) \<Rightarrow> 'k istream \<Rightarrow> bytes" where
  "content strm s = buffered s @ strm (kern s)"

definition abs_stream :: "('k \<Rightarrow> bytes) \<Rightarrow> 'k istream \<Rightarrow> rstream" where
  "abs_stream strm s = \<lparr>rhost = shost s, rport = sport s, pending = content strm s\<rparr>"

lemma length_buffered: "istream_wf s \<Longrightarrow> length (buffered s) = icapacity s"
  by (auto simp: istream_wf_def buffered_def)

lemma buffered_refill [simp]: "buffered (refill d s) = d"
  by (simp add: buffered_def refill_def)

lemma refill_frame [simp]:
  "kern (refill d s) = kern s" "shost (refill d s) = shost s" "sport (refill d s) = sport s"
  by (simp_all add: refill_def)

lemma istream_wf_refill: "istream_wf s \<Longrightarrow> length d \<le> BufferSize \<Longrightarrow> istream_wf (refill d s)"
  by (auto simp: istream_wf_def refill_def)

lemma istream_wf_kern [simp]: "istream_wf (s\<lparr>kern := k\<rparr>) = istream_wf s"
  by (simp add: istream_wf_def)

text \<open>One refill: data arrives if the stream has any, and the stream ends otherwise.\<close>

lemma socket_read_cases:
  assumes "recv_ok recv strm" and "0 < n"
  obtains (data) d k' where "socket_read recv n s = (Inr d, s\<lparr>kern := k'\<rparr>)"
      "d \<noteq> []" "length d \<le> n" "strm (kern s) = d @ strm k'"
  | (eof) k' where "socket_read recv n s = (Inl (throwIOErr s ''no read''), s\<lparr>kern := k'\<rparr>)"
      "strm (kern s) = []" "strm k' = []"
proof -
  obtain d k' where r: "recv n (kern s) = (Received d, k')" "length d \<le> n"
      "strm (kern s) = d @ strm k'" "d = [] \<longrightarrow> strm (kern s) = []"
    using assms unfolding recv_ok_def by blast
  show ?thesis
    by (cases "d = []") (use r in \<open>auto simp: socket_read_def intro: data eof\<close>)
qed


text \<open>The last copy: enough bytes are in the buffer.\<close>

lemma input_read_loop_done:
  assumes "istream_wf s" and "\<not> icapacity s < sz"
  shows "\<exists>s'. input_read_loop recv sz acc s = (Inr (acc @ take sz (content strm s)), s') \<and>
     istream_wf s' \<and> abs_stream strm s' = (abs_stream strm s)\<lparr>pending := drop sz (content strm s)\<rparr>"
proof -
  let ?s' = "s\<lparr>iptr := iptr s + sz, icapacity := icapacity s - sz\<rparr>"
  have run: "input_read_loop recv sz acc s =
      (Inr (acc @ take sz (drop (iptr s) (ibuffer s))), ?s')"
    using assms(2) by (subst input_read_loop.simps) simp
  have tk: "take sz (content strm s) = take sz (drop (iptr s) (ibuffer s))"
    using assms length_buffered [OF assms(1)]
    by (simp add: content_def) (simp add: buffered_def min_def)
  have "buffered ?s' = drop sz (buffered s)"
    by (simp add: buffered_def drop_take add.commute)
  then have "content strm ?s' = drop sz (content strm s)"
    using assms length_buffered [OF assms(1)] by (simp add: content_def)
  moreover have "istream_wf ?s'"
    using assms by (auto simp: istream_wf_def)
  ultimately show ?thesis
    using run tk by (simp add: abs_stream_def)
qed

text \<open>
  One turn of the loop: either the stream ends, or the loop goes on with the bytes it copied,
  the same content ahead of it, and a smaller request.
\<close>

lemma input_read_loop_step:
  assumes ok: "recv_ok recv strm" and wf: "istream_wf s" and more: "icapacity s < sz"
  obtains (eof) s' where "content strm s = buffered s"
      "input_read_loop recv sz acc s = (Inl (throwIOErr s ''no read''), s')"
  | (data) d k' where "d \<noteq> []"
      "input_read_loop recv sz acc s =
         input_read_loop recv (sz - icapacity s) (acc @ buffered s) (refill d (s\<lparr>kern := k'\<rparr>))"
      "istream_wf (refill d (s\<lparr>kern := k'\<rparr>))"
      "content strm s = buffered s @ content strm (refill d (s\<lparr>kern := k'\<rparr>))"
proof -
  let ?n = "if sz - icapacity s < BufferSize then sz - icapacity s else BufferSize"
  have acc: "(if icapacity s \<noteq> 0 then acc @ buffered s else acc) = acc @ buffered s"
    by (simp add: buffered_def)
  have sz: "(if icapacity s \<noteq> 0 then sz - icapacity s else sz) = sz - icapacity s"
    by simp
  have pos: "0 < ?n" using more by (simp add: BufferSize_def)
  have le: "?n \<le> BufferSize" by simp
  note unfold = input_read_loop.simps [of recv sz acc s]
  from ok pos show ?thesis
  proof (cases rule: socket_read_cases [of recv strm ?n s])
    case (data d k')
    then have "length d \<le> BufferSize" using le by linarith
    with wf have "istream_wf (refill d (s\<lparr>kern := k'\<rparr>))"
      by (simp add: istream_wf_refill)
    moreover have "input_read_loop recv sz acc s =
        input_read_loop recv (sz - icapacity s) (acc @ buffered s) (refill d (s\<lparr>kern := k'\<rparr>))"
      using data more by (simp only: unfold acc sz Let_def if_True) simp
    ultimately show ?thesis
      using data by (intro that(2)) (simp_all add: content_def)
  next
    case (eof k')
    then have "input_read_loop recv sz acc s = (Inl (throwIOErr s ''no read''), s\<lparr>kern := k'\<rparr>)"
      using more by (simp only: unfold acc sz Let_def if_True) simp
    with eof show ?thesis by (intro that(1)) (simp_all add: content_def)
  qed
qed

lemma input_read_loop_enough:
  assumes "recv_ok recv strm" and "istream_wf s" and "sz \<le> length (content strm s)"
  shows "\<exists>s'. input_read_loop recv sz acc s = (Inr (acc @ take sz (content strm s)), s') \<and>
     istream_wf s' \<and> abs_stream strm s' = (abs_stream strm s)\<lparr>pending := drop sz (content strm s)\<rparr>"
  using assms(2,3)
proof (induction "2 * sz + (if icapacity s = 0 then 1 else 0)" arbitrary: sz acc s
    rule: less_induct)
  case less
  show ?case
  proof (cases "icapacity s < sz")
    case False
    with less.prems show ?thesis by (intro input_read_loop_done)
  next
    case True
    note len = length_buffered [OF less.prems(1)]
    from assms(1) less.prems(1) True show ?thesis
    proof (cases rule: input_read_loop_step [where acc = acc])
      case (eof s')
      with less.prems(2) True len show ?thesis by simp
    next
      case (data d k')
      let ?s = "refill d (s\<lparr>kern := k'\<rparr>)" and ?sz = "sz - icapacity s"
      have "2 * ?sz + (if icapacity ?s = 0 then 1 else 0)
          < 2 * sz + (if icapacity s = 0 then 1 else 0)"
        using data(1) True by simp
      moreover have "?sz \<le> length (content strm ?s)"
        using less.prems(2) data(4) len by simp
      ultimately obtain s' where "input_read_loop recv ?sz (acc @ buffered s) ?s =
          (Inr ((acc @ buffered s) @ take ?sz (content strm ?s)), s')" "istream_wf s'"
          "abs_stream strm s' = (abs_stream strm ?s)\<lparr>pending := drop ?sz (content strm ?s)\<rparr>"
        using less.hyps data(3) by blast
      with data(2,4) True len show ?thesis
        by (auto simp: abs_stream_def)
    qed
  qed
qed

lemma input_read_loop_short:
  assumes "recv_ok recv strm" and "istream_wf s" and "length (content strm s) < sz"
  shows "\<exists>s'. input_read_loop recv sz acc s =
     (Inl (TransportException (shost s) (sport s) ''no read''), s')"
  using assms(2,3)
proof (induction "2 * sz + (if icapacity s = 0 then 1 else 0)" arbitrary: sz acc s
    rule: less_induct)
  case less
  note len = length_buffered [OF less.prems(1)]
  from less.prems(2) len have more: "icapacity s < sz" by (simp add: content_def)
  from assms(1) less.prems(1) more show ?case
  proof (cases rule: input_read_loop_step [where acc = acc])
    case (eof s')
    then show ?thesis by (simp add: throwIOErr_def)
  next
    case (data d k')
    let ?s = "refill d (s\<lparr>kern := k'\<rparr>)" and ?sz = "sz - icapacity s"
    have "2 * ?sz + (if icapacity ?s = 0 then 1 else 0)
        < 2 * sz + (if icapacity s = 0 then 1 else 0)"
      using data(1) more by simp
    moreover have "length (content strm ?s) < ?sz"
      using less.prems(2) data(4) len by simp
    ultimately show ?thesis
      using less.hyps [of ?sz ?s "acc @ buffered s"] data(2,3) by simp
  qed
qed

text \<open>
  C37. \<open>InputStream::read\<close> implements the specification \<open>stream_read\<close>: for every way the kernel
  cuts the stream into pieces, a request for \<open>n\<close> bytes returns exactly the next \<open>n\<close> bytes and
  leaves the rest of the stream in place, and it throws the \<open>TransportException\<close> of the
  connection exactly when fewer than \<open>n\<close> bytes are left.
\<close>

theorem input_read_refines:
  assumes "recv_ok recv strm" and "istream_wf s"
  shows "fst (input_read recv n s) = fst (stream_read n (abs_stream strm s)) \<and>
     (n \<le> length (content strm s) \<longrightarrow>
        istream_wf (snd (input_read recv n s)) \<and>
        abs_stream strm (snd (input_read recv n s)) = snd (stream_read n (abs_stream strm s)))"
proof (cases "n \<le> length (content strm s)")
  case True
  with assms obtain s' where "input_read_loop recv n [] s = (Inr ([] @ take n (content strm s)), s')"
      "istream_wf s'" "abs_stream strm s' = (abs_stream strm s)\<lparr>pending := drop n (content strm s)\<rparr>"
    using input_read_loop_enough by blast
  with True show ?thesis
    by (simp add: input_read_def stream_read_def abs_stream_def)
next
  case False
  with assms obtain s' where "input_read_loop recv n [] s =
      (Inl (TransportException (shost s) (sport s) ''no read''), s')"
    using input_read_loop_short [of recv strm s n] by force
  with False show ?thesis
    by (simp add: input_read_def stream_read_def abs_stream_def)
qed

text \<open>
  A kernel that delivers its stream two bytes at a time. It satisfies the documented behaviour
  of \<open>recv\<close>, so the theorem applies to it.
\<close>

definition recv2 :: "bytes recv_fn" where
  "recv2 len k = (Received (take (min 2 len) k), drop (min 2 len) k)"

lemma recv2_ok: "recv_ok recv2 (\<lambda>k. k)"
  by (auto simp: recv_ok_def recv2_def)

definition istream_ex :: "bytes istream" where
  "istream_ex = \<lparr>ibuffer = replicate 1024 0, iptr = 0, icapacity = 0, ihasMore = True,
     shost = ''h'', sport = 11222, kern = [1, 2, 3, 4, 5]\<rparr>"

lemma istream_ex_wf: "istream_wf istream_ex"
  by (simp add: istream_wf_def istream_ex_def BufferSize_def)

theorem input_read_refines_witness:
  "recv_ok recv2 (\<lambda>k. k) \<and> istream_wf istream_ex \<and>
   fst (input_read recv2 3 istream_ex) = Inr [1, 2, 3] \<and>
   fst (input_read recv2 6 istream_ex) = Inl (TransportException ''h'' 11222 ''no read'')"
  using input_read_refines [OF recv2_ok istream_ex_wf, of 3]
    input_read_refines [OF recv2_ok istream_ex_wf, of 6] recv2_ok istream_ex_wf
  by (simp add: stream_read_def abs_stream_def content_def istream_ex_def buffered_def
      numeral_eq_Suc)

text \<open>
  A flush sends what has been written since the last flush, in order, and nothing else:
  writing \<open>p\<close> and then \<open>q\<close> and flushing hands \<open>p @ q\<close> (after what was pending) to the socket,
  and the buffer is empty afterwards when the kernel accepted all of it. When the kernel does
  not, the \<open>TransportException\<close> of the connection is thrown and the buffer keeps the bytes.
\<close>

theorem output_flush_sends:
  "seq (output_write p) (seq (output_write q) (output_flush snd_fn)) s =
     (let whole = obuf s @ p @ q; (n, k) = snd_fn whole (kern (osock s));
          sock = (osock s)\<lparr>kern := k\<rparr>
      in if n = int (length whole) then (Inr (), \<lparr>obuf = [], osock = sock\<rparr>)
         else (Inl (TransportException (shost sock) (sport sock)
                      (if n = -1 then ''write'' else ''write error'')),
               \<lparr>obuf = whole, osock = sock\<rparr>))"
  by (auto simp: output_write_def output_flush_def socket_write_def throwIOErr_def sm_simps Let_def
      split: prod.splits)

end
