(* ===== verification/HR_Wire.thy ===== *)
theory HR_Wire
  imports HR_Stream
begin

text \<open>
  The encodings of the Hot Rod wire format: \<open>TcpTransport.cpp\<close> (bytes, variable length
  integers) and \<open>AbstractTransport.cpp\<close> (arrays, strings, fixed width integers).

  A \<open>write\<close> function is modelled by the bytes it appends to the output stream, a \<open>read\<close>
  function by an \<open>(rstream, 'a) sm\<close> on the input stream. The locale \<open>wire_codec\<close> is the
  contract between the two; its interpretations cover every pair the client has, and the
  lemmas inside it (injectivity, prefix freedom, round trip of sequences) then hold for all
  of them.
\<close>

section \<open>Writing\<close>

definition writeByte :: "byte \<Rightarrow> bytes" where
  "writeByte c = [c]"

text \<open>\<open>while ((uint & ~0x7F) != 0) { write((uint & 0x7f) | 0x80); uint >>= 7; } write(uint)\<close>\<close>

function write_varint :: "'a::len word \<Rightarrow> bytes" where
  "write_varint v =
     (if v AND NOT 0x7F \<noteq> 0
      then (ucast (v AND 0x7F) OR 0x80) # write_varint (drop_bit 7 v)
      else [ucast v])"
  by pat_completeness auto

lemma and_not_mask_eq_0: "v AND NOT (mask n) = 0 \<longleftrightarrow> unat v < 2 ^ n" for v :: "'a::len word"
proof -
  have "v AND NOT (mask n) = 0 \<longleftrightarrow> take_bit n v = v"
    by (auto simp: bit_eq_iff bit_simps)
  then show ?thesis
    by (simp add: take_bit_eq_self_iff_drop_bit_eq_0 drop_bit_eq_0_iff_lt)
qed

lemma and_not_0x7F_eq_0: "v AND NOT 0x7F = 0 \<longleftrightarrow> unat v < 128" for v :: "'a::len word"
  using and_not_mask_eq_0 [of v 7] by (simp add: mask_eq_exp_minus_1)

termination write_varint
proof (relation "measure unat")
  fix v :: "'a::len word"
  assume "v AND NOT 0x7F \<noteq> 0"
  then have "128 \<le> unat v" using and_not_0x7F_eq_0 [of v] by linarith
  moreover have "unat (drop_bit 7 v) = unat v div 128"
    by (simp only: unat_drop_bit_eq) (simp add: drop_bit_eq_div)
  ultimately show "(drop_bit 7 v, v) \<in> measure unat"
    by simp
qed simp

declare write_varint.simps [simp del]

definition writeVInt :: "u32 \<Rightarrow> bytes" where
  "writeVInt v = write_varint v"

definition writeVLong :: "u64 \<Rightarrow> bytes" where
  "writeVLong v = write_varint v"

text \<open>The size is cast to \<open>uint32_t\<close>; the bytes themselves are written in full.\<close>

definition writeArray :: "bytes \<Rightarrow> bytes" where
  "writeArray bs = writeVInt (of_nat (length bs)) @ bs"

definition writeString :: "bytes \<Rightarrow> bytes" where
  "writeString str = writeVInt (of_nat (length str)) @ str"

text \<open>\<open>ptr[7-i] = (char) (longValue >> (8*i))\<close> for \<open>i = 0..7\<close>.\<close>

definition writeLong :: "u64 \<Rightarrow> bytes" where
  "writeLong v = map (\<lambda>j. ucast (drop_bit (8 * (7 - j)) v)) [0..<8]"

section \<open>Reading\<close>

definition readByte :: "(rstream, byte) sm" where
  "readByte = bind (stream_read 1) (\<lambda>bs. ret (hd bs))"

definition readBytes :: "nat \<Rightarrow> (rstream, bytes) sm" where
  "readBytes n = (if n \<noteq> 0 then stream_read n else ret [])"

lemma readByte_cases:
  "readByte s = (case pending s of
      [] \<Rightarrow> (Inl (TransportException (rhost s) (rport s) ''no read''), s)
    | b # bs \<Rightarrow> (Inr b, s\<lparr>pending := bs\<rparr>))"
  by (cases "pending s") (auto simp: readByte_def stream_read_def sm_simps)

text \<open>
  \<open>i |= (b & 0x7FL) << shift\<close>: the mask makes the operand a 64-bit \<open>long\<close>; a shift by 64 or
  more is undefined. The result is truncated to the width of \<open>i\<close>.
\<close>

function read_varint_loop :: "nat \<Rightarrow> 'a::len word \<Rightarrow> byte \<Rightarrow> (rstream, 'a word) sm" where
  "read_varint_loop shift i b s =
     (if b AND 0x80 \<noteq> 0 then
        (case readByte s of
           (Inl e, s') \<Rightarrow> (Inl e, s')
         | (Inr b', s') \<Rightarrow>
             if 64 \<le> shift then (Inl (UndefinedBehaviour ''shift''), s')
             else read_varint_loop (shift + 7)
                    (i OR ucast (push_bit shift (ucast (b' AND 0x7F) :: u64))) b' s')
      else (Inr i, s))"
  by pat_completeness auto

termination read_varint_loop
  by (relation "measure (\<lambda>(shift, i, b, s). length (pending s))")
     (auto simp: readByte_cases split: list.splits)

declare read_varint_loop.simps [simp del]

definition read_varint :: "(rstream, 'a::len word) sm" where
  "read_varint = bind readByte (\<lambda>b. read_varint_loop 7 (ucast (b AND 0x7F)) b)"

definition readVInt :: "(rstream, u32) sm" where
  "readVInt = read_varint"

definition readVLong :: "(rstream, u64) sm" where
  "readVLong = read_varint"

definition readArray :: "(rstream, bytes) sm" where
  "readArray = bind readVInt (\<lambda>n. readBytes (unat n))"

definition readString :: "(rstream, bytes) sm" where
  "readString = readArray"

text \<open>\<open>result <<= 8; result ^= (int64_t) byte & 0xFF\<close>, from the first byte to the last.\<close>

definition be_fold :: "bytes \<Rightarrow> 'a::len word" where
  "be_fold bs = fold (\<lambda>b r. push_bit 8 r XOR ucast b) bs 0"

definition readLong :: "(rstream, u64) sm" where
  "readLong = bind (readBytes 8) (\<lambda>bs. ret (be_fold bs))"

definition readUnsignedShort :: "(rstream, u16) sm" where
  "readUnsignedShort = bind (readBytes 2) (\<lambda>bs. ret (be_fold bs))"

text \<open>\<open>result = (result << 8) + readByte()\<close>, four times.\<close>

definition read4ByteInt :: "(rstream, u32) sm" where
  "read4ByteInt = bind (repeat_sm 4 readByte)
     (\<lambda>bs. ret (fold (\<lambda>b r. push_bit 8 r + ucast b) bs 0))"

text \<open>A counted loop over a reader takes the encodings of a list one after the other.\<close>

lemma repeat_sm_enc:
  assumes "\<And>x s rest. x \<in> set xs \<Longrightarrow> pending s = enc x @ rest
      \<Longrightarrow> dec s = (Inr (f x), s\<lparr>pending := rest\<rparr>)"
    and "pending s = concat (map enc xs) @ rest"
  shows "repeat_sm (length xs) dec s = (Inr (map f xs), s\<lparr>pending := rest\<rparr>)"
  using assms
proof (induction xs arbitrary: s)
  case Nil
  then show ?case by (simp add: ret_run)
next
  case (Cons x xs)
  have "dec s = (Inr (f x), s\<lparr>pending := concat (map enc xs) @ rest\<rparr>)"
    using Cons.prems by (intro Cons.prems(1)) simp_all
  moreover have "repeat_sm (length xs) dec (s\<lparr>pending := concat (map enc xs) @ rest\<rparr>)
      = (Inr (map f xs), s\<lparr>pending := rest\<rparr>)"
    using Cons.IH [of "s\<lparr>pending := concat (map enc xs) @ rest\<rparr>"] Cons.prems by simp
  ultimately show ?case by (simp add: ret_run)
qed

section \<open>The contract of an encoding\<close>

text \<open>
  \<open>enc\<close> is what the writer appends, \<open>dec\<close> the reader, \<open>ok\<close> the values the writer accepts.
  Reading where the writer's bytes start gives the value back and stops right after them.
\<close>

locale wire_codec =
  fixes enc :: "'a \<Rightarrow> bytes"
    and dec :: "(rstream, 'a) sm"
    and ok :: "'a \<Rightarrow> bool"
  assumes dec_enc: "ok x \<Longrightarrow> pending s = enc x @ rest \<Longrightarrow> dec s = (Inr x, s\<lparr>pending := rest\<rparr>)"
begin

lemma prefix_free:
  assumes "ok x" "ok y" "enc x @ xs = enc y @ ys"
  shows "x = y \<and> xs = ys"
proof -
  let ?s = "\<lparr>rhost = [], rport = 0, pending = enc x @ xs\<rparr>"
  have "dec ?s = (Inr x, ?s\<lparr>pending := xs\<rparr>)" using assms by (intro dec_enc) simp_all
  moreover have "dec ?s = (Inr y, ?s\<lparr>pending := ys\<rparr>)" using assms by (intro dec_enc) simp_all
  ultimately show ?thesis by simp
qed

lemma enc_inj: "ok x \<Longrightarrow> ok y \<Longrightarrow> enc x = enc y \<Longrightarrow> x = y"
  using prefix_free [of x y "[]" "[]"] by simp

lemma dec_repeat:
  assumes "list_all ok xs" and "pending s = concat (map enc xs) @ rest"
  shows "repeat_sm (length xs) dec s = (Inr xs, s\<lparr>pending := rest\<rparr>)"
  using repeat_sm_enc [of xs enc dec id s rest] assms by (auto simp: list_all_iff dec_enc)

end

text \<open>Two encodings one after the other are again an encoding.\<close>

locale wire_pair = a: wire_codec enca deca oka + b: wire_codec encb decb okb
  for enca :: "'a \<Rightarrow> bytes" and deca :: "(rstream, 'a) sm" and oka :: "'a \<Rightarrow> bool"
    and encb :: "'b \<Rightarrow> bytes" and decb :: "(rstream, 'b) sm" and okb :: "'b \<Rightarrow> bool"
begin

lemma dec_pair:
  assumes "oka x" "okb y" "pending s = enca x @ encb y @ rest"
  shows "bind deca (\<lambda>x. bind decb (\<lambda>y. ret (x, y))) s = (Inr (x, y), s\<lparr>pending := rest\<rparr>)"
proof -
  have "deca s = (Inr x, s\<lparr>pending := encb y @ rest\<rparr>)"
    using assms by (intro a.dec_enc) simp_all
  moreover have "decb (s\<lparr>pending := encb y @ rest\<rparr>) = (Inr y, s\<lparr>pending := rest\<rparr>)"
    using b.dec_enc [of y "s\<lparr>pending := encb y @ rest\<rparr>" rest] assms by simp
  ultimately show ?thesis by (simp add: ret_run)
qed

end

sublocale wire_pair \<subseteq> pair: wire_codec "\<lambda>(x, y). enca x @ encb y"
    "bind deca (\<lambda>x. bind decb (\<lambda>y. ret (x, y)))" "\<lambda>(x, y). oka x \<and> okb y"
  by unfold_locales (auto intro: dec_pair)

section \<open>Round trips\<close>

lemma readByte_Cons: "pending s = b # rest \<Longrightarrow> readByte s = (Inr b, s\<lparr>pending := rest\<rparr>)"
  by (simp add: readByte_cases)

lemma readBytes_append:
  "pending s = bs @ rest \<Longrightarrow> length bs = n \<Longrightarrow> readBytes n s = (Inr bs, s\<lparr>pending := rest\<rparr>)"
  by (auto simp: readBytes_def stream_read_def ret_run)

interpretation byte_codec: wire_codec writeByte readByte "\<lambda>_. True"
  by unfold_locales (simp add: writeByte_def readByte_Cons)

text \<open>The last byte of an encoding has its top bit clear, the others have it set.\<close>

lemma varint_last: "unat v < 128 \<Longrightarrow> write_varint v = [ucast v]"
  using and_not_0x7F_eq_0 [of v] by (subst write_varint.simps) simp

lemma varint_more:
  "128 \<le> unat v \<Longrightarrow>
   write_varint v = (ucast (v AND 0x7F) OR 0x80) # write_varint (drop_bit 7 v)"
  using and_not_0x7F_eq_0 [of v] by (subst write_varint.simps) simp

lemma top_bit: "b AND 0x80 = 0 \<longleftrightarrow> \<not> bit b 7" for b :: byte
  using and_exp_eq_0_iff_not_bit [of b 7] by simp

lemma small_no_bits: "unat v < 128 \<Longrightarrow> bit v i \<Longrightarrow> i < 7" for v :: "'a::len word"
  using and_not_mask_eq_0 [of v 7] bit_imp_le_length [of v i]
  by (auto simp: bit_eq_iff bit_simps)

text \<open>What one byte of the encoding contributes to the value read.\<close>

lemma varint_chunk:
  fixes v :: "'a::len word"
  assumes "LENGTH('a) \<le> 64"
  shows "ucast (push_bit shift (ucast ((ucast (v AND 0x7F) OR 0x80 :: byte) AND 0x7F) :: u64))
     = push_bit shift (take_bit 7 v)"
  using assms by (auto simp: bit_eq_iff bit_simps and_0x7F)

lemma varint_chunk_last:
  fixes v :: "'a::len word"
  assumes "LENGTH('a) \<le> 64" and "unat v < 128"
  shows "ucast (push_bit shift (ucast ((ucast v :: byte) AND 0x7F) :: u64)) = push_bit shift v"
proof -
  have "k < 8" if "bit v k" for k
    using small_no_bits [OF assms(2) that] by simp
  then show ?thesis
    using assms small_no_bits [OF assms(2)] by (auto simp: bit_eq_iff bit_simps and_0x7F)
qed

lemma push_bit_split:
  "push_bit n (take_bit 7 v) OR push_bit (n + 7) (drop_bit 7 v) = push_bit n v"
    for v :: "'a::len word"
proof (rule bit_eqI)
  fix k
  show "bit (push_bit n (take_bit 7 v) OR push_bit (n + 7) (drop_bit 7 v)) k
      = bit (push_bit n v) k"
    by (cases "k - n < 7") (auto simp: bit_simps)
qed

lemma read_varint_loop_enc:
  fixes v acc :: "'a::len word"
  assumes "LENGTH('a) \<le> 64" and "bit b 7" and "shift < 64" and "unat v < 2 ^ (64 - shift)"
    and "pending s = write_varint v @ rest"
  shows "read_varint_loop shift acc b s = (Inr (acc OR push_bit shift v), s\<lparr>pending := rest\<rparr>)"
  using assms(2-)
proof (induction v arbitrary: acc b shift s rule: write_varint.induct)
  case (1 v)
  note step = read_varint_loop.simps [of shift acc b s]
  show ?case
  proof (cases "unat v < 128")
    case True
    have rd: "readByte s = (Inr (ucast v), s\<lparr>pending := rest\<rparr>)"
      using "1.prems"(4) True by (simp add: readByte_Cons varint_last)
    have "\<not> bit (ucast v :: byte) 7"
      using small_no_bits [OF True, of 7] by (auto simp: bit_simps)
    then show ?thesis
      using "1.prems"(1,2) rd varint_chunk_last [OF assms(1) True]
      by (simp add: step top_bit read_varint_loop.simps [of "shift + 7"])
  next
    case False
    let ?b = "ucast (v AND 0x7F) OR 0x80 :: byte" and ?v = "drop_bit 7 v"
    let ?s = "s\<lparr>pending := write_varint ?v @ rest\<rparr>"
    have rd: "readByte s = (Inr ?b, ?s)"
      using "1.prems"(4) False by (simp add: readByte_Cons varint_more)
    have "(2::nat) ^ 7 < 2 ^ (64 - shift)" using False "1.prems"(3) by simp
    then have "7 < 64 - shift" by (rule power_less_imp_less_exp [rotated]) simp
    then have shift: "shift + 7 < 64" by simp
    have "unat ?v = unat v div 2 ^ 7" by (simp only: unat_drop_bit_eq) (simp add: drop_bit_eq_div)
    moreover have "64 - shift = 7 + (64 - (shift + 7))" using shift by simp
    ultimately have small: "unat ?v < 2 ^ (64 - (shift + 7))"
      using "1.prems"(3) by (metis less_mult_imp_div_less mult.commute power_add)
    have top: "bit ?b 7" using top_bit [of ?b] by (auto simp: bit_simps)
    have "v AND NOT 0x7F \<noteq> 0" using False and_not_0x7F_eq_0 [of v] by simp
    from "1.IH" [OF this top shift small, of ?s] have
      "read_varint_loop (shift + 7) (acc OR push_bit shift (take_bit 7 v)) ?b ?s
        = (Inr ((acc OR push_bit shift (take_bit 7 v)) OR push_bit (shift + 7) ?v), s\<lparr>pending := rest\<rparr>)"
      by simp
    then show ?thesis
      using "1.prems"(1,2) rd varint_chunk [OF assms(1), of shift v]
      by (simp add: step top_bit or.assoc push_bit_split)
  qed
qed

lemma read_varint_enc:
  fixes v :: "'a::len word"
  assumes "LENGTH('a) \<le> 64" and "pending s = write_varint v @ rest"
  shows "read_varint s = (Inr v, s\<lparr>pending := rest\<rparr>)"
proof (cases "unat v < 128")
  case True
  have "\<not> bit (ucast v :: byte) 7"
    using small_no_bits [OF True, of 7] by (auto simp: bit_simps)
  moreover have "ucast ((ucast v :: byte) AND 0x7F) = v"
    using varint_chunk_last [OF assms(1) True, of 0] assms(1) by (auto simp: bit_eq_iff bit_simps)
  ultimately show ?thesis
    using assms(2) True
    by (simp add: read_varint_def readByte_Cons varint_last read_varint_loop.simps top_bit)
next
  case False
  let ?b = "ucast (v AND 0x7F) OR 0x80 :: byte" and ?v = "drop_bit 7 v"
  let ?s = "s\<lparr>pending := write_varint ?v @ rest\<rparr>"
  have rd: "readByte s = (Inr ?b, ?s)"
    using assms(2) False by (simp add: readByte_Cons varint_more)
  have top: "bit ?b 7" using top_bit [of ?b] by (auto simp: bit_simps)
  have "unat ?v = unat v div 2 ^ 7" by (simp only: unat_drop_bit_eq) (simp add: drop_bit_eq_div)
  moreover have "unat v < 2 ^ 64"
    by (rule order_less_le_trans [OF unsigned_less], rule power_increasing) (use assms(1) in simp_all)
  ultimately have small: "unat ?v < 2 ^ (64 - 7)" by simp
  have first: "ucast (?b AND 0x7F) = take_bit 7 v"
    using varint_chunk [OF assms(1), of 0 v] assms(1) by (auto simp: bit_eq_iff bit_simps)
  have "read_varint_loop 7 (take_bit 7 v) ?b ?s
      = (Inr (take_bit 7 v OR push_bit 7 ?v), s\<lparr>pending := rest\<rparr>)"
    using read_varint_loop_enc [OF assms(1) top _ small, of ?s rest "take_bit 7 v"] by simp
  then show ?thesis
    using push_bit_split [of 0 v] by (simp add: read_varint_def rd first)
qed

interpretation vint: wire_codec writeVInt readVInt "\<lambda>_. True"
  by unfold_locales (simp add: writeVInt_def readVInt_def read_varint_enc)

interpretation vlong: wire_codec writeVLong readVLong "\<lambda>_. True"
  by unfold_locales (simp add: writeVLong_def readVLong_def read_varint_enc)

lemma readArray_enc:
  assumes "length bs < 2 ^ 32" and "pending s = writeArray bs @ rest"
  shows "readArray s = (Inr bs, s\<lparr>pending := rest\<rparr>)"
proof -
  have "readVInt s = (Inr (of_nat (length bs)), s\<lparr>pending := bs @ rest\<rparr>)"
    using assms(2) by (intro vint.dec_enc) (simp_all add: writeArray_def)
  moreover have "unat (of_nat (length bs) :: u32) = length bs"
    using assms(1) by (simp add: unsigned_of_nat take_bit_nat_eq_self)
  ultimately show ?thesis
    by (simp add: readArray_def readBytes_append)
qed

interpretation array: wire_codec writeArray readArray "\<lambda>bs. length bs < 2 ^ 32"
  by unfold_locales (rule readArray_enc)

interpretation str: wire_codec writeString readString "\<lambda>bs. length bs < 2 ^ 32"
  by unfold_locales (simp add: readString_def readArray_enc writeString_def writeArray_def)

text \<open>Folding big endian bytes puts each byte at its place.\<close>

lemma be_fold_append: "be_fold (bs @ [b]) = push_bit 8 (be_fold bs) XOR ucast b"
  by (simp add: be_fold_def)

lemma be_fold_word:
  fixes v :: "'a::len word"
  assumes "8 * n \<le> LENGTH('a)"
  shows "be_fold (map (\<lambda>j. ucast (drop_bit (8 * (n - Suc j)) v)) [0..<n]) = take_bit (8 * n) v"
  using assms
proof (induction n arbitrary: v)
  case 0
  then show ?case by (simp add: be_fold_def)
next
  case (Suc n)
  have split: "map (\<lambda>j. ucast (drop_bit (8 * (Suc n - Suc j)) v) :: byte) [0..<Suc n]
      = map (\<lambda>j. ucast (drop_bit (8 * (n - Suc j)) (drop_bit 8 v))) [0..<n] @ [ucast v]"
    by (auto simp: drop_bit_drop_bit Suc_diff_Suc intro!: arg_cong [where f = ucast] arg_cong2 [where f = drop_bit])
  have IH: "be_fold (map (\<lambda>j. ucast (drop_bit (8 * (n - Suc j)) (drop_bit 8 v)) :: byte) [0..<n])
      = take_bit (8 * n) (drop_bit 8 v)"
    using Suc.prems by (intro Suc.IH) simp
  have "push_bit 8 (take_bit (8 * n) (drop_bit 8 v)) XOR ucast (ucast v :: byte)
      = take_bit (8 * Suc n) v"
  proof (rule bit_eqI)
    fix k
    show "bit (push_bit 8 (take_bit (8 * n) (drop_bit 8 v)) XOR ucast (ucast v :: byte)) k
        = bit (take_bit (8 * Suc n) v) k"
      by (cases "k < 8") (auto simp: bit_simps dest: bit_imp_le_length)
  qed
  with IH show ?case by (simp only: split be_fold_append)
qed

interpretation long: wire_codec writeLong readLong "\<lambda>_. True"
proof unfold_locales
  fix v :: u64 and s :: rstream and rest
  assume "pending s = writeLong v @ rest"
  moreover have "length (writeLong v) = 8" by (simp add: writeLong_def)
  ultimately have "readBytes 8 s = (Inr (writeLong v), s\<lparr>pending := rest\<rparr>)"
    by (rule readBytes_append)
  moreover have "be_fold (writeLong v) = v"
    using be_fold_word [of 8 v] by (simp add: writeLong_def take_bit_word_eq_self)
  ultimately show "readLong s = (Inr v, s\<lparr>pending := rest\<rparr>)"
    by (simp add: readLong_def ret_run)
qed

text \<open>The map entries of the bulk operations: a key and a value, both arrays.\<close>

interpretation entry: wire_pair writeArray readArray "\<lambda>bs. length bs < 2 ^ 32"
    writeArray readArray "\<lambda>bs. length bs < 2 ^ 32"
  by unfold_locales

section \<open>Properties\<close>

text \<open>
  C38. Every 32-bit value written by \<open>writeVInt\<close> and every 64-bit value written by
  \<open>writeVLong\<close> is read back unchanged by \<open>readVInt\<close> and \<open>readVLong\<close>, whatever follows it in
  the stream, and the reader stops exactly behind it.
\<close>

theorem varint_roundtrip:
  "readVInt \<lparr>rhost = h, rport = p, pending = writeVInt v @ rest\<rparr> =
     (Inr v, \<lparr>rhost = h, rport = p, pending = rest\<rparr>) \<and>
   readVLong \<lparr>rhost = h, rport = p, pending = writeVLong w @ rest\<rparr> =
     (Inr w, \<lparr>rhost = h, rport = p, pending = rest\<rparr>)"
  using vint.dec_enc [of "\<lparr>rhost = h, rport = p, pending = writeVInt v @ rest\<rparr>" v rest]
    vlong.dec_enc [of "\<lparr>rhost = h, rport = p, pending = writeVLong w @ rest\<rparr>" w rest]
  by simp

text \<open>
  A sequence of byte arrays shorter than 4 GiB each, written one after the other by
  \<open>writeArray\<close>, is read back by as many calls of \<open>readArray\<close>.
\<close>

theorem array_list_roundtrip:
  assumes "list_all (\<lambda>bs. length bs < 2 ^ 32) xs"
  shows "repeat_sm (length xs) readArray
     \<lparr>rhost = h, rport = p, pending = concat (map writeArray xs) @ rest\<rparr> =
     (Inr xs, \<lparr>rhost = h, rport = p, pending = rest\<rparr>)"
  using array.dec_repeat [OF assms,
      of "\<lparr>rhost = h, rport = p, pending = concat (map writeArray xs) @ rest\<rparr>" rest]
  by simp

theorem array_list_roundtrip_witness:
  "repeat_sm 3 readArray
     \<lparr>rhost = ''h'', rport = 1, pending = concat (map writeArray [[1, 2], [], [3]]) @ [9]\<rparr> =
     (Inr [[1, 2], [], [3]], \<lparr>rhost = ''h'', rport = 1, pending = [9]\<rparr>)"
proof -
  have "list_all (\<lambda>bs. length bs < 2 ^ 32) [[1, 2], [], [3 :: byte]]" by simp
  from array_list_roundtrip [OF this, of "''h''" 1 "[9]"]
  show ?thesis by (simp add: numeral_3_eq_3)
qed

text \<open>
  Every 64-bit value written by \<open>writeLong\<close> occupies eight bytes, most significant first,
  and is read back by \<open>readLong\<close>.
\<close>

theorem long_roundtrip:
  "length (writeLong v) = 8 \<and> hd (writeLong v) = ucast (drop_bit 56 v) \<and>
   readLong \<lparr>rhost = h, rport = p, pending = writeLong v @ rest\<rparr> =
     (Inr v, \<lparr>rhost = h, rport = p, pending = rest\<rparr>)"
  using long.dec_enc [of "\<lparr>rhost = h, rport = p, pending = writeLong v @ rest\<rparr>" v rest]
  by (simp add: writeLong_def upt_rec)

lemma varint_length:
  fixes v :: "'a::len word"
  shows "unat v < 2 ^ (7 * length (write_varint v)) \<and>
    (length (write_varint v) = 1 \<or> 2 ^ (7 * (length (write_varint v) - 1)) \<le> unat v)"
proof (induction v rule: write_varint.induct)
  case (1 v)
  show ?case
  proof (cases "unat v < 128")
    case True
    then show ?thesis by (simp add: varint_last)
  next
    case False
    let ?n = "length (write_varint (drop_bit 7 v))"
    have "v AND NOT 0x7F \<noteq> 0" using False and_not_0x7F_eq_0 [of v] by simp
    from "1.IH" [OF this] have IH: "unat (drop_bit 7 v) < 2 ^ (7 * ?n)"
      "?n = 1 \<or> 2 ^ (7 * (?n - 1)) \<le> unat (drop_bit 7 v)" by auto
    have len: "length (write_varint v) = Suc ?n" using False by (simp add: varint_more)
    have pos: "0 < ?n" by (subst write_varint.simps) simp
    have dv: "unat (drop_bit 7 v) = unat v div 128"
      by (simp only: unat_drop_bit_eq) (simp add: drop_bit_eq_div)
    have "unat v < 128 * 2 ^ (7 * ?n)" using IH(1) dv by (simp add: less_mult_imp_div_less div_less_iff_less_mult mult.commute)
    moreover have "2 ^ (7 * ?n) \<le> unat v"
    proof (cases "?n = 1")
      case True
      then show ?thesis using False by simp
    next
      case False
      with IH(2) dv have "128 * 2 ^ (7 * (?n - 1)) \<le> unat v" by linarith
      moreover have "128 * 2 ^ (7 * (?n - 1)) = (2 ^ (7 * ?n) :: nat)"
        using pos by (cases ?n) (simp_all add: power_add)
      ultimately show ?thesis by simp
    qed
    ultimately show ?thesis by (simp add: len power_add)
  qed
qed

lemma varint_length_le:
  fixes v :: "'a::len word"
  assumes "LENGTH('a) \<le> 7 * m" and "0 < m"
  shows "length (write_varint v) \<le> m"
proof (rule ccontr)
  assume "\<not> length (write_varint v) \<le> m"
  then have m: "m \<le> length (write_varint v) - 1" and "length (write_varint v) \<noteq> 1"
    using assms(2) by auto
  with varint_length [of v] have "2 ^ (7 * (length (write_varint v) - 1)) \<le> unat v" by simp
  moreover have "unat v < 2 ^ LENGTH('a)" by (rule unsigned_less)
  moreover have "(2::nat) ^ LENGTH('a) \<le> 2 ^ (7 * (length (write_varint v) - 1))"
    using assms(1) m by (intro power_increasing) auto
  ultimately show False by linarith
qed

text \<open>
  \<open>writeVInt\<close> emits the shortest base-128 representation: \<open>n\<close> bytes exactly for the values
  that need \<open>n\<close> groups of seven bits, so at most five bytes for a 32-bit value and at most ten
  for a 64-bit one.
\<close>

theorem varint_size:
  "unat v < 2 ^ (7 * length (writeVInt v)) \<and>
   (length (writeVInt v) = 1 \<or> 2 ^ (7 * (length (writeVInt v) - 1)) \<le> unat v) \<and>
   length (writeVInt v) \<le> 5 \<and> length (writeVLong w) \<le> 10"
  using varint_length [of v] varint_length_le [of 5 v] varint_length_le [of 10 w]
  by (simp add: writeVInt_def writeVLong_def)

text \<open>A reader that meets the end of the stream reports it as a \<open>TransportException\<close>.\<close>

lemma read_varint_loop_eof:
  assumes "\<forall>c \<in> set (pending s). bit c 7" and "bit b 7" and "shift + 7 * length (pending s) < 71"
  shows "read_varint_loop shift i b s =
     (Inl (TransportException (rhost s) (rport s) ''no read''), s\<lparr>pending := []\<rparr>)"
  using assms
proof (induction "pending s" arbitrary: s shift i b)
  case Nil
  then show ?case
    by (subst read_varint_loop.simps) (auto simp: top_bit readByte_cases split: list.splits)
next
  case (Cons c cs)
  let ?s = "s\<lparr>pending := cs\<rparr>"
  from Cons.hyps(2) have rd: "readByte s = (Inr c, ?s)" by (simp add: readByte_Cons)
  have "shift < 64" using Cons.prems(3) by (simp flip: Cons.hyps(2))
  moreover have "read_varint_loop (shift + 7) (i OR ucast (push_bit shift (ucast (c AND 0x7F) :: u64))) c ?s
      = (Inl (TransportException (rhost ?s) (rport ?s) ''no read''), ?s\<lparr>pending := []\<rparr>)"
    using Cons.prems Cons.hyps(2) [symmetric] by (intro Cons.hyps(1)) auto
  ultimately show ?case
    using Cons.prems(2) rd by (subst read_varint_loop.simps) (simp add: top_bit)
qed

text \<open>
  A variable length integer that is cut off by the end of the stream, after one to ten
  bytes that all announce a continuation, is never decoded: the reader throws the connection's
  \<open>TransportException\<close>.
\<close>

theorem readVLong_truncated:
  assumes "pending s = b # bs" and "\<forall>c \<in> set (b # bs). bit c 7" and "length bs < 10"
  shows "readVLong s = (Inl (TransportException (rhost s) (rport s) ''no read''), s\<lparr>pending := []\<rparr>)"
proof -
  have "readByte s = (Inr b, s\<lparr>pending := bs\<rparr>)" using assms(1) by (rule readByte_Cons)
  moreover have "read_varint_loop 7 (ucast (b AND 0x7F) :: u64) b (s\<lparr>pending := bs\<rparr>) =
      (Inl (TransportException (rhost s) (rport s) ''no read''), s\<lparr>pending := []\<rparr>)"
    using assms read_varint_loop_eof [of "s\<lparr>pending := bs\<rparr>" b 7 "ucast (b AND 0x7F) :: u64"]
    by simp
  ultimately show ?thesis by (simp add: readVLong_def read_varint_def)
qed

theorem readVLong_truncated_witness:
  "readVLong \<lparr>rhost = ''h'', rport = 1, pending = [0x80, 0xFF]\<rparr> =
     (Inl (TransportException ''h'' 1 ''no read''), \<lparr>rhost = ''h'', rport = 1, pending = []\<rparr>)"
proof -
  have "\<forall>c \<in> set [0x80, 0xFF :: byte]. bit c 7" by (simp add: top_bit [symmetric])
  then show ?thesis
    using readVLong_truncated [of "\<lparr>rhost = ''h'', rport = 1, pending = [0x80, 0xFF]\<rparr>" "0x80" "[0xFF]"]
    by simp
qed

text \<open>
  Neither reader bounds the number of continuation bytes: eleven of them make the client
  shift a 64-bit operand by 70, which C++ leaves undefined. The wire format has no such
  integer, but nothing in the client rejects it.
\<close>

theorem readVInt_overlong_undefined:
  "fst (readVInt \<lparr>rhost = h, rport = p, pending = replicate 11 0x80 @ rest\<rparr>)
     = Inl (UndefinedBehaviour ''shift'')"
proof -
  have "replicate 11 b = [b, b, b, b, b, b, b, b, b, b, b]" for b :: byte
    by (simp add: numeral_eq_Suc)
  then show ?thesis
    by (simp add: readVInt_def read_varint_def readByte_cases read_varint_loop.simps sm_simps)
qed

end
