(* ===== verification/HR_Constants.thy ===== *)
theory HR_Constants
  imports HR_Prelude
begin

text \<open>
  \<open>impl/protocol/HotRodConstants.h\<close> and \<open>impl/protocol/HeaderParams.cpp\<close>: the numbers of the
  Hot Rod protocol, the predicates on response statuses, the response code expected for a
  request, and the numeric ids of the well known media types.

  The constants are abbreviations, so that a proof sees the byte. \<open>op_resp_table\<close> is the
  \<open>switch\<close> of \<open>toOpRespCode\<close>, one pair per \<open>case\<close>.
\<close>

section \<open>Protocol numbers\<close>

abbreviation (input) REQUEST_MAGIC :: byte where "REQUEST_MAGIC \<equiv> 0xA0"
abbreviation (input) RESPONSE_MAGIC :: byte where "RESPONSE_MAGIC \<equiv> 0xA1"
abbreviation (input) VERSION_10 :: byte where "VERSION_10 \<equiv> 10"
abbreviation (input) VERSION_11 :: byte where "VERSION_11 \<equiv> 11"
abbreviation (input) VERSION_12 :: byte where "VERSION_12 \<equiv> 12"
abbreviation (input) VERSION_13 :: byte where "VERSION_13 \<equiv> 13"
abbreviation (input) VERSION_20 :: byte where "VERSION_20 \<equiv> 20"
abbreviation (input) VERSION_21 :: byte where "VERSION_21 \<equiv> 21"
abbreviation (input) VERSION_22 :: byte where "VERSION_22 \<equiv> 22"
abbreviation (input) VERSION_23 :: byte where "VERSION_23 \<equiv> 23"
abbreviation (input) VERSION_24 :: byte where "VERSION_24 \<equiv> 24"
abbreviation (input) VERSION_25 :: byte where "VERSION_25 \<equiv> 25"
abbreviation (input) VERSION_26 :: byte where "VERSION_26 \<equiv> 26"
abbreviation (input) VERSION_27 :: byte where "VERSION_27 \<equiv> 27"
abbreviation (input) VERSION_28 :: byte where "VERSION_28 \<equiv> 28"
abbreviation (input) SEGMENT_CONSISTENT_HASH :: byte where "SEGMENT_CONSISTENT_HASH \<equiv> 3"
abbreviation (input) PUT_REQUEST :: byte where "PUT_REQUEST \<equiv> 0x01"
abbreviation (input) GET_REQUEST :: byte where "GET_REQUEST \<equiv> 0x03"
abbreviation (input) PUT_IF_ABSENT_REQUEST :: byte where "PUT_IF_ABSENT_REQUEST \<equiv> 0x05"
abbreviation (input) REPLACE_REQUEST :: byte where "REPLACE_REQUEST \<equiv> 0x07"
abbreviation (input) REPLACE_IF_UNMODIFIED_REQUEST :: byte where "REPLACE_IF_UNMODIFIED_REQUEST \<equiv> 0x09"
abbreviation (input) REMOVE_REQUEST :: byte where "REMOVE_REQUEST \<equiv> 0x0B"
abbreviation (input) REMOVE_IF_UNMODIFIED_REQUEST :: byte where "REMOVE_IF_UNMODIFIED_REQUEST \<equiv> 0x0D"
abbreviation (input) CONTAINS_KEY_REQUEST :: byte where "CONTAINS_KEY_REQUEST \<equiv> 0x0F"
abbreviation (input) GET_WITH_VERSION_REQUEST :: byte where "GET_WITH_VERSION_REQUEST \<equiv> 0x11"
abbreviation (input) CLEAR_REQUEST :: byte where "CLEAR_REQUEST \<equiv> 0x13"
abbreviation (input) STATS_REQUEST :: byte where "STATS_REQUEST \<equiv> 0x15"
abbreviation (input) PING_REQUEST :: byte where "PING_REQUEST \<equiv> 0x17"
abbreviation (input) BULK_GET_REQUEST :: byte where "BULK_GET_REQUEST \<equiv> 0x19"
abbreviation (input) GET_WITH_METADATA_REQUEST :: byte where "GET_WITH_METADATA_REQUEST \<equiv> 0x1B"
abbreviation (input) BULK_GET_KEYS_REQUEST :: byte where "BULK_GET_KEYS_REQUEST \<equiv> 0x1D"
abbreviation (input) QUERY_REQUEST :: byte where "QUERY_REQUEST \<equiv> 0x1F"
abbreviation (input) AUTH_MECH_LIST_REQUEST :: byte where "AUTH_MECH_LIST_REQUEST \<equiv> 0x21"
abbreviation (input) AUTH_REQUEST :: byte where "AUTH_REQUEST \<equiv> 0x23"
abbreviation (input) ADD_CLIENT_LISTENER_REQUEST :: byte where "ADD_CLIENT_LISTENER_REQUEST \<equiv> 0x25"
abbreviation (input) REMOVE_CLIENT_LISTENER_REQUEST :: byte where "REMOVE_CLIENT_LISTENER_REQUEST \<equiv> 0x27"
abbreviation (input) SIZE_REQUEST :: byte where "SIZE_REQUEST \<equiv> 0x29"
abbreviation (input) EXEC_REQUEST :: byte where "EXEC_REQUEST \<equiv> 0x2B"
abbreviation (input) PUT_ALL_REQUEST :: byte where "PUT_ALL_REQUEST \<equiv> 0x2D"
abbreviation (input) GET_ALL_REQUEST :: byte where "GET_ALL_REQUEST \<equiv> 0x2F"
abbreviation (input) ITERATION_START_REQUEST :: byte where "ITERATION_START_REQUEST \<equiv> 0x31"
abbreviation (input) ITERATION_NEXT_REQUEST :: byte where "ITERATION_NEXT_REQUEST \<equiv> 0x33"
abbreviation (input) ITERATION_END_REQUEST :: byte where "ITERATION_END_REQUEST \<equiv> 0x35"
abbreviation (input) GET_STREAM_REQUEST :: byte where "GET_STREAM_REQUEST \<equiv> 0x37"
abbreviation (input) PUT_STREAM_REQUEST :: byte where "PUT_STREAM_REQUEST \<equiv> 0x39"
abbreviation (input) PREPARE_REQUEST :: byte where "PREPARE_REQUEST \<equiv> 0x3B"
abbreviation (input) COMMIT_REQUEST :: byte where "COMMIT_REQUEST \<equiv> 0x3D"
abbreviation (input) ROLLBACK_REQUEST :: byte where "ROLLBACK_REQUEST \<equiv> 0x3F"
abbreviation (input) COUNTER_CREATE_REQUEST :: byte where "COUNTER_CREATE_REQUEST \<equiv> 0x4B"
abbreviation (input) COUNTER_GET_CONFIGURATION_REQUEST :: byte where "COUNTER_GET_CONFIGURATION_REQUEST \<equiv> 0x4D"
abbreviation (input) COUNTER_IS_DEFINED_REQUEST :: byte where "COUNTER_IS_DEFINED_REQUEST \<equiv> 0x4F"
abbreviation (input) COUNTER_ADD_AND_GET_REQUEST :: byte where "COUNTER_ADD_AND_GET_REQUEST \<equiv> 0x52"
abbreviation (input) COUNTER_RESET_REQUEST :: byte where "COUNTER_RESET_REQUEST \<equiv> 0x54"
abbreviation (input) COUNTER_GET_REQUEST :: byte where "COUNTER_GET_REQUEST \<equiv> 0x56"
abbreviation (input) COUNTER_CAS_REQUEST :: byte where "COUNTER_CAS_REQUEST \<equiv> 0x58"
abbreviation (input) COUNTER_ADD_LISTENER_REQUEST :: byte where "COUNTER_ADD_LISTENER_REQUEST \<equiv> 0x5A"
abbreviation (input) COUNTER_REMOVE_LISTENER_REQUEST :: byte where "COUNTER_REMOVE_LISTENER_REQUEST \<equiv> 0x5C"
abbreviation (input) COUNTER_REMOVE_REQUEST :: byte where "COUNTER_REMOVE_REQUEST \<equiv> 0x5E"
abbreviation (input) COUNTER_GET_NAMES_REQUEST :: byte where "COUNTER_GET_NAMES_REQUEST \<equiv> 0x64"
abbreviation (input) PUT_RESPONSE :: byte where "PUT_RESPONSE \<equiv> 0x02"
abbreviation (input) GET_RESPONSE :: byte where "GET_RESPONSE \<equiv> 0x04"
abbreviation (input) PUT_IF_ABSENT_RESPONSE :: byte where "PUT_IF_ABSENT_RESPONSE \<equiv> 0x06"
abbreviation (input) REPLACE_RESPONSE :: byte where "REPLACE_RESPONSE \<equiv> 0x08"
abbreviation (input) REPLACE_IF_UNMODIFIED_RESPONSE :: byte where "REPLACE_IF_UNMODIFIED_RESPONSE \<equiv> 0x0A"
abbreviation (input) REMOVE_RESPONSE :: byte where "REMOVE_RESPONSE \<equiv> 0x0C"
abbreviation (input) REMOVE_IF_UNMODIFIED_RESPONSE :: byte where "REMOVE_IF_UNMODIFIED_RESPONSE \<equiv> 0x0E"
abbreviation (input) CONTAINS_KEY_RESPONSE :: byte where "CONTAINS_KEY_RESPONSE \<equiv> 0x10"
abbreviation (input) GET_WITH_VERSION_RESPONSE :: byte where "GET_WITH_VERSION_RESPONSE \<equiv> 0x12"
abbreviation (input) CLEAR_RESPONSE :: byte where "CLEAR_RESPONSE \<equiv> 0x14"
abbreviation (input) STATS_RESPONSE :: byte where "STATS_RESPONSE \<equiv> 0x16"
abbreviation (input) PING_RESPONSE :: byte where "PING_RESPONSE \<equiv> 0x18"
abbreviation (input) BULK_GET_RESPONSE :: byte where "BULK_GET_RESPONSE \<equiv> 0x1A"
abbreviation (input) GET_WITH_METADATA_RESPONSE :: byte where "GET_WITH_METADATA_RESPONSE \<equiv> 0x1C"
abbreviation (input) BULK_GET_KEYS_RESPONSE :: byte where "BULK_GET_KEYS_RESPONSE \<equiv> 0x1E"
abbreviation (input) QUERY_RESPONSE :: byte where "QUERY_RESPONSE \<equiv> 0x20"
abbreviation (input) AUTH_MECH_LIST_RESPONSE :: byte where "AUTH_MECH_LIST_RESPONSE \<equiv> 0x22"
abbreviation (input) AUTH_RESPONSE :: byte where "AUTH_RESPONSE \<equiv> 0x24"
abbreviation (input) ADD_CLIENT_LISTENER_RESPONSE :: byte where "ADD_CLIENT_LISTENER_RESPONSE \<equiv> 0x26"
abbreviation (input) REMOVE_CLIENT_LISTENER_RESPONSE :: byte where "REMOVE_CLIENT_LISTENER_RESPONSE \<equiv> 0x28"
abbreviation (input) SIZE_RESPONSE :: byte where "SIZE_RESPONSE \<equiv> 0x2A"
abbreviation (input) EXEC_RESPONSE :: byte where "EXEC_RESPONSE \<equiv> 0x2C"
abbreviation (input) PUT_ALL_RESPONSE :: byte where "PUT_ALL_RESPONSE \<equiv> 0x2E"
abbreviation (input) GET_ALL_RESPONSE :: byte where "GET_ALL_RESPONSE \<equiv> 0x30"
abbreviation (input) ITERATION_NEXT_RESPONSE :: byte where "ITERATION_NEXT_RESPONSE \<equiv> 0x34"
abbreviation (input) ITERATION_END_RESPONSE :: byte where "ITERATION_END_RESPONSE \<equiv> 0x36"
abbreviation (input) ITERATION_START_RESPONSE :: byte where "ITERATION_START_RESPONSE \<equiv> 0x32"
abbreviation (input) GET_STREAM_RESPONSE :: byte where "GET_STREAM_RESPONSE \<equiv> 0x38"
abbreviation (input) PUT_STREAM_RESPONSE :: byte where "PUT_STREAM_RESPONSE \<equiv> 0x3A"
abbreviation (input) PREPARE_RESPONSE :: byte where "PREPARE_RESPONSE \<equiv> 0x3C"
abbreviation (input) COMMIT_RESPONSE :: byte where "COMMIT_RESPONSE \<equiv> 0x3E"
abbreviation (input) ROLLBACK_RESPONSE :: byte where "ROLLBACK_RESPONSE \<equiv> 0x40"
abbreviation (input) ERROR_RESPONSE :: byte where "ERROR_RESPONSE \<equiv> 0x50"
abbreviation (input) CACHE_ENTRY_CREATED_EVENT_RESPONSE :: byte where "CACHE_ENTRY_CREATED_EVENT_RESPONSE \<equiv> 0x60"
abbreviation (input) CACHE_ENTRY_MODIFIED_EVENT_RESPONSE :: byte where "CACHE_ENTRY_MODIFIED_EVENT_RESPONSE \<equiv> 0x61"
abbreviation (input) CACHE_ENTRY_REMOVED_EVENT_RESPONSE :: byte where "CACHE_ENTRY_REMOVED_EVENT_RESPONSE \<equiv> 0x62"
abbreviation (input) CACHE_ENTRY_EXPIRED_EVENT_RESPONSE :: byte where "CACHE_ENTRY_EXPIRED_EVENT_RESPONSE \<equiv> 0x63"
abbreviation (input) COUNTER_CREATE_RESPONSE :: byte where "COUNTER_CREATE_RESPONSE \<equiv> 0x4C"
abbreviation (input) COUNTER_GET_CONFIGURATION_RESPONSE :: byte where "COUNTER_GET_CONFIGURATION_RESPONSE \<equiv> 0x4E"
abbreviation (input) COUNTER_IS_DEFINED_RESPONSE :: byte where "COUNTER_IS_DEFINED_RESPONSE \<equiv> 0x51"
abbreviation (input) COUNTER_ADD_AND_GET_RESPONSE :: byte where "COUNTER_ADD_AND_GET_RESPONSE \<equiv> 0x53"
abbreviation (input) COUNTER_RESET_RESPONSE :: byte where "COUNTER_RESET_RESPONSE \<equiv> 0x55"
abbreviation (input) COUNTER_GET_RESPONSE :: byte where "COUNTER_GET_RESPONSE \<equiv> 0x57"
abbreviation (input) COUNTER_CAS_RESPONSE :: byte where "COUNTER_CAS_RESPONSE \<equiv> 0x59"
abbreviation (input) COUNTER_ADD_LISTENER_RESPONSE :: byte where "COUNTER_ADD_LISTENER_RESPONSE \<equiv> 0x5B"
abbreviation (input) COUNTER_REMOVE_LISTENER_RESPONSE :: byte where "COUNTER_REMOVE_LISTENER_RESPONSE \<equiv> 0x5D"
abbreviation (input) COUNTER_REMOVE_RESPONSE :: byte where "COUNTER_REMOVE_RESPONSE \<equiv> 0x5F"
abbreviation (input) COUNTER_GET_NAMES_RESPONSE :: byte where "COUNTER_GET_NAMES_RESPONSE \<equiv> 0x65"
abbreviation (input) COUNTER_EVENT_RESPONSE :: byte where "COUNTER_EVENT_RESPONSE \<equiv> 0x66"
abbreviation (input) NO_ERROR_STATUS :: byte where "NO_ERROR_STATUS \<equiv> 0x00"
abbreviation (input) NOT_PUT_REMOVED_REPLACED_STATUS :: byte where "NOT_PUT_REMOVED_REPLACED_STATUS \<equiv> 0x01"
abbreviation (input) KEY_DOES_NOT_EXIST_STATUS :: byte where "KEY_DOES_NOT_EXIST_STATUS \<equiv> 0x02"
abbreviation (input) SUCCESS_WITH_PREVIOUS :: byte where "SUCCESS_WITH_PREVIOUS \<equiv> 0x03"
abbreviation (input) NOT_EXECUTED_WITH_PREVIOUS :: byte where "NOT_EXECUTED_WITH_PREVIOUS \<equiv> 0x04"
abbreviation (input) INVALID_ITERATION :: byte where "INVALID_ITERATION \<equiv> 0x05"
abbreviation (input) NO_ERROR_STATUS_COMPAT :: byte where "NO_ERROR_STATUS_COMPAT \<equiv> 0x06"
abbreviation (input) SUCCESS_WITH_PREVIOUS_COMPAT :: byte where "SUCCESS_WITH_PREVIOUS_COMPAT \<equiv> 0x07"
abbreviation (input) NOT_EXECUTED_WITH_PREVIOUS_COMPAT :: byte where "NOT_EXECUTED_WITH_PREVIOUS_COMPAT \<equiv> 0x08"
abbreviation (input) INVALID_MAGIC_OR_MESSAGE_ID_STATUS :: byte where "INVALID_MAGIC_OR_MESSAGE_ID_STATUS \<equiv> 0x81"
abbreviation (input) REQUEST_PARSING_ERROR_STATUS :: byte where "REQUEST_PARSING_ERROR_STATUS \<equiv> 0x84"
abbreviation (input) UNKNOWN_COMMAND_STATUS :: byte where "UNKNOWN_COMMAND_STATUS \<equiv> 0x82"
abbreviation (input) SERVER_ERROR_STATUS :: byte where "SERVER_ERROR_STATUS \<equiv> 0x85"
abbreviation (input) UNKNOWN_VERSION_STATUS :: byte where "UNKNOWN_VERSION_STATUS \<equiv> 0x83"
abbreviation (input) COMMAND_TIMEOUT_STATUS :: byte where "COMMAND_TIMEOUT_STATUS \<equiv> 0x86"
abbreviation (input) NODE_SUSPECTED :: byte where "NODE_SUSPECTED \<equiv> 0x87"
abbreviation (input) ILLEGAL_LIFECYCLE_STATE :: byte where "ILLEGAL_LIFECYCLE_STATE \<equiv> 0x88"
abbreviation (input) CLIENT_INTELLIGENCE_BASIC :: byte where "CLIENT_INTELLIGENCE_BASIC \<equiv> 0x01"
abbreviation (input) CLIENT_INTELLIGENCE_TOPOLOGY_AWARE :: byte where "CLIENT_INTELLIGENCE_TOPOLOGY_AWARE \<equiv> 0x02"
abbreviation (input) CLIENT_INTELLIGENCE_HASH_DISTRIBUTION_AWARE :: byte where "CLIENT_INTELLIGENCE_HASH_DISTRIBUTION_AWARE \<equiv> 0x03"
abbreviation (input) INFINITE_LIFESPAN :: byte where "INFINITE_LIFESPAN \<equiv> 0x01"
abbreviation (input) INFINITE_MAXIDLE :: byte where "INFINITE_MAXIDLE \<equiv> 0x02"

text \<open>\<open>static const int8_t\<close> topology ids, as the 32-bit integers they are used as.\<close>

abbreviation (input) NO_TOPOLOGY :: u32 where "NO_TOPOLOGY \<equiv> 0"
abbreviation (input) DEFAULT_CACHE_TOPOLOGY :: u32 where "DEFAULT_CACHE_TOPOLOGY \<equiv> - 1"
abbreviation (input) SWITCH_CLUSTER_TOPOLOGY :: u32 where "SWITCH_CLUSTER_TOPOLOGY \<equiv> - 2"

text \<open>Every request code the header declares, in the order of the header.\<close>

definition request_codes :: "byte list" where
  "request_codes =
    [PUT_REQUEST, GET_REQUEST, PUT_IF_ABSENT_REQUEST,
     REPLACE_REQUEST, REPLACE_IF_UNMODIFIED_REQUEST, REMOVE_REQUEST,
     REMOVE_IF_UNMODIFIED_REQUEST, CONTAINS_KEY_REQUEST, GET_WITH_VERSION_REQUEST,
     CLEAR_REQUEST, STATS_REQUEST, PING_REQUEST,
     BULK_GET_REQUEST, GET_WITH_METADATA_REQUEST, BULK_GET_KEYS_REQUEST,
     QUERY_REQUEST, AUTH_MECH_LIST_REQUEST, AUTH_REQUEST,
     ADD_CLIENT_LISTENER_REQUEST, REMOVE_CLIENT_LISTENER_REQUEST, SIZE_REQUEST,
     EXEC_REQUEST, PUT_ALL_REQUEST, GET_ALL_REQUEST,
     ITERATION_START_REQUEST, ITERATION_NEXT_REQUEST, ITERATION_END_REQUEST,
     GET_STREAM_REQUEST, PUT_STREAM_REQUEST, PREPARE_REQUEST,
     COMMIT_REQUEST, ROLLBACK_REQUEST, COUNTER_CREATE_REQUEST,
     COUNTER_GET_CONFIGURATION_REQUEST, COUNTER_IS_DEFINED_REQUEST, COUNTER_ADD_AND_GET_REQUEST,
     COUNTER_RESET_REQUEST, COUNTER_GET_REQUEST, COUNTER_CAS_REQUEST,
     COUNTER_ADD_LISTENER_REQUEST, COUNTER_REMOVE_LISTENER_REQUEST, COUNTER_REMOVE_REQUEST,
     COUNTER_GET_NAMES_REQUEST]"

text \<open>The event and error codes a server may send in place of a response.\<close>

definition unsolicited_codes :: "byte list" where
  "unsolicited_codes =
    [ERROR_RESPONSE, CACHE_ENTRY_CREATED_EVENT_RESPONSE, CACHE_ENTRY_MODIFIED_EVENT_RESPONSE,
     CACHE_ENTRY_REMOVED_EVENT_RESPONSE, CACHE_ENTRY_EXPIRED_EVENT_RESPONSE,
     COUNTER_EVENT_RESPONSE]"

section \<open>Statuses\<close>

definition isSuccess :: "byte \<Rightarrow> bool" where
  "isSuccess status \<longleftrightarrow> status = NO_ERROR_STATUS \<or> status = NO_ERROR_STATUS_COMPAT
     \<or> status = SUCCESS_WITH_PREVIOUS \<or> status = SUCCESS_WITH_PREVIOUS_COMPAT"

definition isNotExecuted :: "byte \<Rightarrow> bool" where
  "isNotExecuted status \<longleftrightarrow> status = NOT_PUT_REMOVED_REPLACED_STATUS
     \<or> status = NOT_EXECUTED_WITH_PREVIOUS \<or> status = NOT_EXECUTED_WITH_PREVIOUS_COMPAT"

definition isNotExist :: "byte \<Rightarrow> bool" where
  "isNotExist status \<longleftrightarrow> status = KEY_DOES_NOT_EXIST_STATUS"

definition hasPrevious :: "byte \<Rightarrow> bool" where
  "hasPrevious status \<longleftrightarrow> status = SUCCESS_WITH_PREVIOUS \<or> status = SUCCESS_WITH_PREVIOUS_COMPAT
     \<or> status = NOT_EXECUTED_WITH_PREVIOUS \<or> status = NOT_EXECUTED_WITH_PREVIOUS_COMPAT"

definition hasCompatibility :: "byte \<Rightarrow> bool" where
  "hasCompatibility status \<longleftrightarrow> status = NO_ERROR_STATUS_COMPAT
     \<or> status = SUCCESS_WITH_PREVIOUS_COMPAT \<or> status = NOT_EXECUTED_WITH_PREVIOUS_COMPAT"

definition isInvalidIteration :: "byte \<Rightarrow> bool" where
  "isInvalidIteration status \<longleftrightarrow> status = INVALID_ITERATION"

definition isEvent :: "byte \<Rightarrow> bool" where
  "isEvent opCode \<longleftrightarrow> opCode = CACHE_ENTRY_CREATED_EVENT_RESPONSE
     \<or> opCode = CACHE_ENTRY_EXPIRED_EVENT_RESPONSE
     \<or> opCode = CACHE_ENTRY_MODIFIED_EVENT_RESPONSE
     \<or> opCode = CACHE_ENTRY_REMOVED_EVENT_RESPONSE"

definition isCounterEvent :: "byte \<Rightarrow> bool" where
  "isCounterEvent opCode \<longleftrightarrow> opCode = COUNTER_EVENT_RESPONSE"

lemmas status_defs = isSuccess_def isNotExecuted_def isNotExist_def hasPrevious_def
  hasCompatibility_def isInvalidIteration_def isEvent_def isCounterEvent_def

section \<open>Response codes\<close>

definition op_resp_table :: "(byte \<times> byte) list" where
  "op_resp_table =
    [(PUT_REQUEST, PUT_RESPONSE),
     (GET_REQUEST, GET_RESPONSE),
     (PUT_IF_ABSENT_REQUEST, PUT_IF_ABSENT_RESPONSE),
     (REPLACE_REQUEST, REPLACE_RESPONSE),
     (REPLACE_IF_UNMODIFIED_REQUEST, REPLACE_IF_UNMODIFIED_RESPONSE),
     (REMOVE_REQUEST, REMOVE_RESPONSE),
     (REMOVE_IF_UNMODIFIED_REQUEST, REMOVE_IF_UNMODIFIED_RESPONSE),
     (CONTAINS_KEY_REQUEST, CONTAINS_KEY_RESPONSE),
     (GET_WITH_VERSION_REQUEST, GET_WITH_VERSION_RESPONSE),
     (CLEAR_REQUEST, CLEAR_RESPONSE),
     (SIZE_REQUEST, SIZE_RESPONSE),
     (STATS_REQUEST, STATS_RESPONSE),
     (PING_REQUEST, PING_RESPONSE),
     (BULK_GET_REQUEST, BULK_GET_RESPONSE),
     (GET_WITH_METADATA_REQUEST, GET_WITH_METADATA_RESPONSE),
     (BULK_GET_KEYS_REQUEST, BULK_GET_KEYS_RESPONSE),
     (EXEC_REQUEST, EXEC_RESPONSE),
     (QUERY_REQUEST, QUERY_RESPONSE),
     (AUTH_MECH_LIST_REQUEST, AUTH_MECH_LIST_RESPONSE),
     (AUTH_REQUEST, AUTH_RESPONSE),
     (ADD_CLIENT_LISTENER_REQUEST, ADD_CLIENT_LISTENER_RESPONSE),
     (REMOVE_CLIENT_LISTENER_REQUEST, REMOVE_CLIENT_LISTENER_RESPONSE),
     (GET_ALL_REQUEST, GET_ALL_RESPONSE),
     (ITERATION_START_REQUEST, ITERATION_START_RESPONSE),
     (ITERATION_NEXT_REQUEST, ITERATION_NEXT_RESPONSE),
     (ITERATION_END_REQUEST, ITERATION_END_RESPONSE),
     (GET_STREAM_REQUEST, GET_STREAM_RESPONSE),
     (PUT_STREAM_REQUEST, PUT_STREAM_RESPONSE),
     (COUNTER_CREATE_REQUEST, COUNTER_CREATE_RESPONSE),
     (COUNTER_GET_CONFIGURATION_REQUEST, COUNTER_GET_CONFIGURATION_RESPONSE),
     (COUNTER_IS_DEFINED_REQUEST, COUNTER_IS_DEFINED_RESPONSE),
     (COUNTER_REMOVE_REQUEST, COUNTER_REMOVE_RESPONSE),
     (COUNTER_ADD_AND_GET_REQUEST, COUNTER_ADD_AND_GET_RESPONSE),
     (COUNTER_GET_REQUEST, COUNTER_GET_RESPONSE),
     (COUNTER_RESET_REQUEST, COUNTER_RESET_RESPONSE),
     (COUNTER_CAS_REQUEST, COUNTER_CAS_RESPONSE),
     (COUNTER_GET_NAMES_REQUEST, COUNTER_GET_NAMES_RESPONSE),
     (COUNTER_ADD_LISTENER_REQUEST, COUNTER_ADD_LISTENER_RESPONSE),
     (COUNTER_REMOVE_LISTENER_REQUEST, COUNTER_REMOVE_LISTENER_RESPONSE),
     (PREPARE_REQUEST, PREPARE_RESPONSE),
     (COMMIT_REQUEST, COMMIT_RESPONSE),
     (ROLLBACK_REQUEST, ROLLBACK_RESPONSE)]"

text \<open>The \<open>default\<close> branch prints the \<open>uint8_t\<close> as a character.\<close>

definition toOpRespCode :: "byte \<Rightarrow> exn + byte" where
  "toOpRespCode code =
    (case map_of op_resp_table code of
       Some r \<Rightarrow> Inr r
     | None \<Rightarrow> Inl (InternalException (''Unknown operation code: '' @ [char_of (unat code)])))"
lemma toOpRespCode_Inr:
  "toOpRespCode c = Inr r \<longleftrightarrow> map_of op_resp_table c = Some r"
  by (simp add: toOpRespCode_def split: option.splits)

lemma op_resp_table_range:
  "list_all (\<lambda>(q, r). r \<notin> set request_codes \<and> r \<notin> set unsolicited_codes \<and> q \<in> set request_codes)
     op_resp_table"
  by (simp add: op_resp_table_def request_codes_def unsolicited_codes_def)

lemma op_resp_table_distinct: "distinct (map fst op_resp_table)" "distinct (map snd op_resp_table)"
  by (simp_all add: op_resp_table_def)

text \<open>
  The response code set by \<open>setOpCode\<close> identifies the request: no two request codes share one,
  so a reply cannot be taken for the answer to another operation.
\<close>

theorem toOpRespCode_inj: "inj_on toOpRespCode (fst ` set op_resp_table)"
proof (rule inj_onI)
  fix c d assume "c \<in> fst ` set op_resp_table" "d \<in> fst ` set op_resp_table"
    and eq: "toOpRespCode c = toOpRespCode d"
  then obtain r where "(c, r) \<in> set op_resp_table" "(d, r) \<in> set op_resp_table"
    by (force simp: toOpRespCode_def op_resp_table_distinct split: option.splits
        dest: map_of_SomeD simp: map_of_eq_None_iff)
  then show "c = d"
    using op_resp_table_distinct(2) by (metis distinct_map fst_conv inj_on_def snd_conv)
qed

text \<open>
  A response code is never a request code, the error code or an event code, and of the request
  codes the header declares, \<open>PUT_ALL_REQUEST\<close> is the only one \<open>setOpCode\<close> refuses.
\<close>

theorem toOpRespCode_total:
  "{r. \<exists>c. toOpRespCode c = Inr r} \<inter> (set request_codes \<union> set unsolicited_codes) = {}
   \<and> filter (\<lambda>c. isl (toOpRespCode c)) request_codes = [PUT_ALL_REQUEST]"
proof
  show "{r. \<exists>c. toOpRespCode c = Inr r} \<inter> (set request_codes \<union> set unsolicited_codes) = {}"
    using op_resp_table_range by (fastforce simp: toOpRespCode_Inr list_all_iff dest: map_of_SomeD)
  show "filter (\<lambda>c. isl (toOpRespCode c)) request_codes = [PUT_ALL_REQUEST]"
    by (simp add: request_codes_def toOpRespCode_def op_resp_table_def)
qed

text \<open>The statuses a response can carry are told apart by the predicates.\<close>

lemma status_partition:
  "isSuccess st \<Longrightarrow> \<not> isNotExecuted st \<and> \<not> isNotExist st \<and> \<not> isInvalidIteration st"
  by (auto simp: status_defs)

lemma hasPrevious_executed_or_not:
  "hasPrevious st \<Longrightarrow> isSuccess st \<noteq> isNotExecuted st"
  by (auto simp: status_defs)

section \<open>Media types\<close>

definition typesIds :: "(string \<times> int) list" where
  "typesIds =
    [(''application/x-java-object'', 1),
     (''application/json'', 2),
     (''application/octet-stream'', 3),
     (''application/pdf'', 4),
     (''application/rtf'', 5),
     (''application/zip'', 6),
     (''image/gif'', 7),
     (''image/jpeg'', 8),
     (''image/png'', 9),
     (''text/css'', 10),
     (''text/csv'', 11),
     (''application/x-protostream'', 12),
     (''text/plain'', 13),
     (''text/html'', 14),
     (''application/x-jboss-marshalling'', 15),
     (''application/x-infinispan-marshalling'', 16)]"

definition getByMediaType :: "string \<Rightarrow> int" where
  "getByMediaType mediaType = (case map_of typesIds mediaType of Some i \<Rightarrow> i | None \<Rightarrow> -1)"

definition getById :: "int \<Rightarrow> string" where
  "getById i = (case find (\<lambda>(t, j). j = i) typesIds of Some (t, j) \<Rightarrow> t | None \<Rightarrow> [])"

record media_type =
  mt_type :: string
  mt_subType :: string
  mt_typeSubtype :: string
  mt_params :: "(string \<times> string) list"

text \<open>
  The constructor, for a null and for a non-null \<open>typeSubtype\<close>. The subtype it stores starts at
  the position of the slash.
\<close>

definition MediaType :: "string option \<Rightarrow> media_type" where
  "MediaType ts =
    (case ts of
       None \<Rightarrow> \<lparr>mt_type = [], mt_subType = [], mt_typeSubtype = [], mt_params = []\<rparr>
     | Some t \<Rightarrow>
         if CHR ''/'' \<in> set t
         then \<lparr>mt_type = takeWhile (\<lambda>c. c \<noteq> CHR ''/'') t,
               mt_subType = dropWhile (\<lambda>c. c \<noteq> CHR ''/'') t,
               mt_typeSubtype = t, mt_params = []\<rparr>
         else \<lparr>mt_type = [], mt_subType = [], mt_typeSubtype = t, mt_params = []\<rparr>)"

record entry_media_types =
  keyMediaType :: media_type
  valueMediaType :: media_type

lemma typesIds_distinct: "distinct (map fst typesIds)" "distinct (map snd typesIds)"
  by (simp_all add: typesIds_def)

lemma typesIds_getById: "list_all (\<lambda>(t, i). getById i = t \<and> 0 < i) typesIds"
  by (simp add: typesIds_def getById_def)

text \<open>
  The table of media types is a bijection between the names it holds and their ids: a name the
  table knows is recovered from the id sent in its place, and -1 is answered for the others only.
\<close>

theorem media_type_roundtrip:
  "(getByMediaType t = -1 \<longleftrightarrow> t \<notin> fst ` set typesIds)
   \<and> map (\<lambda>(t, i). getById (getByMediaType t)) typesIds = map fst typesIds"
proof
  show "getByMediaType t = -1 \<longleftrightarrow> t \<notin> fst ` set typesIds"
  proof (cases "map_of typesIds t")
    case None
    then have "t \<notin> fst ` set typesIds" by (simp add: map_of_eq_None_iff)
    then show ?thesis using None by (simp add: getByMediaType_def)
  next
    case (Some i)
    then have "(t, i) \<in> set typesIds" by (rule map_of_SomeD)
    then show ?thesis
      using typesIds_getById Some by (force simp: getByMediaType_def list_all_iff)
  qed
  have "getById (getByMediaType t) = t" if "(t, i) \<in> set typesIds" for t i
    using that typesIds_getById
    by (auto simp: getByMediaType_def list_all_iff typesIds_distinct split: option.splits)
  then show "map (\<lambda>(t, i). getById (getByMediaType t)) typesIds = map fst typesIds"
    by auto
qed

end
