(* ===== verification/HR_Codec.thy ===== *)
theory HR_Codec
  imports HR_Wire HR_Constants HR_Topology
begin

text \<open>
  \<open>impl/protocol/Codec20.cpp\<close> to \<open>Codec28.cpp\<close> and \<open>CodecFactory.cpp\<close>: request headers, response
  headers with their topology updates and error responses, expiration parameters, media types
  and events.

  A \<open>transport\<close> is a connection to a server. What the server answers is a parameter of the
  model: \<open>peer\<close> maps the sequence of requests flushed on the connection so far to the bytes
  that follow, or to the exception the socket raises. The state of a codec function is an
  \<open>'f io\<close>: the transport it is given, the \<open>TransportFactory\<close> behind it, the \<open>Topology\<close> object the
  header parameters refer to, and the message counter of the codec.

  The four member functions of \<open>TransportFactory\<close> a response header can call are a record of
  functions, \<open>'f tf_iface\<close>.
\<close>

section \<open>Transports\<close>

record transport =
  t_inp :: rstream
  t_out :: bytes
  t_sent :: "bytes list"
  t_peer :: "bytes list \<Rightarrow> exn + bytes"
  t_valid :: bool

record 'f io =
  tr :: transport
  fac :: 'f
  topo :: u32
  msgId :: u64

definition rd :: "(rstream, 'a) sm \<Rightarrow> ('f io, 'a) sm" where
  "rd m = on_part (\<lambda>s. t_inp (tr s)) (\<lambda>t s. s\<lparr>tr := (tr s)\<lparr>t_inp := t\<rparr>\<rparr>) m"

definition wr :: "bytes \<Rightarrow> ('f io, unit) sm" where
  "wr bs = modify (\<lambda>s. s\<lparr>tr := (tr s)\<lparr>t_out := t_out (tr s) @ bs\<rparr>\<rparr>)"

definition flush :: "('f io, unit) sm" where
  "flush s =
    (let h = t_sent (tr s) @ [t_out (tr s)];
         t = (tr s)\<lparr>t_out := [], t_sent := h\<rparr>
     in case t_peer t h of
          Inl e \<Rightarrow> (Inl e, s\<lparr>tr := t\<rparr>)
        | Inr reply \<Rightarrow>
            (Inr (), s\<lparr>tr := t\<lparr>t_inp := (t_inp t)\<lparr>pending := pending (t_inp t) @ reply\<rparr>\<rparr>\<rparr>))"

definition setValid :: "bool \<Rightarrow> ('f io, unit) sm" where
  "setValid v = modify (\<lambda>s. s\<lparr>tr := (tr s)\<lparr>t_valid := v\<rparr>\<rparr>)"

definition on_fac :: "('f, 'a) sm \<Rightarrow> ('f io, 'a) sm" where
  "on_fac m = on_part fac (\<lambda>f s. s\<lparr>fac := f\<rparr>) m"

definition str_of_bytes :: "bytes \<Rightarrow> string" where
  "str_of_bytes bs = map (\<lambda>b. char_of (unat b)) bs"

definition bytes_of_str :: "string \<Rightarrow> bytes" where
  "bytes_of_str s = map (\<lambda>c. of_nat (of_char c)) s"

section \<open>Codecs\<close>

datatype codec = Codec20 | Codec21 | Codec22 | Codec23 | Codec24 | Codec25 | Codec26 | Codec27 | Codec28

definition protocolVersion :: "codec \<Rightarrow> byte" where
  "protocolVersion c =
    (case c of Codec20 \<Rightarrow> VERSION_20 | Codec21 \<Rightarrow> VERSION_21 | Codec22 \<Rightarrow> VERSION_22
     | Codec23 \<Rightarrow> VERSION_23 | Codec24 \<Rightarrow> VERSION_24 | Codec25 \<Rightarrow> VERSION_25
     | Codec26 \<Rightarrow> VERSION_26 | Codec27 \<Rightarrow> VERSION_27 | Codec28 \<Rightarrow> VERSION_28)"

text \<open>\<open>codecMap[version]\<close>: \<open>None\<close> is the null pointer an unknown version gives.\<close>

definition codecMap :: "(string \<times> codec) list" where
  "codecMap = [(''2.0'', Codec20), (''2.1'', Codec21), (''2.2'', Codec22), (''2.3'', Codec23),
     (''2.4'', Codec24), (''2.5'', Codec25), (''2.6'', Codec26), (''2.7'', Codec27), (''2.8'', Codec28)]"

definition getCodec :: "string \<Rightarrow> codec option" where
  "getCodec version = map_of codecMap version"

section \<open>Request headers\<close>

record header_params =
  hp_opCode :: byte
  hp_opRespCode :: byte
  hp_cacheName :: bytes
  hp_flags :: u32
  hp_clientIntel :: byte
  hp_txMarker :: byte
  hp_messageId :: u64
  hp_topologyAge :: int
  hp_dataFormat :: "entry_media_types option"

definition writeMediaType :: "media_type \<Rightarrow> bytes" where
  "writeMediaType m =
    (if mt_typeSubtype m \<noteq> []
     then (let i = getByMediaType (mt_typeSubtype m)
           in if i \<noteq> -1 then writeByte 1 @ writeVInt (word_of_int i)
              else writeByte 2 @ writeString (bytes_of_str (mt_typeSubtype m)))
          @ writeVInt (of_nat (length (mt_params m)))
          @ concat (map (\<lambda>(k, v). writeString (bytes_of_str k) @ writeString (bytes_of_str v)) (mt_params m))
     else writeByte 0)"

definition Codec20_writeHeader :: "codec \<Rightarrow> header_params \<Rightarrow> ('f io, header_params) sm" where
  "Codec20_writeHeader c params =
    seq (wr (writeByte REQUEST_MAGIC))
    (seq (modify (\<lambda>s. s\<lparr>msgId := msgId s + 1\<rparr>))
    (bind (gets msgId) (\<lambda>i.
     let params = params\<lparr>hp_messageId := i\<rparr> in
     seq (wr (writeVLong i))
    (seq (wr (writeByte (protocolVersion c)))
    (seq (wr (writeByte (hp_opCode params)))
    (seq (wr (writeArray (hp_cacheName params)))
    (seq (wr (writeVInt (hp_flags params)))
    (seq (wr (writeByte (hp_clientIntel params)))
    (bind (gets topo) (\<lambda>t.
     seq (wr (writeVInt t))
    (ret params)))))))))))"

definition writeHeader :: "codec \<Rightarrow> header_params \<Rightarrow> ('f io, header_params) sm" where
  "writeHeader c params =
    (if c = Codec28
     then bind (Codec20_writeHeader c params) (\<lambda>params.
          seq (case hp_dataFormat params of
                 Some format \<Rightarrow> seq (wr (writeMediaType (keyMediaType format)))
                                    (wr (writeMediaType (valueMediaType format)))
               | None \<Rightarrow> seq (wr (writeByte 0)) (wr (writeByte 0)))
          (ret params))
     else Codec20_writeHeader c params)"

section \<open>Response headers\<close>

record 'f tf_iface =
  tf_getTopologyId :: "bytes \<Rightarrow> ('f, u32) sm"
  tf_getTopologyAge :: "'f \<Rightarrow> int"
  tf_updateServers :: "inet list \<Rightarrow> ('f, unit) sm"
  tf_updateHashFunction :: "inet list list \<Rightarrow> u32 \<Rightarrow> byte \<Rightarrow> bytes \<Rightarrow> u32 \<Rightarrow> ('f, unit) sm"

text \<open>\<open>std::string::find(pat) != npos\<close>.\<close>

fun has_infix :: "'a list \<Rightarrow> 'a list \<Rightarrow> bool" where
  "has_infix pat [] \<longleftrightarrow> pat = []"
| "has_infix pat (x # xs) \<longleftrightarrow> take (length pat) (x # xs) = pat \<or> has_infix pat xs"

definition invalidates_transport :: "byte \<Rightarrow> bool" where
  "invalidates_transport status \<longleftrightarrow> status = INVALID_MAGIC_OR_MESSAGE_ID_STATUS
     \<or> status = REQUEST_PARSING_ERROR_STATUS \<or> status = UNKNOWN_COMMAND_STATUS
     \<or> status = UNKNOWN_VERSION_STATUS"

text \<open>
  The \<open>default\<close> branch of the \<open>switch\<close> evaluates \<open>"Unknown status: " + status\<close>, a pointer into the
  literal of 16 characters; past its end the read is undefined.
\<close>

definition unknown_status :: "byte \<Rightarrow> exn" where
  "unknown_status status =
    (if unat status \<le> 16 then InternalException (drop (unat status) ''Unknown status: '')
     else UndefinedBehaviour ''Unknown status: + status'')"

definition checkForErrorsInResponseStatus :: "u64 \<Rightarrow> byte \<Rightarrow> ('f io, unit) sm" where
  "checkForErrorsInResponseStatus messageId status =
    catch
      (if status = INVALID_MAGIC_OR_MESSAGE_ID_STATUS \<or> status = REQUEST_PARSING_ERROR_STATUS
          \<or> status = UNKNOWN_COMMAND_STATUS \<or> status = SERVER_ERROR_STATUS
          \<or> status = COMMAND_TIMEOUT_STATUS \<or> status = UNKNOWN_VERSION_STATUS
       then bind (rd readString) (\<lambda>bs.
            let msg = str_of_bytes bs in
            if has_infix ''SuspectException'' msg \<or> has_infix ''SuspectedException'' msg
            then raise (RemoteNodeSuspectException msg messageId status)
            else raise (HotRodClientException msg))
       else raise (unknown_status status))
      (\<lambda>e. if is_hr_exception e \<and> invalidates_transport status
           then seq (setValid False) (raise e) else raise e)"

text \<open>
  One member of the new topology: \<open>int16_t port = readUnsignedShort()\<close> is sign extended to \<open>int\<close>
  and cast back to \<open>unsigned short\<close> by the constructor.
\<close>

definition read_member :: "(rstream, inet) sm" where
  "read_member =
    bind readString (\<lambda>host.
    bind readUnsignedShort (\<lambda>p.
    ret (InetSocketAddress (str_of_bytes host) (sint p))))"

definition read_owner :: "inet list \<Rightarrow> (rstream, inet) sm" where
  "read_owner addresses =
    bind readVInt (\<lambda>memberIndex.
    if unat memberIndex < length addresses then ret (addresses ! unat memberIndex)
    else raise (UndefinedBehaviour ''addresses[memberIndex]''))"

definition read_segment :: "inet list \<Rightarrow> (rstream, inet list) sm" where
  "read_segment addresses =
    bind readByte (\<lambda>numOwners. repeat_sm (unat numOwners) (read_owner addresses))"

text \<open>The end of \<open>readNewTopologyAndHash\<close>: decide whether the topology read is new.\<close>

definition apply_topology ::
  "'f tf_iface \<Rightarrow> header_params \<Rightarrow> u32 \<Rightarrow> inet list \<Rightarrow> byte \<Rightarrow> u32 \<Rightarrow> inet list list \<Rightarrow> ('f io, unit) sm" where
  "apply_topology tf params newTopologyId addresses hashFunctionVersion numSegs owners =
    bind (catch (bind (on_fac (tf_getTopologyId tf (hp_cacheName params))) (\<lambda>i. ret (False, i)))
           (\<lambda>e. if is_std_exception e then ret (True, 0) else raise e))
      (\<lambda>(noTopologyInfo, currentTopology).
    bind (gets (\<lambda>s. tf_getTopologyAge tf (fac s))) (\<lambda>age.
    if noTopologyInfo \<or> (hp_topologyAge params = age \<and> currentTopology \<noteq> newTopologyId)
    then seq (modify (\<lambda>s. s\<lparr>topo := newTopologyId\<rparr>))
        (seq (on_fac (tf_updateServers tf addresses))
        (bind (gets topo) (\<lambda>i.
             on_fac (tf_updateHashFunction tf owners numSegs hashFunctionVersion (hp_cacheName params) i))))
    else ret ()))"

definition readNewTopologyAndHash :: "'f tf_iface \<Rightarrow> header_params \<Rightarrow> ('f io, unit) sm" where
  "readNewTopologyAndHash tf params =
    bind (rd readVInt) (\<lambda>newTopologyId.
    seq (modify (\<lambda>s. s\<lparr>topo := newTopologyId\<rparr>))
    (bind (rd readVInt) (\<lambda>clusterSize.
     bind (rd (repeat_sm (unat clusterSize) read_member)) (\<lambda>addresses.
     bind (rd readByte) (\<lambda>hashFunctionVersion.
     bind (rd readVInt) (\<lambda>numSegs.
     bind (if 0 < hashFunctionVersion then rd (repeat_sm (unat numSegs) (read_segment addresses))
           else ret (replicate (unat numSegs) [])) (\<lambda>owners.
     apply_topology tf params newTopologyId addresses hashFunctionVersion numSegs owners)))))))"

definition readNewTopologyIfPresent :: "'f tf_iface \<Rightarrow> header_params \<Rightarrow> ('f io, unit) sm" where
  "readNewTopologyIfPresent tf params =
    bind (rd readByte) (\<lambda>topologyChangeByte.
    if topologyChangeByte = 1 then readNewTopologyAndHash tf params else ret ())"

text \<open>The part of \<open>readHeader\<close> after the operation code, which is also \<open>readPartialHeader\<close>.\<close>

definition readPartialHeader :: "'f tf_iface \<Rightarrow> header_params \<Rightarrow> byte \<Rightarrow> ('f io, byte) sm" where
  "readPartialHeader tf params receivedOpCode =
    bind (rd readByte) (\<lambda>status.
    seq (readNewTopologyIfPresent tf params)
    (if receivedOpCode \<noteq> hp_opRespCode params
     then seq (if receivedOpCode = ERROR_RESPONSE
               then checkForErrorsInResponseStatus (hp_messageId params) status else ret ())
              (raise (InvalidResponseException (BadOperation (hp_opRespCode params) receivedOpCode)))
     else ret status))"

definition readHeader :: "'f tf_iface \<Rightarrow> header_params \<Rightarrow> ('f io, byte) sm" where
  "readHeader tf params =
    bind (rd readByte) (\<lambda>magic.
    if magic \<noteq> RESPONSE_MAGIC then raise (InvalidResponseException (BadMagic magic))
    else bind (rd readVLong) (\<lambda>receivedMessageId.
    if receivedMessageId \<noteq> hp_messageId params \<and> receivedMessageId \<noteq> 0
    then raise (InvalidResponseException (BadMessageId (hp_messageId params) receivedMessageId))
    else bind (rd readByte) (\<lambda>receivedOpCode.
    readPartialHeader tf params receivedOpCode)))"

definition returnPossiblePrevValue :: "byte \<Rightarrow> ('f io, bytes) sm" where
  "returnPossiblePrevValue status = (if hasPrevious status then rd readArray else ret [])"

section \<open>Expiration parameters\<close>

datatype time_unit = SECONDS | MILLISECONDS | NANOSECONDS | MICROSECONDS | MINUTES | HOURS | DAYS
  | DEFAULT | INFINITUM

definition time_code :: "time_unit \<Rightarrow> byte" where
  "time_code u = (case u of SECONDS \<Rightarrow> 0x00 | MILLISECONDS \<Rightarrow> 0x01 | NANOSECONDS \<Rightarrow> 0x02
     | MICROSECONDS \<Rightarrow> 0x03 | MINUTES \<Rightarrow> 0x04 | DAYS \<Rightarrow> 0x06 | HOURS \<Rightarrow> 0x05 | DEFAULT \<Rightarrow> 0x07
     | INFINITUM \<Rightarrow> 0x08)"

definition encodeDuration :: "u64 \<Rightarrow> time_unit \<Rightarrow> time_unit" where
  "encodeDuration duration timeUnit = (if duration = 0 then DEFAULT else timeUnit)"

definition encodeTimeUnits :: "u64 \<Rightarrow> time_unit \<Rightarrow> u64 \<Rightarrow> time_unit \<Rightarrow> byte" where
  "encodeTimeUnits lifespan lu maxIdle mu =
     push_bit 4 (time_code (encodeDuration lifespan lu)) OR time_code (encodeDuration maxIdle mu)"

definition Codec20_writeExpirationParams :: "u64 \<Rightarrow> u64 \<Rightarrow> exn + bytes" where
  "Codec20_writeExpirationParams lifespan maxIdle =
    (let lInt = ucast lifespan :: u32; mInt = ucast maxIdle :: u32 in
     if ucast lInt \<noteq> lifespan then Inl (HotRodClientException ''lifespan exceed 32bit integer'')
     else if ucast mInt \<noteq> maxIdle then Inl (HotRodClientException ''maxIdle exceed 32bit integer'')
     else Inr (writeVInt lInt @ writeVInt mInt))"

definition Codec22_writeExpirationParams :: "u64 \<Rightarrow> u64 \<Rightarrow> bytes" where
  "Codec22_writeExpirationParams lifespan maxIdle =
    (let timeCode = encodeTimeUnits lifespan SECONDS maxIdle SECONDS;
         lsTimeCode = drop_bit 4 timeCode;
         miTimeCode = timeCode AND 0x0F
     in writeByte timeCode
        @ (if lsTimeCode \<noteq> time_code DEFAULT \<and> lsTimeCode \<noteq> time_code INFINITUM
           then writeVLong lifespan else [])
        @ (if miTimeCode \<noteq> time_code DEFAULT \<and> miTimeCode \<noteq> time_code INFINITUM
           then writeVLong maxIdle else []))"

definition writeExpirationParams :: "codec \<Rightarrow> u64 \<Rightarrow> u64 \<Rightarrow> ('f io, unit) sm" where
  "writeExpirationParams c lifespan maxIdle =
    (if c = Codec20 \<or> c = Codec21
     then (case Codec20_writeExpirationParams lifespan maxIdle of Inl e \<Rightarrow> raise e | Inr bs \<Rightarrow> wr bs)
     else wr (Codec22_writeExpirationParams lifespan maxIdle))"

section \<open>Client listeners and events\<close>

record client_listener =
  includeCurrentState :: bool
  filterFactoryName :: bytes
  converterFactoryName :: bytes
  useRawData :: bool
  interestFlag :: byte

definition writeNamedFactory :: "bytes \<Rightarrow> bytes list \<Rightarrow> bytes" where
  "writeNamedFactory factoryName params =
    writeArray factoryName
    @ (if factoryName \<noteq> []
       then (if params \<noteq> [] then writeByte (of_nat (length params)) @ concat (map writeArray params)
             else writeByte 0)
       else [])"

definition writeClientListenerParams ::
  "codec \<Rightarrow> client_listener \<Rightarrow> bytes list \<Rightarrow> bytes list \<Rightarrow> bytes" where
  "writeClientListenerParams c l filterFactoryParams converterFactoryParams =
    writeByte (if includeCurrentState l then 1 else 0)
    @ writeNamedFactory (filterFactoryName l) filterFactoryParams
    @ writeNamedFactory (converterFactoryName l) converterFactoryParams
    @ (if c = Codec20 then [] else writeByte (if useRawData l then 1 else 0))"

definition writeClientListenerInterests :: "codec \<Rightarrow> byte \<Rightarrow> bytes" where
  "writeClientListenerInterests c flag =
    (if c \<in> {Codec26, Codec27, Codec28} then writeVInt (ucast flag) else [])"

datatype client_event =
    CreatedEvent bytes u64 bool
  | ModifiedEvent bytes u64 bool
  | RemovedEvent bytes bool
  | ExpiredEvent bytes
  | CustomEvent bytes bool

record event_header =
  eh_magic :: byte
  eh_messageId :: u64
  eh_opCode :: byte
  eh_status :: byte

definition readEventHeader :: "('f io, event_header) sm" where
  "readEventHeader =
    bind (rd readByte) (\<lambda>magic.
    if magic \<noteq> RESPONSE_MAGIC then raise (InvalidResponseException (BadMagic magic))
    else bind (rd readVLong) (\<lambda>messageId.
    bind (rd readByte) (\<lambda>opCode.
    bind (rd readByte) (\<lambda>status.
    bind (rd readByte) (\<lambda>_.
    if opCode = ERROR_RESPONSE
    then seq (checkForErrorsInResponseStatus messageId status)
             (raise (InvalidResponseException (BadOperation opCode opCode)))
    else ret \<lparr>eh_magic = magic, eh_messageId = messageId, eh_opCode = opCode, eh_status = status\<rparr>)))))"

definition readPartialEventHeader :: "event_header \<Rightarrow> ('f io, event_header) sm" where
  "readPartialEventHeader params =
    bind (rd readByte) (\<lambda>status.
    bind (rd readByte) (\<lambda>_.
    seq (if \<not> isSuccess status then checkForErrorsInResponseStatus (eh_messageId params) status else ret ())
        (ret (params\<lparr>eh_status := status\<rparr>))))"

definition readAddEventListenerResponseType :: "('f io, byte \<times> u64) sm" where
  "readAddEventListenerResponseType =
    bind (rd readByte) (\<lambda>magic.
    if magic \<noteq> RESPONSE_MAGIC then raise (InvalidResponseException (BadMagic magic))
    else bind (rd readVLong) (\<lambda>receivedMessageId.
    bind (rd readByte) (\<lambda>receivedOpCode. ret (receivedOpCode, receivedMessageId))))"

definition readCustomEvent :: "byte \<Rightarrow> (rstream, client_event) sm" where
  "readCustomEvent isRetried = bind readArray (\<lambda>d. ret (CustomEvent d (isRetried \<noteq> 0)))"

definition readCreatedEvent :: "byte \<Rightarrow> (rstream, client_event) sm" where
  "readCreatedEvent isRetried =
    bind readArray (\<lambda>key. bind readLong (\<lambda>version. ret (CreatedEvent key version (isRetried \<noteq> 0))))"

definition readModifiedEvent :: "byte \<Rightarrow> (rstream, client_event) sm" where
  "readModifiedEvent isRetried =
    bind readArray (\<lambda>key. bind readLong (\<lambda>version. ret (ModifiedEvent key version (isRetried \<noteq> 0))))"

definition readRemovedEvent :: "byte \<Rightarrow> (rstream, client_event) sm" where
  "readRemovedEvent isRetried = bind readArray (\<lambda>key. ret (RemovedEvent key (isRetried \<noteq> 0)))"

definition readExpiredEvent :: "(rstream, client_event) sm" where
  "readExpiredEvent = bind readArray (\<lambda>key. ret (ExpiredEvent key))"

end
