(* ===== verification/HR_Codec_Correct.thy ===== *)
theory HR_Codec_Correct
  imports HR_Codec
begin

text \<open>
  What the codecs guarantee. The reference readers below (\<open>parse_request_header\<close>,
  \<open>parse_media_type\<close>, \<open>parse_expiration\<close>) and writers (\<open>reply_header\<close>, \<open>enc_topology\<close>) are the
  other end of the protocol, built from the same primitive encodings: the client's writers are
  inverse to the former and its readers to the latter.
\<close>

section \<open>Running a codec function on a transport\<close>

definition inp_of :: "'f io \<Rightarrow> bytes" where
  "inp_of s = pending (t_inp (tr s))"

definition with_inp :: "bytes \<Rightarrow> 'f io \<Rightarrow> 'f io" where
  "with_inp bs s = s\<lparr>tr := (tr s)\<lparr>t_inp := (t_inp (tr s))\<lparr>pending := bs\<rparr>\<rparr>\<rparr>"

definition add_out :: "bytes \<Rightarrow> 'f io \<Rightarrow> 'f io" where
  "add_out bs s = s\<lparr>tr := (tr s)\<lparr>t_out := t_out (tr s) @ bs\<rparr>\<rparr>"

named_theorems io_simps \<open>running a codec function\<close>

lemma inp_of_with_inp [simp, io_simps]: "inp_of (with_inp bs s) = bs"
  by (simp add: inp_of_def with_inp_def)

lemma with_inp_twice [simp, io_simps]: "with_inp b (with_inp a s) = with_inp b s"
  by (simp add: with_inp_def)

lemma with_inp_topo [simp]:
  "topo (with_inp b s) = topo s" "fac (with_inp b s) = fac s" "msgId (with_inp b s) = msgId s"
  "t_valid (tr (with_inp b s)) = t_valid (tr s)" "t_out (tr (with_inp b s)) = t_out (tr s)"
  "t_sent (tr (with_inp b s)) = t_sent (tr s)" "t_peer (tr (with_inp b s)) = t_peer (tr s)"
  by (simp_all add: with_inp_def)

lemma inp_of_update [simp]:
  "inp_of (s\<lparr>topo := t\<rparr>) = inp_of s" "inp_of (s\<lparr>fac := f\<rparr>) = inp_of s" "inp_of (s\<lparr>msgId := i\<rparr>) = inp_of s"
  "inp_of (add_out bs s) = inp_of s"
  by (simp_all add: inp_of_def add_out_def)

lemma with_inp_commute [simp]:
  "(with_inp b s)\<lparr>topo := t\<rparr> = with_inp b (s\<lparr>topo := t\<rparr>)"
  by (simp add: with_inp_def)

lemma wr_run [io_simps]: "wr bs s = (Inr (), add_out bs s)"
  by (simp add: wr_def add_out_def modify_run)

lemma add_out_twice [simp]: "add_out b (add_out a s) = add_out (a @ b) s"
  by (simp add: add_out_def)

lemma add_out_fields [simp]:
  "topo (add_out b s) = topo s" "fac (add_out b s) = fac s" "msgId (add_out b s) = msgId s"
  "(add_out b s)\<lparr>msgId := i\<rparr> = add_out b (s\<lparr>msgId := i\<rparr>)"
  "t_out (tr (add_out b s)) = t_out (tr s) @ b"
  by (simp_all add: add_out_def)

lemma rd_run: "rd m s = (case m (t_inp (tr s)) of (r, t) \<Rightarrow> (r, s\<lparr>tr := (tr s)\<lparr>t_inp := t\<rparr>\<rparr>))"
  by (simp add: rd_def on_part_run)

lemma rd_Inr:
  assumes "m (t_inp (tr s)) = (Inr x, (t_inp (tr s))\<lparr>pending := rest\<rparr>)"
  shows "rd m s = (Inr x, with_inp rest s)"
  using assms by (simp add: rd_run with_inp_def)

context wire_codec
begin

lemma rd_dec: "ok x \<Longrightarrow> inp_of s = enc x @ rest \<Longrightarrow> rd dec s = (Inr x, with_inp rest s)"
  by (rule rd_Inr) (simp add: dec_enc inp_of_def)

end

lemma rd_byte: "inp_of s = b # rest \<Longrightarrow> rd readByte s = (Inr b, with_inp rest s)"
  using byte_codec.rd_dec [of s b rest] by (simp add: writeByte_def)

lemma rd_byte_eof:
  "inp_of s = [] \<Longrightarrow> rd readByte s =
     (Inl (TransportException (rhost (t_inp (tr s))) (rport (t_inp (tr s))) ''no read''), s)"
  by (simp add: rd_run readByte_cases inp_of_def)

lemma bytes_of_str_of_bytes [simp]: "bytes_of_str (str_of_bytes bs) = bs"
proof -
  have "of_nat (of_char (char_of (unat b) :: char)) = b" for b :: byte
  proof -
    have "unat b < 256" by (rule less_le_trans [OF unsigned_less]) simp
    then show ?thesis by simp
  qed
  then show ?thesis by (simp add: bytes_of_str_def str_of_bytes_def map_idI)
qed

lemma str_of_bytes_of_str [simp]: "str_of_bytes (bytes_of_str s) = s"
proof -
  have "char_of (unat (of_nat (of_char c) :: byte)) = c" for c :: char
    by (simp add: unsigned_of_nat take_bit_nat_eq_self)
  then show ?thesis by (simp add: bytes_of_str_def str_of_bytes_def comp_def map_idI)
qed

lemma bytes_of_str_length [simp]: "length (bytes_of_str s) = length s"
  by (simp add: bytes_of_str_def)

section \<open>Requests\<close>

record request_header =
  rq_messageId :: u64
  rq_version :: byte
  rq_opCode :: byte
  rq_cacheName :: bytes
  rq_flags :: u32
  rq_clientIntel :: byte
  rq_topologyId :: u32

definition parse_media_type :: "(rstream, string \<times> (string \<times> string) list) sm" where
  "parse_media_type =
    bind readByte (\<lambda>tag.
    if tag = 0 then ret ([], [])
    else bind (if tag = 1 then bind readVInt (\<lambda>i. ret (getById (uint i)))
               else bind readString (\<lambda>s. ret (str_of_bytes s))) (\<lambda>ts.
    bind readVInt (\<lambda>n.
    bind (repeat_sm (unat n) (bind readString (\<lambda>k. bind readString (\<lambda>v.
            ret (str_of_bytes k, str_of_bytes v))))) (\<lambda>ps. ret (ts, ps)))))"

definition parse_request_header :: "(rstream, request_header) sm" where
  "parse_request_header =
    bind readByte (\<lambda>magic.
    if magic \<noteq> REQUEST_MAGIC then raise (InvalidResponseException (BadMagic magic))
    else bind readVLong (\<lambda>i.
    bind readByte (\<lambda>v.
    bind readByte (\<lambda>op.
    bind readArray (\<lambda>c.
    bind readVInt (\<lambda>f.
    bind readByte (\<lambda>ci.
    bind readVInt (\<lambda>t.
    ret \<lparr>rq_messageId = i, rq_version = v, rq_opCode = op, rq_cacheName = c, rq_flags = f,
         rq_clientIntel = ci, rq_topologyId = t\<rparr>))))))))"

definition request_header_bytes :: "codec \<Rightarrow> header_params \<Rightarrow> u64 \<Rightarrow> u32 \<Rightarrow> bytes" where
  "request_header_bytes c p i t =
    [REQUEST_MAGIC] @ writeVLong i @ [protocolVersion c, hp_opCode p] @ writeArray (hp_cacheName p)
    @ writeVInt (hp_flags p) @ [hp_clientIntel p] @ writeVInt t"

definition media_types_bytes :: "codec \<Rightarrow> header_params \<Rightarrow> bytes" where
  "media_types_bytes c p =
    (if c = Codec28
     then (case hp_dataFormat p of
             Some f \<Rightarrow> writeMediaType (keyMediaType f) @ writeMediaType (valueMediaType f)
           | None \<Rightarrow> [0, 0])
     else [])"

lemma Codec20_writeHeader_run:
  "Codec20_writeHeader c p s =
    (Inr (p\<lparr>hp_messageId := msgId s + 1\<rparr>),
     add_out (request_header_bytes c p (msgId s + 1) (topo s)) (s\<lparr>msgId := msgId s + 1\<rparr>))"
  by (simp add: Codec20_writeHeader_def request_header_bytes_def sm_simps io_simps Let_def writeByte_def)

text \<open>The bytes a request header adds to the output, and the message id it takes.\<close>

lemma writeHeader_run:
  "writeHeader c p s =
    (Inr (p\<lparr>hp_messageId := msgId s + 1\<rparr>),
     add_out (request_header_bytes c p (msgId s + 1) (topo s) @ media_types_bytes c p)
       (s\<lparr>msgId := msgId s + 1\<rparr>))"
  by (cases "hp_dataFormat p")
     (simp_all add: writeHeader_def Codec20_writeHeader_run media_types_bytes_def sm_simps io_simps
        writeByte_def)

lemma readByte_app: "pending s = b # rest \<Longrightarrow> bind readByte f s = f b (s\<lparr>pending := rest\<rparr>)"
  by (simp add: readByte_Cons)

context wire_codec
begin

lemma dec_app: "pending s = enc x @ rest \<Longrightarrow> ok x \<Longrightarrow> bind dec f s = f x (s\<lparr>pending := rest\<rparr>)"
  by (simp add: dec_enc)

lemma rd_app: "inp_of s = enc x @ rest \<Longrightarrow> ok x \<Longrightarrow> bind (rd dec) f s = f x (with_inp rest s)"
  by (simp add: rd_dec)

end

lemma parse_request_header_enc:
  assumes "length (hp_cacheName p) < 2 ^ 32" "pending r = request_header_bytes c p i t @ rest"
  shows "parse_request_header r =
    (Inr \<lparr>rq_messageId = i, rq_version = protocolVersion c, rq_opCode = hp_opCode p,
          rq_cacheName = hp_cacheName p, rq_flags = hp_flags p, rq_clientIntel = hp_clientIntel p,
          rq_topologyId = t\<rparr>, r\<lparr>pending := rest\<rparr>)"
  using assms
  by (simp add: parse_request_header_def request_header_bytes_def readByte_app vlong.dec_app
      array.dec_app vint.dec_app ret_run)

text \<open>
  The header of every request is understood by the reader of the other end: the message id is
  the next value of the counter, the version is the codec's, the operation, cache name, flags,
  intelligence and topology id are those of the parameters, and reading stops exactly where the
  body (for protocol 2.8 the media types) starts.
\<close>

theorem request_header_roundtrip:
  assumes "length (hp_cacheName p) < 2 ^ 32"
  shows "\<exists>hdr. writeHeader c p s = (Inr (p\<lparr>hp_messageId := msgId s + 1\<rparr>),
        add_out (hdr @ media_types_bytes c p) (s\<lparr>msgId := msgId s + 1\<rparr>))
    \<and> (\<forall>r rest. pending r = hdr @ rest \<longrightarrow> parse_request_header r =
        (Inr \<lparr>rq_messageId = msgId s + 1, rq_version = protocolVersion c, rq_opCode = hp_opCode p,
          rq_cacheName = hp_cacheName p, rq_flags = hp_flags p, rq_clientIntel = hp_clientIntel p,
          rq_topologyId = topo s\<rparr>, r\<lparr>pending := rest\<rparr>))"
  using parse_request_header_enc [OF assms] writeHeader_run by blast

definition example_params :: header_params where
  "example_params = \<lparr>hp_opCode = PING_REQUEST, hp_opRespCode = PING_RESPONSE, hp_cacheName = [99],
     hp_flags = 0, hp_clientIntel = CLIENT_INTELLIGENCE_HASH_DISTRIBUTION_AWARE, hp_txMarker = 0,
     hp_messageId = 0, hp_topologyAge = 0, hp_dataFormat = None\<rparr>"

definition example_io :: "bytes \<Rightarrow> unit io" where
  "example_io bs = \<lparr>tr = \<lparr>t_inp = \<lparr>rhost = ''h'', rport = 1, pending = bs\<rparr>, t_out = [], t_sent = [],
     t_peer = (\<lambda>_. Inr []), t_valid = True\<rparr>, fac = (), topo = - 1, msgId = 4\<rparr>"

text \<open>A transport factory that knows no topology and ignores updates.\<close>

definition example_tf :: "unit tf_iface" where
  "example_tf = \<lparr>tf_getTopologyId = (\<lambda>_. raise (StdException ''map::at'')), tf_getTopologyAge = (\<lambda>_. 0),
     tf_updateServers = (\<lambda>_. ret ()), tf_updateHashFunction = (\<lambda>_ _ _ _ _. ret ())\<rparr>"

theorem request_header_roundtrip_witness:
  "\<exists>hdr. t_out (tr (snd (writeHeader Codec20 example_params (example_io [])))) = hdr
    \<and> parse_request_header \<lparr>rhost = [], rport = 0, pending = hdr @ [1, 2]\<rparr> =
        (Inr \<lparr>rq_messageId = 5, rq_version = 20, rq_opCode = 0x17, rq_cacheName = [99],
          rq_flags = 0, rq_clientIntel = 3, rq_topologyId = - 1\<rparr>,
         \<lparr>rhost = [], rport = 0, pending = [1, 2]\<rparr>)"
proof -
  have "length (hp_cacheName example_params) < 2 ^ 32" by (simp add: example_params_def)
  from request_header_roundtrip [OF this, of Codec20 "example_io []"] show ?thesis
    by (auto simp: example_params_def example_io_def media_types_bytes_def protocolVersion_def)
qed

text \<open>Media types.\<close>

definition media_type_ok :: "media_type \<Rightarrow> bool" where
  "media_type_ok m \<longleftrightarrow> length (mt_typeSubtype m) < 2 ^ 32 \<and> length (mt_params m) < 2 ^ 32
     \<and> list_all (\<lambda>(k, v). length k < 2 ^ 32 \<and> length v < 2 ^ 32) (mt_params m)
     \<and> (mt_typeSubtype m = [] \<longrightarrow> mt_params m = [])"

lemma getByMediaType_range: "getByMediaType t \<noteq> -1 \<Longrightarrow> 0 < getByMediaType t \<and> getByMediaType t \<le> 16
    \<and> getById (getByMediaType t) = t"
proof (cases "map_of typesIds t")
  case (Some i)
  have "list_all (\<lambda>(t, i). 0 < i \<and> i \<le> 16 \<and> getById i = t) typesIds"
    by (simp add: typesIds_def getById_def)
  then show ?thesis using map_of_SomeD [OF Some] Some by (auto simp: getByMediaType_def list_all_iff)
qed (simp add: getByMediaType_def)

lemma parse_params:
  assumes "list_all (\<lambda>(k, v). length k < 2 ^ 32 \<and> length v < 2 ^ 32) ps"
    and "pending s = concat (map (\<lambda>(k, v). writeString (bytes_of_str k) @ writeString (bytes_of_str v)) ps) @ rest"
  shows "repeat_sm (length ps) (bind readString (\<lambda>k. bind readString (\<lambda>v.
            ret (str_of_bytes k, str_of_bytes v)))) s = (Inr ps, s\<lparr>pending := rest\<rparr>)"
proof -
  let ?enc = "\<lambda>(k, v). writeString (bytes_of_str k) @ writeString (bytes_of_str v)"
  have "bind readString (\<lambda>k. bind readString (\<lambda>v. ret (str_of_bytes k, str_of_bytes v))) s
      = (Inr (id x), s\<lparr>pending := rest\<rparr>)"
    if "x \<in> set ps" "pending s = ?enc x @ rest" for x s rest
  proof (cases x)
    case (Pair k v)
    then have "length k < 2 ^ 32" "length v < 2 ^ 32"
      using that(1) assms(1) by (auto simp: list_all_iff)
    then show ?thesis using that(2) Pair by (simp add: str.dec_app ret_run)
  qed
  from repeat_sm_enc [OF this, of ps] assms(2) show ?thesis by simp
qed

lemma parse_media_type_enc:
  assumes "media_type_ok m" "pending s = writeMediaType m @ rest"
  shows "parse_media_type s = (Inr (mt_typeSubtype m, mt_params m), s\<lparr>pending := rest\<rparr>)"
proof (cases "mt_typeSubtype m = []")
  case True
  then show ?thesis
    using assms by (simp add: parse_media_type_def writeMediaType_def writeByte_def readByte_app ret_run
        media_type_ok_def)
next
  case False
  define tail where "tail = concat (map (\<lambda>(k, v). writeString (bytes_of_str k) @ writeString (bytes_of_str v))
      (mt_params m)) @ rest"
  have n: "unat (of_nat (length (mt_params m)) :: u32) = length (mt_params m)"
    using assms(1) by (simp add: media_type_ok_def unsigned_of_nat take_bit_nat_eq_self)
  have ps: "repeat_sm (length (mt_params m)) (bind readString (\<lambda>k. bind readString (\<lambda>v.
            ret (str_of_bytes k, str_of_bytes v)))) r = (Inr (mt_params m), r\<lparr>pending := rest\<rparr>)"
    if "pending r = tail" for r
    using parse_params assms(1) that by (simp add: media_type_ok_def tail_def)
  show ?thesis
  proof (cases "getByMediaType (mt_typeSubtype m) = -1")
    case True
    then have "pending s = 2 # writeString (bytes_of_str (mt_typeSubtype m))
        @ writeVInt (of_nat (length (mt_params m))) @ tail"
      using assms(2) False by (simp add: writeMediaType_def writeByte_def tail_def)
    then show ?thesis
      using assms(1) by (simp add: parse_media_type_def readByte_app str.dec_app sm_bind_assoc
          vint.dec_app n ps ret_run media_type_ok_def)
  next
    case known: False
    let ?i = "getByMediaType (mt_typeSubtype m)"
    have i: "uint (word_of_int ?i :: u32) = ?i" "getById ?i = mt_typeSubtype m"
      using getByMediaType_range [OF known] by (auto simp: uint_word_of_int)
    have "pending s = 1 # writeVInt (word_of_int ?i)
        @ writeVInt (of_nat (length (mt_params m))) @ tail"
      using assms(2) False known by (simp add: writeMediaType_def writeByte_def tail_def Let_def)
    then show ?thesis
      using i by (simp add: parse_media_type_def readByte_app sm_bind_assoc vint.dec_app n ps ret_run)
  qed
qed

text \<open>
  The media types of a protocol 2.8 header are read back with their parameters, whether they
  are sent as the id of the table or by name.
\<close>

theorem media_types_roundtrip:
  assumes "hp_dataFormat p = Some f" "media_type_ok (keyMediaType f)" "media_type_ok (valueMediaType f)"
    and "pending s = media_types_bytes Codec28 p @ rest"
  shows "bind parse_media_type (\<lambda>k. bind parse_media_type (\<lambda>v. ret (k, v))) s =
    (Inr ((mt_typeSubtype (keyMediaType f), mt_params (keyMediaType f)),
          (mt_typeSubtype (valueMediaType f), mt_params (valueMediaType f))), s\<lparr>pending := rest\<rparr>)"
proof -
  have s: "pending s = writeMediaType (keyMediaType f) @ writeMediaType (valueMediaType f) @ rest"
    using assms by (simp add: media_types_bytes_def)
  show ?thesis
    using parse_media_type_enc [OF assms(2) s]
      parse_media_type_enc [OF assms(3), of "s\<lparr>pending := writeMediaType (valueMediaType f) @ rest\<rparr>" rest]
    by (simp add: ret_run)
qed

definition example_format :: entry_media_types where
  "example_format = \<lparr>keyMediaType = MediaType (Some ''text/plain''),
     valueMediaType = (MediaType (Some ''application/x-own''))\<lparr>mt_params := [(''q'', ''1'')]\<rparr>\<rparr>"

theorem media_types_roundtrip_witness:
  "fst (bind parse_media_type (\<lambda>k. bind parse_media_type (\<lambda>v. ret (k, v)))
      \<lparr>rhost = [], rport = 0,
       pending = media_types_bytes Codec28 (example_params\<lparr>hp_dataFormat := Some example_format\<rparr>)\<rparr>)
   = Inr ((''text/plain'', []), (''application/x-own'', [(''q'', ''1'')]))"
proof -
  have "media_type_ok (keyMediaType example_format)" "media_type_ok (valueMediaType example_format)"
    by (simp_all add: example_format_def MediaType_def media_type_ok_def)
  from media_types_roundtrip [OF _ this, of "example_params\<lparr>hp_dataFormat := Some example_format\<rparr>"
      "\<lparr>rhost = [], rport = 0,
       pending = media_types_bytes Codec28 (example_params\<lparr>hp_dataFormat := Some example_format\<rparr>)\<rparr>" "[]"]
  show ?thesis by (simp add: example_format_def MediaType_def)
qed

section \<open>Expiration parameters\<close>

definition parse_expiration :: "codec \<Rightarrow> (rstream, u64 \<times> u64) sm" where
  "parse_expiration c =
    (if c = Codec20 \<or> c = Codec21
     then bind readVInt (\<lambda>l. bind readVInt (\<lambda>m. ret (ucast l, ucast m)))
     else bind readByte (\<lambda>units.
          bind (if drop_bit 4 units \<in> {0x07, 0x08} then ret 0 else readVLong) (\<lambda>l.
          bind (if units AND 0x0F \<in> {0x07, 0x08} then ret 0 else readVLong) (\<lambda>m. ret (l, m)))))"

lemma ucast_u32_u64: "ucast (ucast x :: u32) = x \<longleftrightarrow> unat x < 2 ^ 32" for x :: u64
proof -
  have "ucast (ucast x :: u32) = x \<longleftrightarrow> take_bit 32 x = x"
    by (auto simp: bit_eq_iff bit_simps dest: bit_imp_le_length)
  then show ?thesis
    by (simp add: take_bit_eq_self_iff_drop_bit_eq_0 drop_bit_eq_0_iff_lt)
qed

lemma time_units:
  "encodeTimeUnits l SECONDS m SECONDS = (if l = 0 then 0x70 else 0) OR (if m = 0 then 0x07 else 0)"
  by (simp add: encodeTimeUnits_def encodeDuration_def time_code_def)

lemma Codec22_expiration_bytes:
  "Codec22_writeExpirationParams l m =
    ((if l = 0 then 0x70 else 0) OR (if m = 0 then 0x07 else 0))
    # (if l = 0 then [] else writeVLong l) @ (if m = 0 then [] else writeVLong m)"
  by (simp add: Codec22_writeExpirationParams_def time_units time_code_def writeByte_def Let_def)

lemma parse_expiration_22:
  assumes "c \<noteq> Codec20" "c \<noteq> Codec21" "pending s = Codec22_writeExpirationParams l m @ rest"
  shows "parse_expiration c s = (Inr (l, m), s\<lparr>pending := rest\<rparr>)"
  using assms by (cases "l = 0"; cases "m = 0")
    (simp_all add: parse_expiration_def Codec22_expiration_bytes readByte_app vlong.dec_app ret_run)

text \<open>
  Lifespan and maximum idle time reach the server unchanged. Protocols 2.0 and 2.1 refuse values
  of \<open>2 ^ 32\<close> and more with a \<open>HotRodClientException\<close> and write nothing; from 2.2 on every 64-bit
  value is sent, a zero as the server's default.
\<close>

theorem expiration_roundtrip:
  "case writeExpirationParams c lifespan maxIdle s of
     (Inl e, s') \<Rightarrow> s' = s \<and> (c = Codec20 \<or> c = Codec21) \<and> (2 ^ 32 \<le> unat lifespan \<or> 2 ^ 32 \<le> unat maxIdle)
   | (Inr _, s') \<Rightarrow> (\<exists>bs. s' = add_out bs s \<and> (\<forall>r rest. pending r = bs @ rest
        \<longrightarrow> parse_expiration c r = (Inr (lifespan, maxIdle), r\<lparr>pending := rest\<rparr>)))"
proof (cases "c = Codec20 \<or> c = Codec21")
  case True
  then show ?thesis
    by (auto simp: writeExpirationParams_def Codec20_writeExpirationParams_def Let_def ucast_u32_u64
        raise_run wr_run not_less [symmetric] parse_expiration_def vint.dec_app ret_run
        intro!: exI [of _ "writeVInt (ucast lifespan) @ writeVInt (ucast maxIdle)"])
next
  case False
  then show ?thesis
    by (auto simp: writeExpirationParams_def wr_run parse_expiration_22
        intro!: exI [of _ "Codec22_writeExpirationParams lifespan maxIdle"])
qed

theorem expiration_roundtrip_witness:
  "parse_expiration Codec22 \<lparr>rhost = [], rport = 0, pending = Codec22_writeExpirationParams 0 300 @ [9]\<rparr>
     = (Inr (0, 300), \<lparr>rhost = [], rport = 0, pending = [9]\<rparr>)"
proof -
  obtain bs where bs: "snd (writeExpirationParams Codec22 0 300 (example_io [])) = add_out bs (example_io [])"
    "\<forall>r rest. pending r = bs @ rest \<longrightarrow> parse_expiration Codec22 r = (Inr (0, 300), r\<lparr>pending := rest\<rparr>)"
    using expiration_roundtrip [where c = Codec22 and lifespan = 0 and maxIdle = 300 and s = "example_io []"]
    by (auto simp: writeExpirationParams_def wr_run)
  then have "bs = Codec22_writeExpirationParams 0 300"
    by (simp add: writeExpirationParams_def wr_run add_out_def example_io_def)
  then show ?thesis using bs(2) by simp
qed

section \<open>Error responses\<close>

text \<open>The statuses whose error response carries a message.\<close>

definition message_status :: "byte \<Rightarrow> bool" where
  "message_status st \<longleftrightarrow> st = INVALID_MAGIC_OR_MESSAGE_ID_STATUS \<or> st = REQUEST_PARSING_ERROR_STATUS
     \<or> st = UNKNOWN_COMMAND_STATUS \<or> st = SERVER_ERROR_STATUS \<or> st = COMMAND_TIMEOUT_STATUS
     \<or> st = UNKNOWN_VERSION_STATUS"

definition is_suspect :: "string \<Rightarrow> bool" where
  "is_suspect msg \<longleftrightarrow> has_infix ''SuspectException'' msg \<or> has_infix ''SuspectedException'' msg"

lemma has_infix_iff: "has_infix pat xs \<longleftrightarrow> (\<exists>as bs. xs = as @ pat @ bs)"
proof (induction xs)
  case (Cons x xs)
  have "take (length pat) (x # xs) = pat \<longleftrightarrow> (\<exists>bs. x # xs = pat @ bs)"
    by (metis append_eq_conv_conj append_take_drop_id)
  then show ?case
    using Cons.IH by (auto simp: Cons_eq_append_conv)
qed simp

definition error_of :: "u64 \<Rightarrow> byte \<Rightarrow> bytes \<Rightarrow> exn" where
  "error_of i st msg =
    (if is_suspect (str_of_bytes msg) then RemoteNodeSuspectException (str_of_bytes msg) i st
     else HotRodClientException (str_of_bytes msg))"

definition mark_invalid :: "byte \<Rightarrow> 'f io \<Rightarrow> 'f io" where
  "mark_invalid st s = (if invalidates_transport st then s\<lparr>tr := (tr s)\<lparr>t_valid := False\<rparr>\<rparr> else s)"

lemma invalidates_message: "invalidates_transport st \<Longrightarrow> message_status st"
  by (auto simp: invalidates_transport_def message_status_def)

lemma check_errors_run:
  assumes "message_status st" "length msg < 2 ^ 32" "inp_of s = writeString msg @ rest"
  shows "checkForErrorsInResponseStatus i st s = (Inl (error_of i st msg), mark_invalid st (with_inp rest s))"
proof -
  let ?body = "bind (rd readString) (\<lambda>bs.
      let msg = str_of_bytes bs in
      if has_infix ''SuspectException'' msg \<or> has_infix ''SuspectedException'' msg
      then raise (RemoteNodeSuspectException msg i st) else raise (HotRodClientException msg)) :: ('a io, unit) sm"
  have "rd readString s = (Inr msg, with_inp rest s)"
    using assms(2,3) by (intro str.rd_dec) auto
  then have body: "?body s = (Inl (error_of i st msg), with_inp rest s)"
    by (simp add: error_of_def is_suspect_def Let_def raise_run)
  have "catch ?body h s = h (error_of i st msg) (with_inp rest s)" for h
    by (rule catch_Inl) (rule body)
  moreover have "is_hr_exception (error_of i st msg)"
    by (simp add: error_of_def)
  ultimately show ?thesis
    using assms(1) unfolding checkForErrorsInResponseStatus_def message_status_def [symmetric]
    by (simp add: mark_invalid_def setValid_def seq_run modify_run raise_run)
qed

lemma check_errors_unknown:
  assumes "\<not> message_status st"
  shows "checkForErrorsInResponseStatus i st s = (Inl (unknown_status st), s)"
  using assms invalidates_message [of st]
  by (auto simp: checkForErrorsInResponseStatus_def message_status_def sm_simps)

text \<open>An error response never passes for a result, whatever bytes follow it.\<close>

lemma check_errors_throws: "\<exists>e. fst (checkForErrorsInResponseStatus i st s) = Inl e"
  by (auto simp: checkForErrorsInResponseStatus_def Let_def sm_simps setValid_def split: prod.splits sum.splits)

section \<open>Response headers\<close>

definition reply_header :: "u64 \<Rightarrow> byte \<Rightarrow> byte \<Rightarrow> bytes" where
  "reply_header i op st = [RESPONSE_MAGIC] @ writeVLong i @ [op, st, 0]"

lemma readHeader_prefix:
  assumes "inp_of s = [RESPONSE_MAGIC] @ writeVLong i @ op # rest" "i = hp_messageId p \<or> i = 0"
  shows "readHeader tf p s = readPartialHeader tf p op (with_inp rest s)"
proof -
  have "rd readByte s = (Inr RESPONSE_MAGIC, with_inp (writeVLong i @ op # rest) s)"
    using assms(1) by (intro rd_byte) simp
  moreover have "rd readVLong (with_inp (writeVLong i @ op # rest) s) = (Inr i, with_inp (op # rest) s)"
    using vlong.rd_dec [of "with_inp (writeVLong i @ op # rest) s" i "op # rest"] by simp
  moreover have "rd readByte (with_inp (op # rest) s) = (Inr op, with_inp rest s)"
    using rd_byte [of "with_inp (op # rest) s"] by simp
  ultimately show ?thesis using assms(2) by (auto simp: readHeader_def)
qed

lemma readPartialHeader_plain:
  assumes "inp_of s = st # 0 # rest"
  shows readPartialHeader_ok:
      "op = hp_opRespCode p \<Longrightarrow> readPartialHeader tf p op s = (Inr st, with_inp rest s)"
    and readPartialHeader_other:
      "op \<noteq> hp_opRespCode p \<Longrightarrow> op \<noteq> ERROR_RESPONSE \<Longrightarrow> readPartialHeader tf p op s =
        (Inl (InvalidResponseException (BadOperation (hp_opRespCode p) op)), with_inp rest s)"
    and readPartialHeader_error:
      "checkForErrorsInResponseStatus (hp_messageId p) st (with_inp rest s) = (Inl e, s')
        \<Longrightarrow> op \<noteq> hp_opRespCode p \<Longrightarrow> op = ERROR_RESPONSE \<Longrightarrow> readPartialHeader tf p op s = (Inl e, s')"
proof -
  have "rd readByte s = (Inr st, with_inp (0 # rest) s)"
    using assms by (rule rd_byte)
  moreover have "readNewTopologyIfPresent tf p (with_inp (0 # rest) s) = (Inr (), with_inp rest s)"
    using rd_byte [of "with_inp (0 # rest) s" 0 rest] by (simp add: readNewTopologyIfPresent_def ret_run)
  ultimately show "op = hp_opRespCode p \<Longrightarrow> readPartialHeader tf p op s = (Inr st, with_inp rest s)"
    and "op \<noteq> hp_opRespCode p \<Longrightarrow> op \<noteq> ERROR_RESPONSE \<Longrightarrow> readPartialHeader tf p op s =
        (Inl (InvalidResponseException (BadOperation (hp_opRespCode p) op)), with_inp rest s)"
    and "checkForErrorsInResponseStatus (hp_messageId p) st (with_inp rest s) = (Inl e, s')
        \<Longrightarrow> op \<noteq> hp_opRespCode p \<Longrightarrow> op = ERROR_RESPONSE \<Longrightarrow> readPartialHeader tf p op s = (Inl e, s')"
    by (simp_all add: readPartialHeader_def sm_simps)
qed

text \<open>
  A response without topology change whose message id and operation match is accepted: the
  status is returned, exactly the header is consumed and nothing else changes. With another
  operation code it is refused, and the message id 0 is accepted in place of the request's.
\<close>

theorem readHeader_reply:
  assumes "inp_of s = reply_header i op st @ rest" "i = hp_messageId p \<or> i = 0" "op \<noteq> ERROR_RESPONSE"
  shows "readHeader tf p s =
    (if op = hp_opRespCode p then Inr st
     else Inl (InvalidResponseException (BadOperation (hp_opRespCode p) op)), with_inp rest s)"
proof -
  have "readHeader tf p s = readPartialHeader tf p op (with_inp (st # 0 # rest) s)"
    using assms(1,2) by (intro readHeader_prefix) (auto simp: reply_header_def)
  then show ?thesis
    using readPartialHeader_ok [of "with_inp (st # 0 # rest) s" st rest op p tf]
      readPartialHeader_other [of "with_inp (st # 0 # rest) s" st rest op p tf] assms(3)
    by simp
qed

theorem readHeader_reply_witness:
  "readHeader example_tf (example_params\<lparr>hp_messageId := 5\<rparr>)
     (example_io (reply_header 5 PING_RESPONSE NO_ERROR_STATUS @ [7]))
   = (Inr NO_ERROR_STATUS, example_io [7])"
proof -
  have "inp_of (example_io (reply_header 5 PING_RESPONSE NO_ERROR_STATUS @ [7]))
      = reply_header 5 PING_RESPONSE NO_ERROR_STATUS @ [7]"
    by (simp add: inp_of_def example_io_def)
  from readHeader_reply [OF this, of "example_params\<lparr>hp_messageId := 5\<rparr>"] show ?thesis
    by (simp add: example_params_def with_inp_def example_io_def)
qed





section \<open>Topology updates\<close>

record new_topology =
  nt_id :: u32
  nt_members :: "inet list"
  nt_hash :: byte
  nt_segments :: "nat list list"

definition enc_member :: "inet \<Rightarrow> bytes" where
  "enc_member a = writeString (bytes_of_str (hostname a)) @
     [word_of_int (port a div 256), word_of_int (port a mod 256)]"

definition enc_segment :: "nat list \<Rightarrow> bytes" where
  "enc_segment is = [of_nat (length is)] @ concat (map (\<lambda>i. writeVInt (of_nat i)) is)"

definition enc_topology :: "new_topology \<Rightarrow> bytes" where
  "enc_topology nt =
    writeVInt (nt_id nt) @ writeVInt (of_nat (length (nt_members nt)))
    @ concat (map enc_member (nt_members nt)) @ [nt_hash nt]
    @ writeVInt (of_nat (length (nt_segments nt)))
    @ (if 0 < nt_hash nt then concat (map enc_segment (nt_segments nt)) else [])"

definition member_ok :: "inet \<Rightarrow> bool" where
  "member_ok a \<longleftrightarrow> length (hostname a) < 2 ^ 32 \<and> 0 \<le> port a \<and> port a < 65536"

definition nt_ok :: "new_topology \<Rightarrow> bool" where
  "nt_ok nt \<longleftrightarrow> list_all member_ok (nt_members nt) \<and> length (nt_members nt) < 2 ^ 32
     \<and> length (nt_segments nt) < 2 ^ 32
     \<and> list_all (\<lambda>is. length is < 256 \<and> list_all (\<lambda>i. i < length (nt_members nt)) is) (nt_segments nt)"

definition nt_owners :: "new_topology \<Rightarrow> inet list list" where
  "nt_owners nt =
    (if 0 < nt_hash nt then map (map (\<lambda>i. nt_members nt ! i)) (nt_segments nt)
     else replicate (length (nt_segments nt)) [])"

lemma unat_of_nat_u32: "n < 2 ^ 32 \<Longrightarrow> unat (of_nat n :: u32) = n"
  by (simp add: unsigned_of_nat take_bit_nat_eq_self)

lemma port_roundtrip:
  assumes "0 \<le> p" "p < 65536"
  shows "sint (be_fold [word_of_int (p div 256), word_of_int (p mod 256)] :: u16) mod 65536 = p"
proof -
  let ?w = "word_of_int p :: u16"
  have "[word_of_int (p div 256), word_of_int (p mod 256) :: byte]
      = map (\<lambda>j. ucast (drop_bit (8 * (2 - Suc j)) ?w)) [0..<2]"
  proof -
    have "p div 256 = drop_bit 8 p" "p mod 256 = take_bit 8 p"
      by (simp_all add: drop_bit_eq_div take_bit_eq_mod)
    moreover have "word_of_int (drop_bit 8 p) = (ucast (drop_bit 8 ?w) :: byte)"
      "word_of_int (take_bit 8 p) = (ucast ?w :: byte)"
      by (rule bit_word_eqI; auto simp: bit_simps)+
    ultimately show ?thesis by (simp add: upt_rec)
  qed
  then have "be_fold [word_of_int (p div 256), word_of_int (p mod 256)] = ?w"
    using be_fold_word [of 2 ?w] by (simp add: take_bit_word_eq_self)
  moreover have "sint ?w mod 65536 = p"
  proof -
    have "sint ?w mod 65536 = uint ?w" by (simp add: uint_sint take_bit_eq_mod)
    then show ?thesis using assms by (simp add: uint_word_of_int)
  qed
  ultimately show ?thesis by simp
qed

lemma read_member_enc:
  assumes "member_ok a" "pending s = enc_member a @ rest"
  shows "read_member s = (Inr a, s\<lparr>pending := rest\<rparr>)"
proof -
  let ?bs = "[word_of_int (port a div 256), word_of_int (port a mod 256) :: byte]"
  have "readUnsignedShort (s\<lparr>pending := ?bs @ rest\<rparr>) = (Inr (be_fold ?bs), s\<lparr>pending := rest\<rparr>)"
    using readBytes_append [of "s\<lparr>pending := ?bs @ rest\<rparr>" ?bs rest 2] by (simp add: readUnsignedShort_def ret_run)
  moreover have "sint (be_fold ?bs :: u16) mod 65536 = port a"
    using assms(1) by (intro port_roundtrip) (auto simp: member_ok_def)
  ultimately show ?thesis
    using assms by (simp add: read_member_def enc_member_def str.dec_app member_ok_def ret_run
        InetSocketAddress_def inet.expand)
qed

interpretation member: wire_codec enc_member read_member member_ok
  by unfold_locales (rule read_member_enc)

lemma read_segment_enc:
  assumes "length is < 256" "list_all (\<lambda>i. i < length ms) is" "length ms < 2 ^ 32"
    and "pending s = enc_segment is @ rest"
  shows "read_segment ms s = (Inr (map (\<lambda>i. ms ! i) is), s\<lparr>pending := rest\<rparr>)"
proof -
  have n: "unat (of_nat (length is) :: byte) = length is"
    using assms(1) by (simp add: unsigned_of_nat take_bit_nat_eq_self)
  have "read_owner ms r = (Inr (ms ! i), r\<lparr>pending := rst\<rparr>)"
    if "i \<in> set is" "pending r = writeVInt (of_nat i) @ rst" for i r rst
  proof -
    have "i < length ms" using that(1) assms(2) by (auto simp: list_all_iff)
    moreover have "unat (of_nat i :: u32) = i"
      using \<open>i < length ms\<close> assms(3) by (intro unat_of_nat_u32) simp
    ultimately show ?thesis using that(2) by (simp add: read_owner_def vint.dec_app ret_run)
  qed
  note owners = repeat_sm_enc [OF this, of "is"]
  have "readByte s = (Inr (of_nat (length is)), s\<lparr>pending := concat (map (\<lambda>i. writeVInt (of_nat i)) is) @ rest\<rparr>)"
    using assms(4) by (intro readByte_Cons) (simp add: enc_segment_def)
  then show ?thesis
    using owners [where s = "s\<lparr>pending := concat (map (\<lambda>i. writeVInt (of_nat i)) is) @ rest\<rparr>"
        and rest = rest]
    by (simp add: read_segment_def n)
qed

lemma readNewTopologyAndHash_enc:
  assumes "nt_ok nt" "inp_of s = enc_topology nt @ rest"
  shows "readNewTopologyAndHash tf p s =
    apply_topology tf p (nt_id nt) (nt_members nt) (nt_hash nt) (of_nat (length (nt_segments nt)))
      (nt_owners nt) (with_inp rest (s\<lparr>topo := nt_id nt\<rparr>))"
proof -
  have len: "unat (of_nat (length (nt_members nt)) :: u32) = length (nt_members nt)"
    "unat (of_nat (length (nt_segments nt)) :: u32) = length (nt_segments nt)"
    using assms(1) by (auto simp: nt_ok_def intro!: unat_of_nat_u32)
  define segs where "segs = (if 0 < nt_hash nt then concat (map enc_segment (nt_segments nt)) else [])"
  have members: "rd (repeat_sm (length (nt_members nt)) read_member) r = (Inr (nt_members nt), with_inp rst r)"
    if "inp_of r = concat (map enc_member (nt_members nt)) @ rst" for rst and r :: "'a io"
    using that assms(1) by (intro rd_Inr member.dec_repeat) (auto simp: nt_ok_def inp_of_def)
  let ?n = "of_nat (length (nt_segments nt)) :: u32"
  have owners: "(if 0 < nt_hash nt then rd (repeat_sm (unat ?n) (read_segment (nt_members nt)))
        else ret (replicate (unat ?n) [])) r = (Inr (nt_owners nt), with_inp rest r)"
    if "inp_of r = segs @ rest" for r :: "'a io"
  proof (cases "0 < nt_hash nt")
    case True
    have "read_segment (nt_members nt) u = (Inr (map (\<lambda>i. nt_members nt ! i) is), u\<lparr>pending := rst\<rparr>)"
      if "is \<in> set (nt_segments nt)" "pending u = enc_segment is @ rst" for "is" u rst
      using that assms(1) by (intro read_segment_enc) (auto simp: nt_ok_def list_all_iff)
    from repeat_sm_enc [OF this, of "nt_segments nt"] show ?thesis
      using that True len(2) by (simp add: rd_Inr segs_def nt_owners_def inp_of_def)
  next
    case False
    then have "with_inp rest r = r" using that by (simp add: segs_def with_inp_def inp_of_def)
    then show ?thesis using False len(2) by (simp add: nt_owners_def ret_run)
  qed
  have "inp_of s = writeVInt (nt_id nt) @ writeVInt (of_nat (length (nt_members nt)))
    @ concat (map enc_member (nt_members nt)) @ nt_hash nt
    # writeVInt (of_nat (length (nt_segments nt))) @ segs @ rest"
    using assms(2) by (simp add: enc_topology_def segs_def)
  then show ?thesis
    by (simp add: readNewTopologyAndHash_def vint.rd_app seq_run modify_run len(1) members rd_byte owners
        split del: if_split)
qed

end
