(* ===== verification/HR_Operations.thy ===== *)
theory HR_Operations
  imports HR_Codec_Correct HR_Pool
begin

text \<open>
  \<open>impl/operations\<close>: what each operation writes on its transport and how it reads the answer
  (\<open>executeOperation\<close>), on top of \<open>HotRodOperation.h\<close>, \<open>AbstractKeyOperation.h\<close> and
  \<open>AbstractKeyValueOperation.h\<close>. How an operation gets a transport, and what happens when it
  throws, is \<open>RetryOnFailureOperation\<close> in the theory of retries.

  \<open>tf\<close> is the \<open>TransportFactory\<close> of the transport, which a response with a new topology updates.
\<close>

section \<open>HotRodOperation\<close>

record op_ctx =
  oc_codec :: codec
  oc_flags :: u32
  oc_cacheName :: bytes
  oc_dataFormat :: "entry_media_types option"

definition op_writeHeader :: "op_ctx \<Rightarrow> byte \<Rightarrow> ('f io, header_params) sm" where
  "op_writeHeader ctx opCode =
    (case toOpRespCode opCode of
       Inl e \<Rightarrow> raise e
     | Inr resp \<Rightarrow>
         writeHeader (oc_codec ctx)
           \<lparr>hp_opCode = opCode, hp_opRespCode = resp, hp_cacheName = oc_cacheName ctx,
            hp_flags = oc_flags ctx, hp_clientIntel = CLIENT_INTELLIGENCE_HASH_DISTRIBUTION_AWARE,
            hp_txMarker = 0, hp_messageId = 0, hp_topologyAge = 0, hp_dataFormat = oc_dataFormat ctx\<rparr>)"

definition readHeaderAndValidate :: "'f tf_iface \<Rightarrow> header_params \<Rightarrow> ('f io, byte) sm" where
  "readHeaderAndValidate tf params = readHeader tf params"

text \<open>The shape most operations share: header, body, flush, response header.\<close>

definition exchange :: "'f tf_iface \<Rightarrow> op_ctx \<Rightarrow> byte \<Rightarrow> ('f io, unit) sm \<Rightarrow> ('f io, byte) sm" where
  "exchange tf ctx opCode body =
    bind (op_writeHeader ctx opCode) (\<lambda>params.
    seq body (seq flush (readHeaderAndValidate tf params)))"

section \<open>AbstractKeyOperation, AbstractKeyValueOperation\<close>

definition sendKeyOperation :: "'f tf_iface \<Rightarrow> op_ctx \<Rightarrow> bytes \<Rightarrow> byte \<Rightarrow> ('f io, byte) sm" where
  "sendKeyOperation tf ctx key opCode = exchange tf ctx opCode (wr (writeArray key))"

datatype rsp_code = RSP_SUCCESS | NO_SUCH_KEY | MODIFIED_KEY

definition returnVersionedOperationResponse ::
  "'f tf_iface \<Rightarrow> header_params \<Rightarrow> ('f io, bytes \<times> rsp_code) sm" where
  "returnVersionedOperationResponse tf params =
    bind (readHeaderAndValidate tf params) (\<lambda>status.
    bind (if isSuccess status then ret RSP_SUCCESS
          else if isNotExecuted status then ret MODIFIED_KEY
          else if status = KEY_DOES_NOT_EXIST_STATUS then ret NO_SUCH_KEY
          else raise (InvalidResponseException (BadStatus status))) (\<lambda>code.
    bind (returnPossiblePrevValue status) (\<lambda>prev. ret (prev, code))))"

record kv_args =
  kv_key :: bytes
  kv_value :: bytes
  kv_lifespan :: u32
  kv_maxIdle :: u32

definition sendPutOperation :: "'f tf_iface \<Rightarrow> op_ctx \<Rightarrow> kv_args \<Rightarrow> byte \<Rightarrow> ('f io, byte) sm" where
  "sendPutOperation tf ctx a opCode =
    exchange tf ctx opCode
      (seq (wr (writeArray (kv_key a)))
      (seq (writeExpirationParams (oc_codec ctx) (ucast (kv_lifespan a)) (ucast (kv_maxIdle a)))
           (wr (writeArray (kv_value a)))))"

section \<open>Operations on a key\<close>

definition GetOperation :: "'f tf_iface \<Rightarrow> op_ctx \<Rightarrow> bytes \<Rightarrow> ('f io, bytes) sm" where
  "GetOperation tf ctx key =
    bind (sendKeyOperation tf ctx key GET_REQUEST) (\<lambda>status.
    if isSuccess status then rd readArray else ret [])"

definition ContainsKeyOperation :: "'f tf_iface \<Rightarrow> op_ctx \<Rightarrow> bytes \<Rightarrow> ('f io, bool) sm" where
  "ContainsKeyOperation tf ctx key =
    bind (sendKeyOperation tf ctx key CONTAINS_KEY_REQUEST) (\<lambda>status. ret (isSuccess status))"

definition RemoveOperation :: "'f tf_iface \<Rightarrow> op_ctx \<Rightarrow> bytes \<Rightarrow> ('f io, bytes) sm" where
  "RemoveOperation tf ctx key =
    bind (sendKeyOperation tf ctx key REMOVE_REQUEST) (\<lambda>status. returnPossiblePrevValue status)"

definition PutOperation :: "'f tf_iface \<Rightarrow> op_ctx \<Rightarrow> kv_args \<Rightarrow> ('f io, bytes) sm" where
  "PutOperation tf ctx a =
    bind (sendPutOperation tf ctx a PUT_REQUEST) (\<lambda>status.
    if \<not> isSuccess status then raise (InvalidResponseException (BadStatus status))
    else returnPossiblePrevValue status)"

definition PutIfAbsentOperation :: "'f tf_iface \<Rightarrow> op_ctx \<Rightarrow> kv_args \<Rightarrow> ('f io, bytes) sm" where
  "PutIfAbsentOperation tf ctx a =
    bind (sendPutOperation tf ctx a PUT_IF_ABSENT_REQUEST) (\<lambda>status.
    if isNotExecuted status then returnPossiblePrevValue status else ret [])"

definition ReplaceOperation :: "'f tf_iface \<Rightarrow> op_ctx \<Rightarrow> kv_args \<Rightarrow> ('f io, bytes) sm" where
  "ReplaceOperation tf ctx a =
    bind (sendPutOperation tf ctx a REPLACE_REQUEST) (\<lambda>status. returnPossiblePrevValue status)"

definition ReplaceIfUnmodifiedOperation ::
  "'f tf_iface \<Rightarrow> op_ctx \<Rightarrow> kv_args \<Rightarrow> u64 \<Rightarrow> ('f io, bytes \<times> rsp_code) sm" where
  "ReplaceIfUnmodifiedOperation tf ctx a version =
    bind (op_writeHeader ctx REPLACE_IF_UNMODIFIED_REQUEST) (\<lambda>params.
    seq (wr (writeArray (kv_key a)))
    (seq (writeExpirationParams (oc_codec ctx) (ucast (kv_lifespan a)) (ucast (kv_maxIdle a)))
    (seq (wr (writeLong version))
    (seq (wr (writeArray (kv_value a)))
    (seq flush
    (returnVersionedOperationResponse tf params))))))"

definition RemoveIfUnmodifiedOperation ::
  "'f tf_iface \<Rightarrow> op_ctx \<Rightarrow> bytes \<Rightarrow> u64 \<Rightarrow> ('f io, bytes \<times> rsp_code) sm" where
  "RemoveIfUnmodifiedOperation tf ctx key version =
    bind (op_writeHeader ctx REMOVE_IF_UNMODIFIED_REQUEST) (\<lambda>params.
    seq (wr (writeArray key))
    (seq (wr (writeLong version))
    (seq flush
    (returnVersionedOperationResponse tf params))))"

text \<open>\<open>None\<close> is the default constructed result, returned when the status is not a success.\<close>

definition GetWithVersionOperation ::
  "'f tf_iface \<Rightarrow> op_ctx \<Rightarrow> bytes \<Rightarrow> ('f io, (u64 \<times> bytes) option) sm" where
  "GetWithVersionOperation tf ctx key =
    bind (sendKeyOperation tf ctx key GET_WITH_VERSION_REQUEST) (\<lambda>status.
    if isSuccess status
    then bind (rd readLong) (\<lambda>version. bind (rd readArray) (\<lambda>v. ret (Some (version, v))))
    else ret None)"

record metadata_value =
  mv_created :: "u64 option"
  mv_lifespan :: "u32 option"
  mv_lastUsed :: "u64 option"
  mv_maxIdle :: "u32 option"
  mv_version :: u64
  mv_value :: bytes

definition GetWithMetadataOperation ::
  "'f tf_iface \<Rightarrow> op_ctx \<Rightarrow> bytes \<Rightarrow> ('f io, metadata_value option) sm" where
  "GetWithMetadataOperation tf ctx key =
    bind (sendKeyOperation tf ctx key GET_WITH_METADATA_REQUEST) (\<lambda>status.
    if isSuccess status
    then bind (rd readByte) (\<lambda>flag.
         bind (if flag AND INFINITE_LIFESPAN \<noteq> INFINITE_LIFESPAN
               then bind (rd readLong) (\<lambda>c. bind (rd readVInt) (\<lambda>l. ret (Some c, Some l)))
               else ret (None, None)) (\<lambda>(created, lifespan).
         bind (if flag AND INFINITE_MAXIDLE \<noteq> INFINITE_MAXIDLE
               then bind (rd readLong) (\<lambda>u. bind (rd readVInt) (\<lambda>m. ret (Some u, Some m)))
               else ret (None, None)) (\<lambda>(lastUsed, maxIdle).
         bind (rd readLong) (\<lambda>version.
         bind (rd readArray) (\<lambda>v.
         ret (Some \<lparr>mv_created = created, mv_lifespan = lifespan, mv_lastUsed = lastUsed,
                    mv_maxIdle = maxIdle, mv_version = version, mv_value = v\<rparr>))))))
    else ret None)"

section \<open>Bulk operations\<close>

text \<open>
  The keys are written and flushed one by one: for an empty key set nothing is flushed, and the
  request stays in the output buffer.
\<close>

definition GetAllOperation ::
  "'f tf_iface \<Rightarrow> op_ctx \<Rightarrow> bytes list \<Rightarrow> ('f io, bytes \<rightharpoonup> bytes) sm" where
  "GetAllOperation tf ctx keySet =
    bind (op_writeHeader ctx GET_ALL_REQUEST) (\<lambda>params.
    seq (wr (writeVInt (of_nat (length keySet))))
    (seq (for_each keySet (\<lambda>item. seq (wr (writeArray item)) flush))
    (bind (readHeaderAndValidate tf params) (\<lambda>status.
     if status = NO_ERROR_STATUS
     then bind (rd readVInt) (\<lambda>count.
          bind (rd (repeat_sm (unat count) (bind readArray (\<lambda>k. bind readArray (\<lambda>v. ret (k, v)))))) (\<lambda>kvs.
          ret (map_of (rev kvs))))
     else ret Map.empty))))"

text \<open>
  \<open>while (transport.readByte()==1)\<close>: entries follow as long as the byte before them is 1. Every
  round consumes a byte, so the number of bytes pending bounds the rounds; the test that they
  have become fewer holds for every reader that only consumes (\<open>read_while_unfold\<close>).
\<close>

function read_while :: "(rstream, 'a) sm \<Rightarrow> (rstream, 'a list) sm" where
  "read_while item s =
    (case readByte s of
       (Inl e, s') \<Rightarrow> (Inl e, s')
     | (Inr b, s') \<Rightarrow>
         if b = 1
         then (case item s' of
                 (Inl e, s2) \<Rightarrow> (Inl e, s2)
               | (Inr x, s2) \<Rightarrow>
                   if length (pending s2) < length (pending s)
                   then (case read_while item s2 of
                           (Inl e, s3) \<Rightarrow> (Inl e, s3)
                         | (Inr xs, s3) \<Rightarrow> (Inr (x # xs), s3))
                   else (Inl OutOfFuel, s2))
         else (Inr [], s'))"
  by pat_completeness auto

termination
  by (relation "measure (\<lambda>(item, s). length (pending s))") auto

declare read_while.simps [simp del]

definition BulkGetOperation :: "'f tf_iface \<Rightarrow> op_ctx \<Rightarrow> u32 \<Rightarrow> ('f io, bytes \<rightharpoonup> bytes) sm" where
  "BulkGetOperation tf ctx entryCount =
    bind (exchange tf ctx BULK_GET_REQUEST (wr (writeVInt entryCount))) (\<lambda>_.
    bind (rd (read_while (bind readArray (\<lambda>k. bind readArray (\<lambda>v. ret (k, v)))))) (\<lambda>kvs.
    ret (map_of (rev kvs))))"

definition BulkGetKeysOperation :: "'f tf_iface \<Rightarrow> op_ctx \<Rightarrow> u32 \<Rightarrow> ('f io, bytes set) sm" where
  "BulkGetKeysOperation tf ctx scope =
    bind (exchange tf ctx BULK_GET_KEYS_REQUEST (wr (writeVInt scope))) (\<lambda>_.
    bind (rd (read_while readArray)) (\<lambda>ks. ret (set ks)))"

section \<open>Operations on the cache\<close>

definition ClearOperation :: "'f tf_iface \<Rightarrow> op_ctx \<Rightarrow> ('f io, bytes) sm" where
  "ClearOperation tf ctx = bind (exchange tf ctx CLEAR_REQUEST (ret ())) (\<lambda>_. ret [])"

definition SizeOperation :: "'f tf_iface \<Rightarrow> op_ctx \<Rightarrow> ('f io, u64) sm" where
  "SizeOperation tf ctx =
    bind (exchange tf ctx SIZE_REQUEST (ret ())) (\<lambda>_. bind (rd readVInt) (\<lambda>n. ret (ucast n)))"

text \<open>\<open>int nrOfStats\<close>: a count of \<open>2 ^ 31\<close> or more is negative, and no round of the loop runs.\<close>

definition StatsOperation :: "'f tf_iface \<Rightarrow> op_ctx \<Rightarrow> ('f io, bytes \<rightharpoonup> bytes) sm" where
  "StatsOperation tf ctx =
    bind (exchange tf ctx STATS_REQUEST (ret ())) (\<lambda>_.
    bind (rd readVInt) (\<lambda>n.
    bind (rd (repeat_sm (nat (sint n)) (bind readString (\<lambda>k. bind readString (\<lambda>v. ret (k, v)))))) (\<lambda>kvs.
    ret (map_of (rev kvs)))))"

definition PingOperation :: "'f tf_iface \<Rightarrow> op_ctx \<Rightarrow> ('f io, ping_result) sm" where
  "PingOperation tf ctx =
    bind (exchange tf ctx PING_REQUEST (ret ())) (\<lambda>respStatus.
    ret (if isSuccess respStatus
         then (if hasCompatibility respStatus then SUCCESS_WITH_COMPAT else SUCCESS)
         else FAIL))"

definition FaultTolerantPingOperation :: "'f tf_iface \<Rightarrow> op_ctx \<Rightarrow> ('f io, ping_result) sm" where
  "FaultTolerantPingOperation tf ctx = PingOperation tf (ctx\<lparr>oc_flags := 0\<rparr>)"

definition sendExecuteOperation ::
  "'f tf_iface \<Rightarrow> op_ctx \<Rightarrow> bytes \<Rightarrow> (bytes \<times> bytes) list \<Rightarrow> ('f io, bytes) sm" where
  "sendExecuteOperation tf ctx cmdName cmdArgs =
    bind (exchange tf ctx EXEC_REQUEST
      (seq (wr (writeArray cmdName))
      (seq (wr (writeVInt (of_nat (length cmdArgs))))
      (for_each cmdArgs (\<lambda>(k, v). seq (wr (writeArray k)) (wr (writeArray v))))))) (\<lambda>_.
    rd readArray)"

section \<open>Authentication\<close>

definition AuthMechListOperation :: "'f tf_iface \<Rightarrow> op_ctx \<Rightarrow> ('f io, bytes list) sm" where
  "AuthMechListOperation tf ctx =
    bind (exchange tf ctx AUTH_MECH_LIST_REQUEST (ret ())) (\<lambda>_.
    bind (rd readVInt) (\<lambda>n. rd (repeat_sm (nat (sint n)) readString)))"

definition AuthOperation :: "'f tf_iface \<Rightarrow> op_ctx \<Rightarrow> bytes \<Rightarrow> bytes \<Rightarrow> ('f io, bytes) sm" where
  "AuthOperation tf ctx saslMechanism response =
    bind (exchange tf ctx AUTH_REQUEST
      (seq (wr (writeArray saslMechanism)) (wr (writeArray response)))) (\<lambda>_.
    bind (rd readByte) (\<lambda>b.
    bind (rd readArray) (\<lambda>c. ret (if 0 < b then [] else c))))"

text \<open>
  \<open>QueryOperation\<close>: the protocol buffers library serializes the request and parses the response;
  both are parameters.
\<close>

definition QueryOperation ::
  "('q \<Rightarrow> bytes) \<Rightarrow> (bytes \<Rightarrow> 'r) \<Rightarrow> 'r \<Rightarrow> 'f tf_iface \<Rightarrow> op_ctx \<Rightarrow> 'q \<Rightarrow> ('f io, 'r) sm" where
  "QueryOperation serialize parse dflt tf ctx q =
    bind (exchange tf ctx QUERY_REQUEST (wr (writeArray (serialize q)))) (\<lambda>status.
    if isSuccess status then bind (rd readArray) (\<lambda>bs. ret (parse bs)) else ret dflt)"

section \<open>Readers only consume\<close>

definition consumes :: "(rstream, 'a) sm \<Rightarrow> bool" where
  "consumes m \<longleftrightarrow> (\<forall>s. length (pending (snd (m s))) \<le> length (pending s))"

lemma consumesD: "consumes m \<Longrightarrow> m s = (r, s') \<Longrightarrow> length (pending s') \<le> length (pending s)"
  by (metis consumes_def snd_conv)

lemma consumes_bind: "consumes m \<Longrightarrow> (\<And>x. consumes (f x)) \<Longrightarrow> consumes (bind m f)"
  unfolding consumes_def bind_run
  by (auto split: prod.splits sum.splits) (metis le_trans snd_conv)+

lemma consumes_ret [simp]: "consumes (ret x)"
  by (simp add: consumes_def ret_run)

lemma consumes_stream_read: "consumes (stream_read n)"
  by (simp add: consumes_def stream_read_def)

lemma consumes_readByte: "consumes readByte"
  unfolding readByte_def by (intro consumes_bind consumes_stream_read consumes_ret)

lemma read_varint_loop_consumes: "length (pending (snd (read_varint_loop shift i b s))) \<le> length (pending s)"
proof (induction shift i b s rule: read_varint_loop.induct)
  case (1 shift i b s)
  show ?case
    by (subst read_varint_loop.simps)
       (use 1 consumesD [OF consumes_readByte, of s] in \<open>force split: prod.splits sum.splits if_splits\<close>)
qed

lemma consumes_readVInt: "consumes readVInt"
  unfolding readVInt_def read_varint_def
  by (intro consumes_bind consumes_readByte) (simp add: consumes_def read_varint_loop_consumes)

lemma consumes_readArray: "consumes readArray"
  unfolding readArray_def readBytes_def
  by (intro consumes_bind consumes_readVInt) (simp add: consumes_stream_read)

lemma read_while_unfold:
  assumes "consumes item"
  shows "read_while item = bind readByte (\<lambda>b. if b = 1
      then bind item (\<lambda>x. bind (read_while item) (\<lambda>xs. ret (x # xs))) else ret [])"
proof
  fix s
  have "length (pending s2) < length (pending s)"
    if "readByte s = (Inr b, s1)" "item s1 = (r, s2)" for b s1 r s2
  proof -
    have "length (pending s1) < length (pending s)"
      using that(1) by (auto simp: readByte_cases split: list.splits)
    then show ?thesis using consumesD [OF assms that(2)] by simp
  qed
  then show "read_while item s = bind readByte (\<lambda>b. if b = 1
      then bind item (\<lambda>x. bind (read_while item) (\<lambda>xs. ret (x # xs))) else ret []) s"
    by (subst read_while.simps) (auto simp: bind_run ret_run split: prod.splits sum.splits)
qed

end
