(* ===== verification/HR_ObjectFactory.thy ===== *)
theory HR_ObjectFactory
  imports HR_Pool_Correct HR_Operations
begin

text \<open>
  \<open>impl/transport/tcp/TransportObjectFactory.cpp\<close> on a heap of \<open>TcpTransport\<close> objects, and the
  connection pool on top of it. The heap \<open>conns\<close> maps the address of an object to the server it is
  connected to and to the transport; \<open>delete\<close> removes it, and using an object that is not in the
  heap is undefined.

  The network is a parameter: \<open>net n a\<close> is the outcome of the \<open>n\<close>-th connection, made to the server
  \<open>a\<close>, either the exception of \<open>Socket::connect\<close> or the behaviour of the peer. Authentication is
  modelled apart, in \<open>HR_Sasl\<close>. A ping of the pool (\<open>testOnBorrow\<close>, \<open>testOnReturn\<close>) whose answer announces a
  new topology calls back into the pool that is pinging; such an execution is \<open>NotModelled\<close> here.
  The pings of the transport factory itself, which run outside the pool, do follow such answers.
\<close>

section \<open>The heap of transports\<close>

record world =
  conns :: "nat \<rightharpoonup> inet \<times> transport"
  next_addr :: nat
  attempts :: nat
  w_msgId :: u64

type_synonym network = "nat \<Rightarrow> inet \<Rightarrow> exn + (bytes list \<Rightarrow> exn + bytes)"

definition TcpTransport :: "inet \<Rightarrow> (bytes list \<Rightarrow> exn + bytes) \<Rightarrow> transport" where
  "TcpTransport a peer =
    \<lparr>t_inp = \<lparr>rhost = hostname a, rport = port a, pending = []\<rparr>, t_out = [], t_sent = [],
     t_peer = peer, t_valid = True\<rparr>"

definition tcp_makeObject :: "network \<Rightarrow> inet \<Rightarrow> (world, nat) sm" where
  "tcp_makeObject net a w =
    (let w' = w\<lparr>attempts := attempts w + 1\<rparr> in
     case net (attempts w) a of
       Inl e \<Rightarrow> (Inl e, w')
     | Inr peer \<Rightarrow> (Inr (next_addr w),
         w'\<lparr>conns := (conns w)(next_addr w \<mapsto> (a, TcpTransport a peer)), next_addr := next_addr w + 1\<rparr>))"

text \<open>\<open>transport.destroy(); delete &transport\<close>: the socket is closed and the object is gone.\<close>

definition tcp_destroyObject :: "inet \<Rightarrow> nat \<Rightarrow> (world, unit) sm" where
  "tcp_destroyObject a t w =
    (if t \<in> dom (conns w) then (Inr (), w\<lparr>conns := (conns w)(t := None)\<rparr>)
     else (Inl (UndefinedBehaviour ''deleted transport''), w))"

text \<open>
  Run an operation on a transport of the heap, from a state \<open>'s\<close> that has the heap in it. The
  operation has a \<open>Topology\<close> object of its own, whose id it leaves behind.
\<close>

definition on_conn ::
  "('s \<Rightarrow> world) \<Rightarrow> (world \<Rightarrow> 's \<Rightarrow> 's) \<Rightarrow> nat \<Rightarrow> u32 \<Rightarrow> ('s io, 'a) sm \<Rightarrow> ('s, 'a \<times> u32) sm" where
  "on_conn get put t i m s =
    (case conns (get s) t of
       None \<Rightarrow> (Inl (UndefinedBehaviour ''deleted transport''), s)
     | Some (a, c) \<Rightarrow>
         (case m \<lparr>tr = c, fac = s, topo = i, msgId = w_msgId (get s)\<rparr> of
            (r, x) \<Rightarrow>
              (case r of Inl e \<Rightarrow> Inl e | Inr v \<Rightarrow> Inr (v, topo x),
               put ((get (fac x))\<lparr>conns := (if t \<in> dom (conns (get (fac x)))
                       then (conns (get (fac x)))(t \<mapsto> (a, tr x)) else conns (get (fac x))),
                     w_msgId := msgId x\<rparr>) (fac x))))"

definition ping_ctx :: "codec \<Rightarrow> op_ctx" where
  "ping_ctx c = \<lparr>oc_codec = c, oc_flags = 0, oc_cacheName = [], oc_dataFormat = None\<rparr>"

text \<open>\<open>Topology tid(-1); PingOperation po(codec, tid, tcpTransport, nullptr); return po.execute();\<close>\<close>

definition tcp_ping ::
  "('s \<Rightarrow> world) \<Rightarrow> (world \<Rightarrow> 's \<Rightarrow> 's) \<Rightarrow> 's tf_iface \<Rightarrow> codec \<Rightarrow> nat \<Rightarrow> ('s, ping_result) sm" where
  "tcp_ping get put tf c t =
    bind (on_conn get put t (- 1) (PingOperation tf (ping_ctx c))) (\<lambda>(r, _). ret r)"

definition reentrant_tf :: "world tf_iface" where
  "reentrant_tf =
    \<lparr>tf_getTopologyId = (\<lambda>_. raise (NotModelled ''topology update inside the pool'')),
     tf_getTopologyAge = (\<lambda>_. 0),
     tf_updateServers = (\<lambda>_. raise (NotModelled ''topology update inside the pool'')),
     tf_updateHashFunction = (\<lambda>_ _ _ _ _. raise (NotModelled ''topology update inside the pool''))\<rparr>"

definition TransportObjectFactory :: "network \<Rightarrow> codec \<Rightarrow> (world, nat) obj_factory" where
  "TransportObjectFactory net c =
    \<lparr>makeObject = tcp_makeObject net, destroyObject = tcp_destroyObject,
     obj_ping = tcp_ping id (\<lambda>w _. w) reentrant_tf c\<rparr>"

text \<open>The live transports: those in the heap, at addresses that have been handed out.\<close>

definition live :: "world \<Rightarrow> nat set" where
  "live w = dom (conns w) \<inter> {..<next_addr w}"

section \<open>Operations leave the factory of a reentrant ping alone\<close>

text \<open>An operation that never changes the state behind \<open>fac\<close>.\<close>

definition keeps_fac :: "('s io, 'a) sm \<Rightarrow> bool" where
  "keeps_fac m \<longleftrightarrow> (\<forall>s. fac (snd (m s)) = fac s)"

lemma keeps_bind: "keeps_fac m \<Longrightarrow> (\<And>x. keeps_fac (f x)) \<Longrightarrow> keeps_fac (bind m f)"
  unfolding keeps_fac_def bind_run by (auto split: prod.splits sum.splits) (metis snd_conv)+

lemma keeps_seq: "keeps_fac m \<Longrightarrow> keeps_fac k \<Longrightarrow> keeps_fac (seq m k)"
  unfolding seq_def by (rule keeps_bind)

lemma keeps_catch: "keeps_fac m \<Longrightarrow> (\<And>e. keeps_fac (h e)) \<Longrightarrow> keeps_fac (catch m h)"
  unfolding keeps_fac_def catch_run by (auto split: prod.splits sum.splits) (metis snd_conv)+

lemma keeps_basic [simp]:
  "keeps_fac (ret x)" "keeps_fac (raise e)" "keeps_fac (rd r)" "keeps_fac (wr bs)" "keeps_fac flush"
  "keeps_fac (setValid v)" "keeps_fac (gets g)" "keeps_fac (modify (\<lambda>s. s\<lparr>topo := t\<rparr>))"
  "keeps_fac (modify (\<lambda>s. s\<lparr>msgId := msgId s + 1\<rparr>))" "keeps_fac (on_fac (raise e))"
  by (simp_all add: keeps_fac_def sm_simps rd_run wr_def flush_def Let_def setValid_def on_fac_def
      split: prod.splits sum.splits)

lemmas keeps_rules = keeps_bind keeps_seq keeps_catch

lemma keeps_if: "keeps_fac m \<Longrightarrow> keeps_fac k \<Longrightarrow> keeps_fac (if b then m else k)"
  by simp

lemma keeps_writeHeader: "keeps_fac (writeHeader c p)"
  by (simp add: keeps_fac_def writeHeader_run add_out_def)

lemma keeps_errors: "keeps_fac (checkForErrorsInResponseStatus i st)"
  unfolding checkForErrorsInResponseStatus_def Let_def by (intro keeps_rules keeps_if) (auto intro!: keeps_rules)

lemma keeps_apply: "keeps_fac (apply_topology reentrant_tf p i as v n os)"
  unfolding apply_topology_def reentrant_tf_def
  by (auto intro!: keeps_rules keeps_if split: prod.splits)

lemma keeps_topology: "keeps_fac (readNewTopologyAndHash reentrant_tf p)"
  unfolding readNewTopologyAndHash_def by (intro keeps_rules keeps_basic keeps_if keeps_apply)

lemma keeps_ping: "keeps_fac (PingOperation reentrant_tf ctx)"
  unfolding PingOperation_def exchange_def readHeaderAndValidate_def readHeader_def readPartialHeader_def
    readNewTopologyIfPresent_def op_writeHeader_def
  by (intro keeps_rules keeps_basic keeps_if keeps_errors keeps_topology)
     (auto intro!: keeps_writeHeader split: sum.splits)

section \<open>The factory keeps its contract\<close>

lemma tcp_ping_live: "live (snd (obj_ping (TransportObjectFactory net c) t w)) = live w"
proof (cases "conns w t")
  case None
  then show ?thesis
    by (simp add: TransportObjectFactory_def tcp_ping_def on_conn_def bind_run)
next
  case (Some ac)
  obtain a k where ac: "ac = (a, k)" by fastforce
  obtain r x where m: "PingOperation reentrant_tf (ping_ctx c) \<lparr>tr = k, fac = w, topo = - 1, msgId = w_msgId w\<rparr> = (r, x)"
    by fastforce
  then have "fac x = w"
    using keeps_ping [of "ping_ctx c"] by (auto simp: keeps_fac_def dest!: spec [of _ "\<lparr>tr = k, fac = w, topo = - 1, msgId = w_msgId w\<rparr>"])
  then show ?thesis
    using Some ac m
    by (cases r) (auto simp: TransportObjectFactory_def tcp_ping_def on_conn_def bind_run ret_run live_def split: if_splits)
qed

interpretation tcp: object_factory "TransportObjectFactory net c" live for net c
proof
  fix k w t w'
  assume "makeObject (TransportObjectFactory net c) k w = (Inr t, w')"
  then show "t \<notin> live w \<and> live w' = insert t (live w)"
    by (auto simp: TransportObjectFactory_def tcp_makeObject_def live_def Let_def split: sum.splits)
next
  fix k w e w'
  assume "makeObject (TransportObjectFactory net c) k w = (Inl e, w')"
  then have "w' = w\<lparr>attempts := attempts w + 1\<rparr>"
    by (auto simp: TransportObjectFactory_def tcp_makeObject_def Let_def split: sum.splits)
  then show "live w' = live w"
    by (simp add: live_def)
next
  fix t w k
  assume "t \<in> live w"
  then show "\<exists>w'. destroyObject (TransportObjectFactory net c) k t w = (Inr (), w') \<and> live w' = live w - {t}"
    by (auto simp: TransportObjectFactory_def tcp_destroyObject_def live_def)
next
  fix t w
  show "live (snd (obj_ping (TransportObjectFactory net c) t w)) = live w"
    by (rule tcp_ping_live)
qed


section \<open>The states of a connection pool\<close>

text \<open>
  The pool as its clients use it: a transport is returned or invalidated only while it is busy for
  that server, and \<open>clear(key)\<close> is called for a server of the pool. An execution that is undefined
  has no successor.
\<close>

definition defined :: "exn + 'a \<Rightarrow> bool" where
  "defined r \<longleftrightarrow> (\<forall>m. r \<noteq> Inl (UndefinedBehaviour m))"

inductive pool_reach :: "pool_config \<Rightarrow> ('w, 't) obj_factory \<Rightarrow> ('w, 't) pool \<Rightarrow> bool"
  for cfg :: pool_config and fac :: "('w, 't) obj_factory" where
  reach_new: "pool_reach cfg fac (ConnectionPool w)"
| reach_add: "pool_reach cfg fac p \<Longrightarrow> addObject cfg fac k p = (r, p') \<Longrightarrow> defined r \<Longrightarrow> pool_reach cfg fac p'"
| reach_borrow: "pool_reach cfg fac p \<Longrightarrow> borrowObject fuel cfg fac k p = (r, p') \<Longrightarrow> defined r
    \<Longrightarrow> pool_reach cfg fac p'"
| reach_return: "pool_reach cfg fac p \<Longrightarrow> t \<in># objs_at (busy p) k \<Longrightarrow> returnObject cfg fac k t p = (r, p')
    \<Longrightarrow> defined r \<Longrightarrow> pool_reach cfg fac p'"
| reach_invalidate: "pool_reach cfg fac p \<Longrightarrow> t \<in># objs_at (busy p) k
    \<Longrightarrow> invalidateObject cfg fac k (Some t) p = (r, p') \<Longrightarrow> defined r \<Longrightarrow> pool_reach cfg fac p'"
| reach_clear_key: "pool_reach cfg fac p \<Longrightarrow> map_of (idle p) k \<noteq> None \<Longrightarrow> clear_key fac k p = (r, p')
    \<Longrightarrow> pool_reach cfg fac p'"
| reach_close: "pool_reach cfg fac p \<Longrightarrow> pool_close fac p = (r, p') \<Longrightarrow> pool_reach cfg fac p'"

context object_factory
begin

lemma pool_ok_new: "pool_ok cfg 0 {#} (ConnectionPool w)"
  by (simp add: pool_ok_def pool_struct_def ConnectionPool_def smap_ok_def no_null_def)

lemma hoare_step:
  assumes "hoare P m (\<lambda>_. pool_ok cfg 0 {#}) (pool_err cfg)" "P p" "m p = (r, p')" "defined r"
  shows "pool_ok cfg 0 {#} p'"
  using assms by (cases r) (auto simp: defined_def pool_err_def dest: hoareD_Inr hoareD_Inl)

lemma pool_reach_ok: "pool_reach cfg fac p \<Longrightarrow> pool_ok cfg 0 {#} p"
proof (induction rule: pool_reach.induct)
  case (reach_new w)
  show ?case by (rule pool_ok_new)
next
  case (reach_add p k r p')
  show ?case by (rule hoare_step [OF addObject_ok reach_add(4,2,3)])
next
  case (reach_borrow p fuel k r p')
  show ?case by (rule hoare_step [OF borrowObject_ok reach_borrow(4,2,3)])
next
  case (reach_return p t k r p')
  show ?case by (rule hoare_step [OF returnObject_ok _ reach_return(3,4)]) (use reach_return in simp)
next
  case (reach_invalidate p t k r p')
  show ?case by (rule hoare_step [OF invalidateObject_ok _ reach_invalidate(3,4)]) (use reach_invalidate in simp)
next
  case (reach_clear_key p k r p')
  then show ?case using clear_key_ok [of cfg p k] by auto
next
  case (reach_close p r p')
  then have "queues_ok (p\<lparr>closed := True\<rparr>)"
    by (simp add: queues_ok_def pool_ok_def pool_struct_def)
  from pool_clear_ok [OF this, of cfg] show ?case
    using reach_close(2) by (auto simp: pool_close_def seq_run modify_run)
qed

end

text \<open>
  C17. Exclusive ownership and accounting of the connection pool, in every state its clients can bring
  it to: the two counters count the idle and the busy transports, no transport is in two queues
  or twice in one, every pooled transport is alive, and with a positive \<open>maxTotal\<close> the number of
  transports never exceeds it.
\<close>

theorem pool_invariant:
  assumes "pool_reach cfg (TransportObjectFactory net c) p"
  shows "totalIdle p = int (size (objs (idle p))) \<and> totalActive p = int (size (objs (busy p)))
    \<and> (\<forall>t. count (objs (idle p) + objs (busy p)) t \<le> 1)
    \<and> set_mset (objs (idle p) + objs (busy p)) \<subseteq> dom (conns (world p))
    \<and> (0 < maxTotal cfg \<longrightarrow> totalIdle p + totalActive p \<le> maxTotal cfg)"
proof -
  have "tcp.pool_ok cfg 0 {#} p" by (rule tcp.pool_reach_ok [OF assms])
  then have struct: "pool_struct cfg 0 p" and own: "owned (objs (idle p) + objs (busy p)) (live (world p))"
    by (simp_all add: tcp.pool_ok_def)
  show ?thesis using struct own by (auto simp: pool_struct_def owned_def live_def)
qed

text \<open>A pool on a network that answers nothing, after a borrow.\<close>

definition silent_net :: network where
  "silent_net n a = Inr (\<lambda>_. Inr [])"

definition example_cfg :: pool_config where
  "example_cfg = \<lparr>maxActive = -1, maxTotal = 2, minIdle = 1, exhaustedAction = EXCEPTION,
     testOnBorrow = False, testOnReturn = False\<rparr>"

definition example_world :: world where
  "example_world = \<lparr>conns = Map.empty, next_addr = 0, attempts = 0, w_msgId = 0\<rparr>"

definition example_server :: inet where
  "example_server = Inet ''a'' 11222"

definition borrowed_pool :: "(world, nat) pool" where
  "borrowed_pool = snd (borrowObject 2 example_cfg (TransportObjectFactory silent_net Codec20) example_server
     (snd (addObject example_cfg (TransportObjectFactory silent_net Codec20) example_server (ConnectionPool example_world))))"

lemmas pool_run_defs = addObject_def ensureMinIdle_def calculateMinIdleGrow_def idle_size_def busy_size_def on_idle_def
  on_busy_def on_world_def TransportObjectFactory_def tcp_makeObject_def add_idle_def add_active_def bq_defs
  borrowObject_def sm_simps Let_def

lemma borrowed_pool_run:
  "addObject example_cfg (TransportObjectFactory silent_net Codec20) example_server (ConnectionPool example_world)
    = (Inr (), (ConnectionPool (snd (tcp_makeObject silent_net example_server example_world)))
        \<lparr>idle := [(example_server, Some [0])], busy := [(example_server, Some [])], totalIdle := 1\<rparr>)"
  "borrowed_pool = (ConnectionPool (snd (tcp_makeObject silent_net example_server example_world)))
        \<lparr>idle := [(example_server, Some [])], busy := [(example_server, Some [0])], totalActive := 1\<rparr>"
  by (simp_all add: borrowed_pool_def pool_run_defs example_cfg_def ConnectionPool_def example_world_def silent_net_def
      smap_insert_def numeral_2_eq_2)

lemma borrowed_pool_reach: "pool_reach example_cfg (TransportObjectFactory silent_net Codec20) borrowed_pool"
proof -
  let ?f = "TransportObjectFactory silent_net Codec20"
  obtain r p where add: "addObject example_cfg ?f example_server (ConnectionPool example_world) = (r, p)" by fastforce
  then have "defined r" using borrowed_pool_run(1) by (auto simp: defined_def)
  with add have "pool_reach example_cfg ?f p" by (rule reach_add [OF reach_new])
  moreover obtain r' where "borrowObject 2 example_cfg ?f example_server p = (r', borrowed_pool)"
    using add by (metis borrowed_pool_def prod.collapse snd_conv)
  moreover from this have "defined r'"
    using add borrowed_pool_run(1)
    by (auto simp: defined_def pool_run_defs example_cfg_def ConnectionPool_def numeral_2_eq_2)
  ultimately show ?thesis by (rule reach_borrow)
qed

theorem pool_invariant_witness:
  "pool_reach example_cfg (TransportObjectFactory silent_net Codec20) borrowed_pool
   \<and> totalActive borrowed_pool = 1 \<and> size (objs (busy borrowed_pool)) = 1"
  using pool_invariant [OF borrowed_pool_reach] borrowed_pool_reach by (simp add: borrowed_pool_run(2))

section \<open>Borrowing\<close>

definition hand_out :: "inet \<Rightarrow> 't list \<Rightarrow> 't \<Rightarrow> ('w, 't) pool \<Rightarrow> ('w, 't) pool" where
  "hand_out k b t p = p\<lparr>busy := smap_put k (Some (b @ [t])) (busy p), totalActive := totalActive p + 1\<rparr>"

lemma borrow_loop_has: "\<not> testOnBorrow cfg \<Longrightarrow> borrow_loop cfg f k (Suc n) (Some t) p = (Inr t, p)"
  by (simp add: ret_run)

lemma borrowObject_run:
  assumes opened: "\<not> closed p" and ok: "smap_ok (idle p)" "smap_ok (busy p)"
    and q: "map_of (idle p) k = Some (Some q)" and b: "map_of (busy p) k = Some (Some b)"
    and cfg: "\<not> testOnBorrow cfg" "maxTotal cfg \<le> 0" and fuel: "fuel = Suc (Suc n)"
  shows "borrowObject fuel cfg f k p =
    (case q of
       t # ts \<Rightarrow> (Inr t, hand_out k b t (p\<lparr>idle := smap_put k (Some ts) (idle p), totalIdle := totalIdle p - 1\<rparr>))
     | [] \<Rightarrow>
         if maxActive cfg < 0 \<or> int (length b) < maxActive cfg
         then (case makeObject f k (world p) of
                 (Inl e, w) \<Rightarrow> (Inl e, p\<lparr>world := w\<rparr>)
               | (Inr t, w) \<Rightarrow> (Inr t, hand_out k b t (p\<lparr>world := w\<rparr>)))
         else (Inl (if exhaustedAction cfg = EXCEPTION
                    then NoSuchElementException ''Reached maximum number of connections'' else Blocked), p))"
proof (cases q)
  case (Cons t ts)
  then show ?thesis
    using assms by (simp add: borrowObject_def sm_simps on_idle_def on_busy_def bq_defs add_idle_def add_active_def hand_out_def)
next
  case Nil
  have same: "smap_put k (Some []) (idle p) = idle p" "smap_put k (Some b) (busy p) = busy p"
    using ok q b Nil by (simp_all add: smap_put_same)
  have poll: "on_idle k bq_poll p = (Inr None, p)"
    using q Nil same by (simp add: on_idle_def bq_defs)
  have create: "can_create cfg f k p = (Inr (maxActive cfg < 0 \<or> int (length b) < maxActive cfg), p)"
    using q b Nil same cfg(2)
    by (simp add: can_create_def idle_size_def busy_size_def on_idle_def on_busy_def sm_simps hasReachedMaxTotal_def)
  have pop: "on_idle k (if exhaustedAction cfg = EXCEPTION then bq_popOrThrow else bq_pop) p =
      (Inl (if exhaustedAction cfg = EXCEPTION
            then NoSuchElementException ''Reached maximum number of connections'' else Blocked), p)"
    using q Nil same by (simp add: on_idle_def bq_defs)
  show ?thesis
    using opened q b Nil cfg(1) create
    by (simp add: borrowObject_def poll seq_run ret_run fuel bind_run create pop on_world_def on_part_run
        on_busy_def bq_defs add_active_def modify_run hand_out_def split: prod.splits sum.splits)
qed


text \<open>
  What \<open>borrowObject\<close> does with the default configuration (no limit on the total, no test on
  borrow), on every branch: the idle transport that has waited longest is handed out; without
  one, and below \<open>maxActive\<close>, a new transport is made, and the exception of a failed connection is
  passed on with the pool unchanged; at \<open>maxActive\<close> it throws or waits, as configured. Two rounds
  of its loop are enough.
\<close>

theorem borrowObject_spec:
  assumes opened: "\<not> closed p" and ok: "smap_ok (idle p)" "smap_ok (busy p)"
    and q: "map_of (idle p) k = Some (Some q)" and b: "map_of (busy p) k = Some (Some b)"
    and cfg: "\<not> testOnBorrow cfg" "maxTotal cfg \<le> 0" and fuel: "fuel = Suc (Suc n)"
  shows "borrowObject fuel cfg f k p =
    (case q of
       t # ts \<Rightarrow> (Inr t, hand_out k b t (p\<lparr>idle := smap_put k (Some ts) (idle p), totalIdle := totalIdle p - 1\<rparr>))
     | [] \<Rightarrow>
         if maxActive cfg < 0 \<or> int (length b) < maxActive cfg
         then (case makeObject f k (world p) of
                 (Inl e, w) \<Rightarrow> (Inl e, p\<lparr>world := w\<rparr>)
               | (Inr t, w) \<Rightarrow> (Inr t, hand_out k b t (p\<lparr>world := w\<rparr>)))
         else (Inl (if exhaustedAction cfg = EXCEPTION
                    then NoSuchElementException ''Reached maximum number of connections'' else Blocked), p))"
  by (rule borrowObject_run [OF assms])

theorem borrowObject_spec_witness:
  "borrowObject 2 (example_cfg\<lparr>maxTotal := -1, maxActive := 1\<rparr>) (TransportObjectFactory silent_net Codec20)
      example_server borrowed_pool
    = (Inl (NoSuchElementException ''Reached maximum number of connections''), borrowed_pool)"
proof -
  have "\<not> closed borrowed_pool" "smap_ok (idle borrowed_pool)" "smap_ok (busy borrowed_pool)"
    "map_of (idle borrowed_pool) example_server = Some (Some [])"
    "map_of (busy borrowed_pool) example_server = Some (Some [0])"
    by (simp_all add: borrowed_pool_run(2) ConnectionPool_def smap_ok_def)
  from borrowObject_spec [OF this, of "example_cfg\<lparr>maxTotal := -1, maxActive := 1\<rparr>" 2 0
      "TransportObjectFactory silent_net Codec20"]
  show ?thesis by (simp add: example_cfg_def numeral_2_eq_2)
qed

text \<open>Whatever the configuration, borrowing leaves the busy queues alone but for the transport it hands out.\<close>

definition keeps_busy :: "(('w, 't) pool, 'a) sm \<Rightarrow> bool" where
  "keeps_busy m \<longleftrightarrow> (\<forall>p. smap_ok (busy p) \<longrightarrow> busy (snd (m p)) = busy p)"

lemma keeps_busy_bind: "keeps_busy m \<Longrightarrow> (\<And>x. keeps_busy (f x)) \<Longrightarrow> keeps_busy (bind m f)"
  unfolding keeps_busy_def bind_run by (force split: prod.splits sum.splits)

lemma keeps_busy_seq: "keeps_busy m \<Longrightarrow> keeps_busy k \<Longrightarrow> keeps_busy (seq m k)"
  unfolding seq_def by (rule keeps_busy_bind)

lemma keeps_busy_basic [simp]:
  "keeps_busy (ret x)" "keeps_busy (raise e)" "keeps_busy (gets g)" "keeps_busy (on_world m)" "keeps_busy (on_idle k h)"
  "keeps_busy (add_idle i)" "keeps_busy (modify (\<lambda>p. p\<lparr>allocationQueue := allocationQueue p @ [k]\<rparr>))"
  "keeps_busy (idle_size k)" "keeps_busy (busy_size k)"
  by (auto simp: keeps_busy_def sm_simps on_world_def on_idle_def on_busy_def add_idle_def idle_size_def busy_size_def
      smap_put_same split: prod.splits option.splits)

lemma keeps_busy_try: "keeps_busy (tryRemoveIdle cfg f)"
  unfolding tryRemoveIdle_def
  by (auto intro!: keeps_busy_bind keeps_busy_seq split: sum.splits option.splits)

lemma keeps_busy_create: "keeps_busy (can_create cfg f k)"
  unfolding can_create_def tryRemoveIdleOrAskAllocate_def
  by (auto intro!: keeps_busy_bind keeps_busy_seq keeps_busy_try)

lemma keeps_busy_loop: "keeps_busy (borrow_loop cfg f k n obj)"
  by (induction n arbitrary: obj)
     (auto intro!: keeps_busy_bind keeps_busy_seq keeps_busy_create split: option.splits)

lemma borrow_busy:
  assumes "borrowObject fuel cfg f k p = (Inr t, p')" "smap_ok (busy p)"
  obtains b where "map_of (busy p) k = Some (Some b)" "busy p' = smap_put k (Some (b @ [t])) (busy p)"
proof -
  define pre where "pre = bind (on_idle k bq_poll) (\<lambda>obj. seq (if obj \<noteq> None then add_idle (- 1) else ret ())
      (borrow_loop cfg f k fuel obj))"
  have "keeps_busy pre"
    unfolding pre_def by (auto intro!: keeps_busy_bind keeps_busy_seq keeps_busy_loop)
  moreover have "bind pre (\<lambda>t. seq (on_busy k (bq_push 0 t)) (seq (add_active 1) (ret t))) p = (Inr t, p')"
    using assms(1) by (simp add: pre_def borrowObject_def sm_bind_assoc seq_def split: if_splits)
  then obtain p1 where p1: "pre p = (Inr t, p1)" "seq (on_busy k (bq_push 0 t)) (seq (add_active 1) (ret t)) p1 = (Inr t, p')"
    by (auto simp: bind_eq_Inr seq_eq_Inr ret_run)
  ultimately have "busy p1 = busy p" using assms(2) by (auto simp: keeps_busy_def dest!: spec [of _ p])
  then show ?thesis
    using p1(2) that by (auto simp: seq_run on_busy_def bq_defs add_active_def modify_run ret_run split: option.splits)
qed

text \<open>
  A transport is never handed out twice: \<open>borrowObject\<close> returns one that nobody holds, and puts
  exactly this one into the busy queue of the server asked for.
\<close>

theorem borrow_exclusive:
  assumes "pool_reach cfg (TransportObjectFactory net c) p"
    and "borrowObject fuel cfg (TransportObjectFactory net c) k p = (Inr t, p')"
  shows "t \<notin># objs (busy p) \<and> objs (busy p') = add_mset t (objs (busy p)) \<and> t \<in># objs_at (busy p') k
    \<and> t \<notin># objs (idle p') \<and> t \<in> dom (conns (world p'))"
proof -
  have "tcp.pool_ok cfg 0 {#} p" by (rule tcp.pool_reach_ok [OF assms(1)])
  then have sm: "smap_ok (busy p)" by (simp add: tcp.pool_ok_def pool_struct_def)
  have "tcp.pool_ok cfg 0 {#} p'"
    using reach_borrow [OF assms] by (auto simp: defined_def intro: tcp.pool_reach_ok)
  then have own: "owned (objs (idle p') + objs (busy p')) (live (world p'))"
    by (simp add: tcp.pool_ok_def)
  obtain b where b: "map_of (busy p) k = Some (Some b)" "busy p' = smap_put k (Some (b @ [t])) (busy p)"
    using borrow_busy [OF assms(2) sm] .
  then have objs: "objs (busy p') = add_mset t (objs (busy p))"
    using objs_put_some [OF sm b(1), of "b @ [t]"] by simp
  have "t \<in># objs_at (busy p') k" using b(2) by (simp add: objs_at_def)
  then show ?thesis using own objs by (auto simp: owned_add live_def)
qed

theorem borrow_exclusive_witness:
  "borrowObject 2 example_cfg (TransportObjectFactory silent_net Codec20) example_server borrowed_pool
     = (Inr 1, snd (borrowObject 2 example_cfg (TransportObjectFactory silent_net Codec20) example_server borrowed_pool))
   \<and> (1 :: nat) \<notin># objs (busy borrowed_pool)"
proof -
  have "borrowObject 2 example_cfg (TransportObjectFactory silent_net Codec20) example_server borrowed_pool
     = (Inr 1, snd (borrowObject 2 example_cfg (TransportObjectFactory silent_net Codec20) example_server borrowed_pool))"
    by (simp add: borrowed_pool_run(2) pool_run_defs example_cfg_def ConnectionPool_def example_world_def silent_net_def
        numeral_2_eq_2 can_create_def hasReachedMaxTotal_def)
  with borrow_exclusive [OF borrowed_pool_reach this] show ?thesis by simp
qed

end
