(* ===== verification/HR_Factory.thy ===== *)
theory HR_Factory
  imports HR_ObjectFactory
begin

text \<open>
  \<open>impl/transport/TransportFactory.cpp\<close>: the servers of the cluster, the balancer, the connection
  pool and the switch to another cluster. \<open>initialServers\<close> and the list of servers of
  \<open>TopologyInfo\<close> are one object, held by reference; here it is \<open>ti_servers\<close>. The balancing strategy
  is the default one. A \<open>ServerConfiguration\<close> is a pair of host and port, and the map of clusters a
  list in the order of the names.
\<close>

section \<open>Configuration and state\<close>

record tf_config =
  tc_codec :: codec
  tc_servers :: "(string \<times> (string \<times> int) list) list"
  tc_pool :: pool_config
  tc_maxRetries :: int
  tc_net :: network
  tc_fuel :: nat

record tfactory =
  ti :: topology_info
  balancer :: round_robin
  cpool :: "(world, nat) pool"
  failedServers :: "inet set"
  topologyAge :: int
  currCluster :: string

definition DEFAULT_CLUSTER_NAME :: string where
  "DEFAULT_CLUSTER_NAME = ''DEFAULT_CLUSTER_NAME''"

definition obj_fac :: "tf_config \<Rightarrow> (world, nat) obj_factory" where
  "obj_fac cfg = TransportObjectFactory (tc_net cfg) (tc_codec cfg)"

definition on_pool :: "((world, nat) pool, 'a) sm \<Rightarrow> (tfactory, 'a) sm" where
  "on_pool m = on_part cpool (\<lambda>p s. s\<lparr>cpool := p\<rparr>) m"

definition on_ti :: "(topology_info, 'a) sm \<Rightarrow> (tfactory, 'a) sm" where
  "on_ti m = on_part ti (\<lambda>t s. s\<lparr>ti := t\<rparr>) m"

definition on_heap :: "(world, 'a) sm \<Rightarrow> (tfactory, 'a) sm" where
  "on_heap m = on_pool (on_world m)"

definition TransportFactory :: "world \<Rightarrow> tfactory" where
  "TransportFactory w = \<lparr>ti = TopologyInfo [], balancer = RoundRobinBalancingStrategy, cpool = ConnectionPool w,
     failedServers = {}, topologyAge = 0, currCluster = []\<rparr>"

section \<open>Topology updates\<close>

text \<open>\<open>std::set_difference\<close> on sorted ranges.\<close>

fun set_difference :: "'a::linorder list \<Rightarrow> 'a list \<Rightarrow> 'a list" where
  "set_difference [] ys = []"
| "set_difference (x # xs) [] = x # xs"
| "set_difference (x # xs) (y # ys) =
     (if x < y then x # set_difference xs (y # ys)
      else if y < x then set_difference (x # xs) ys
      else set_difference xs ys)"

definition updateServers :: "tf_config \<Rightarrow> inet list \<Rightarrow> (tfactory, unit) sm" where
  "updateServers cfg newServers =
    bind (gets (\<lambda>s. ti_servers (ti s))) (\<lambda>servers.
    let newServers = sort newServers;
        topoServers = sort servers;
        addedServers = set_difference newServers topoServers;
        failed = set_difference topoServers newServers
    in if failed = [] \<and> newServers = [] then ret ()
       else seq (for_each addedServers (\<lambda>a. on_pool (addObject (tc_pool cfg) (obj_fac cfg) a)))
           (seq (modify (\<lambda>s. s\<lparr>balancer := rr_setServers newServers (balancer s)\<rparr>))
           (seq (for_each failed (\<lambda>a. on_pool (clear_key (obj_fac cfg) a)))
                (modify (\<lambda>s. s\<lparr>ti := ti_updateServers newServers (ti s)\<rparr>)))))"

definition updateHashFunction ::
  "inet list list \<Rightarrow> u32 \<Rightarrow> byte \<Rightarrow> bytes \<Rightarrow> u32 \<Rightarrow> (tfactory, unit) sm" where
  "updateHashFunction owners numSegment hashFunctionVersion cacheName topologyId =
    on_ti (updateTopology owners numSegment hashFunctionVersion cacheName topologyId)"

definition getTopologyId :: "bytes \<Rightarrow> (tfactory, u32) sm" where
  "getTopologyId cacheName = on_ti (bind (getCacheTopologyInfo cacheName) (\<lambda>i. ret (cti_topologyId i)))"

definition TransportFactory_iface :: "tf_config \<Rightarrow> tfactory tf_iface" where
  "TransportFactory_iface cfg =
    \<lparr>tf_getTopologyId = getTopologyId, tf_getTopologyAge = topologyAge,
     tf_updateServers = updateServers cfg, tf_updateHashFunction = updateHashFunction\<rparr>"

section \<open>Transports\<close>

definition borrowTransportFromPool :: "tf_config \<Rightarrow> inet \<Rightarrow> (tfactory, nat) sm" where
  "borrowTransportFromPool cfg server = on_pool (borrowObject (tc_fuel cfg) (tc_pool cfg) (obj_fac cfg) server)"

definition getTransport :: "tf_config \<Rightarrow> bytes \<Rightarrow> inet set \<Rightarrow> (tfactory, nat) sm" where
  "getTransport cfg cacheName failed =
    bind (on_part balancer (\<lambda>b s. s\<lparr>balancer := b\<rparr>) (nextServer failed)) (\<lambda>server.
    borrowTransportFromPool cfg server)"

definition getTransportForKey :: "tf_config \<Rightarrow> bytes \<Rightarrow> bytes \<Rightarrow> inet set \<Rightarrow> (tfactory, nat) sm" where
  "getTransportForKey cfg key cacheName failed =
    bind (gets (\<lambda>s. getHashAwareServer key cacheName (ti s))) (\<lambda>r.
    case r of
      Inl e \<Rightarrow> raise e
    | Inr server \<Rightarrow>
        if inet_isEmpty server then getTransport cfg cacheName failed else borrowTransportFromPool cfg server)"

text \<open>\<open>isValid()\<close> and \<open>getServerAddress()\<close> read the object behind the pointer.\<close>

definition heap_get :: "nat \<Rightarrow> (tfactory, inet \<times> transport) sm" where
  "heap_get t s =
    (case conns (world (cpool s)) t of
       None \<Rightarrow> (Inl (UndefinedBehaviour ''deleted transport''), s)
     | Some x \<Rightarrow> (Inr x, s))"

definition releaseTransport :: "tf_config \<Rightarrow> nat \<Rightarrow> (tfactory, unit) sm" where
  "releaseTransport cfg t =
    bind (heap_get t) (\<lambda>(addr, tcp).
    if \<not> t_valid tcp then on_pool (invalidateObject (tc_pool cfg) (obj_fac cfg) addr (Some t))
    else on_pool (returnObject (tc_pool cfg) (obj_fac cfg) addr t))"

definition invalidateTransport :: "tf_config \<Rightarrow> inet \<Rightarrow> nat option \<Rightarrow> (tfactory, unit) sm" where
  "invalidateTransport cfg serverAddress t =
    on_pool (invalidateObject (tc_pool cfg) (obj_fac cfg) serverAddress t)"

definition addFailedServer :: "inet \<Rightarrow> (tfactory, unit) sm" where
  "addFailedServer isa = modify (\<lambda>s. s\<lparr>failedServers := insert isa (failedServers s)\<rparr>)"

section \<open>Pings\<close>

definition factory_ping :: "tf_config \<Rightarrow> nat \<Rightarrow> (tfactory, ping_result) sm" where
  "factory_ping cfg t =
    tcp_ping (\<lambda>s. world (cpool s)) (\<lambda>w s. s\<lparr>cpool := (cpool s)\<lparr>world := w\<rparr>\<rparr>) (TransportFactory_iface cfg)
      (tc_codec cfg) t"

text \<open>One round of the loop: what a failed borrow or ping throws is swallowed.\<close>

definition pingServer :: "tf_config \<Rightarrow> inet \<Rightarrow> (tfactory, unit) sm" where
  "pingServer cfg a =
    bind (catch (bind (borrowTransportFromPool cfg a) (\<lambda>t. ret (Some t)))
           (\<lambda>e. if is_hr_exception e then ret None else raise e)) (\<lambda>transport.
    case transport of
      None \<Rightarrow> ret ()
    | Some t \<Rightarrow>
        seq (catch (bind (factory_ping cfg t) (\<lambda>_. ret ()))
              (\<lambda>e. if is_hr_exception e then ret () else raise e))
            (on_pool (returnObject (tc_pool cfg) (obj_fac cfg) a t)))"

definition pingServers :: "tf_config \<Rightarrow> (tfactory, unit) sm" where
  "pingServers cfg = bind (gets (\<lambda>s. ti_servers (ti s))) (\<lambda>servers. for_each servers (pingServer cfg))"

definition pingExternalServer :: "tf_config \<Rightarrow> inet \<Rightarrow> (tfactory, unit) sm" where
  "pingExternalServer cfg a =
    bind (on_heap (makeObject (obj_fac cfg) a)) (\<lambda>t.
    seq (bind (factory_ping cfg t) (\<lambda>_. ret ()))
        (on_heap (destroyObject (obj_fac cfg) a t)))"

section \<open>Start, cluster switch, destroy\<close>

text \<open>
  \<open>connectionPool.reset(new ConnectionPool(...))\<close> destroys the pool that was there: its destructor
  closes and clears it.
\<close>

definition createAndPreparePool :: "tf_config \<Rightarrow> (tfactory, unit) sm" where
  "createAndPreparePool cfg =
    seq (on_pool (seq (pool_close (obj_fac cfg)) (pool_clear (obj_fac cfg))))
    (seq (modify (\<lambda>s. s\<lparr>cpool := ConnectionPool (world (cpool s))\<rparr>))
    (bind (gets (\<lambda>s. ti_servers (ti s))) (\<lambda>servers.
     for_each servers (\<lambda>a. on_pool (preparePool (tc_pool cfg) (obj_fac cfg) a)))))"

definition inets :: "(string \<times> int) list \<Rightarrow> inet list" where
  "inets = map (\<lambda>(h, p). InetSocketAddress h p)"

definition start :: "tf_config \<Rightarrow> (tfactory, unit) sm" where
  "start cfg =
    seq (modify (\<lambda>s. s\<lparr>topologyAge := 0\<rparr>))
    (bind (case map_of (tc_servers cfg) DEFAULT_CLUSTER_NAME of
             Some servers \<Rightarrow> ret (DEFAULT_CLUSTER_NAME, servers)
           | None \<Rightarrow>
               (case tc_servers cfg of
                  [] \<Rightarrow> raise (UndefinedBehaviour ''serversMap.begin()'')
                | (name, servers) # _ \<Rightarrow> ret (name, servers))) (\<lambda>(name, configuredServers).
     seq (modify (\<lambda>s. s\<lparr>currCluster := name, ti := (ti s)\<lparr>ti_servers := ti_servers (ti s) @ inets configuredServers\<rparr>,
                        balancer := RoundRobinBalancingStrategy\<rparr>))
    (seq (createAndPreparePool cfg)
    (seq (modify (\<lambda>s. s\<lparr>balancer := rr_setServers (ti_servers (ti s)) (balancer s)\<rparr>))
         (pingServers cfg)))))"

text \<open>
  The servers of the first other cluster that has a server which answers a ping; the name of the
  cluster is recorded. Exceptions of the ping move on to the next server.
\<close>

fun try_servers :: "tf_config \<Rightarrow> (string \<times> int) list \<Rightarrow> (tfactory, bool) sm" where
  "try_servers cfg [] = ret False"
| "try_servers cfg ((h, p) # vs) =
     bind (catch (seq (pingExternalServer cfg (InetSocketAddress h p)) (ret True))
            (\<lambda>e. if is_hr_exception e then ret False else raise e)) (\<lambda>ok.
     if ok then ret True else try_servers cfg vs)"

fun try_clusters :: "tf_config \<Rightarrow> (string \<times> (string \<times> int) list) list \<Rightarrow> (tfactory, (string \<times> int) list) sm" where
  "try_clusters cfg [] = ret []"
| "try_clusters cfg ((name, servers) # cs) =
     bind (gets currCluster) (\<lambda>curr.
     if name = curr then try_clusters cfg cs
     else bind (try_servers cfg servers) (\<lambda>ok.
          if ok then seq (modify (\<lambda>s. s\<lparr>currCluster := name\<rparr>)) (ret servers)
          else try_clusters cfg cs))"

definition getNextWorkingServersConfiguration :: "tf_config \<Rightarrow> (tfactory, (string \<times> int) list) sm" where
  "getNextWorkingServersConfiguration cfg = try_clusters cfg (tc_servers cfg)"

text \<open>The part both versions of \<open>clusterSwitch\<close> share.\<close>

definition switch_to :: "tf_config \<Rightarrow> (string \<times> int) list \<Rightarrow> (tfactory, bool) sm" where
  "switch_to cfg configuredServers =
    seq (modify (\<lambda>s. s\<lparr>topologyAge := 0, failedServers := {}, balancer := RoundRobinBalancingStrategy,
                       ti := ti_updateServers (inets configuredServers) (ti s)\<rparr>))
    (seq (createAndPreparePool cfg)
    (seq (modify (\<lambda>s. s\<lparr>balancer := rr_setServers (ti_servers (ti s)) (balancer s)\<rparr>))
    (seq (pingServers cfg) (ret True))))"

definition clusterSwitch :: "tf_config \<Rightarrow> (tfactory, bool) sm" where
  "clusterSwitch cfg =
    bind (getNextWorkingServersConfiguration cfg) (\<lambda>configuredServers.
    if configuredServers = [] then ret False
    else seq (on_pool (pool_close (obj_fac cfg))) (switch_to cfg configuredServers))"

definition clusterSwitchTo :: "tf_config \<Rightarrow> string \<Rightarrow> (tfactory, bool) sm" where
  "clusterSwitchTo cfg clusterName =
    (case map_of (tc_servers cfg) clusterName of
       None \<Rightarrow> ret False
     | Some configuredServers \<Rightarrow> switch_to cfg configuredServers)"

definition tf_destroy :: "tf_config \<Rightarrow> (tfactory, unit) sm" where
  "tf_destroy cfg = on_pool (seq (pool_clear (obj_fac cfg)) (pool_close (obj_fac cfg)))"

end
