(* ===== verification/HR_Retry.thy ===== *)
theory HR_Retry
  imports HR_Factory
begin

text \<open>
  \<open>impl/operations/RetryOnFailureOperation.h\<close>: the loop around every operation that takes a transport,
  runs the operation, gives the transport back, and on a failure tries again elsewhere, first on
  the other servers and then on another cluster. The virtual functions of the class and the calls
  to the transport factory are the record \<open>retry_ops\<close>; \<open>operation_on\<close> fills it with the model of the
  factory, for an operation on a key as \<open>AbstractKeyOperation.h\<close> does.
\<close>

section \<open>The members the loop calls\<close>

record ('s, 't, 'a) retry_ops =
  ro_getTransport :: "int \<Rightarrow> inet set \<Rightarrow> ('s, 't) sm"
  ro_executeOperation :: "'t \<Rightarrow> ('s, 'a) sm"
  ro_releaseTransport :: "'t \<Rightarrow> ('s, unit) sm"
  ro_invalidateTransport :: "inet \<Rightarrow> 't \<Rightarrow> ('s, unit) sm"
  ro_clusterSwitch :: "('s, bool) sm"
  ro_maxRetries :: int
  ro_getFailedServers :: "'s \<Rightarrow> inet set"
  ro_addFailedServer :: "inet \<Rightarrow> ('s, unit) sm"

definition shouldRetry :: "('s, 't, 'a) retry_ops \<Rightarrow> int \<Rightarrow> bool" where
  "shouldRetry R retryCount \<longleftrightarrow> retryCount \<le> ro_maxRetries R"

text \<open>Releasing and invalidating do nothing for the null pointer.\<close>

definition retry_release :: "('s, 't, 'a) retry_ops \<Rightarrow> 't option \<Rightarrow> ('s, unit) sm" where
  "retry_release R transport = (case transport of None \<Rightarrow> ret () | Some t \<Rightarrow> ro_releaseTransport R t)"

definition retry_invalidate :: "('s, 't, 'a) retry_ops \<Rightarrow> inet \<Rightarrow> 't option \<Rightarrow> ('s, unit) sm" where
  "retry_invalidate R addr transport = (case transport of None \<Rightarrow> ret () | Some t \<Rightarrow> ro_invalidateTransport R addr t)"

text \<open>The new value of \<open>retryCount\<close>; \<open>throw;\<close> raises the exception that is being handled.\<close>

definition logErrorAndThrowExceptionIfNeeded :: "('s, 't, 'a) retry_ops \<Rightarrow> int \<Rightarrow> exn \<Rightarrow> ('s, int) sm" where
  "logErrorAndThrowExceptionIfNeeded R retryCount e =
    (if ro_maxRetries R - 1 \<le> retryCount
     then bind (ro_clusterSwitch R) (\<lambda>switched. if switched then ret 0 else raise e)
     else ret retryCount)"

section \<open>The loop\<close>

text \<open>The \<open>catch\<close> clauses: the retry count and the failed servers for the next round, or an exception.\<close>

definition retry_handler ::
  "('s, 't, 'a) retry_ops \<Rightarrow> 't option \<Rightarrow> int \<Rightarrow> inet set \<Rightarrow> exn \<Rightarrow> ('s, int \<times> inet set) sm" where
  "retry_handler R transport retryCount failed e =
    (case e of
       TransportException h p m \<Rightarrow>
         (let isa = InetSocketAddress h p in
          seq (retry_invalidate R isa transport)
          (bind (logErrorAndThrowExceptionIfNeeded R retryCount e) (\<lambda>n. ret (n, insert isa failed))))
     | CounterUpperBoundException n \<Rightarrow> seq (retry_release R transport) (raise e)
     | CounterLowerBoundException n \<Rightarrow> seq (retry_release R transport) (raise e)
     | _ \<Rightarrow>
         if is_client_exn e
         then seq (retry_release R transport)
              (bind (logErrorAndThrowExceptionIfNeeded R retryCount e) (\<lambda>n. ret (n, failed)))
         else raise e)"

text \<open>
  One round. \<open>transport\<close> is null in the handlers when \<open>getTransport\<close> itself has thrown; the release
  after the operation is inside the \<open>try\<close> block as well.
\<close>

definition retry_round ::
  "('s, 't, 'a) retry_ops \<Rightarrow> int \<Rightarrow> inet set \<Rightarrow> ('s, 'a + int \<times> inet set) sm" where
  "retry_round R retryCount failed =
    bind (catch (bind (ro_getTransport R retryCount failed) (\<lambda>t. ret (Inr t))) (\<lambda>e. ret (Inl e))) (\<lambda>got.
    case got of
      Inl e \<Rightarrow> bind (retry_handler R None retryCount failed e) (\<lambda>x. ret (Inr x))
    | Inr t \<Rightarrow>
        catch (bind (ro_executeOperation R t) (\<lambda>result. seq (ro_releaseTransport R t) (ret (Inl result))))
          (\<lambda>e. bind (retry_handler R (Some t) retryCount failed e) (\<lambda>x. ret (Inr x))))"

fun retry_loop :: "nat \<Rightarrow> ('s, 't, 'a) retry_ops \<Rightarrow> int \<Rightarrow> inet set \<Rightarrow> ('s, 'a) sm" where
  "retry_loop 0 R retryCount failed = raise OutOfFuel"
| "retry_loop (Suc n) R retryCount failed =
     (if \<not> shouldRetry R retryCount then raise (InternalException ''We should not reach here!'')
      else bind (retry_round R retryCount failed) (\<lambda>r.
           case r of
             Inl result \<Rightarrow> ret result
           | Inr (retryCount', failed') \<Rightarrow> retry_loop n R (retryCount' + 1) failed'))"

definition execute :: "nat \<Rightarrow> ('s, 't, 'a) retry_ops \<Rightarrow> ('s, 'a) sm" where
  "execute fuel R = retry_loop fuel R 0 {}"

section \<open>The specialization for void operations\<close>

text \<open>
  It keeps the failed servers in the transport factory instead of a local variable and has no
  clauses for the bounds of counters.
\<close>

definition void_handler :: "('s, 't, unit) retry_ops \<Rightarrow> 't option \<Rightarrow> int \<Rightarrow> exn \<Rightarrow> ('s, int) sm" where
  "void_handler R transport retryCount e =
    (case e of
       TransportException h p m \<Rightarrow>
         (let isa = InetSocketAddress h p in
          seq (ro_addFailedServer R isa)
          (seq (retry_invalidate R isa transport) (logErrorAndThrowExceptionIfNeeded R retryCount e)))
     | _ \<Rightarrow>
         if is_client_exn e
         then seq (retry_release R transport) (logErrorAndThrowExceptionIfNeeded R retryCount e)
         else raise e)"

definition void_round :: "('s, 't, unit) retry_ops \<Rightarrow> int \<Rightarrow> ('s, unit + int) sm" where
  "void_round R retryCount =
    bind (catch (bind (gets (ro_getFailedServers R)) (\<lambda>failed.
                 bind (ro_getTransport R retryCount failed) (\<lambda>t. ret (Inr t)))) (\<lambda>e. ret (Inl e))) (\<lambda>got.
    case got of
      Inl e \<Rightarrow> bind (void_handler R None retryCount e) (\<lambda>n. ret (Inr n))
    | Inr t \<Rightarrow>
        catch (seq (ro_executeOperation R t) (seq (ro_releaseTransport R t) (ret (Inl ()))))
          (\<lambda>e. bind (void_handler R (Some t) retryCount e) (\<lambda>n. ret (Inr n))))"

fun void_loop :: "nat \<Rightarrow> ('s, 't, unit) retry_ops \<Rightarrow> int \<Rightarrow> ('s, unit) sm" where
  "void_loop 0 R retryCount = raise OutOfFuel"
| "void_loop (Suc n) R retryCount =
     (if \<not> shouldRetry R retryCount then raise (InternalException ''We should not reach here!'')
      else bind (void_round R retryCount) (\<lambda>r.
           case r of Inl _ \<Rightarrow> ret () | Inr retryCount' \<Rightarrow> void_loop n R (retryCount' + 1)))"

definition execute_void :: "nat \<Rightarrow> ('s, 't, unit) retry_ops \<Rightarrow> ('s, unit) sm" where
  "execute_void fuel R = void_loop fuel R 0"

section \<open>Operations of the client\<close>

text \<open>
  The state behind an operation: the transport factory, and the \<open>Topology\<close> object of the cache
  that the operation holds by reference.
\<close>

record client =
  cl_fac :: tfactory
  cl_topo :: u32

definition on_cl :: "(tfactory, 'a) sm \<Rightarrow> (client, 'a) sm" where
  "on_cl m = on_part cl_fac (\<lambda>f s. s\<lparr>cl_fac := f\<rparr>) m"

text \<open>Run \<open>executeOperation\<close> on the transport at an address of the heap.\<close>

definition put_conn :: "nat \<Rightarrow> inet \<Rightarrow> 'a io \<Rightarrow> world \<Rightarrow> world" where
  "put_conn t a x w =
    w\<lparr>conns := (if t \<in> dom (conns w) then (conns w)(t \<mapsto> (a, tr x)) else conns w), w_msgId := msgId x\<rparr>"

definition on_transport :: "nat \<Rightarrow> (tfactory io, 'a) sm \<Rightarrow> (client, 'a) sm" where
  "on_transport t m s =
    (case conns (world (cpool (cl_fac s))) t of
       None \<Rightarrow> (Inl (UndefinedBehaviour ''deleted transport''), s)
     | Some (a, c) \<Rightarrow>
         (case m \<lparr>tr = c, fac = cl_fac s, topo = cl_topo s, msgId = w_msgId (world (cpool (cl_fac s)))\<rparr> of
            (r, x) \<Rightarrow> (r, \<lparr>cl_fac = (fac x)\<lparr>cpool := (cpool (fac x))\<lparr>world := put_conn t a x (world (cpool (fac x)))\<rparr>\<rparr>,
                           cl_topo = topo x\<rparr>)))"

definition operation_on :: "tf_config \<Rightarrow> bytes \<Rightarrow> bytes option \<Rightarrow> (tfactory io, 'a) sm \<Rightarrow> (client, nat, 'a) retry_ops" where
  "operation_on cfg cacheName key op =
    \<lparr>ro_getTransport = (\<lambda>retryCount failed.
       case key of
         Some k \<Rightarrow> if retryCount = 0 then on_cl (getTransportForKey cfg k cacheName failed)
                   else on_cl (getTransport cfg cacheName failed)
       | None \<Rightarrow> on_cl (getTransport cfg cacheName failed)),
     ro_executeOperation = (\<lambda>t. on_transport t op),
     ro_releaseTransport = (\<lambda>t. on_cl (releaseTransport cfg t)),
     ro_invalidateTransport = (\<lambda>addr t. on_cl (invalidateTransport cfg addr (Some t))),
     ro_clusterSwitch = on_cl (clusterSwitch cfg),
     ro_maxRetries = tc_maxRetries cfg,
     ro_getFailedServers = (\<lambda>s. failedServers (cl_fac s)),
     ro_addFailedServer = (\<lambda>isa. on_cl (addFailedServer isa))\<rparr>"

end
