(* ===== verification/HR_RemoteCache.thy ===== *)
theory HR_RemoteCache
  imports HR_Retry
begin

text \<open>
  \<open>impl/operations/OperationsFactory.cpp\<close> and \<open>impl/RemoteCacheImpl.cpp\<close>: a call of the cache builds an
  operation with the flags collected for it, runs it with retries, and converts keys and values.
  The marshallers are given by the application and are parameters. A pointer to a value that is
  returned is an option, \<open>None\<close> for \<open>NULL\<close>; an empty vector of bytes has no data.
\<close>

section \<open>OperationsFactory\<close>

record rc_config =
  rc_tf :: tf_config
  rc_name :: bytes
  rc_force :: bool
  rc_dataFormat :: "entry_media_types option"
  rc_fuel :: nat

record rcache =
  rc_client :: client
  rc_flags :: u32
  rc_started :: bool

definition FORCE_RETURN_VALUE :: u32 where "FORCE_RETURN_VALUE = 1"
definition DEFAULT_LIFESPAN :: u32 where "DEFAULT_LIFESPAN = 2"
definition DEFAULT_MAXIDLE :: u32 where "DEFAULT_MAXIDLE = 4"

lemmas flag_defs = FORCE_RETURN_VALUE_def DEFAULT_LIFESPAN_def DEFAULT_MAXIDLE_def

definition addFlags :: "u32 \<Rightarrow> (rcache, unit) sm" where
  "addFlags f = modify (\<lambda>s. s\<lparr>rc_flags := rc_flags s OR f\<rparr>)"

definition setFlags :: "u32 \<Rightarrow> (rcache, unit) sm" where
  "setFlags f = modify (\<lambda>s. s\<lparr>rc_flags := f\<rparr>)"

text \<open>The flags are for one operation only.\<close>

definition getFlags :: "rc_config \<Rightarrow> (rcache, u32) sm" where
  "getFlags cfg =
    bind (gets (\<lambda>s. if rc_force cfg then rc_flags s OR FORCE_RETURN_VALUE else rc_flags s)) (\<lambda>result.
    seq (modify (\<lambda>s. s\<lparr>rc_flags := 0\<rparr>)) (ret result))"

text \<open>The constructor: the \<open>Topology\<close> of the cache starts with the id \<open>createTopologyId\<close> returns.\<close>

definition OperationsFactory :: "rc_config \<Rightarrow> (tfactory, rcache) sm" where
  "OperationsFactory cfg =
    bind (on_ti (createTopologyId (rc_name cfg) (- 1))) (\<lambda>i.
    bind (gets id) (\<lambda>f. ret \<lparr>rc_client = \<lparr>cl_fac = f, cl_topo = i\<rparr>, rc_flags = 0, rc_started = True\<rparr>))"

definition op_context :: "rc_config \<Rightarrow> u32 \<Rightarrow> op_ctx" where
  "op_context cfg flags = \<lparr>oc_codec = tc_codec (rc_tf cfg), oc_flags = flags, oc_cacheName = rc_name cfg,
     oc_dataFormat = rc_dataFormat cfg\<rparr>"

text \<open>
  What the functions \<open>new...Operation\<close> share: the operation object holds the flags, the codec, the name
  of the cache and the transport factory, and the key when it is an operation on a key.
\<close>

type_synonym 'a operation = "(client, nat, 'a) retry_ops"

definition newOperation ::
  "rc_config \<Rightarrow> bytes option \<Rightarrow> (tfactory tf_iface \<Rightarrow> op_ctx \<Rightarrow> (tfactory io, 'a) sm) \<Rightarrow> (rcache, 'a operation) sm" where
  "newOperation cfg key op =
    bind (getFlags cfg) (\<lambda>flags.
    ret (operation_on (rc_tf cfg) (rc_name cfg) key (op (TransportFactory_iface (rc_tf cfg)) (op_context cfg flags))))"

definition newGetKeyOperation :: "rc_config \<Rightarrow> bytes \<Rightarrow> (rcache, bytes operation) sm" where
  "newGetKeyOperation cfg key = newOperation cfg (Some key) (\<lambda>tf ctx. GetOperation tf ctx key)"

definition newGetAllOperation :: "rc_config \<Rightarrow> bytes list \<Rightarrow> (rcache, (bytes \<rightharpoonup> bytes) operation) sm" where
  "newGetAllOperation cfg keySet = newOperation cfg None (\<lambda>tf ctx. GetAllOperation tf ctx keySet)"

definition newPutKeyValueOperation :: "rc_config \<Rightarrow> bytes \<Rightarrow> bytes \<Rightarrow> u32 \<Rightarrow> u32 \<Rightarrow> (rcache, bytes operation) sm" where
  "newPutKeyValueOperation cfg key val lifespanSecs maxIdleSecs =
    newOperation cfg (Some key) (\<lambda>tf ctx. PutOperation tf ctx
      \<lparr>kv_key = key, kv_value = val, kv_lifespan = lifespanSecs, kv_maxIdle = maxIdleSecs\<rparr>)"

definition newPutIfAbsentOperation :: "rc_config \<Rightarrow> bytes \<Rightarrow> bytes \<Rightarrow> u32 \<Rightarrow> u32 \<Rightarrow> (rcache, bytes operation) sm" where
  "newPutIfAbsentOperation cfg key val lifespanSecs maxIdleSecs =
    newOperation cfg (Some key) (\<lambda>tf ctx. PutIfAbsentOperation tf ctx
      \<lparr>kv_key = key, kv_value = val, kv_lifespan = lifespanSecs, kv_maxIdle = maxIdleSecs\<rparr>)"

definition newReplaceOperation :: "rc_config \<Rightarrow> bytes \<Rightarrow> bytes \<Rightarrow> u32 \<Rightarrow> u32 \<Rightarrow> (rcache, bytes operation) sm" where
  "newReplaceOperation cfg key val lifespanSecs maxIdleSecs =
    newOperation cfg (Some key) (\<lambda>tf ctx. ReplaceOperation tf ctx
      \<lparr>kv_key = key, kv_value = val, kv_lifespan = lifespanSecs, kv_maxIdle = maxIdleSecs\<rparr>)"

definition newRemoveOperation :: "rc_config \<Rightarrow> bytes \<Rightarrow> (rcache, bytes operation) sm" where
  "newRemoveOperation cfg key = newOperation cfg (Some key) (\<lambda>tf ctx. RemoveOperation tf ctx key)"

definition newContainsKeyOperation :: "rc_config \<Rightarrow> bytes \<Rightarrow> (rcache, bool operation) sm" where
  "newContainsKeyOperation cfg key = newOperation cfg (Some key) (\<lambda>tf ctx. ContainsKeyOperation tf ctx key)"

definition newReplaceIfUnmodifiedOperation ::
  "rc_config \<Rightarrow> bytes \<Rightarrow> bytes \<Rightarrow> u32 \<Rightarrow> u32 \<Rightarrow> u64 \<Rightarrow> (rcache, (bytes \<times> rsp_code) operation) sm" where
  "newReplaceIfUnmodifiedOperation cfg key val lifespanSecs maxIdleSecs version =
    newOperation cfg (Some key) (\<lambda>tf ctx. ReplaceIfUnmodifiedOperation tf ctx
      \<lparr>kv_key = key, kv_value = val, kv_lifespan = lifespanSecs, kv_maxIdle = maxIdleSecs\<rparr> version)"

definition newRemoveIfUnmodifiedOperation :: "rc_config \<Rightarrow> bytes \<Rightarrow> u64 \<Rightarrow> (rcache, (bytes \<times> rsp_code) operation) sm" where
  "newRemoveIfUnmodifiedOperation cfg key version =
    newOperation cfg (Some key) (\<lambda>tf ctx. RemoveIfUnmodifiedOperation tf ctx key version)"

definition newGetWithMetadataOperation :: "rc_config \<Rightarrow> bytes \<Rightarrow> (rcache, metadata_value option operation) sm" where
  "newGetWithMetadataOperation cfg key = newOperation cfg (Some key) (\<lambda>tf ctx. GetWithMetadataOperation tf ctx key)"

definition newGetWithVersionOperation :: "rc_config \<Rightarrow> bytes \<Rightarrow> (rcache, (u64 \<times> bytes) option operation) sm" where
  "newGetWithVersionOperation cfg key = newOperation cfg (Some key) (\<lambda>tf ctx. GetWithVersionOperation tf ctx key)"

definition newBulkGetOperation :: "rc_config \<Rightarrow> u32 \<Rightarrow> (rcache, (bytes \<rightharpoonup> bytes) operation) sm" where
  "newBulkGetOperation cfg n = newOperation cfg None (\<lambda>tf ctx. BulkGetOperation tf ctx n)"

definition newBulkGetKeysOperation :: "rc_config \<Rightarrow> u32 \<Rightarrow> (rcache, bytes set operation) sm" where
  "newBulkGetKeysOperation cfg scope = newOperation cfg None (\<lambda>tf ctx. BulkGetKeysOperation tf ctx scope)"

definition newStatsOperation :: "rc_config \<Rightarrow> (rcache, (bytes \<rightharpoonup> bytes) operation) sm" where
  "newStatsOperation cfg = newOperation cfg None StatsOperation"

definition newClearOperation :: "rc_config \<Rightarrow> (rcache, bytes operation) sm" where
  "newClearOperation cfg = newOperation cfg None ClearOperation"

definition newSizeOperation :: "rc_config \<Rightarrow> (rcache, u64 operation) sm" where
  "newSizeOperation cfg = newOperation cfg None SizeOperation"

definition newFaultTolerantPingOperation :: "rc_config \<Rightarrow> (rcache, ping_result operation) sm" where
  "newFaultTolerantPingOperation cfg = newOperation cfg None FaultTolerantPingOperation"

definition newExecuteCmdOperation :: "rc_config \<Rightarrow> bytes \<Rightarrow> (bytes \<times> bytes) list \<Rightarrow> (rcache, bytes operation) sm" where
  "newExecuteCmdOperation cfg cmdName args = newOperation cfg None (\<lambda>tf ctx. sendExecuteOperation tf ctx cmdName args)"

definition newExecuteCmdKeyOperation ::
  "rc_config \<Rightarrow> bytes \<Rightarrow> bytes \<Rightarrow> (bytes \<times> bytes) list \<Rightarrow> (rcache, bytes operation) sm" where
  "newExecuteCmdKeyOperation cfg key cmdName args =
    newOperation cfg (Some key) (\<lambda>tf ctx. sendExecuteOperation tf ctx cmdName args)"

definition newAdminOperation :: "rc_config \<Rightarrow> bytes \<Rightarrow> (bytes \<times> bytes) list \<Rightarrow> (rcache, bytes operation) sm" where
  "newAdminOperation cfg cmdName args =
    newOperation (cfg\<lparr>rc_dataFormat := None\<rparr>) None (\<lambda>tf ctx. sendExecuteOperation tf ctx cmdName args)"

section \<open>RemoteCacheImpl\<close>

record ('k, 'v) marshallers =
  keyMarshall :: "'k \<Rightarrow> bytes"
  valueMarshall :: "'v \<Rightarrow> bytes"
  keyUnmarshall :: "bytes \<Rightarrow> 'k"
  valueUnmarshall :: "bytes \<Rightarrow> 'v"

definition run :: "rc_config \<Rightarrow> 'a operation \<Rightarrow> (rcache, 'a) sm" where
  "run cfg op = on_part rc_client (\<lambda>c s. s\<lparr>rc_client := c\<rparr>) (execute (rc_fuel cfg) op)"

definition assertRemoteCacheManagerIsStarted :: "(rcache, unit) sm" where
  "assertRemoteCacheManagerIsStarted =
    bind (gets rc_started) (\<lambda>started. if started then ret () else raise RemoteCacheManagerNotStartedException)"

definition applyDefaultExpirationFlags :: "u64 \<Rightarrow> u64 \<Rightarrow> (rcache, unit) sm" where
  "applyDefaultExpirationFlags lifespan maxIdle =
    seq (if lifespan = 0 then addFlags DEFAULT_LIFESPAN else ret ())
        (if maxIdle = 0 then addFlags DEFAULT_MAXIDLE else ret ())"

text \<open>\<open>bytes.data() ? baseValueUnmarshall(bytes) : NULL\<close>\<close>

definition value_of :: "('k, 'v) marshallers \<Rightarrow> bytes \<Rightarrow> 'v option" where
  "value_of m bs = (if bs = [] then None else Some (valueUnmarshall m bs))"

definition impl_get :: "rc_config \<Rightarrow> ('k, 'v) marshallers \<Rightarrow> 'k \<Rightarrow> (rcache, 'v option) sm" where
  "impl_get cfg m k =
    seq assertRemoteCacheManagerIsStarted
    (bind (newGetKeyOperation cfg (keyMarshall m k)) (\<lambda>op.
     bind (run cfg op) (\<lambda>bs. ret (value_of m bs))))"

definition putraw :: "rc_config \<Rightarrow> bytes \<Rightarrow> bytes \<Rightarrow> u64 \<Rightarrow> u64 \<Rightarrow> (rcache, bytes) sm" where
  "putraw cfg k v life maxIdle =
    seq assertRemoteCacheManagerIsStarted
    (seq (applyDefaultExpirationFlags life maxIdle)
    (bind (newPutKeyValueOperation cfg k v (ucast life) (ucast maxIdle)) (\<lambda>op. run cfg op)))"

definition impl_put :: "rc_config \<Rightarrow> ('k, 'v) marshallers \<Rightarrow> 'k \<Rightarrow> 'v \<Rightarrow> u64 \<Rightarrow> u64 \<Rightarrow> (rcache, 'v option) sm" where
  "impl_put cfg m k v life maxIdle =
    seq assertRemoteCacheManagerIsStarted
    (seq (applyDefaultExpirationFlags life maxIdle)
    (bind (newPutKeyValueOperation cfg (keyMarshall m k) (valueMarshall m v) (ucast life) (ucast maxIdle)) (\<lambda>op.
     bind (run cfg op) (\<lambda>bs. ret (value_of m bs)))))"

definition impl_putIfAbsent :: "rc_config \<Rightarrow> ('k, 'v) marshallers \<Rightarrow> 'k \<Rightarrow> 'v \<Rightarrow> u64 \<Rightarrow> u64 \<Rightarrow> (rcache, 'v option) sm" where
  "impl_putIfAbsent cfg m k v life maxIdle =
    seq assertRemoteCacheManagerIsStarted
    (seq (applyDefaultExpirationFlags life maxIdle)
    (bind (newPutIfAbsentOperation cfg (keyMarshall m k) (valueMarshall m v) (ucast life) (ucast maxIdle)) (\<lambda>op.
     bind (run cfg op) (\<lambda>bs. ret (value_of m bs)))))"

definition impl_replace :: "rc_config \<Rightarrow> ('k, 'v) marshallers \<Rightarrow> 'k \<Rightarrow> 'v \<Rightarrow> u64 \<Rightarrow> u64 \<Rightarrow> (rcache, 'v option) sm" where
  "impl_replace cfg m k v life maxIdle =
    seq assertRemoteCacheManagerIsStarted
    (seq (applyDefaultExpirationFlags life maxIdle)
    (bind (newReplaceOperation cfg (keyMarshall m k) (valueMarshall m v) (ucast life) (ucast maxIdle)) (\<lambda>op.
     bind (run cfg op) (\<lambda>bs. ret (value_of m bs)))))"

definition impl_remove :: "rc_config \<Rightarrow> ('k, 'v) marshallers \<Rightarrow> 'k \<Rightarrow> (rcache, 'v option) sm" where
  "impl_remove cfg m k =
    seq assertRemoteCacheManagerIsStarted
    (bind (newRemoveOperation cfg (keyMarshall m k)) (\<lambda>op.
     bind (run cfg op) (\<lambda>bs. ret (value_of m bs))))"

definition impl_containsKey :: "rc_config \<Rightarrow> ('k, 'v) marshallers \<Rightarrow> 'k \<Rightarrow> (rcache, bool) sm" where
  "impl_containsKey cfg m k =
    seq assertRemoteCacheManagerIsStarted
    (bind (newContainsKeyOperation cfg (keyMarshall m k)) (\<lambda>op. run cfg op))"

definition isUpdated :: "bytes \<times> rsp_code \<Rightarrow> bool" where
  "isUpdated response \<longleftrightarrow> snd response = RSP_SUCCESS"

definition impl_replaceWithVersion ::
  "rc_config \<Rightarrow> ('k, 'v) marshallers \<Rightarrow> 'k \<Rightarrow> 'v \<Rightarrow> u64 \<Rightarrow> u64 \<Rightarrow> u64 \<Rightarrow> (rcache, bool) sm" where
  "impl_replaceWithVersion cfg m k v version life maxIdle =
    seq assertRemoteCacheManagerIsStarted
    (bind (newReplaceIfUnmodifiedOperation cfg (keyMarshall m k) (valueMarshall m v) (ucast life) (ucast maxIdle) version)
      (\<lambda>op. bind (run cfg op) (\<lambda>response. ret (isUpdated response))))"

definition impl_removeWithVersion :: "rc_config \<Rightarrow> ('k, 'v) marshallers \<Rightarrow> 'k \<Rightarrow> u64 \<Rightarrow> (rcache, bool) sm" where
  "impl_removeWithVersion cfg m k version =
    seq assertRemoteCacheManagerIsStarted
    (bind (newRemoveIfUnmodifiedOperation cfg (keyMarshall m k) version) (\<lambda>op.
     bind (run cfg op) (\<lambda>response. ret (isUpdated response))))"

text \<open>The value and the version; a default constructed result has version 0 and no value.\<close>

definition impl_getWithVersion :: "rc_config \<Rightarrow> ('k, 'v) marshallers \<Rightarrow> 'k \<Rightarrow> (rcache, 'v option \<times> u64) sm" where
  "impl_getWithVersion cfg m k =
    seq assertRemoteCacheManagerIsStarted
    (bind (newGetWithVersionOperation cfg (keyMarshall m k)) (\<lambda>op.
     bind (run cfg op) (\<lambda>r.
     ret (case r of None \<Rightarrow> (None, 0) | Some (version, bs) \<Rightarrow> (value_of m bs, version)))))"

text \<open>\<open>MetadataValue\<close>; times that are not set are \<open>-1\<close>.\<close>

record metadata =
  md_version :: u64
  md_created :: u64
  md_lifespan :: u32
  md_lastUsed :: u64
  md_maxIdle :: u32

definition MetadataValue :: metadata where
  "MetadataValue = \<lparr>md_version = 0, md_created = - 1, md_lifespan = - 1, md_lastUsed = - 1, md_maxIdle = - 1\<rparr>"

definition metadata_of :: "metadata_value \<Rightarrow> metadata" where
  "metadata_of v = \<lparr>md_version = mv_version v,
     md_created = (case mv_created v of None \<Rightarrow> - 1 | Some c \<Rightarrow> c),
     md_lifespan = (case mv_lifespan v of None \<Rightarrow> - 1 | Some l \<Rightarrow> l),
     md_lastUsed = (case mv_lastUsed v of None \<Rightarrow> - 1 | Some u \<Rightarrow> u),
     md_maxIdle = (case mv_maxIdle v of None \<Rightarrow> - 1 | Some i \<Rightarrow> i)\<rparr>"

definition impl_getWithMetadata :: "rc_config \<Rightarrow> ('k, 'v) marshallers \<Rightarrow> 'k \<Rightarrow> (rcache, 'v option \<times> metadata) sm" where
  "impl_getWithMetadata cfg m k =
    seq assertRemoteCacheManagerIsStarted
    (bind (newGetWithMetadataOperation cfg (keyMarshall m k)) (\<lambda>op.
     bind (run cfg op) (\<lambda>r.
     ret (case r of None \<Rightarrow> (None, MetadataValue) | Some v \<Rightarrow> (value_of m (mv_value v), metadata_of v)))))"

text \<open>
  \<open>getAll\<close>: the keys are split by the server \<open>getHashAwareServer\<close> names, one operation is run for each
  part in the order of the addresses, and \<open>std::map::insert\<close> keeps what is there.
\<close>

fun split_keys :: "topology_info \<Rightarrow> bytes \<Rightarrow> bytes list \<Rightarrow> exn + (inet, bytes list) smap" where
  "split_keys t cacheName [] = Inr []"
| "split_keys t cacheName (k # ks) =
     (case getHashAwareServer k cacheName t of
        Inl e \<Rightarrow> Inl e
      | Inr addr \<Rightarrow>
          (case split_keys t cacheName ks of
             Inl e \<Rightarrow> Inl e
           | Inr m \<Rightarrow> Inr (smap_put addr (k # (case map_of m addr of Some xs \<Rightarrow> xs | None \<Rightarrow> [])) m)))"

fun getAll_parts :: "rc_config \<Rightarrow> (inet, bytes list) smap \<Rightarrow> (bytes \<rightharpoonup> bytes) \<Rightarrow> (rcache, bytes \<rightharpoonup> bytes) sm" where
  "getAll_parts cfg [] result = ret result"
| "getAll_parts cfg ((addr, ks) # parts) result =
     bind (newGetAllOperation cfg ks) (\<lambda>op.
     bind (run cfg op) (\<lambda>part. getAll_parts cfg parts (part ++ result)))"

definition impl_getAll :: "rc_config \<Rightarrow> bytes list \<Rightarrow> (rcache, bytes \<rightharpoonup> bytes) sm" where
  "impl_getAll cfg keySet =
    seq assertRemoteCacheManagerIsStarted
    (bind (gets (\<lambda>s. split_keys (ti (cl_fac (rc_client s))) (rc_name cfg) keySet)) (\<lambda>parts.
     case parts of Inl e \<Rightarrow> raise e | Inr ps \<Rightarrow> getAll_parts cfg ps Map.empty))"

text \<open>\<open>ValueUnmarshallerFtor\<close> calls \<open>baseKeyUnmarshall\<close>, as \<open>KeyUnmarshallerFtor\<close> does.\<close>

definition impl_getBulk :: "rc_config \<Rightarrow> ('k, 'v) marshallers \<Rightarrow> u32 \<Rightarrow> (rcache, ('k \<times> 'k) set) sm" where
  "impl_getBulk cfg m isize =
    seq assertRemoteCacheManagerIsStarted
    (bind (newBulkGetOperation cfg isize) (\<lambda>op.
     bind (run cfg op) (\<lambda>res.
     ret {(keyUnmarshall m k, keyUnmarshall m v) | k v. res k = Some v})))"

definition impl_keySet :: "rc_config \<Rightarrow> ('k, 'v) marshallers \<Rightarrow> u32 \<Rightarrow> (rcache, 'k set) sm" where
  "impl_keySet cfg m scope =
    seq assertRemoteCacheManagerIsStarted
    (bind (newBulkGetKeysOperation cfg scope) (\<lambda>op. bind (run cfg op) (\<lambda>ks. ret (keyUnmarshall m ` ks))))"

definition impl_stats :: "rc_config \<Rightarrow> (rcache, bytes \<rightharpoonup> bytes) sm" where
  "impl_stats cfg = seq assertRemoteCacheManagerIsStarted (bind (newStatsOperation cfg) (\<lambda>op. run cfg op))"

definition impl_clear :: "rc_config \<Rightarrow> (rcache, unit) sm" where
  "impl_clear cfg =
    seq assertRemoteCacheManagerIsStarted (bind (newClearOperation cfg) (\<lambda>op. bind (run cfg op) (\<lambda>_. ret ())))"

definition impl_size :: "rc_config \<Rightarrow> (rcache, u64) sm" where
  "impl_size cfg = seq assertRemoteCacheManagerIsStarted (bind (newSizeOperation cfg) (\<lambda>op. run cfg op))"

definition impl_ping :: "rc_config \<Rightarrow> (rcache, ping_result) sm" where
  "impl_ping cfg = bind (newFaultTolerantPingOperation cfg) (\<lambda>op. run cfg op)"

definition impl_execute :: "rc_config \<Rightarrow> bytes \<Rightarrow> (bytes \<times> bytes) list \<Rightarrow> (rcache, bytes) sm" where
  "impl_execute cfg cmdName args =
    seq assertRemoteCacheManagerIsStarted (bind (newExecuteCmdOperation cfg cmdName args) (\<lambda>op. run cfg op))"

definition impl_executeKey ::
  "rc_config \<Rightarrow> ('k, 'v) marshallers \<Rightarrow> 'k \<Rightarrow> bytes \<Rightarrow> (bytes \<times> bytes) list \<Rightarrow> (rcache, bytes) sm" where
  "impl_executeKey cfg m k cmdName args =
    seq assertRemoteCacheManagerIsStarted
    (bind (newExecuteCmdKeyOperation cfg (keyMarshall m k) cmdName args) (\<lambda>op. run cfg op))"

definition impl_withFlags :: "u32 \<Rightarrow> (rcache, unit) sm" where
  "impl_withFlags flags = setFlags flags"

end
