(* ===== verification/HR_NearCache.thy ===== *)
theory HR_NearCache
  imports HR_RemoteCache
begin

text \<open>
  \<open>impl/NearRemoteCacheImpl.h\<close>: a cache that keeps the entries it has read, and drops them when it
  writes or an event of the server names them. The map is never iterated, so it is a list of pairs
  in no particular order; \<open>cl\<close> is represented by the number of callbacks it has for each kind of event.
  Registering the listener with the server is a parameter.
\<close>

section \<open>The local part\<close>

record near_local =
  nearMap :: "(bytes \<times> u64 \<times> bytes) list"
  nearFifo :: "bytes list"
  nearHits :: int
  nearRemoved :: int
  shutdown :: bool
  callbacks :: nat

definition NearRemoteCacheImpl :: near_local where
  "NearRemoteCacheImpl = \<lparr>nearMap = [], nearFifo = [], nearHits = 0, nearRemoved = 0, shutdown = False, callbacks = 0\<rparr>"

definition near_put :: "bytes \<Rightarrow> u64 \<times> bytes \<Rightarrow> (bytes \<times> u64 \<times> bytes) list \<Rightarrow> (bytes \<times> u64 \<times> bytes) list" where
  "near_put key val m = (key, val) # smap_erase key m"

definition addElementToMap :: "nat \<Rightarrow> bytes \<Rightarrow> u64 \<times> bytes \<Rightarrow> near_local \<Rightarrow> near_local" where
  "addElementToMap maxEntries key val n =
    (let n1 = (if maxEntries > 0
               then (let fifo = nearFifo n @ [key] in
                     if length (nearMap n) \<ge> maxEntries
                     then (case dropWhile (\<lambda>k. map_of (nearMap n) k = None) fifo of
                             [] \<Rightarrow> n\<lparr>nearFifo := []\<rparr>
                           | oldest # rest \<Rightarrow> n\<lparr>nearFifo := rest, nearMap := smap_erase oldest (nearMap n)\<rparr>)
                     else n\<lparr>nearFifo := fifo\<rparr>)
               else n)
     in n1\<lparr>nearMap := near_put key val (nearMap n1)\<rparr>)"

definition removeElementFromMap :: "nat \<Rightarrow> bytes \<Rightarrow> near_local \<Rightarrow> near_local" where
  "removeElementFromMap maxEntries key n =
    n\<lparr>nearFifo := (if maxEntries > 0 then remove1 key (nearFifo n) else nearFifo n),
      nearMap := smap_erase key (nearMap n), nearRemoved := nearRemoved n + 1\<rparr>"

definition clearMap :: "near_local \<Rightarrow> near_local" where
  "clearMap n = n\<lparr>nearFifo := [], nearMap := []\<rparr>"

definition invalidateCache :: "near_local \<Rightarrow> near_local" where
  "invalidateCache n = n\<lparr>nearMap := []\<rparr>"

text \<open>Every callback registered for the event of an entry removes its key.\<close>

definition near_event :: "nat \<Rightarrow> bytes \<Rightarrow> near_local \<Rightarrow> near_local" where
  "near_event maxEntries key n = (removeElementFromMap maxEntries key ^^ callbacks n) n"

section \<open>The calls\<close>

record near =
  nc_rc :: rcache
  nc_local :: near_local

record near_config =
  maxEntries :: nat
  addClientListener :: "(rcache, unit) sm"
  removeClientListener :: "(rcache, unit) sm"

definition on_rc :: "(rcache, 'a) sm \<Rightarrow> (near, 'a) sm" where
  "on_rc f = on_part nc_rc (\<lambda>r s. s\<lparr>nc_rc := r\<rparr>) f"

definition local :: "(near_local \<Rightarrow> near_local) \<Rightarrow> (near, unit) sm" where
  "local f = modify (\<lambda>s. s\<lparr>nc_local := f (nc_local s)\<rparr>)"

text \<open>A hit is counted; the entry found is returned.\<close>

definition near_lookup :: "bytes \<Rightarrow> (near, (u64 \<times> bytes) option) sm" where
  "near_lookup key =
    bind (gets (\<lambda>s. map_of (nearMap (nc_local s)) key)) (\<lambda>found.
    seq (if found \<noteq> None then local (\<lambda>n. n\<lparr>nearHits := nearHits n + 1\<rparr>) else ret ()) (ret found))"

definition near_getWithVersion ::
  "rc_config \<Rightarrow> near_config \<Rightarrow> ('k, 'v) marshallers \<Rightarrow> 'k \<Rightarrow> (near, 'v option \<times> u64) sm" where
  "near_getWithVersion cfg N m k =
    bind (near_lookup (keyMarshall m k)) (\<lambda>found.
    case found of
      Some (version, bs) \<Rightarrow> ret (Some (valueUnmarshall m bs), version)
    | None \<Rightarrow>
        bind (on_rc (impl_getWithVersion cfg m k)) (\<lambda>(val, version).
        seq (case val of
               Some v \<Rightarrow> local (addElementToMap (maxEntries N) (keyMarshall m k) (version, valueMarshall m v))
             | None \<Rightarrow> ret ())
            (ret (val, version))))"

definition near_get :: "rc_config \<Rightarrow> near_config \<Rightarrow> ('k, 'v) marshallers \<Rightarrow> 'k \<Rightarrow> (near, 'v option) sm" where
  "near_get cfg N m k = bind (near_getWithVersion cfg N m k) (\<lambda>(val, version). ret val)"

definition near_putCall ::
  "rc_config \<Rightarrow> near_config \<Rightarrow> ('k, 'v) marshallers \<Rightarrow> 'k \<Rightarrow> 'v \<Rightarrow> u64 \<Rightarrow> u64 \<Rightarrow> (near, 'v option) sm" where
  "near_putCall cfg N m k v life maxIdle =
    seq (local (removeElementFromMap (maxEntries N) (keyMarshall m k)))
        (on_rc (impl_put cfg m k v life maxIdle))"

definition near_replace ::
  "rc_config \<Rightarrow> near_config \<Rightarrow> ('k, 'v) marshallers \<Rightarrow> 'k \<Rightarrow> 'v \<Rightarrow> u64 \<Rightarrow> u64 \<Rightarrow> (near, 'v option) sm" where
  "near_replace cfg N m k v life maxIdle =
    seq (local (removeElementFromMap (maxEntries N) (keyMarshall m k)))
        (on_rc (impl_replace cfg m k v life maxIdle))"

definition near_replaceWithVersion ::
  "rc_config \<Rightarrow> near_config \<Rightarrow> ('k, 'v) marshallers \<Rightarrow> 'k \<Rightarrow> 'v \<Rightarrow> u64 \<Rightarrow> u64 \<Rightarrow> u64 \<Rightarrow> (near, bool) sm" where
  "near_replaceWithVersion cfg N m k v version life maxIdle =
    bind (on_rc (impl_replaceWithVersion cfg m k v version life maxIdle)) (\<lambda>replaced.
    seq (if replaced then local (removeElementFromMap (maxEntries N) (keyMarshall m k)) else ret ()) (ret replaced))"

definition near_remove :: "rc_config \<Rightarrow> near_config \<Rightarrow> ('k, 'v) marshallers \<Rightarrow> 'k \<Rightarrow> (near, 'v option) sm" where
  "near_remove cfg N m k =
    seq (local (removeElementFromMap (maxEntries N) (keyMarshall m k))) (on_rc (impl_remove cfg m k))"

definition near_removeWithVersion ::
  "rc_config \<Rightarrow> near_config \<Rightarrow> ('k, 'v) marshallers \<Rightarrow> 'k \<Rightarrow> u64 \<Rightarrow> (near, bool) sm" where
  "near_removeWithVersion cfg N m k version =
    bind (on_rc (impl_removeWithVersion cfg m k version)) (\<lambda>removed.
    seq (if removed then local (removeElementFromMap (maxEntries N) (keyMarshall m k)) else ret ()) (ret removed))"

definition near_clear :: "rc_config \<Rightarrow> (near, unit) sm" where
  "near_clear cfg = seq (on_rc (impl_clear cfg)) (local clearMap)"

definition near_stats :: "rc_config \<Rightarrow> (near, bytes \<rightharpoonup> bytes) sm" where
  "near_stats cfg =
    bind (on_rc (impl_stats cfg)) (\<lambda>stats.
    bind (gets nc_local) (\<lambda>n.
    ret (stats(ascii ''nearHits'' \<mapsto> to_string (nearHits n), ascii ''nearRemoved'' \<mapsto> to_string (nearRemoved n)))))"

section \<open>Starting and stopping\<close>

text \<open>
  Each call of \<open>startListener\<close> adds one callback for each kind of event to \<open>cl\<close>, which keeps those it has;
  the fail over handler runs it again unless the cache is stopping.
\<close>

definition startListener :: "near_config \<Rightarrow> (near, unit) sm" where
  "startListener N =
    seq (local (\<lambda>n. n\<lparr>callbacks := callbacks n + 1\<rparr>)) (on_rc (addClientListener N))"

definition failOverHandler :: "near_config \<Rightarrow> (near, unit) sm" where
  "failOverHandler N =
    bind (gets (\<lambda>s. shutdown (nc_local s))) (\<lambda>stopping.
    if \<not> stopping then seq (local invalidateCache) (startListener N) else ret ())"

definition near_stop :: "near_config \<Rightarrow> (near, unit) sm" where
  "near_stop N =
    catch (seq (local (\<lambda>n. n\<lparr>shutdown := True\<rparr>))
          (seq (on_rc (removeClientListener N)) (local invalidateCache)))
      (\<lambda>e. if is_std_exception e then ret () else raise e)"

end
