(* ===== verification/HR_Factory_Correct.thy ===== *)
theory HR_Factory_Correct
  imports HR_Factory
begin

text \<open>
  The transport factory keeps its parts consistent: the servers of the topology and of the
  balancer always have their queues in the pool. A topology update moves pool, balancer and
  topology to the announced servers, or, when a connection to a new server fails, leaves
  balancer and topology as they were.
\<close>

section \<open>Set difference\<close>

lemma set_difference_subset: "set (set_difference xs ys) \<subseteq> set xs"
  by (induction xs ys rule: set_difference.induct) auto

lemma set_difference_set:
  "sorted_wrt (<) xs \<Longrightarrow> sorted_wrt (<) ys \<Longrightarrow> set (set_difference xs ys) = set xs - set ys"
proof (induction xs ys rule: set_difference.induct)
  case (3 x xs y ys)
  consider "x < y" | "y < x" | "x = y" using linorder_less_linear by blast
  then show ?case
  proof cases
    case 1
    then have "x \<notin> set (y # ys)" using 3(5) by auto
    then show ?thesis using 3(1) 3(4,5) 1 by auto
  next
    case 2
    then have "y \<notin> set (x # xs)" using 3(4) by auto
    then show ?thesis using 3(2) 3(4,5) 2 by auto
  next
    case eq: 3
    then have "x \<notin> set xs" using 3(4) by auto
    then show ?thesis using 3(3) 3(4,5) eq by auto
  qed
qed simp_all

lemma set_difference_keeps_distinct: "distinct xs \<Longrightarrow> distinct (set_difference xs ys)"
  by (induction xs ys rule: set_difference.induct) (auto dest: subsetD [OF set_difference_subset])

lemma set_difference_distinct:
  assumes "distinct xs" "distinct ys"
  shows "set (set_difference (sort xs) (sort ys)) = set xs - set ys"
    and "distinct (set_difference (sort xs) (sort ys))"
  using set_difference_set [of "sort xs" "sort ys"] assms
  by (simp_all add: strict_sorted_iff set_difference_keeps_distinct)

section \<open>Updating the servers\<close>

text \<open>The servers a pool has an idle queue for.\<close>

definition served :: "('w, 't) pool \<Rightarrow> inet set" where
  "served p = dom (map_of (idle p))"

definition tf_ok :: "tf_config \<Rightarrow> tfactory \<Rightarrow> bool" where
  "tf_ok cfg s \<longleftrightarrow> tcp.pool_ok (tc_pool cfg) 0 {#} (cpool s) \<and> rr_ok (balancer s) \<and> ti_ok (ti s)
    \<and> distinct (ti_servers (ti s)) \<and> served (cpool s) \<subseteq> dom (map_of (busy (cpool s)))
    \<and> set (ti_servers (ti s)) \<union> set (rr_servers (balancer s)) \<subseteq> served (cpool s)"

text \<open>A network whose connections end in a peer or an exception.\<close>

definition net_ok :: "tf_config \<Rightarrow> bool" where
  "net_ok cfg \<longleftrightarrow> (\<forall>n a m. tc_net cfg n a \<noteq> Inl (UndefinedBehaviour m))"

lemma obj_fac_make:
  "makeObject (obj_fac cfg) a w = (Inl e, w') \<Longrightarrow> \<exists>n. tc_net cfg n a = Inl e"
  by (auto simp: obj_fac_def TransportObjectFactory_def tcp_makeObject_def Let_def split: sum.splits)

text \<open>Adding servers: the rest of the factory is untouched.\<close>

definition pool_part :: "tf_config \<Rightarrow> tfactory \<Rightarrow> bool" where
  "pool_part cfg s \<longleftrightarrow> tcp.pool_ok (tc_pool cfg) 0 {#} (cpool s) \<and> served (cpool s) \<subseteq> dom (map_of (busy (cpool s)))"

lemma add_server:
  assumes net: "net_ok cfg" and ok: "pool_part cfg s"
    and run: "on_pool (addObject (tc_pool cfg) (obj_fac cfg) a) s = (r, s')"
  shows "pool_part cfg s' \<and> (\<exists>p'. s' = s\<lparr>cpool := p'\<rparr>) \<and> served (cpool s') = insert a (served (cpool s))
    \<and> (\<forall>e. r = Inl e \<longrightarrow> (\<exists>n. tc_net cfg n a = Inl e))"
proof -
  obtain p' where p': "addObject (tc_pool cfg) (obj_fac cfg) a (cpool s) = (r, p')" "s' = s\<lparr>cpool := p'\<rparr>"
    using run by (auto simp: on_pool_def on_part_run split: prod.splits)
  have pool: "tcp.pool_ok (tc_pool cfg) 0 {#} (cpool s)" using ok by (simp add: pool_part_def)
  have sane: "e \<noteq> UndefinedBehaviour m" if "makeObject (obj_fac cfg) a w = (Inl e, w')" for w e w' m
    using obj_fac_make [OF that] net by (auto simp: net_ok_def)
  note total = tcp.addObject_total [OF pool p'(1) [unfolded obj_fac_def], folded obj_fac_def]
  have add: "tcp.pool_ok (tc_pool cfg) 0 {#} p'" "served p' = insert a (served (cpool s))"
    by (rule total(1), erule sane) (unfold served_def, rule total(2), erule sane)
  have busy: "map_of (idle (cpool s)) a = None \<Longrightarrow> dom (map_of (busy p')) = insert a (dom (map_of (busy (cpool s))))"
    "map_of (idle (cpool s)) a \<noteq> None \<Longrightarrow> p' = cpool s"
    by (rule total(3), erule sane) (assumption, rule total(4), erule sane)
  have "served p' \<subseteq> dom (map_of (busy p'))"
    using add(2) busy ok by (cases "map_of (idle (cpool s)) a") (auto simp: served_def pool_part_def)
  moreover have "\<exists>n. tc_net cfg n a = Inl e" if "r = Inl e" for e
  proof -
    have "\<exists>w w'. makeObject (obj_fac cfg) a w = (Inl e, w')" by (rule total(5) [OF _ that], erule sane)
    then show ?thesis using obj_fac_make by blast
  qed
  ultimately show ?thesis
    using add p'(2) by (auto simp: pool_part_def)
qed

lemma add_servers:
  assumes net: "net_ok cfg"
  shows "pool_part cfg s \<Longrightarrow> for_each as (\<lambda>a. on_pool (addObject (tc_pool cfg) (obj_fac cfg) a)) s = (r, s')
    \<Longrightarrow> pool_part cfg s' \<and> (\<exists>p'. s' = s\<lparr>cpool := p'\<rparr>) \<and> served (cpool s) \<subseteq> served (cpool s')
      \<and> (\<forall>u. r = Inr u \<longrightarrow> served (cpool s') = served (cpool s) \<union> set as)
      \<and> (\<forall>e. r = Inl e \<longrightarrow> (\<exists>n a. a \<in> set as \<and> tc_net cfg n a = Inl e))"
proof (induction as arbitrary: s)
  case Nil
  then show ?case by (auto simp: ret_run intro!: exI [of _ "cpool s"])
next
  case (Cons a as)
  obtain r1 s1 where run: "on_pool (addObject (tc_pool cfg) (obj_fac cfg) a) s = (r1, s1)" by fastforce
  note one = add_server [OF net Cons.prems(1) run]
  show ?case
  proof (cases r1)
    case (Inl e)
    then have "r = Inl e \<and> s' = s1" using Cons.prems(2) run by simp
    then show ?thesis using one Inl by auto
  next
    case (Inr u)
    then have "for_each as (\<lambda>a. on_pool (addObject (tc_pool cfg) (obj_fac cfg) a)) s1 = (r, s')"
      using Cons.prems(2) run by simp
    note IH = Cons.IH [OF conjunct1 [OF one] this]
    have "\<exists>p'. s' = s\<lparr>cpool := p'\<rparr>" using one IH by auto
    moreover have "\<exists>n b. b \<in> set (a # as) \<and> tc_net cfg n b = Inl e" if "r = Inl e" for e
      using IH that by (metis list.set_intros(2))
    ultimately show ?thesis using one IH by auto
  qed
qed

lemma clear_servers:
  "pool_part cfg s \<Longrightarrow> distinct as \<Longrightarrow> set as \<subseteq> served (cpool s)
    \<Longrightarrow> \<exists>p'. for_each as (\<lambda>a. on_pool (clear_key (obj_fac cfg) a)) s = (Inr (), s\<lparr>cpool := p'\<rparr>)
      \<and> pool_part cfg (s\<lparr>cpool := p'\<rparr>) \<and> served p' = served (cpool s) - set as"
proof (induction as arbitrary: s)
  case Nil
  then show ?case by (auto simp: ret_run intro!: exI [of _ "cpool s"])
next
  case (Cons a as)
  have "tcp.pool_ok (tc_pool cfg) 0 {#} (cpool s)" "map_of (idle (cpool s)) a \<noteq> None"
    using Cons.prems by (auto simp: pool_part_def served_def)
  then obtain p1 where p1: "clear_key (obj_fac cfg) a (cpool s) = (Inr (), p1)" "tcp.pool_ok (tc_pool cfg) 0 {#} p1"
    "map_of (idle p1) = (map_of (idle (cpool s)))(a := None)" "busy p1 = busy (cpool s)"
    using tcp.clear_key_ok [of "tc_pool cfg" "cpool s" a "tc_net cfg" "tc_codec cfg"] by (auto simp: obj_fac_def)
  have "pool_part cfg (s\<lparr>cpool := p1\<rparr>)" "set as \<subseteq> served (cpool (s\<lparr>cpool := p1\<rparr>))"
    using Cons.prems p1 by (auto simp: pool_part_def served_def)
  from Cons.IH [OF this(1) _ this(2)] Cons.prems(2) obtain p2 where
    p2: "for_each as (\<lambda>a. on_pool (clear_key (obj_fac cfg) a)) (s\<lparr>cpool := p1\<rparr>) = (Inr (), s\<lparr>cpool := p2\<rparr>)"
      "pool_part cfg (s\<lparr>cpool := p2\<rparr>)" "served p2 = served p1 - set as"
    by auto
  have "served p1 = served (cpool s) - {a}" using p1(3) by (simp add: served_def)
  then have "served p2 = served (cpool s) - set (a # as)" using p2(3) by auto
  moreover have "on_pool (clear_key (obj_fac cfg) a) s = (Inr (), s\<lparr>cpool := p1\<rparr>)"
    using p1(1) by (simp add: on_pool_def on_part_run)
  ultimately show ?case using p2(1,2) by auto
qed

lemma updateServers_ok:
  assumes "tf_ok cfg s" "net_ok cfg" "distinct new" "new \<noteq> []"
  shows "case updateServers cfg new s of
      (Inr _, s') \<Rightarrow> tf_ok cfg s' \<and> ti_servers (ti s') = sort new \<and> rr_servers (balancer s') = sort new
        \<and> served (cpool s') = served (cpool s) \<union> set new - (set (ti_servers (ti s)) - set new)
    | (Inl e, s') \<Rightarrow> tf_ok cfg s' \<and> ti s' = ti s \<and> balancer s' = balancer s
        \<and> (\<exists>n a. a \<in> set new - set (ti_servers (ti s)) \<and> tc_net cfg n a = Inl e)"
proof -
  let ?new = "sort new" and ?old = "sort (ti_servers (ti s))"
  let ?added = "set_difference ?new ?old" and ?failed = "set_difference ?old ?new"
  let ?add = "for_each ?added (\<lambda>a. on_pool (addObject (tc_pool cfg) (obj_fac cfg) a))"
  have dist: "distinct (ti_servers (ti s))" using assms(1) by (simp add: tf_ok_def)
  have sets: "set ?added = set new - set (ti_servers (ti s))" "set ?failed = set (ti_servers (ti s)) - set new"
    "distinct ?failed"
    using set_difference_distinct [OF assms(3) dist] set_difference_distinct [OF dist assms(3)] by auto
  have ok: "pool_part cfg s" "set (ti_servers (ti s)) \<subseteq> served (cpool s)"
    using assms(1) by (auto simp: tf_ok_def pool_part_def)
  obtain r s1 where add: "?add s = (r, s1)" by fastforce
  note added = add_servers [OF assms(2) ok(1) add]
  have sort_new: "sort new \<noteq> []" using assms(4) by (metis set_empty set_sort)
  have start: "updateServers cfg new s = (case r of Inl e \<Rightarrow> (Inl e, s1) | Inr u \<Rightarrow>
      seq (modify (\<lambda>s. s\<lparr>balancer := rr_setServers ?new (balancer s)\<rparr>))
           (seq (for_each ?failed (\<lambda>a. on_pool (clear_key (obj_fac cfg) a)))
                (modify (\<lambda>s. s\<lparr>ti := ti_updateServers ?new (ti s)\<rparr>))) s1)"
    using sort_new add by (simp add: updateServers_def Let_def bind_run gets_run seq_run split: sum.splits)
  show ?thesis
  proof (cases r)
    case (Inl e)
    have "balancer s1 = balancer s" "ti s1 = ti s" using added by auto
    then show ?thesis using start Inl added sets assms(1) by (auto simp: tf_ok_def pool_part_def)
  next
    case (Inr u)
    let ?s1 = "s1\<lparr>balancer := rr_setServers ?new (balancer s1)\<rparr>"
    have s1: "ti s1 = ti s" using added by auto
    have served1: "served (cpool s1) = served (cpool s) \<union> set new" using added Inr sets ok(2) by auto
    have "pool_part cfg ?s1" "set ?failed \<subseteq> served (cpool ?s1)"
      using added sets ok(2) served1 by (auto simp: pool_part_def)
    then obtain p2 where p2: "for_each ?failed (\<lambda>a. on_pool (clear_key (obj_fac cfg) a)) ?s1 = (Inr (), ?s1\<lparr>cpool := p2\<rparr>)"
      "pool_part cfg (?s1\<lparr>cpool := p2\<rparr>)" "served p2 = served (cpool s1) - set ?failed"
      using clear_servers [of cfg ?s1 ?failed] sets(3) by auto
    then show ?thesis
      using start Inr assms(1,3) sets served1 s1 rr_ok_setServers [of ?new "balancer s1"]
      by (auto simp: seq_run modify_run tf_ok_def pool_part_def rr_setServers_def ti_updateServers_def ti_ok_def)
  qed
qed

text \<open>
  C22. A topology update from a consistent factory. When the connections it opens succeed, topology
  and balancer hold exactly the announced servers in their order, the pool has queues for them,
  and the queues of the servers that left are gone. When one fails, its exception is passed on
  and topology and balancer are unchanged. Either way the factory stays consistent.
\<close>

theorem updateServers_spec:
  assumes "tf_ok cfg s" "net_ok cfg" "distinct new" "new \<noteq> []"
  shows "case updateServers cfg new s of
      (Inr _, s') \<Rightarrow> tf_ok cfg s' \<and> ti_servers (ti s') = sort new \<and> rr_servers (balancer s') = sort new
        \<and> served (cpool s') = served (cpool s) \<union> set new - (set (ti_servers (ti s)) - set new)
    | (Inl e, s') \<Rightarrow> tf_ok cfg s' \<and> ti s' = ti s \<and> balancer s' = balancer s
        \<and> (\<exists>n a. a \<in> set new - set (ti_servers (ti s)) \<and> tc_net cfg n a = Inl e)"
  by (rule updateServers_ok [OF assms])

definition example_tf_config :: tf_config where
  "example_tf_config = \<lparr>tc_codec = Codec28, tc_servers = [], tc_pool = example_cfg, tc_maxRetries = 3,
     tc_net = silent_net, tc_fuel = 2\<rparr>"

lemma fresh_factory_ok: "tf_ok cfg (TransportFactory w)"
  using tcp.pool_ok_new [of "tc_pool cfg" w]
  by (simp add: tf_ok_def TransportFactory_def rr_ok_init ti_ok_init ConnectionPool_def served_def)
     (simp add: TopologyInfo_def RoundRobinBalancingStrategy_def)

theorem updateServers_spec_witness:
  "ti_servers (ti (snd (updateServers example_tf_config [Inet ''a'' 2, Inet ''a'' 1] (TransportFactory example_world))))
    = [Inet ''a'' 1, Inet ''a'' 2]"
proof -
  have net: "net_ok example_tf_config" by (simp add: net_ok_def example_tf_config_def silent_net_def)
  have "sort [Inet ''a'' 2, Inet ''a'' 1] = [Inet ''a'' 1, Inet ''a'' 2]"
    by (simp add: less_eq_inet_def inet_less_def)
  then show ?thesis
    using updateServers_spec [OF fresh_factory_ok net, of "[Inet ''a'' 2, Inet ''a'' 1]" example_world]
    by (auto simp: example_tf_config_def silent_net_def split: prod.splits sum.splits)
qed

section \<open>A response that announces a topology\<close>

definition known_topology :: "bytes \<Rightarrow> topology_info \<Rightarrow> u32" where
  "known_topology cacheName t = (case topologyIdsByCache t cacheName of Some i \<Rightarrow> i | None \<Rightarrow> 0)"

lemma getTopologyId_run:
  assumes "ti_ok (ti f)"
  shows "\<exists>t'. getTopologyId cacheName f = (Inr (known_topology cacheName (ti f)), f\<lparr>ti := t'\<rparr>)
    \<and> ti_servers t' = ti_servers (ti f) \<and> ti_ok t'"
  using assms
  by (intro exI [of _ "snd (getCacheTopologyInfo cacheName (ti f))"])
     (auto simp: getTopologyId_def on_ti_def on_part_run getCacheTopologyInfo_def segmentsByCache_at_def
      topologyIdsByCache_at_def known_topology_def ti_ok_def sm_simps split: option.splits)

lemma tf_ok_ti: "tf_ok cfg f \<Longrightarrow> ti_ok t' \<Longrightarrow> ti_servers t' = ti_servers (ti f) \<Longrightarrow> tf_ok cfg (f\<lparr>ti := t'\<rparr>)"
  by (simp add: tf_ok_def)

lemma updateTopology_run:
  assumes "num \<noteq> 0" "sch_init owners num = Inr h"
  shows "\<exists>t'. updateTopology owners num v cacheName i t = (Inr (), t') \<and> ti_servers t' = ti_servers t
    \<and> topologyIdsByCache t' cacheName = Some i \<and> segmentsByCache t' cacheName = Some num
    \<and> consistentHashByCacheName t' cacheName = Some (Some h) \<and> (ti_ok t \<longrightarrow> ti_ok t')"
  using assms by (auto simp: updateTopology_def createTopologyId_def sm_simps ti_ok_def split: option.splits)

text \<open>What applying an announced topology does to the factory.\<close>

definition applied :: "tf_config \<Rightarrow> bytes \<Rightarrow> new_topology \<Rightarrow> tfactory \<Rightarrow> bool" where
  "applied cfg cacheName nt f \<longleftrightarrow> tf_ok cfg f
    \<and> ti_servers (ti f) = sort (nt_members nt) \<and> rr_servers (balancer f) = sort (nt_members nt)
    \<and> topologyIdsByCache (ti f) cacheName = Some (nt_id nt)
    \<and> segmentsByCache (ti f) cacheName = Some (of_nat (length (nt_segments nt)))
    \<and> (\<exists>h. consistentHashByCacheName (ti f) cacheName = Some (Some h) \<and> segmentOwners h = nt_owners nt)"

definition net_connects :: "tf_config \<Rightarrow> bool" where
  "net_connects cfg \<longleftrightarrow> (\<forall>n a. \<exists>peer. tc_net cfg n a = Inr peer)"

lemma net_connectsD: "net_connects cfg \<Longrightarrow> tc_net cfg n a \<noteq> Inl e"
  unfolding net_connects_def by (metis Inr_not_Inl)

lemma apply_topology_run:
  assumes f: "tf_ok cfg (fac s)" "net_connects cfg"
    and nt: "nt_ok nt" "distinct (nt_members nt)" "nt_members nt \<noteq> []" "nt_segments nt \<noteq> []"
    and new: "topologyAge (fac s) = hp_topologyAge p" "known_topology (hp_cacheName p) (ti (fac s)) \<noteq> nt_id nt"
  shows "\<exists>f'. apply_topology (TransportFactory_iface cfg) p (nt_id nt) (nt_members nt) (nt_hash nt)
      (of_nat (length (nt_segments nt))) (nt_owners nt) s = (Inr (), s\<lparr>topo := nt_id nt, fac := f'\<rparr>)
    \<and> applied cfg (hp_cacheName p) nt f'"
proof -
  let ?f = "fac s" and ?c = "hp_cacheName p" and ?num = "of_nat (length (nt_segments nt)) :: u32"
  have net: "net_ok cfg" using f(2) by (simp add: net_ok_def net_connectsD)
  obtain t1 where t1: "getTopologyId ?c ?f = (Inr (known_topology ?c (ti ?f)), ?f\<lparr>ti := t1\<rparr>)"
    "ti_servers t1 = ti_servers (ti ?f)" "ti_ok t1"
    using getTopologyId_run [of ?f ?c] f(1) by (auto simp: tf_ok_def)
  have "tf_ok cfg (?f\<lparr>ti := t1\<rparr>)" using tf_ok_ti f(1) t1 by blast
  note upd = updateServers_ok [OF this net nt(2,3)]
  obtain r f2 where r: "updateServers cfg (nt_members nt) (?f\<lparr>ti := t1\<rparr>) = (r, f2)" by fastforce
  then obtain u where u: "r = Inr u" using upd net_connectsD [OF f(2)] by (cases r) auto
  have num: "?num \<noteq> 0" and num': "unat ?num = length (nt_segments nt)"
    using nt(1,4) unat_of_nat_u32 [of "length (nt_segments nt)"] by (auto simp: nt_ok_def)
  then obtain h where h: "sch_init (nt_owners nt) ?num = Inr h" "segmentOwners h = nt_owners nt"
    by (auto simp: sch_init_def getSegmentSize_def)
  obtain t3 where t3: "updateTopology (nt_owners nt) ?num (nt_hash nt) ?c (nt_id nt) (ti f2) = (Inr (), t3)"
    "ti_servers t3 = ti_servers (ti f2)" "topologyIdsByCache t3 ?c = Some (nt_id nt)" "segmentsByCache t3 ?c = Some ?num"
    "consistentHashByCacheName t3 ?c = Some (Some h)" "ti_ok (ti f2) \<longrightarrow> ti_ok t3"
    using updateTopology_run [OF num h(1)] by blast
  have "tf_ok cfg f2" using upd r u by simp
  then have "tf_ok cfg (f2\<lparr>ti := t3\<rparr>)" using t3 tf_ok_ti [of cfg f2 t3] by (simp add: tf_ok_def)
  then have "applied cfg ?c nt (f2\<lparr>ti := t3\<rparr>)"
    using upd r u t3 h by (auto simp: applied_def)
  moreover have "apply_topology (TransportFactory_iface cfg) p (nt_id nt) (nt_members nt) (nt_hash nt)
      ?num (nt_owners nt) s = (Inr (), s\<lparr>topo := nt_id nt, fac := f2\<lparr>ti := t3\<rparr>\<rparr>)"
    using t1(1) r u t3(1) new
    by (simp add: apply_topology_def TransportFactory_iface_def on_fac_def on_part_run bind_run catch_run ret_run
        gets_run seq_run modify_run updateHashFunction_def on_ti_def)
  ultimately show ?thesis by blast
qed


definition example_topology :: new_topology where
  "example_topology = \<lparr>nt_id = 9, nt_members = [Inet ''a'' 2, Inet ''a'' 1], nt_hash = 3, nt_segments = [[0, 1], [1]]\<rparr>"

definition topology_io :: "tfactory io" where
  "topology_io =
    \<lparr>tr = TcpTransport (Inet ''a'' 1) (\<lambda>_. Inr []), fac = TransportFactory example_world, topo = - 1, msgId = 5\<rparr>"


section \<open>Choosing a transport\<close>

text \<open>The hash of a key is never used: the key's transport comes from the balancer.\<close>

lemma getTransportForKey_run:
  assumes "ti_ok (ti s)"
  shows "getTransportForKey cfg key cacheName failed s = getTransport cfg cacheName failed s"
  using assms
  by (auto simp: getTransportForKey_def getHashAwareServer_def bind_run gets_run ti_ok_def empty_inet_def inet_isEmpty_def
      split: option.splits)

text \<open>The configuration the builder produces when nothing is set: no limit on the total, no test on borrow.\<close>

definition plain_pool :: "tf_config \<Rightarrow> bool" where
  "plain_pool cfg \<longleftrightarrow> \<not> testOnBorrow (tc_pool cfg) \<and> maxTotal (tc_pool cfg) \<le> 0 \<and> 2 \<le> tc_fuel cfg"

lemma borrow_served:
  assumes ok: "pool_part cfg s" and cfg: "plain_pool cfg" and a: "a \<in> served (cpool s)" and opened: "\<not> closed (cpool s)"
    and run: "borrowTransportFromPool cfg a s = (r, s')" and net: "net_ok cfg"
  shows "pool_part cfg s' \<and> (\<exists>p'. s' = s\<lparr>cpool := p'\<rparr>) \<and> served (cpool s') = served (cpool s)
    \<and> (case r of Inr t \<Rightarrow> t \<in># objs_at (busy (cpool s')) a \<and> objs (busy (cpool s')) = add_mset t (objs (busy (cpool s)))
       | Inl e \<Rightarrow> (\<exists>n. tc_net cfg n a = Inl e)
           \<or> e \<in> {NoSuchElementException ''Reached maximum number of connections'', Blocked})"
proof -
  let ?p = "cpool s" and ?f = "obj_fac cfg"
  obtain p' where p': "borrowObject (tc_fuel cfg) (tc_pool cfg) ?f a ?p = (r, p')" "s' = s\<lparr>cpool := p'\<rparr>"
    using run by (auto simp: borrowTransportFromPool_def on_pool_def on_part_run split: prod.splits)
  have pool: "tcp.pool_ok (tc_pool cfg) 0 {#} ?p" and sub: "served ?p \<subseteq> dom (map_of (busy ?p))"
    using ok by (simp_all add: pool_part_def)
  have st: "smap_ok (idle ?p)" "smap_ok (busy ?p)" "no_null (idle ?p)" "no_null (busy ?p)"
    using pool by (simp_all add: tcp.pool_ok_def pool_struct_def)
  obtain q b where q: "map_of (idle ?p) a = Some (Some q)" and b: "map_of (busy ?p) a = Some (Some b)"
    using a sub st(3,4) by (fastforce simp: served_def no_null_def)
  obtain n where n: "tc_fuel cfg = Suc (Suc n)"
    using cfg by (metis add_2_eq_Suc le_Suc_ex plain_pool_def)
  have "\<not> testOnBorrow (tc_pool cfg)" "maxTotal (tc_pool cfg) \<le> 0" using cfg by (simp_all add: plain_pool_def)
  note br = borrowObject_run [OF opened st(1,2) q b this n, of ?f]
  have objs: "objs (smap_put a (Some (b @ [t])) (busy ?p)) = add_mset t (objs (busy ?p))" for t
    using objs_put_some [OF st(2) b, of "b @ [t]"] by simp
  have def: "defined r"
  proof (rule ccontr)
    assume "\<not> defined r"
    then obtain m where "r = Inl (UndefinedBehaviour m)" by (auto simp: defined_def)
    then show False
      using br p'(1) net obj_fac_make
      by (fastforce simp: net_ok_def split: list.splits if_splits prod.splits sum.splits)
  qed
  have "tcp.pool_ok (tc_pool cfg) 0 {#} p'"
    using tcp.hoare_step [OF tcp.borrowObject_ok pool p'(1) [unfolded obj_fac_def] def] .
  moreover have "served p' = served ?p \<and> dom (map_of (busy p')) = dom (map_of (busy ?p))
    \<and> (case r of Inr t \<Rightarrow> t \<in># objs_at (busy p') a \<and> objs (busy p') = add_mset t (objs (busy ?p))
       | Inl e \<Rightarrow> (\<exists>n. tc_net cfg n a = Inl e)
           \<or> e \<in> {NoSuchElementException ''Reached maximum number of connections'', Blocked})"
    using br p'(1) q b objs obj_fac_make
    by (auto simp: hand_out_def served_def objs_at_def insert_absorb domI split: list.splits if_splits prod.splits sum.splits)
  ultimately show ?thesis using p'(2) sub by (cases r) (auto simp: pool_part_def)
qed


definition plain_tf_config :: tf_config where
  "plain_tf_config = example_tf_config\<lparr>tc_pool := example_cfg\<lparr>maxTotal := -1\<rparr>\<rparr>"

definition two_servers :: tfactory where
  "two_servers = (TransportFactory example_world)
     \<lparr>ti := TopologyInfo [Inet ''a'' 1, Inet ''a'' 2],
      balancer := \<lparr>rr_servers = [Inet ''a'' 1, Inet ''a'' 2], rr_index = 0\<rparr>,
      cpool := (ConnectionPool example_world)
        \<lparr>idle := [(Inet ''a'' 1, Some []), (Inet ''a'' 2, Some [])], busy := [(Inet ''a'' 1, Some []), (Inet ''a'' 2, Some [])]\<rparr>\<rparr>"

lemma two_servers_ok: "tf_ok plain_tf_config two_servers" "\<not> closed (cpool two_servers)"
  by (auto simp: two_servers_def tf_ok_def tcp.pool_ok_def pool_struct_def ConnectionPool_def smap_ok_def no_null_def
      rr_ok_def ti_ok_init served_def TransportFactory_def less_inet_def inet_less_def)


end
