(* ===== verification/HR_Operations_Correct.thy ===== *)
theory HR_Operations_Correct
  imports HR_Operations
begin

text \<open>
  One exchange of a request and its response: what an operation sends, and the state after it. The
  refinement of a map by sequences of such exchanges is in \<open>HR_Remote_Map\<close>.
\<close>

section \<open>One exchange\<close>

definition op_params :: "op_ctx \<Rightarrow> byte \<Rightarrow> byte \<Rightarrow> header_params" where
  "op_params ctx op resp =
    \<lparr>hp_opCode = op, hp_opRespCode = resp, hp_cacheName = oc_cacheName ctx,
     hp_flags = oc_flags ctx, hp_clientIntel = CLIENT_INTELLIGENCE_HASH_DISTRIBUTION_AWARE,
     hp_txMarker = 0, hp_messageId = 0, hp_topologyAge = 0, hp_dataFormat = oc_dataFormat ctx\<rparr>"

definition request_bytes :: "op_ctx \<Rightarrow> byte \<Rightarrow> byte \<Rightarrow> u64 \<Rightarrow> u32 \<Rightarrow> bytes \<Rightarrow> bytes" where
  "request_bytes ctx op resp i t body =
    request_header_bytes (oc_codec ctx) (op_params ctx op resp) i t
    @ media_types_bytes (oc_codec ctx) (op_params ctx op resp) @ body"

text \<open>A transport between two operations: nothing buffered in either direction.\<close>

definition quiet :: "'f io \<Rightarrow> bool" where
  "quiet s \<longleftrightarrow> inp_of s = [] \<and> t_out (tr s) = []"

definition exchanged :: "'f io \<Rightarrow> bytes \<Rightarrow> bytes \<Rightarrow> 'f io" where
  "exchanged s req rest = s\<lparr>msgId := msgId s + 1,
     tr := (tr s)\<lparr>t_sent := t_sent (tr s) @ [req], t_inp := (t_inp (tr s))\<lparr>pending := rest\<rparr>\<rparr>\<rparr>"

lemma exchanged_simps [simp]:
  "inp_of (exchanged s req rest) = rest" "t_out (tr (exchanged s req rest)) = t_out (tr s)"
  "t_sent (tr (exchanged s req rest)) = t_sent (tr s) @ [req]"
  "t_peer (tr (exchanged s req rest)) = t_peer (tr s)"
  "msgId (exchanged s req rest) = msgId s + 1" "topo (exchanged s req rest) = topo s"
  "with_inp r (exchanged s req rest) = exchanged s req r" "fac (exchanged s req rest) = fac s"
  by (simp_all add: exchanged_def inp_of_def with_inp_def)

lemma op_writeHeader_run:
  assumes "toOpRespCode op = Inr resp"
  shows "op_writeHeader ctx op s =
    (Inr ((op_params ctx op resp)\<lparr>hp_messageId := msgId s + 1\<rparr>),
     add_out (request_bytes ctx op resp (msgId s + 1) (topo s) []) (s\<lparr>msgId := msgId s + 1\<rparr>))"
  using assms by (simp add: op_writeHeader_def writeHeader_run op_params_def request_bytes_def)

lemma flush_run:
  assumes "t_peer (tr s) (t_sent (tr s) @ [t_out (tr s)]) = Inr reply"
  shows "flush s = (Inr (), s\<lparr>tr := (tr s)\<lparr>t_out := [], t_sent := t_sent (tr s) @ [t_out (tr s)],
      t_inp := (t_inp (tr s))\<lparr>pending := inp_of s @ reply\<rparr>\<rparr>\<rparr>)"
  using assms by (simp add: flush_def Let_def inp_of_def)

text \<open>
  Header, body and flush on a quiet transport: the peer's answer is pending and the transport is
  otherwise as before.
\<close>

lemma send_run:
  assumes "quiet s" "toOpRespCode op = Inr resp" "\<And>s. body s = (Inr (), add_out bs s)"
    and "t_peer (tr s) (t_sent (tr s) @ [request_bytes ctx op resp (msgId s + 1) (topo s) bs]) = Inr reply"
  shows "bind (op_writeHeader ctx op) (\<lambda>params. seq body (seq flush (k params))) s
    = k ((op_params ctx op resp)\<lparr>hp_messageId := msgId s + 1\<rparr>)
        (exchanged s (request_bytes ctx op resp (msgId s + 1) (topo s) bs) reply)"
proof -
  let ?s = "add_out (request_bytes ctx op resp (msgId s + 1) (topo s) bs) (s\<lparr>msgId := msgId s + 1\<rparr>)"
  have out: "t_out (tr ?s) = request_bytes ctx op resp (msgId s + 1) (topo s) bs"
    using assms(1) by (simp add: quiet_def add_out_def)
  have body: "body (add_out (request_bytes ctx op resp (msgId s + 1) (topo s) []) (s\<lparr>msgId := msgId s + 1\<rparr>)) = (Inr (), ?s)"
    by (simp add: assms(3) request_bytes_def)
  have "flush ?s = (Inr (), exchanged s (request_bytes ctx op resp (msgId s + 1) (topo s) bs) reply)"
    using flush_run [of ?s reply] assms(1,4) out
    by (simp add: exchanged_def quiet_def add_out_def inp_of_def)
  then show ?thesis
    by (simp add: op_writeHeader_run [OF assms(2)] seq_run body)
qed

lemma exchange_run:
  assumes "quiet s" "toOpRespCode op = Inr resp" "\<And>s. body s = (Inr (), add_out bs s)"
    and "t_peer (tr s) (t_sent (tr s) @ [request_bytes ctx op resp (msgId s + 1) (topo s) bs])
           = Inr (reply_header (msgId s + 1) resp st @ rest)"
    and "resp \<noteq> ERROR_RESPONSE"
  shows "exchange tf ctx op body s =
    (Inr st, exchanged s (request_bytes ctx op resp (msgId s + 1) (topo s) bs) rest)"
proof -
  let ?p = "(op_params ctx op resp)\<lparr>hp_messageId := msgId s + 1\<rparr>"
  let ?s = "exchanged s (request_bytes ctx op resp (msgId s + 1) (topo s) bs)
      (reply_header (msgId s + 1) resp st @ rest)"
  have "inp_of ?s = [RESPONSE_MAGIC] @ writeVLong (msgId s + 1) @ resp # [st, 0] @ rest"
    by (simp add: reply_header_def)
  then have "readHeader tf ?p ?s = readPartialHeader tf ?p resp (with_inp ([st, 0] @ rest) ?s)"
    by (rule readHeader_prefix) simp
  also have "\<dots> = (Inr st, with_inp rest (with_inp ([st, 0] @ rest) ?s))"
    by (rule readPartialHeader_ok) (simp_all add: op_params_def)
  finally show ?thesis
    using send_run [OF assms(1-4), of "readHeaderAndValidate tf"]
    by (simp add: exchange_def readHeaderAndValidate_def)
qed

end
