(* ===== verification/HR_Remote_Map.thy ===== *)
theory HR_Remote_Map
  imports HR_Operations_Correct
begin

text \<open>
  The operations on a key against a server that implements the Hot Rod protocol. What a server
  answers is a parameter (\<open>t_peer\<close>); \<open>serves_cache\<close> states what the protocol documents of it: the
  request is decoded, the operation is applied to a versioned map, and the reply carries the
  status and the value the protocol assigns to the outcome. From that alone the client's
  operations compute exactly what the operations on the map compute, one after the other, on
  every codec, with and without \<open>FORCE_RETURN_VALUE\<close> (\<open>cache_ops_refine\<close>).
\<close>

section \<open>The cache as a map\<close>

datatype cache_op =
    OpGet bytes
  | OpContainsKey bytes
  | OpGetWithVersion bytes
  | OpPut kv_args
  | OpPutIfAbsent kv_args
  | OpReplace kv_args
  | OpRemove bytes
  | OpReplaceIfUnmodified kv_args u64
  | OpRemoveIfUnmodified bytes u64
  | OpClear

datatype cache_res =
    Value bytes
  | Found bool
  | Versioned "(u64 \<times> bytes) option"
  | VersionedResponse bytes rsp_code

text \<open>Entries carry a version; every write takes a new one.\<close>

record cache =
  entries :: "bytes \<rightharpoonup> u64 \<times> bytes"
  next_version :: u64

definition empty_cache :: cache where
  "empty_cache = \<lparr>entries = Map.empty, next_version = 1\<rparr>"

definition store :: "kv_args \<Rightarrow> cache \<Rightarrow> cache" where
  "store a c = c\<lparr>entries := (entries c)(kv_key a \<mapsto> (next_version c, kv_value a)),
      next_version := next_version c + 1\<rparr>"

definition forget :: "bytes \<Rightarrow> cache \<Rightarrow> cache" where
  "forget k c = c\<lparr>entries := (entries c)(k := None)\<rparr>"

fun cache_update :: "cache_op \<Rightarrow> cache \<Rightarrow> cache" where
  "cache_update (OpGet k) c = c"
| "cache_update (OpContainsKey k) c = c"
| "cache_update (OpGetWithVersion k) c = c"
| "cache_update (OpPut a) c = store a c"
| "cache_update (OpPutIfAbsent a) c = (if entries c (kv_key a) = None then store a c else c)"
| "cache_update (OpReplace a) c = (if entries c (kv_key a) = None then c else store a c)"
| "cache_update (OpRemove k) c = forget k c"
| "cache_update (OpReplaceIfUnmodified a v) c =
    (case entries c (kv_key a) of None \<Rightarrow> c | Some (w, x) \<Rightarrow> if v = w then store a c else c)"
| "cache_update (OpRemoveIfUnmodified k v) c =
    (case entries c k of None \<Rightarrow> c | Some (w, x) \<Rightarrow> if v = w then forget k c else c)"
| "cache_update OpClear c = c\<lparr>entries := Map.empty\<rparr>"

definition prev_value :: "bool \<Rightarrow> bytes \<Rightarrow> cache \<Rightarrow> bytes" where
  "prev_value force k c = (case entries c k of Some (v, x) \<Rightarrow> if force then x else [] | None \<Rightarrow> [])"

definition versioned_result :: "bool \<Rightarrow> bytes \<Rightarrow> u64 \<Rightarrow> cache \<Rightarrow> cache_res" where
  "versioned_result force k v c =
    VersionedResponse (prev_value force k c)
      (case entries c k of None \<Rightarrow> NO_SUCH_KEY | Some (w, x) \<Rightarrow> if v = w then RSP_SUCCESS else MODIFIED_KEY)"

fun cache_result :: "bool \<Rightarrow> cache_op \<Rightarrow> cache \<Rightarrow> cache_res" where
  "cache_result force (OpGet k) c = Value (prev_value True k c)"
| "cache_result force (OpContainsKey k) c = Found (entries c k \<noteq> None)"
| "cache_result force (OpGetWithVersion k) c = Versioned (entries c k)"
| "cache_result force (OpPut a) c = Value (prev_value force (kv_key a) c)"
| "cache_result force (OpPutIfAbsent a) c = Value (prev_value force (kv_key a) c)"
| "cache_result force (OpReplace a) c = Value (prev_value force (kv_key a) c)"
| "cache_result force (OpRemove k) c = Value (prev_value force k c)"
| "cache_result force (OpReplaceIfUnmodified a v) c = versioned_result force (kv_key a) v c"
| "cache_result force (OpRemoveIfUnmodified k v) c = versioned_result force k v c"
| "cache_result force OpClear c = Value []"

fun cache_run :: "bool \<Rightarrow> cache_op list \<Rightarrow> cache \<Rightarrow> cache_res list \<times> cache" where
  "cache_run force [] c = ([], c)"
| "cache_run force (p # ps) c =
    (case cache_run force ps (cache_update p c) of (rs, c') \<Rightarrow> (cache_result force p c # rs, c'))"

section \<open>The protocol\<close>

definition with_prev :: "bool \<Rightarrow> byte \<Rightarrow> byte \<Rightarrow> bytes \<Rightarrow> byte \<times> bytes" where
  "with_prev force st st_prev x = (if force then (st_prev, writeArray x) else (st, []))"

definition versioned_reply :: "bool \<Rightarrow> bytes \<Rightarrow> u64 \<Rightarrow> cache \<Rightarrow> byte \<times> bytes" where
  "versioned_reply force k v c =
    (case entries c k of
       None \<Rightarrow> (KEY_DOES_NOT_EXIST_STATUS, [])
     | Some (w, x) \<Rightarrow>
         if v = w then with_prev force NO_ERROR_STATUS SUCCESS_WITH_PREVIOUS x
         else with_prev force NOT_PUT_REMOVED_REPLACED_STATUS NOT_EXECUTED_WITH_PREVIOUS x)"

text \<open>Status and payload of the reply to an operation on a cache.\<close>

fun cache_reply :: "bool \<Rightarrow> cache_op \<Rightarrow> cache \<Rightarrow> byte \<times> bytes" where
  "cache_reply force (OpGet k) c =
    (case entries c k of None \<Rightarrow> (KEY_DOES_NOT_EXIST_STATUS, []) | Some (v, x) \<Rightarrow> (NO_ERROR_STATUS, writeArray x))"
| "cache_reply force (OpContainsKey k) c =
    (if entries c k = None then (KEY_DOES_NOT_EXIST_STATUS, []) else (NO_ERROR_STATUS, []))"
| "cache_reply force (OpGetWithVersion k) c =
    (case entries c k of None \<Rightarrow> (KEY_DOES_NOT_EXIST_STATUS, [])
     | Some (v, x) \<Rightarrow> (NO_ERROR_STATUS, writeLong v @ writeArray x))"
| "cache_reply force (OpPut a) c =
    (case entries c (kv_key a) of None \<Rightarrow> (NO_ERROR_STATUS, [])
     | Some (v, x) \<Rightarrow> with_prev force NO_ERROR_STATUS SUCCESS_WITH_PREVIOUS x)"
| "cache_reply force (OpPutIfAbsent a) c =
    (case entries c (kv_key a) of None \<Rightarrow> (NO_ERROR_STATUS, [])
     | Some (v, x) \<Rightarrow> with_prev force NOT_PUT_REMOVED_REPLACED_STATUS NOT_EXECUTED_WITH_PREVIOUS x)"
| "cache_reply force (OpReplace a) c =
    (case entries c (kv_key a) of None \<Rightarrow> (NOT_PUT_REMOVED_REPLACED_STATUS, [])
     | Some (v, x) \<Rightarrow> with_prev force NO_ERROR_STATUS SUCCESS_WITH_PREVIOUS x)"
| "cache_reply force (OpRemove k) c =
    (case entries c k of None \<Rightarrow> (KEY_DOES_NOT_EXIST_STATUS, [])
     | Some (v, x) \<Rightarrow> with_prev force NO_ERROR_STATUS SUCCESS_WITH_PREVIOUS x)"
| "cache_reply force (OpReplaceIfUnmodified a v) c = versioned_reply force (kv_key a) v c"
| "cache_reply force (OpRemoveIfUnmodified k v) c = versioned_reply force k v c"
| "cache_reply force OpClear c = (NO_ERROR_STATUS, [])"

fun op_code :: "cache_op \<Rightarrow> byte" where
  "op_code (OpGet k) = GET_REQUEST"
| "op_code (OpContainsKey k) = CONTAINS_KEY_REQUEST"
| "op_code (OpGetWithVersion k) = GET_WITH_VERSION_REQUEST"
| "op_code (OpPut a) = PUT_REQUEST"
| "op_code (OpPutIfAbsent a) = PUT_IF_ABSENT_REQUEST"
| "op_code (OpReplace a) = REPLACE_REQUEST"
| "op_code (OpRemove k) = REMOVE_REQUEST"
| "op_code (OpReplaceIfUnmodified a v) = REPLACE_IF_UNMODIFIED_REQUEST"
| "op_code (OpRemoveIfUnmodified k v) = REMOVE_IF_UNMODIFIED_REQUEST"
| "op_code OpClear = CLEAR_REQUEST"

fun op_resp :: "cache_op \<Rightarrow> byte" where
  "op_resp (OpGet k) = GET_RESPONSE"
| "op_resp (OpContainsKey k) = CONTAINS_KEY_RESPONSE"
| "op_resp (OpGetWithVersion k) = GET_WITH_VERSION_RESPONSE"
| "op_resp (OpPut a) = PUT_RESPONSE"
| "op_resp (OpPutIfAbsent a) = PUT_IF_ABSENT_RESPONSE"
| "op_resp (OpReplace a) = REPLACE_RESPONSE"
| "op_resp (OpRemove k) = REMOVE_RESPONSE"
| "op_resp (OpReplaceIfUnmodified a v) = REPLACE_IF_UNMODIFIED_RESPONSE"
| "op_resp (OpRemoveIfUnmodified k v) = REMOVE_IF_UNMODIFIED_RESPONSE"
| "op_resp OpClear = CLEAR_RESPONSE"

text \<open>How the other end reads a request.\<close>

definition version_codec :: "byte \<Rightarrow> codec" where
  "version_codec v = (if v = VERSION_20 then Codec20 else if v = VERSION_21 then Codec21
     else if v = VERSION_28 then Codec28 else Codec22)"

definition parse_kv :: "codec \<Rightarrow> (rstream, u64) sm \<Rightarrow> (rstream, kv_args \<times> u64) sm" where
  "parse_kv c ver =
    bind readArray (\<lambda>k.
    bind (parse_expiration c) (\<lambda>(l, m).
    bind ver (\<lambda>w.
    bind readArray (\<lambda>v.
    ret (\<lparr>kv_key = k, kv_value = v, kv_lifespan = ucast l, kv_maxIdle = ucast m\<rparr>, w)))))"

definition parse_body :: "codec \<Rightarrow> byte \<Rightarrow> (rstream, cache_op) sm" where
  "parse_body c code =
    (if code = GET_REQUEST then bind readArray (\<lambda>k. ret (OpGet k))
     else if code = CONTAINS_KEY_REQUEST then bind readArray (\<lambda>k. ret (OpContainsKey k))
     else if code = GET_WITH_VERSION_REQUEST then bind readArray (\<lambda>k. ret (OpGetWithVersion k))
     else if code = PUT_REQUEST then bind (parse_kv c (ret 0)) (\<lambda>(a, w). ret (OpPut a))
     else if code = PUT_IF_ABSENT_REQUEST then bind (parse_kv c (ret 0)) (\<lambda>(a, w). ret (OpPutIfAbsent a))
     else if code = REPLACE_REQUEST then bind (parse_kv c (ret 0)) (\<lambda>(a, w). ret (OpReplace a))
     else if code = REMOVE_REQUEST then bind readArray (\<lambda>k. ret (OpRemove k))
     else if code = REPLACE_IF_UNMODIFIED_REQUEST
          then bind (parse_kv c readLong) (\<lambda>(a, w). ret (OpReplaceIfUnmodified a w))
     else if code = REMOVE_IF_UNMODIFIED_REQUEST
          then bind readArray (\<lambda>k. bind readLong (\<lambda>w. ret (OpRemoveIfUnmodified k w)))
     else if code = CLEAR_REQUEST then ret OpClear
     else raise (InternalException ''unsupported''))"

definition parse_message :: "(request_header \<Rightarrow> (rstream, 'p) sm) \<Rightarrow> (rstream, request_header \<times> 'p) sm" where
  "parse_message body =
    bind parse_request_header (\<lambda>h.
    seq (if rq_version h = VERSION_28 then seq parse_media_type (bind parse_media_type (\<lambda>_. ret ())) else ret ())
    (bind (body h) (\<lambda>p. ret (h, p))))"

definition parse_request :: "(rstream, request_header \<times> cache_op) sm" where
  "parse_request = parse_message (\<lambda>h. parse_body (version_codec (rq_version h)) (rq_opCode h))"

definition request_of :: "bytes \<Rightarrow> (request_header \<times> cache_op) option" where
  "request_of req = (case fst (parse_request \<lparr>rhost = [], rport = 0, pending = req\<rparr>) of Inl e \<Rightarrow> None | Inr x \<Rightarrow> Some x)"

definition forces :: "u32 \<Rightarrow> bool" where
  "forces flags \<longleftrightarrow> flags AND 1 \<noteq> 0"

text \<open>The cache after a history of requests, and what a server answers.\<close>

definition cache_after :: "bytes list \<Rightarrow> cache" where
  "cache_after h = foldl (\<lambda>c req. case request_of req of None \<Rightarrow> c | Some (rh, p) \<Rightarrow> cache_update p c) empty_cache h"

definition reply_to :: "request_header \<Rightarrow> cache_op \<Rightarrow> cache \<Rightarrow> bytes" where
  "reply_to rh p c =
    (case cache_reply (forces (rq_flags rh)) p c of
       (st, payload) \<Rightarrow> reply_header (rq_messageId rh) (op_resp p) st @ payload)"

definition serves_cache :: "(bytes list \<Rightarrow> exn + bytes) \<Rightarrow> bool" where
  "serves_cache peer \<longleftrightarrow>
    (\<forall>h req rh p. request_of req = Some (rh, p) \<longrightarrow> peer (h @ [req]) = Inr (reply_to rh p (cache_after h)))"

section \<open>The client\<close>

fun client_op :: "'f tf_iface \<Rightarrow> op_ctx \<Rightarrow> cache_op \<Rightarrow> ('f io, cache_res) sm" where
  "client_op tf ctx (OpGet k) = bind (GetOperation tf ctx k) (\<lambda>x. ret (Value x))"
| "client_op tf ctx (OpContainsKey k) = bind (ContainsKeyOperation tf ctx k) (\<lambda>b. ret (Found b))"
| "client_op tf ctx (OpGetWithVersion k) = bind (GetWithVersionOperation tf ctx k) (\<lambda>x. ret (Versioned x))"
| "client_op tf ctx (OpPut a) = bind (PutOperation tf ctx a) (\<lambda>x. ret (Value x))"
| "client_op tf ctx (OpPutIfAbsent a) = bind (PutIfAbsentOperation tf ctx a) (\<lambda>x. ret (Value x))"
| "client_op tf ctx (OpReplace a) = bind (ReplaceOperation tf ctx a) (\<lambda>x. ret (Value x))"
| "client_op tf ctx (OpRemove k) = bind (RemoveOperation tf ctx k) (\<lambda>x. ret (Value x))"
| "client_op tf ctx (OpReplaceIfUnmodified a v) =
    bind (ReplaceIfUnmodifiedOperation tf ctx a v) (\<lambda>(x, code). ret (VersionedResponse x code))"
| "client_op tf ctx (OpRemoveIfUnmodified k v) =
    bind (RemoveIfUnmodifiedOperation tf ctx k v) (\<lambda>(x, code). ret (VersionedResponse x code))"
| "client_op tf ctx OpClear = bind (ClearOperation tf ctx) (\<lambda>x. ret (Value x))"

fun client_ops :: "'f tf_iface \<Rightarrow> op_ctx \<Rightarrow> cache_op list \<Rightarrow> ('f io, cache_res list) sm" where
  "client_ops tf ctx [] = ret []"
| "client_ops tf ctx (p # ps) =
    bind (client_op tf ctx p) (\<lambda>r. bind (client_ops tf ctx ps) (\<lambda>rs. ret (r # rs)))"

text \<open>Keys, values, the cache name and the media types fit the length fields of the protocol.\<close>

definition kv_ok :: "kv_args \<Rightarrow> bool" where
  "kv_ok a \<longleftrightarrow> length (kv_key a) < 2 ^ 32 \<and> length (kv_value a) < 2 ^ 32"

fun cache_op_ok :: "cache_op \<Rightarrow> bool" where
  "cache_op_ok (OpGet k) = (length k < 2 ^ 32)"
| "cache_op_ok (OpContainsKey k) = (length k < 2 ^ 32)"
| "cache_op_ok (OpGetWithVersion k) = (length k < 2 ^ 32)"
| "cache_op_ok (OpPut a) = kv_ok a"
| "cache_op_ok (OpPutIfAbsent a) = kv_ok a"
| "cache_op_ok (OpReplace a) = kv_ok a"
| "cache_op_ok (OpRemove k) = (length k < 2 ^ 32)"
| "cache_op_ok (OpReplaceIfUnmodified a v) = kv_ok a"
| "cache_op_ok (OpRemoveIfUnmodified k v) = (length k < 2 ^ 32)"
| "cache_op_ok OpClear = True"

definition ctx_ok :: "op_ctx \<Rightarrow> bool" where
  "ctx_ok ctx \<longleftrightarrow> length (oc_cacheName ctx) < 2 ^ 32
    \<and> (case oc_dataFormat ctx of None \<Rightarrow> True
       | Some f \<Rightarrow> media_type_ok (keyMediaType f) \<and> media_type_ok (valueMediaType f))"


section \<open>Requests are understood\<close>

definition expiration_bytes :: "codec \<Rightarrow> kv_args \<Rightarrow> bytes" where
  "expiration_bytes c a =
    (if c = Codec20 \<or> c = Codec21 then writeVInt (kv_lifespan a) @ writeVInt (kv_maxIdle a)
     else Codec22_writeExpirationParams (ucast (kv_lifespan a)) (ucast (kv_maxIdle a)))"

fun op_body :: "codec \<Rightarrow> cache_op \<Rightarrow> bytes" where
  "op_body c (OpGet k) = writeArray k"
| "op_body c (OpContainsKey k) = writeArray k"
| "op_body c (OpGetWithVersion k) = writeArray k"
| "op_body c (OpPut a) = writeArray (kv_key a) @ expiration_bytes c a @ writeArray (kv_value a)"
| "op_body c (OpPutIfAbsent a) = writeArray (kv_key a) @ expiration_bytes c a @ writeArray (kv_value a)"
| "op_body c (OpReplace a) = writeArray (kv_key a) @ expiration_bytes c a @ writeArray (kv_value a)"
| "op_body c (OpRemove k) = writeArray k"
| "op_body c (OpReplaceIfUnmodified a v) =
    writeArray (kv_key a) @ expiration_bytes c a @ writeLong v @ writeArray (kv_value a)"
| "op_body c (OpRemoveIfUnmodified k v) = writeArray k @ writeLong v"
| "op_body c OpClear = []"

lemma ucast_u32_u64_u32: "ucast (ucast x :: u64) = (x :: u32)"
  by (simp add: ucast_up_ucast_id is_up)

lemma writeExpirationParams_run:
  "writeExpirationParams c (ucast (kv_lifespan a)) (ucast (kv_maxIdle a)) s
    = (Inr (), add_out (expiration_bytes c a) s)"
  by (simp add: writeExpirationParams_def expiration_bytes_def Codec20_writeExpirationParams_def Let_def
      ucast_u32_u64_u32 wr_run)

lemma parse_expiration_enc:
  assumes "pending r = expiration_bytes c a @ rest"
  shows "parse_expiration (version_codec (protocolVersion c)) r =
    (Inr (ucast (kv_lifespan a), ucast (kv_maxIdle a)), r\<lparr>pending := rest\<rparr>)"
proof (cases "c = Codec20 \<or> c = Codec21")
  case True
  then have "version_codec (protocolVersion c) = c"
    by (auto simp: version_codec_def protocolVersion_def)
  then show ?thesis
    using True assms by (simp add: parse_expiration_def expiration_bytes_def vint.dec_app ret_run)
next
  case False
  then have "version_codec (protocolVersion c) \<noteq> Codec20" "version_codec (protocolVersion c) \<noteq> Codec21"
    by (cases c; simp add: version_codec_def protocolVersion_def)+
  then show ?thesis
    using False assms by (simp add: parse_expiration_22 expiration_bytes_def)
qed

lemma parse_kv_enc:
  assumes "pending r = writeArray (kv_key a) @ expiration_bytes c a @ enc @ writeArray (kv_value a) @ rest"
    and "kv_ok a" "\<And>r rest. pending r = enc @ rest \<Longrightarrow> ver r = (Inr w, r\<lparr>pending := rest\<rparr>)"
  shows "parse_kv (version_codec (protocolVersion c)) ver r = (Inr (a, w), r\<lparr>pending := rest\<rparr>)"
  using assms
  by (simp add: parse_kv_def kv_ok_def array.dec_app parse_expiration_enc ret_run ucast_u32_u64_u32)

lemma parse_body_enc:
  assumes "cache_op_ok p" "pending r = op_body c p @ rest"
  shows "parse_body (version_codec (protocolVersion c)) (op_code p) r = (Inr p, r\<lparr>pending := rest\<rparr>)"
proof -
  have kv: "parse_kv (version_codec (protocolVersion c)) (ret 0) r = (Inr (a, 0), r\<lparr>pending := rest\<rparr>)"
    if "kv_ok a" "pending r = writeArray (kv_key a) @ expiration_bytes c a @ writeArray (kv_value a) @ rest" for a
    by (rule parse_kv_enc [where enc = "[]"]) (use that in \<open>simp_all add: ret_run\<close>)
  have vkv: "parse_kv (version_codec (protocolVersion c)) readLong r = (Inr (a, v), r\<lparr>pending := rest\<rparr>)"
    if "kv_ok a" "pending r = writeArray (kv_key a) @ expiration_bytes c a @ writeLong v @ writeArray (kv_value a) @ rest"
    for a v
    by (rule parse_kv_enc [where enc = "writeLong v"]) (use that in \<open>simp_all add: long.dec_enc\<close>)
  show ?thesis
    using assms by (cases p) (simp_all add: parse_body_def array.dec_app long.dec_app kv vkv ret_run)
qed

lemma parse_media_types_enc:
  assumes "ctx_ok ctx" "pending r = media_types_bytes Codec28 (op_params ctx op resp) @ rest"
  shows "seq parse_media_type (bind parse_media_type (\<lambda>_. ret ())) r = (Inr (), r\<lparr>pending := rest\<rparr>)"
proof (cases "oc_dataFormat ctx")
  case None
  then show ?thesis
    using assms by (simp add: media_types_bytes_def op_params_def parse_media_type_def readByte_app ret_run
        seq_run bind_run readByte_Cons)
next
  case (Some f)
  then have r: "pending r = writeMediaType (keyMediaType f) @ writeMediaType (valueMediaType f) @ rest"
    and ok: "media_type_ok (keyMediaType f)" "media_type_ok (valueMediaType f)"
    using assms by (simp_all add: media_types_bytes_def op_params_def ctx_ok_def)
  show ?thesis
    using parse_media_type_enc [OF ok(1) r]
      parse_media_type_enc [OF ok(2), of "r\<lparr>pending := writeMediaType (valueMediaType f) @ rest\<rparr>" rest]
    by (simp add: ret_run)
qed

definition sent_header :: "op_ctx \<Rightarrow> byte \<Rightarrow> u64 \<Rightarrow> u32 \<Rightarrow> request_header" where
  "sent_header ctx op i t =
    \<lparr>rq_messageId = i, rq_version = protocolVersion (oc_codec ctx), rq_opCode = op,
     rq_cacheName = oc_cacheName ctx, rq_flags = oc_flags ctx,
     rq_clientIntel = CLIENT_INTELLIGENCE_HASH_DISTRIBUTION_AWARE, rq_topologyId = t\<rparr>"

lemma parse_message_run:
  assumes "ctx_ok ctx"
    and "\<And>r. pending r = bs \<Longrightarrow> body (sent_header ctx op i t) r = (Inr p, r\<lparr>pending := []\<rparr>)"
  shows "parse_message body \<lparr>rhost = [], rport = 0, pending = request_bytes ctx op resp i t bs\<rparr>
    = (Inr (sent_header ctx op i t, p), \<lparr>rhost = [], rport = 0, pending = []\<rparr>)"
proof -
  let ?P = "op_params ctx op resp" and ?c = "oc_codec ctx"
  let ?r = "\<lparr>rhost = [], rport = 0, pending = request_bytes ctx op resp i t bs\<rparr>"
  let ?m = "?r\<lparr>pending := media_types_bytes ?c ?P @ bs\<rparr>"
  have len: "length (hp_cacheName ?P) < 2 ^ 32"
    using assms(1) by (simp add: ctx_ok_def op_params_def)
  have pend: "pending ?r = request_header_bytes ?c ?P i t @ media_types_bytes ?c ?P @ bs"
    by (simp add: request_bytes_def)
  have hdr: "parse_request_header ?r = (Inr (sent_header ctx op i t), ?m)"
    unfolding parse_request_header_enc [OF len pend] by (simp add: sent_header_def op_params_def)
  have v28: "protocolVersion ?c = 28 \<longleftrightarrow> ?c = Codec28"
    by (cases ?c) (simp_all add: protocolVersion_def)
  have mt: "(if protocolVersion ?c = 28 then seq parse_media_type (bind parse_media_type (\<lambda>_. ret ())) else ret ()) ?m
      = (Inr (), ?r\<lparr>pending := bs\<rparr>)"
  proof (cases "?c = Codec28")
    case True
    have "seq parse_media_type (bind parse_media_type (\<lambda>_. ret ())) ?m = (Inr (), ?m\<lparr>pending := bs\<rparr>)"
      by (rule parse_media_types_enc [OF assms(1)]) (simp add: True)
    then show ?thesis using True v28 by simp
  next
    case False
    then show ?thesis using v28 by (simp add: media_types_bytes_def ret_run)
  qed
  have "rq_version (sent_header ctx op i t) = protocolVersion ?c" by (simp add: sent_header_def)
  then show ?thesis
    unfolding parse_message_def bind_run [of parse_request_header] hdr
    using mt assms(2) [of "?r\<lparr>pending := bs\<rparr>"] by (simp add: seq_run bind_run ret_run split del: if_split)
qed

lemma request_of_request_bytes:
  assumes "ctx_ok ctx" "cache_op_ok p"
  shows "request_of (request_bytes ctx (op_code p) resp i t (op_body (oc_codec ctx) p))
    = Some (sent_header ctx (op_code p) i t, p)"
proof -
  have "parse_body (version_codec (rq_version (sent_header ctx (op_code p) i t))) (rq_opCode (sent_header ctx (op_code p) i t)) r
      = (Inr p, r\<lparr>pending := []\<rparr>)" if "pending r = op_body (oc_codec ctx) p" for r
    using parse_body_enc [OF assms(2), of r "oc_codec ctx" "[]"] that by (simp add: sent_header_def)
  from parse_message_run [where body = "\<lambda>h. parse_body (version_codec (rq_version h)) (rq_opCode h)", OF assms(1) this]
  show ?thesis by (simp add: request_of_def parse_request_def)
qed


section \<open>What the server keeps fits the protocol\<close>

definition cache_ok :: "cache \<Rightarrow> bool" where
  "cache_ok c \<longleftrightarrow> (\<forall>k v x. entries c k = Some (v, x) \<longrightarrow> length x < 2 ^ 32)"

lemma cache_ok_update: "cache_ok c \<Longrightarrow> cache_op_ok p \<Longrightarrow> cache_ok (cache_update p c)"
  by (cases p) (auto simp: cache_ok_def store_def forget_def kv_ok_def split: option.splits if_splits)

lemma cache_okD: "cache_ok c \<Longrightarrow> \<forall>v x. entries c k = Some (v, x) \<longrightarrow> length x < 2 ^ 32"
  by (simp add: cache_ok_def)

lemma readArray_length:
  assumes "readArray r = (Inr bs, r')"
  shows "length bs < 2 ^ 32"
proof -
  have "\<exists>n :: u32. length bs = unat n"
    using assms by (auto simp: readArray_def readBytes_def bind_eq_Inr stream_read_def ret_run
        intro: exI [of _ 0] split: if_splits)
  moreover have "unat n < 2 ^ 32" for n :: u32
    by (rule less_le_trans [OF unsigned_less]) simp
  ultimately show ?thesis by auto
qed

lemma parse_kv_ok:
  assumes "parse_kv c ver r = (Inr (a, w), r')"
  shows "kv_ok a"
  using assms by (auto simp: parse_kv_def bind_eq_Inr ret_run kv_ok_def dest!: readArray_length)

lemma parse_body_ok:
  assumes "parse_body c code r = (Inr p, r')"
  shows "cache_op_ok p"
  using assms
  by (auto simp: parse_body_def bind_eq_Inr ret_run raise_run dest: parse_kv_ok readArray_length
      split: if_splits)

lemma request_of_ok:
  assumes "request_of req = Some (rh, p)"
  shows "cache_op_ok p"
proof -
  obtain r' where "parse_request \<lparr>rhost = [], rport = 0, pending = req\<rparr> = (Inr (rh, p), r')"
    using assms by (auto simp: request_of_def split: sum.splits) (metis prod.collapse)
  then show ?thesis
    by (auto simp: parse_request_def parse_message_def bind_eq_Inr seq_eq_Inr ret_run dest: parse_body_ok)
qed

lemma cache_after_snoc:
  "cache_after (h @ [req]) =
    (case request_of req of None \<Rightarrow> cache_after h | Some (rh, p) \<Rightarrow> cache_update p (cache_after h))"
  by (simp add: cache_after_def split: option.split)

lemma cache_after_ok: "cache_ok (cache_after h)"
proof (induction h rule: rev_induct)
  case Nil
  then show ?case by (simp add: cache_after_def cache_ok_def empty_cache_def)
next
  case (snoc req h)
  then show ?case
    by (auto simp: cache_after_snoc cache_ok_update dest: request_of_ok split: option.splits)
qed

section \<open>The client computes the map operations\<close>

lemma seq_assoc: "seq (seq a b) c = seq a (seq b c)"
  by (rule ext) (simp add: sm_simps split: prod.splits sum.splits)

lemma op_resp_code: "toOpRespCode (op_code p) = Inr (op_resp p)" "op_resp p \<noteq> ERROR_RESPONSE"
  by (cases p; simp add: toOpRespCode_def op_resp_table_def)+

lemma rd_array_last:
  "length x < 2 ^ 32 \<Longrightarrow> rd readArray (exchanged s req (writeArray x)) = (Inr x, exchanged s req [])"
  using array.rd_dec [of x "exchanged s req (writeArray x)" "[]"] by simp

text \<open>A request of the client, answered with a status and a payload.\<close>

definition op_request :: "op_ctx \<Rightarrow> cache_op \<Rightarrow> 'f io \<Rightarrow> bytes" where
  "op_request ctx p s =
    request_bytes ctx (op_code p) (op_resp p) (msgId s + 1) (topo s) (op_body (oc_codec ctx) p)"

definition answered :: "op_ctx \<Rightarrow> cache_op \<Rightarrow> byte \<Rightarrow> bytes \<Rightarrow> 'f io \<Rightarrow> bool" where
  "answered ctx p st payload s \<longleftrightarrow> quiet s
    \<and> t_peer (tr s) (t_sent (tr s) @ [op_request ctx p s]) = Inr (reply_header (msgId s + 1) (op_resp p) st @ payload)"

lemma exchange_answered:
  assumes "answered ctx p st payload s" "\<And>s. body s = (Inr (), add_out (op_body (oc_codec ctx) p) s)"
  shows "exchange tf ctx (op_code p) body s = (Inr st, exchanged s (op_request ctx p s) payload)"
  unfolding op_request_def
  by (rule exchange_run) (use assms op_resp_code [of p] in \<open>auto simp: answered_def op_request_def\<close>)

lemma key_answered:
  assumes "answered ctx p st payload s" "op_body (oc_codec ctx) p = writeArray k"
  shows "sendKeyOperation tf ctx k (op_code p) s = (Inr st, exchanged s (op_request ctx p s) payload)"
  unfolding sendKeyOperation_def by (rule exchange_answered [OF assms(1)]) (simp add: wr_run assms(2))

lemma put_answered:
  assumes "answered ctx p st payload s"
    and "op_body (oc_codec ctx) p = writeArray (kv_key a) @ expiration_bytes (oc_codec ctx) a @ writeArray (kv_value a)"
  shows "sendPutOperation tf ctx a (op_code p) s = (Inr st, exchanged s (op_request ctx p s) payload)"
  unfolding sendPutOperation_def
  by (rule exchange_answered [OF assms(1)]) (simp add: seq_run wr_run writeExpirationParams_run assms(2))

lemma no_prev: "\<not> hasPrevious st \<Longrightarrow> returnPossiblePrevValue st s = (Inr [], s)"
  by (simp add: returnPossiblePrevValue_def ret_run)


lemma versioned_answered:
  assumes ans: "answered ctx p st payload s"
    and body: "\<And>s. body s = (Inr (), add_out (op_body (oc_codec ctx) p) s)"
    and reply: "versioned_reply force k v c = (st, payload)" and ok: "cache_ok c"
  shows "bind (op_writeHeader ctx (op_code p)) (\<lambda>params. seq body (seq flush (returnVersionedOperationResponse tf params))) s
    = (Inr (prev_value force k c,
         case entries c k of None \<Rightarrow> NO_SUCH_KEY | Some (w, x) \<Rightarrow> if v = w then RSP_SUCCESS else MODIFIED_KEY),
       exchanged s (op_request ctx p s) [])"
proof -
  let ?t = "exchanged s (op_request ctx p s)"
  let ?P = "(op_params ctx (op_code p) (op_resp p))\<lparr>hp_messageId := msgId s + 1\<rparr>"
  have read: "readHeaderAndValidate tf ?P (?t (reply_header (msgId s + 1) (op_resp p) st @ payload)) = (Inr st, ?t payload)"
    using exchange_answered [OF ans body, of tf] ans op_resp_code [of p]
      send_run [OF _ op_resp_code(1) body, where s = s and ctx = ctx and k = "readHeaderAndValidate tf"
        and reply = "reply_header (msgId s + 1) (op_resp p) st @ payload"]
    by (simp add: answered_def op_request_def exchange_def)
  have "returnVersionedOperationResponse tf ?P (?t (reply_header (msgId s + 1) (op_resp p) st @ payload))
    = (Inr (prev_value force k c,
         case entries c k of None \<Rightarrow> NO_SUCH_KEY | Some (w, x) \<Rightarrow> if v = w then RSP_SUCCESS else MODIFIED_KEY), ?t [])"
  proof (cases "entries c k")
    case None
    then show ?thesis
      using reply read by (simp add: returnVersionedOperationResponse_def versioned_reply_def prev_value_def
          status_defs bind_run no_prev ret_run)
  next
    case (Some e)
    obtain w x where e: "e = (w, x)" by (cases e)
    have x: "length x < 2 ^ 32" using ok Some e by (auto simp: cache_ok_def)
    have prev: "returnPossiblePrevValue st (?t payload) = (Inr (if force then x else []), ?t [])"
      using reply Some e x by (auto simp: versioned_reply_def with_prev_def returnPossiblePrevValue_def
          rd_array_last status_defs ret_run split: if_splits)
    have "(if isSuccess st then ret RSP_SUCCESS else if isNotExecuted st then ret MODIFIED_KEY
          else if st = KEY_DOES_NOT_EXIST_STATUS then ret NO_SUCH_KEY
          else raise (InvalidResponseException (BadStatus st))) (?t payload)
        = (Inr (if v = w then RSP_SUCCESS else MODIFIED_KEY), ?t payload)"
      using reply Some e by (auto simp: versioned_reply_def with_prev_def status_defs ret_run split: if_splits)
    then show ?thesis
      using read prev Some e
      by (simp add: returnVersionedOperationResponse_def prev_value_def bind_run ret_run split del: if_split)
  qed
  then show ?thesis
    using send_run [OF _ op_resp_code(1) body, where s = s and ctx = ctx and k = "returnVersionedOperationResponse tf"
        and reply = "reply_header (msgId s + 1) (op_resp p) st @ payload"] ans
    by (simp add: answered_def op_request_def)
qed

lemma replace_if_unmodified_answered:
  assumes "answered ctx (OpReplaceIfUnmodified a v) st payload s"
    and "versioned_reply force (kv_key a) v c = (st, payload)" "cache_ok c"
  shows "client_op tf ctx (OpReplaceIfUnmodified a v) s =
    (Inr (versioned_result force (kv_key a) v c), exchanged s (op_request ctx (OpReplaceIfUnmodified a v) s) [])"
proof -
  let ?body = "seq (wr (writeArray (kv_key a)))
     (seq (writeExpirationParams (oc_codec ctx) (ucast (kv_lifespan a)) (ucast (kv_maxIdle a)))
     (seq (wr (writeLong v)) (wr (writeArray (kv_value a)))))"
  have "?body s = (Inr (), add_out (op_body (oc_codec ctx) (OpReplaceIfUnmodified a v)) s)" for s :: "'a io"
    by (simp add: seq_run wr_run writeExpirationParams_run)
  from versioned_answered [OF assms(1) this assms(2,3), of tf] show ?thesis
    by (simp add: ReplaceIfUnmodifiedOperation_def seq_assoc versioned_result_def bind_run ret_run)
qed

lemma remove_if_unmodified_answered:
  assumes "answered ctx (OpRemoveIfUnmodified k v) st payload s"
    and "versioned_reply force k v c = (st, payload)" "cache_ok c"
  shows "client_op tf ctx (OpRemoveIfUnmodified k v) s =
    (Inr (versioned_result force k v c), exchanged s (op_request ctx (OpRemoveIfUnmodified k v) s) [])"
proof -
  have "seq (wr (writeArray k)) (wr (writeLong v)) s
      = (Inr (), add_out (op_body (oc_codec ctx) (OpRemoveIfUnmodified k v)) s)" for s :: "'a io"
    by (simp add: seq_run wr_run)
  from versioned_answered [OF assms(1) this assms(2,3), of tf] show ?thesis
    by (simp add: RemoveIfUnmodifiedOperation_def seq_assoc versioned_result_def bind_run ret_run)
qed

lemma rd_long_first: "rd readLong (exchanged s req (writeLong v @ rest)) = (Inr v, exchanged s req rest)"
  using long.rd_dec [of "exchanged s req (writeLong v @ rest)" v rest] by simp

lemma client_op_answered:
  assumes "answered ctx p st payload s" "cache_reply force p c = (st, payload)" "cache_ok c"
  shows "client_op tf ctx p s = (Inr (cache_result force p c), exchanged s (op_request ctx p s) [])"
proof (cases p)
  case (OpGet k)
  then show ?thesis
    using key_answered [OF assms(1), of k tf] assms(2) cache_okD [OF assms(3), of "k"]
    by (auto simp: GetOperation_def rd_array_last bind_run ret_run status_defs prev_value_def split: option.splits)
next
  case (OpContainsKey k)
  then show ?thesis
    using key_answered [OF assms(1), of k tf] assms(2)
    by (auto simp: ContainsKeyOperation_def bind_run ret_run status_defs split: if_splits)
next
  case (OpGetWithVersion k)
  then show ?thesis
    using key_answered [OF assms(1), of k tf] assms(2) cache_okD [OF assms(3), of "k"]
    by (auto simp: GetWithVersionOperation_def rd_long_first rd_array_last bind_run ret_run status_defs split: option.splits)
next
  case (OpPut a)
  then show ?thesis
    using put_answered [OF assms(1), of a tf] assms(2) cache_okD [OF assms(3), of "kv_key a"]
    by (auto simp: PutOperation_def bind_run ret_run status_defs prev_value_def with_prev_def
        returnPossiblePrevValue_def rd_array_last split: option.splits if_splits)
next
  case (OpPutIfAbsent a)
  then show ?thesis
    using put_answered [OF assms(1), of a tf] assms(2) cache_okD [OF assms(3), of "kv_key a"]
    by (auto simp: PutIfAbsentOperation_def bind_run ret_run status_defs prev_value_def with_prev_def
        returnPossiblePrevValue_def rd_array_last split: option.splits if_splits)
next
  case (OpReplace a)
  then show ?thesis
    using put_answered [OF assms(1), of a tf] assms(2) cache_okD [OF assms(3), of "kv_key a"]
    by (auto simp: ReplaceOperation_def bind_run ret_run status_defs prev_value_def with_prev_def
        returnPossiblePrevValue_def rd_array_last split: option.splits if_splits)
next
  case (OpRemove k)
  then show ?thesis
    using key_answered [OF assms(1), of k tf] assms(2) cache_okD [OF assms(3), of "k"]
    by (auto simp: RemoveOperation_def bind_run ret_run status_defs prev_value_def with_prev_def
        returnPossiblePrevValue_def rd_array_last split: option.splits if_splits)
next
  case (OpReplaceIfUnmodified a v)
  then show ?thesis using replace_if_unmodified_answered assms by fastforce
next
  case (OpRemoveIfUnmodified k v)
  then show ?thesis using remove_if_unmodified_answered assms by fastforce
next
  case OpClear
  have "exchange tf ctx (op_code p) (ret ()) s = (Inr st, exchanged s (op_request ctx p s) payload)"
    by (rule exchange_answered [OF assms(1)]) (simp add: OpClear ret_run add_out_def)
  then show ?thesis using OpClear assms(2) by (simp add: ClearOperation_def bind_run ret_run)
qed

text \<open>One operation against a server, and a sequence of them.\<close>

lemma client_op_refines:
  assumes "quiet s" "serves_cache (t_peer (tr s))" "ctx_ok ctx" "cache_op_ok p"
  shows "client_op tf ctx p s =
      (Inr (cache_result (forces (oc_flags ctx)) p (cache_after (t_sent (tr s)))),
       exchanged s (op_request ctx p s) [])"
    and "cache_after (t_sent (tr s) @ [op_request ctx p s]) = cache_update p (cache_after (t_sent (tr s)))"
proof -
  let ?c = "cache_after (t_sent (tr s))"
  obtain st payload where reply: "cache_reply (forces (oc_flags ctx)) p ?c = (st, payload)" by fastforce
  have req: "request_of (op_request ctx p s) = Some (sent_header ctx (op_code p) (msgId s + 1) (topo s), p)"
    unfolding op_request_def by (rule request_of_request_bytes) (use assms in auto)
  then have "t_peer (tr s) (t_sent (tr s) @ [op_request ctx p s])
      = Inr (reply_to (sent_header ctx (op_code p) (msgId s + 1) (topo s)) p ?c)"
    using assms(2) by (simp add: serves_cache_def)
  then have "answered ctx p st payload s"
    using assms(1) reply by (simp add: answered_def reply_to_def sent_header_def)
  then show "client_op tf ctx p s =
      (Inr (cache_result (forces (oc_flags ctx)) p ?c), exchanged s (op_request ctx p s) [])"
    using reply cache_after_ok by (rule client_op_answered)
  show "cache_after (t_sent (tr s) @ [op_request ctx p s]) = cache_update p ?c"
    using req by (simp add: cache_after_snoc)
qed

text \<open>
  C1. Against a server that keeps a versioned map and answers as the protocol documents, any
  sequence of get, containsKey, getWithVersion, put, putIfAbsent, replace, remove,
  replaceIfUnmodified, removeIfUnmodified and clear returns exactly what the same operations on
  the map return, leaves the server with the map they leave, and leaves nothing buffered on the
  connection: on every protocol version, with and without \<open>FORCE_RETURN_VALUE\<close>, for every
  lifespan and idle time, and with every media type.
\<close>

theorem cache_ops_refine:
  assumes "quiet s" "serves_cache (t_peer (tr s))" "ctx_ok ctx" "list_all cache_op_ok ps"
  shows "\<exists>s'. client_ops tf ctx ps s =
      (Inr (fst (cache_run (forces (oc_flags ctx)) ps (cache_after (t_sent (tr s))))), s')
    \<and> quiet s' \<and> t_peer (tr s') = t_peer (tr s) \<and> msgId s' = msgId s + of_nat (length ps)
    \<and> cache_after (t_sent (tr s')) = snd (cache_run (forces (oc_flags ctx)) ps (cache_after (t_sent (tr s))))"
  using assms
proof (induction ps arbitrary: s)
  case Nil
  then show ?case by (simp add: ret_run)
next
  case (Cons p ps)
  let ?s = "exchanged s (op_request ctx p s) []"
  have step: "client_op tf ctx p s =
      (Inr (cache_result (forces (oc_flags ctx)) p (cache_after (t_sent (tr s)))), ?s)"
    and after: "cache_after (t_sent (tr ?s)) = cache_update p (cache_after (t_sent (tr s)))"
    using client_op_refines(1) [of s ctx p tf] client_op_refines(2) [of s ctx p] Cons.prems by simp_all
  have "quiet ?s" using Cons.prems(1) by (simp add: quiet_def)
  from Cons.IH [OF this] show ?case
    using Cons.prems after by (auto simp: step ret_run split: prod.splits)
qed

text \<open>A server, and a session with it.\<close>

definition reference_server :: "bytes list \<Rightarrow> exn + bytes" where
  "reference_server h =
    (case request_of (last h) of
       None \<Rightarrow> Inr []
     | Some (rh, p) \<Rightarrow> Inr (reply_to rh p (cache_after (butlast h))))"

definition session_io :: "unit io" where
  "session_io = (example_io [])\<lparr>tr := (tr (example_io []))\<lparr>t_peer := reference_server\<rparr>\<rparr>"

definition session_ctx :: op_ctx where
  "session_ctx = \<lparr>oc_codec = Codec28, oc_flags = 1, oc_cacheName = [99], oc_dataFormat = Some example_format\<rparr>"

definition session_ops :: "cache_op list" where
  "session_ops =
    [OpPut \<lparr>kv_key = [1], kv_value = [7], kv_lifespan = 0, kv_maxIdle = 60\<rparr>, OpGetWithVersion [1],
     OpReplaceIfUnmodified \<lparr>kv_key = [1], kv_value = [8], kv_lifespan = 0, kv_maxIdle = 0\<rparr> 1,
     OpRemoveIfUnmodified [1] 1, OpGet [1], OpContainsKey [2]]"

theorem cache_ops_refine_witness:
  "fst (client_ops example_tf session_ctx session_ops session_io)
    = Inr [Value [], Versioned (Some (1, [7])), VersionedResponse [7] RSP_SUCCESS,
           VersionedResponse [8] MODIFIED_KEY, Value [8], Found False]"
proof -
  have "serves_cache reference_server" by (simp add: serves_cache_def reference_server_def)
  then have "quiet session_io" "serves_cache (t_peer (tr session_io))"
    by (simp_all add: session_io_def example_io_def quiet_def inp_of_def)
  moreover have "ctx_ok session_ctx" "list_all cache_op_ok session_ops"
    by (simp_all add: ctx_ok_def session_ctx_def session_ops_def kv_ok_def media_type_ok_def example_format_def
        MediaType_def)
  ultimately show ?thesis
    using cache_ops_refine [of session_io session_ctx session_ops example_tf]
    by (auto simp: session_ctx_def session_ops_def session_io_def example_io_def cache_after_def empty_cache_def
        forces_def store_def prev_value_def versioned_result_def)
qed

end
