(* ===== verification/HR_Retry_Correct.thy ===== *)
theory HR_Retry_Correct
  imports HR_Retry HR_Factory_Correct HR_Remote_Map
begin

text \<open>
  The retry loop ends, and it masks the failure of servers. The contract between the loop and the
  members it calls is the locale \<open>failover\<close>; it is interpreted on the transport factory.
\<close>

section \<open>Failing over\<close>

text \<open>
  Some of the \<open>servers\<close> are \<open>dead\<close>. \<open>holds a t\<close> are the states in which the operation has the transport
  \<open>t\<close> to the server \<open>a\<close>, \<open>broken a t\<close> those after it has failed on it; \<open>inv\<close> holds between two rounds.
\<close>

locale failover =
  fixes R :: "('s, 't, 'a) retry_ops"
    and inv :: "'s \<Rightarrow> bool"
    and holds broken :: "inet \<Rightarrow> 't \<Rightarrow> 's \<Rightarrow> bool"
    and servers dead :: "inet set"
    and good :: "'a \<Rightarrow> bool"
  assumes get: "inv s \<Longrightarrow> servers - failed \<noteq> {} \<Longrightarrow>
      (\<exists>a t s'. ro_getTransport R n failed s = (Inr t, s') \<and> a \<in> servers - failed \<and> holds a t s')
    \<or> (\<exists>a m s'. ro_getTransport R n failed s = (Inl (TransportException (hostname a) (port a) m), s')
         \<and> a \<in> servers \<inter> dead - failed \<and> inv s')"
    and exec_alive: "holds a t s \<Longrightarrow> a \<notin> dead \<Longrightarrow>
      \<exists>v s'. ro_executeOperation R t s = (Inr v, s') \<and> good v \<and> holds a t s'"
    and exec_dead: "holds a t s \<Longrightarrow> a \<in> dead \<Longrightarrow>
      \<exists>m s'. ro_executeOperation R t s = (Inl (TransportException (hostname a) (port a) m), s') \<and> broken a t s'"
    and release: "holds a t s \<Longrightarrow> \<exists>s'. ro_releaseTransport R t s = (Inr (), s') \<and> inv s'"
    and invalidate: "broken a t s \<Longrightarrow> \<exists>s'. ro_invalidateTransport R a t s = (Inr (), s') \<and> inv s'"
    and address: "inv s \<Longrightarrow> a \<in> servers \<Longrightarrow> InetSocketAddress (hostname a) (port a) = a"
begin

text \<open>A round ends the operation, or finds one more dead server.\<close>

lemma failover_round:
  assumes "inv s" "failed \<subseteq> servers \<inter> dead" "servers - dead \<noteq> {}"
  shows "(\<exists>v s'. retry_round R n failed s = (Inr (Inl v), s') \<and> good v \<and> inv s')
    \<or> (\<exists>a s'. a \<in> servers \<inter> dead - failed \<and> inv s'
         \<and> (n < ro_maxRetries R - 1 \<longrightarrow> retry_round R n failed s = (Inr (Inr (n, insert a failed)), s')))"
proof -
  have "servers - failed \<noteq> {}" using assms by blast
  from get [OF assms(1) this, of n] consider
    (got) a t s1 where "ro_getTransport R n failed s = (Inr t, s1)" "a \<in> servers - failed" "holds a t s1"
  | (lost) a m s1 where "ro_getTransport R n failed s = (Inl (TransportException (hostname a) (port a) m), s1)"
      "a \<in> servers \<inter> dead - failed" "inv s1"
    by blast
  then show ?thesis
  proof cases
    case lost
    have "n < ro_maxRetries R - 1 \<longrightarrow> retry_round R n failed s = (Inr (Inr (n, insert a failed)), s1)"
      using lost address [OF assms(1), of a]
      by (auto simp: retry_round_def retry_handler_def logErrorAndThrowExceptionIfNeeded_def retry_invalidate_def sm_simps)
    then show ?thesis using lost by blast
  next
    case got
    show ?thesis
    proof (cases "a \<in> dead")
      case False
      from exec_alive [OF got(3) False] obtain v s2
        where 2: "ro_executeOperation R t s1 = (Inr v, s2)" "good v" "holds a t s2" by blast
      from release [OF 2(3)] obtain s3 where 3: "ro_releaseTransport R t s2 = (Inr (), s3)" "inv s3" by blast
      have "retry_round R n failed s = (Inr (Inl v), s3)"
        using got(1) 2(1) 3(1) by (simp add: retry_round_def sm_simps)
      then show ?thesis using 2(2) 3(2) by blast
    next
      case True
      from exec_dead [OF got(3) True] obtain m s2
        where 2: "ro_executeOperation R t s1 = (Inl (TransportException (hostname a) (port a) m), s2)" "broken a t s2"
        by blast
      from invalidate [OF 2(2)] obtain s3 where 3: "ro_invalidateTransport R a t s2 = (Inr (), s3)" "inv s3" by blast
      have "n < ro_maxRetries R - 1 \<longrightarrow> retry_round R n failed s = (Inr (Inr (n, insert a failed)), s3)"
        using got(1,2) 2(1) 3(1) address [OF assms(1), of a]
        by (auto simp: retry_round_def retry_handler_def logErrorAndThrowExceptionIfNeeded_def retry_invalidate_def sm_simps)
      then show ?thesis using got(2) True 3(2) by blast
    qed
  qed
qed

lemma failover_loop:
  assumes "finite servers" "servers - dead \<noteq> {}"
  shows "inv s \<Longrightarrow> failed \<subseteq> servers \<inter> dead \<Longrightarrow> n + int (card (servers \<inter> dead - failed)) < ro_maxRetries R
    \<Longrightarrow> card (servers \<inter> dead - failed) < fuel
    \<Longrightarrow> \<exists>v s'. retry_loop fuel R n failed s = (Inr v, s') \<and> good v \<and> inv s'"
proof (induction fuel arbitrary: s n failed)
  case (Suc fuel)
  from failover_round [OF Suc.prems(1,2) assms(2), of n] consider
    (ended) v s1 where "retry_round R n failed s = (Inr (Inl v), s1)" "good v" "inv s1"
  | (more) a s1 where "a \<in> servers \<inter> dead - failed" "inv s1"
      "n < ro_maxRetries R - 1 \<longrightarrow> retry_round R n failed s = (Inr (Inr (n, insert a failed)), s1)"
    by blast
  then show ?case
  proof cases
    case ended
    then show ?thesis using Suc.prems(3) by (simp add: shouldRetry_def sm_simps)
  next
    case more
    let ?k = "card (servers \<inter> dead - insert a failed)"
    have fin: "finite (servers \<inter> dead - failed)" using assms(1) by blast
    have k: "card (servers \<inter> dead - failed) = Suc ?k"
      by (subst Diff_insert) (rule card.remove [OF fin more(1)])
    have run: "retry_round R n failed s = (Inr (Inr (n, insert a failed)), s1)" using more(3) Suc.prems(3) k by linarith
    have "\<exists>v s'. retry_loop fuel R (n + 1) (insert a failed) s1 = (Inr v, s') \<and> good v \<and> inv s'"
    proof (rule Suc.IH [OF more(2)])
      show "insert a failed \<subseteq> servers \<inter> dead" using more(1) Suc.prems(2) by blast
      show "n + 1 + int ?k < ro_maxRetries R" "?k < fuel" using k Suc.prems(3,4) by linarith+
    qed
    then show ?thesis using run Suc.prems(3) by (simp add: shouldRetry_def sm_simps)
  qed
qed simp

lemma failover_execute:
  assumes "inv s" "finite servers" "servers - dead \<noteq> {}" "int (card (servers \<inter> dead)) < ro_maxRetries R"
    and "card (servers \<inter> dead) < fuel"
  shows "\<exists>v s'. execute fuel R s = (Inr v, s') \<and> good v \<and> inv s'"
  unfolding execute_def by (rule failover_loop) (use assms in auto)

end

section \<open>Giving transports back\<close>

lemma returnObject_run:
  assumes ok: "smap_ok (busy p)" and open': "\<not> closed p" and cfg: "\<not> testOnReturn cfg" "maxTotal cfg \<le> 0"
    and b: "map_of (busy p) a = Some (Some b)" and q: "map_of (idle p) a = Some (Some q)"
  shows "returnObject cfg f a t p = (Inr (), p\<lparr>busy := smap_put a (Some (removeAll t b)) (busy p),
    idle := smap_put a (Some (q @ [t])) (idle p), totalActive := totalActive p - 1, totalIdle := totalIdle p + 1\<rparr>)"
  using assms
  by (simp add: returnObject_def sm_simps hasReachedMaxTotal_def on_busy_def on_idle_def bq_defs add_active_def add_idle_def)

lemma invalidateObject_run:
  assumes ok: "smap_ok (busy p)" "smap_ok (idle p)" and cfg: "maxTotal cfg \<le> 0"
    and b: "map_of (busy p) a = Some (Some b)" and q: "map_of (idle p) a = Some (Some q)"
  shows "invalidateObject cfg f a (Some t) p = on_world (destroyObject f a t)
    (p\<lparr>totalActive := totalActive p - 1, busy := smap_put a (Some (removeAll t b)) (busy p)\<rparr>)"
proof -
  have same: "smap_put a (Some q) (idle p) = idle p" using ok q by (simp add: smap_put_same)
  have again: "smap_put a (Some (removeAll t b)) (smap_put a (Some (removeAll t b)) (busy p))
      = smap_put a (Some (removeAll t b)) (busy p)"
    by (rule smap_put_same) (simp_all add: smap_ok_put ok)
  show ?thesis
    using assms same again
    by (simp add: invalidateObject_def sm_simps hasReachedMaxTotal_def on_busy_def on_idle_def bq_defs add_active_def
        busy_size_def idle_size_def)
qed

section \<open>The transport factory masks dead servers\<close>

text \<open>
  \<open>conn a c\<close> describes the connections \<open>c\<close> to the server \<open>a\<close>. Connections to servers that are not dead are
  made; a dead one refuses them, or takes them and fails later. The operation succeeds on a
  connection to a live server with a \<open>good\<close> result and leaves it usable, throws the
  \<open>TransportException\<close> of the server on one to a dead server, and carries no topology change.
\<close>

definition reaches :: "tf_config \<Rightarrow> (inet \<Rightarrow> transport \<Rightarrow> bool) \<Rightarrow> inet set \<Rightarrow> bool" where
  "reaches cfg conn dead \<longleftrightarrow> (\<forall>n a.
     (\<exists>peer. tc_net cfg n a = Inr peer \<and> conn a (TcpTransport a peer))
     \<or> a \<in> dead \<and> (\<exists>m. tc_net cfg n a = Inl (TransportException (hostname a) (port a) m)))"

definition answers ::
  "(tfactory io, 'a) sm \<Rightarrow> (inet \<Rightarrow> transport \<Rightarrow> bool) \<Rightarrow> inet set \<Rightarrow> ('a \<Rightarrow> bool) \<Rightarrow> bool" where
  "answers op conn dead good \<longleftrightarrow> (\<forall>a x. conn a (tr x) \<and> t_valid (tr x) \<longrightarrow>
     fac (snd (op x)) = fac x
     \<and> (if a \<in> dead then \<exists>m. fst (op x) = Inl (TransportException (hostname a) (port a) m)
        else (\<exists>v. fst (op x) = Inr v \<and> good v) \<and> conn a (tr (snd (op x))) \<and> t_valid (tr (snd (op x)))))"

definition masks ::
  "tf_config \<Rightarrow> (tfactory io, 'a) sm \<Rightarrow> inet list \<Rightarrow> (inet \<Rightarrow> transport \<Rightarrow> bool) \<Rightarrow> inet set \<Rightarrow> ('a \<Rightarrow> bool) \<Rightarrow> bool" where
  "masks cfg op servers conn dead good \<longleftrightarrow>
     reaches cfg conn dead \<and> answers op conn dead good \<and> plain_pool cfg \<and> maxActive (tc_pool cfg) < 0
     \<and> \<not> testOnReturn (tc_pool cfg) \<and> (\<forall>a \<in> set servers. 0 \<le> port a \<and> port a < 65536)"

text \<open>The idle transports of a server are usable connections to it.\<close>

definition addressed :: "(inet \<Rightarrow> transport \<Rightarrow> bool) \<Rightarrow> (world, nat) pool \<Rightarrow> bool" where
  "addressed conn p \<longleftrightarrow> (\<forall>a t. t \<in># objs_at (idle p) a \<longrightarrow>
     (\<exists>c. conns (world p) t = Some (a, c) \<and> conn a c \<and> t_valid c))"

definition ready ::
  "tf_config \<Rightarrow> inet list \<Rightarrow> (inet \<Rightarrow> transport \<Rightarrow> bool) \<Rightarrow> tfactory \<Rightarrow> bool" where
  "ready cfg servers conn f \<longleftrightarrow> tf_ok cfg f \<and> \<not> closed (cpool f) \<and> rr_servers (balancer f) = servers
     \<and> addressed conn (cpool f)"

definition took :: "inet \<Rightarrow> nat \<Rightarrow> (transport \<Rightarrow> bool) \<Rightarrow> tfactory \<Rightarrow> bool" where
  "took a t P f \<longleftrightarrow> a \<in> served (cpool f) \<and> t \<in># objs_at (busy (cpool f)) a
     \<and> (\<exists>c. conns (world (cpool f)) t = Some (a, c) \<and> P c)"

lemma reaches_net_ok:
  assumes "reaches cfg conn dead"
  shows "net_ok cfg"
  unfolding net_ok_def
proof (intro allI)
  fix n a m
  show "tc_net cfg n a \<noteq> Inl (UndefinedBehaviour m)"
    using assms [unfolded reaches_def, rule_format, of n a] by auto
qed

lemma ready_queues:
  assumes "ready cfg servers conn f" "a \<in> served (cpool f)"
  obtains q b where "map_of (idle (cpool f)) a = Some (Some q)" "map_of (busy (cpool f)) a = Some (Some b)"
    "smap_ok (idle (cpool f))" "smap_ok (busy (cpool f))"
proof -
  have "pool_struct (tc_pool cfg) 0 (cpool f)" "served (cpool f) \<subseteq> dom (map_of (busy (cpool f)))"
    using assms(1) by (simp_all add: ready_def tf_ok_def tcp.pool_ok_def)
  then show ?thesis
    using assms(2) that by (fastforce simp: pool_struct_def served_def no_null_def)
qed

lemma make_run:
  assumes "reaches cfg conn dead" "makeObject (obj_fac cfg) a w = (r, w')"
  shows "(\<exists>c. r = Inr (next_addr w) \<and> conns w' = (conns w)(next_addr w \<mapsto> (a, c)) \<and> conn a c \<and> t_valid c)
    \<or> (a \<in> dead \<and> conns w' = conns w \<and> (\<exists>m. r = Inl (TransportException (hostname a) (port a) m)))"
proof -
  consider peer where "tc_net cfg (attempts w) a = Inr peer" "conn a (TcpTransport a peer)"
    | m where "a \<in> dead" "tc_net cfg (attempts w) a = Inl (TransportException (hostname a) (port a) m)"
    using assms(1) unfolding reaches_def by blast
  then show ?thesis
    using assms(2)
    by cases (auto simp: obj_fac_def TransportObjectFactory_def tcp_makeObject_def TcpTransport_def Let_def)
qed

lemma borrow_ready:
  assumes m: "masks cfg op servers conn dead good" and f: "ready cfg servers conn f" and a: "a \<in> set servers"
    and run: "borrowTransportFromPool cfg a f = (r, f')"
  shows "ready cfg servers conn f' \<and>
    ((\<exists>t. r = Inr t \<and> took a t (\<lambda>c. conn a c \<and> t_valid c) f')
     \<or> (a \<in> dead \<and> (\<exists>m. r = Inl (TransportException (hostname a) (port a) m))))"
proof -
  let ?p = "cpool f"
  have cfg: "plain_pool cfg" "reaches cfg conn dead" "maxActive (tc_pool cfg) < 0" using m by (simp_all add: masks_def)
  have ok: "tf_ok cfg f" "\<not> closed ?p" "addressed conn ?p" "a \<in> served ?p"
    using f a by (auto simp: ready_def tf_ok_def)
  have part: "pool_part cfg f" using ok(1) by (simp add: tf_ok_def pool_part_def)
  note bs = borrow_served [OF part cfg(1) ok(4,2) run reaches_net_ok [OF cfg(2)]]
  then obtain p' where p': "f' = f\<lparr>cpool := p'\<rparr>" "pool_part cfg f'" "served p' = served ?p" by auto
  have busy: "t \<in># objs_at (busy p') a" if "r = Inr t" for t using bs p'(1) that by simp
  have tf: "tf_ok cfg f'" using ok(1) p' by (auto simp: tf_ok_def pool_part_def)
  obtain q b where qb: "map_of (idle ?p) a = Some (Some q)" "map_of (busy ?p) a = Some (Some b)"
    "smap_ok (idle ?p)" "smap_ok (busy ?p)"
    using ready_queues [OF f ok(4)] .
  obtain n where n: "tc_fuel cfg = Suc (Suc n)" using cfg(1) by (metis add_2_eq_Suc le_Suc_ex plain_pool_def)
  have "\<not> testOnBorrow (tc_pool cfg)" "maxTotal (tc_pool cfg) \<le> 0" using cfg(1) by (simp_all add: plain_pool_def)
  note br = borrowObject_run [OF ok(2) qb(3,4,1,2) this n, of "obj_fac cfg"]
  have bo: "borrowObject (tc_fuel cfg) (tc_pool cfg) (obj_fac cfg) a ?p = (r, p')"
    using run p'(1)
    by (auto simp: borrowTransportFromPool_def on_pool_def on_part_run dest: arg_cong [of _ _ cpool] split: prod.splits)
  have idle_addr: "\<And>a' t. t \<in># objs_at (idle ?p) a' \<Longrightarrow> \<exists>c. conns (world ?p) t = Some (a', c) \<and> conn a' c \<and> t_valid c"
    using ok(3) by (simp add: addressed_def)
  have idle_live: "t \<noteq> next_addr (world ?p)" if "t \<in># objs_at (idle ?p) a'" for a' t
    using ok(1) mset_subset_eqD [OF objs_at_subset that] by (auto simp: tf_ok_def tcp.pool_ok_def owned_def live_def)
  have res: "closed p' = closed ?p \<and> addressed conn p' \<and> ((\<exists>t c. r = Inr t \<and> conns (world p') t = Some (a, c) \<and> conn a c \<and> t_valid c)
      \<or> (a \<in> dead \<and> (\<exists>m. r = Inl (TransportException (hostname a) (port a) m))))"
  proof (cases q)
    case (Cons t ts)
    then have r: "r = Inr t" "p' = hand_out a b t (?p\<lparr>idle := smap_put a (Some ts) (idle ?p), totalIdle := totalIdle ?p - 1\<rparr>)"
      using br bo by auto
    moreover have "t \<in># objs_at (idle ?p) a" using qb(1) Cons by (simp add: objs_at_def)
    moreover have "addressed conn p'"
      unfolding addressed_def
    proof (intro allI impI)
      fix a' t' assume "t' \<in># objs_at (idle p') a'"
      then have "t' \<in># objs_at (idle ?p) a'"
        using r(2) qb(1) Cons by (auto simp: hand_out_def objs_at_def split: if_splits)
      from idle_addr [OF this] show "\<exists>c. conns (world p') t' = Some (a', c) \<and> conn a' c \<and> t_valid c"
        using r(2) by (simp add: hand_out_def)
    qed
    ultimately show ?thesis using idle_addr [of t a] by (auto simp: hand_out_def)
  next
    case Nil
    obtain r1 w1 where mk: "makeObject (obj_fac cfg) a (world ?p) = (r1, w1)" by fastforce
    then have r: "r = r1" "world p' = w1" "idle p' = idle ?p" "closed p' = closed ?p"
      using br bo Nil cfg(3) by (auto simp: hand_out_def split: sum.splits)
    have "conns w1 t = conns (world ?p) t" if "t \<in># objs_at (idle ?p) a'" for a' t
      using make_run [OF cfg(2) mk] idle_live [OF that] by auto
    then have "addressed conn p'" using ok(3) r by (simp add: addressed_def)
    then show ?thesis using make_run [OF cfg(2) mk] r by auto
  qed
  have "ready cfg servers conn f'" using tf res f p'(1) by (simp add: ready_def)
  then show ?thesis using res busy p'(1,3) ok(4) by (auto simp: took_def)
qed

text \<open>Releasing and invalidating a transport the operation has taken.\<close>

lemma took_live:
  assumes "tf_ok cfg f" "took a t P f"
  shows "t \<in> live (world (cpool f))" and "t \<notin># objs_at (idle (cpool f)) a'"
proof -
  have own: "owned (objs (idle (cpool f)) + objs (busy (cpool f))) (live (world (cpool f)))"
    using assms(1) by (simp add: tf_ok_def tcp.pool_ok_def)
  have t: "t \<in># objs (busy (cpool f))"
    using assms(2) mset_subset_eqD [OF objs_at_subset] unfolding took_def by metis
  then show "t \<in> live (world (cpool f))" using own by (auto simp: owned_def)
  have "count (objs (idle (cpool f))) t + count (objs (busy (cpool f))) t \<le> 1" "0 < count (objs (busy (cpool f))) t"
    using own t by (auto simp: owned_def)
  then have "t \<notin># objs (idle (cpool f))" unfolding not_in_iff by linarith
  then show "t \<notin># objs_at (idle (cpool f)) a'" using mset_subset_eqD [OF objs_at_subset] by metis
qed

lemma release_ready:
  assumes m: "masks cfg op servers conn dead good" and f: "ready cfg servers conn f"
    and t: "took a t (\<lambda>c. conn a c \<and> t_valid c) f"
  shows "\<exists>f'. releaseTransport cfg t f = (Inr (), f') \<and> ready cfg servers conn f'"
proof -
  let ?p = "cpool f"
  have a: "a \<in> served ?p" "t \<in># objs_at (busy ?p) a" using t by (simp_all add: took_def)
  obtain c where c: "conns (world ?p) t = Some (a, c)" "conn a c" "t_valid c" using t by (auto simp: took_def)
  have cfg: "\<not> testOnReturn (tc_pool cfg)" "maxTotal (tc_pool cfg) \<le> 0" using m by (simp_all add: masks_def plain_pool_def)
  have ok: "tf_ok cfg f" "\<not> closed ?p" "addressed conn ?p" using f by (simp_all add: ready_def)
  obtain q b where qb: "map_of (idle ?p) a = Some (Some q)" "map_of (busy ?p) a = Some (Some b)"
    "smap_ok (idle ?p)" "smap_ok (busy ?p)"
    using ready_queues [OF f a(1)] .
  let ?p' = "?p\<lparr>busy := smap_put a (Some (removeAll t b)) (busy ?p), idle := smap_put a (Some (q @ [t])) (idle ?p),
    totalActive := totalActive ?p - 1, totalIdle := totalIdle ?p + 1\<rparr>"
  have run: "returnObject (tc_pool cfg) (obj_fac cfg) a t ?p = (Inr (), ?p')"
    by (rule returnObject_run [OF qb(4) ok(2) cfg qb(2,1)])
  have "tcp.pool_ok (tc_pool cfg) 0 {#} ?p'"
    by (rule tcp.hoare_step [OF tcp.returnObject_ok _ run [unfolded obj_fac_def]])
       (use ok(1) a(2) in \<open>simp_all add: tf_ok_def defined_def\<close>)
  then have "tf_ok cfg (f\<lparr>cpool := ?p'\<rparr>)"
    using ok(1) qb(1,2) by (auto simp: tf_ok_def served_def)
  moreover have "addressed conn ?p'"
    using ok(3) c qb(1) by (auto simp: addressed_def objs_at_def)
  moreover have "releaseTransport cfg t f = (Inr (), f\<lparr>cpool := ?p'\<rparr>)"
    using c run by (simp add: releaseTransport_def heap_get_def bind_run on_pool_def on_part_run)
  ultimately show ?thesis using f by (simp add: ready_def)
qed

lemma invalidate_ready:
  assumes m: "masks cfg op servers conn dead good" and f: "ready cfg servers conn f" and t: "took a t P f"
  shows "\<exists>f'. invalidateTransport cfg a (Some t) f = (Inr (), f') \<and> ready cfg servers conn f'"
proof -
  let ?p = "cpool f"
  have a: "a \<in> served ?p" "t \<in># objs_at (busy ?p) a" using t by (simp_all add: took_def)
  have cfg: "maxTotal (tc_pool cfg) \<le> 0" using m by (simp add: masks_def plain_pool_def)
  have ok: "tf_ok cfg f" "\<not> closed ?p" "addressed conn ?p" using f by (simp_all add: ready_def)
  obtain q b where qb: "map_of (idle ?p) a = Some (Some q)" "map_of (busy ?p) a = Some (Some b)"
    "smap_ok (idle ?p)" "smap_ok (busy ?p)"
    using ready_queues [OF f a(1)] .
  let ?p1 = "?p\<lparr>totalActive := totalActive ?p - 1, busy := smap_put a (Some (removeAll t b)) (busy ?p)\<rparr>"
  let ?p' = "?p1\<lparr>world := (world ?p)\<lparr>conns := (conns (world ?p))(t := None)\<rparr>\<rparr>"
  have "t \<in> dom (conns (world ?p))" using t by (auto simp: took_def)
  then have run: "invalidateObject (tc_pool cfg) (obj_fac cfg) a (Some t) ?p = (Inr (), ?p')"
    by (subst invalidateObject_run [OF qb(4,3) cfg qb(2,1)])
       (simp add: on_world_def on_part_run obj_fac_def TransportObjectFactory_def tcp_destroyObject_def)
  have "tcp.pool_ok (tc_pool cfg) 0 {#} ?p'"
    by (rule tcp.hoare_step [OF tcp.invalidateObject_ok _ run [unfolded obj_fac_def]])
       (use ok(1) a(2) in \<open>simp_all add: tf_ok_def defined_def\<close>)
  then have "tf_ok cfg (f\<lparr>cpool := ?p'\<rparr>)"
    using ok(1) qb(1,2) by (auto simp: tf_ok_def served_def)
  moreover have "addressed conn ?p'"
    using ok(3) took_live(2) [OF ok(1) t] by (auto simp: addressed_def)
  moreover have "invalidateTransport cfg a (Some t) f = (Inr (), f\<lparr>cpool := ?p'\<rparr>)"
    using run by (simp add: invalidateTransport_def on_pool_def on_part_run)
  ultimately show ?thesis using f by (simp add: ready_def)
qed

lemma exec_ready:
  assumes m: "masks cfg op servers conn dead good" and f: "ready cfg servers conn (cl_fac s)"
    and t: "took a t (\<lambda>c. conn a c \<and> t_valid c) (cl_fac s)" and run: "on_transport t op s = (r, s')"
  shows "ready cfg servers conn (cl_fac s')
    \<and> (if a \<in> dead then (\<exists>m. r = Inl (TransportException (hostname a) (port a) m)) \<and> took a t (\<lambda>c. True) (cl_fac s')
       else (\<exists>v. r = Inr v \<and> good v) \<and> took a t (\<lambda>c. conn a c \<and> t_valid c) (cl_fac s'))"
proof -
  let ?w = "world (cpool (cl_fac s))"
  obtain c where c: "conns ?w t = Some (a, c)" "conn a c" "t_valid c" using t by (auto simp: took_def)
  define x where "x = \<lparr>tr = c, fac = cl_fac s, topo = cl_topo s, msgId = w_msgId ?w\<rparr>"
  have op: "fac (snd (op x)) = cl_fac s"
    "if a \<in> dead then \<exists>m. fst (op x) = Inl (TransportException (hostname a) (port a) m)
     else (\<exists>v. fst (op x) = Inr v \<and> good v) \<and> conn a (tr (snd (op x))) \<and> t_valid (tr (snd (op x)))"
    using m c(2,3) unfolding masks_def answers_def by (auto simp: x_def dest!: spec [of _ a] spec [of _ x])
  let ?w' = "put_conn t a (snd (op x)) ?w"
  have s': "r = fst (op x)" "cl_fac s' = (cl_fac s)\<lparr>cpool := (cpool (cl_fac s))\<lparr>world := ?w'\<rparr>\<rparr>"
    using run c(1) op(1) by (auto simp: on_transport_def x_def split: prod.splits)
  have w': "live ?w' = live ?w" "conns ?w' = (conns ?w)(t \<mapsto> (a, tr (snd (op x))))"
    using c(1) by (auto simp: put_conn_def live_def)
  have tf: "tf_ok cfg (cl_fac s)" using f by (simp add: ready_def)
  then have "tf_ok cfg (cl_fac s')" using s'(2) w'(1) by (simp add: tf_ok_def tcp.pool_ok_def served_def)
  moreover have "addressed conn (cpool (cl_fac s'))"
    using f s'(2) w'(2) took_live(2) [OF tf t] by (auto simp: ready_def addressed_def)
  ultimately have "ready cfg servers conn (cl_fac s')" using f s'(2) by (simp add: ready_def)
  then show ?thesis using op(2) s' w'(2) t by (auto simp: took_def served_def)
qed

lemma get_ready:
  assumes m: "masks cfg op servers conn dead good" and f: "ready cfg servers conn f" and some: "set servers - failed \<noteq> {}"
    and run: "getTransport cfg cacheName failed f = (r, f')"
  shows "\<exists>a \<in> set servers - failed. ready cfg servers conn f'
    \<and> ((\<exists>t. r = Inr t \<and> took a t (\<lambda>c. conn a c \<and> t_valid c) f')
       \<or> (a \<in> dead \<and> (\<exists>m. r = Inl (TransportException (hostname a) (port a) m))))"
proof -
  have rr: "rr_ok (balancer f)" "rr_servers (balancer f) = servers" using f by (simp_all add: ready_def tf_ok_def)
  obtain r1 b1 where next1: "nextServer failed (balancer f) = (r1, b1)" by fastforce
  note spec = nextServer_ok [OF rr(1), of failed, unfolded next1 rr(2)]
  then obtain a where a: "r1 = Inr a" "a \<in> set servers - failed" "rr_ok b1" "rr_servers b1 = servers"
    using some by (cases r1) auto
  let ?f1 = "f\<lparr>balancer := b1\<rparr>"
  have "ready cfg servers conn ?f1" using f a by (auto simp: ready_def tf_ok_def)
  moreover have "borrowTransportFromPool cfg a ?f1 = (r, f')"
    using run next1 a(1) by (simp add: getTransport_def bind_run on_part_run)
  ultimately show ?thesis using borrow_ready [OF m] a(2) by blast
qed

definition fo_inv ::
  "tf_config \<Rightarrow> (tfactory io, 'a) sm \<Rightarrow> inet list \<Rightarrow> (inet \<Rightarrow> transport \<Rightarrow> bool) \<Rightarrow> inet set \<Rightarrow> ('a \<Rightarrow> bool) \<Rightarrow> client \<Rightarrow> bool" where
  "fo_inv cfg op servers conn dead good s \<longleftrightarrow> masks cfg op servers conn dead good \<and> ready cfg servers conn (cl_fac s)"

interpretation fo: failover "operation_on cfg cacheName key op" "fo_inv cfg op servers conn dead good"
    "\<lambda>a t s. fo_inv cfg op servers conn dead good s \<and> took a t (\<lambda>c. conn a c \<and> t_valid c) (cl_fac s)"
    "\<lambda>a t s. fo_inv cfg op servers conn dead good s \<and> took a t (\<lambda>c. True) (cl_fac s)"
    "set servers" dead good
  for cfg cacheName key and op :: "(tfactory io, 'a) sm" and servers conn dead good
proof
  fix s :: client and failed :: "inet set" and n :: int
  assume inv: "fo_inv cfg op servers conn dead good s" and some: "set servers - failed \<noteq> {}"
  then have m: "masks cfg op servers conn dead good" and f: "ready cfg servers conn (cl_fac s)" by (simp_all add: fo_inv_def)
  obtain r f' where run: "getTransport cfg cacheName failed (cl_fac s) = (r, f')" by fastforce
  have "ti_ok (ti (cl_fac s))" using f by (simp add: ready_def tf_ok_def)
  then have "ro_getTransport (operation_on cfg cacheName key op) n failed s = (r, s\<lparr>cl_fac := f'\<rparr>)"
    using run getTransportForKey_run [of "cl_fac s" cfg _ cacheName failed]
    by (simp add: operation_on_def on_cl_def on_part_run split: option.splits)
  then show "(\<exists>a t s'. ro_getTransport (operation_on cfg cacheName key op) n failed s = (Inr t, s') \<and> a \<in> set servers - failed
        \<and> fo_inv cfg op servers conn dead good s' \<and> took a t (\<lambda>c. conn a c \<and> t_valid c) (cl_fac s'))
    \<or> (\<exists>a m s'. ro_getTransport (operation_on cfg cacheName key op) n failed s
          = (Inl (TransportException (hostname a) (port a) m), s')
        \<and> a \<in> set servers \<inter> dead - failed \<and> fo_inv cfg op servers conn dead good s')"
    using get_ready [OF m f some run] m by (fastforce simp: fo_inv_def)
next
  fix a t s
  assume "fo_inv cfg op servers conn dead good s \<and> took a t (\<lambda>c. conn a c \<and> t_valid c) (cl_fac s)" "a \<notin> dead"
  then show "\<exists>v s'. ro_executeOperation (operation_on cfg cacheName key op) t s = (Inr v, s') \<and> good v
      \<and> fo_inv cfg op servers conn dead good s' \<and> took a t (\<lambda>c. conn a c \<and> t_valid c) (cl_fac s')"
    using exec_ready [of cfg op servers conn dead good s a t]
    by (cases "on_transport t op s") (auto simp: fo_inv_def operation_on_def)
next
  fix a t s
  assume "fo_inv cfg op servers conn dead good s \<and> took a t (\<lambda>c. conn a c \<and> t_valid c) (cl_fac s)" "a \<in> dead"
  then show "\<exists>m s'. ro_executeOperation (operation_on cfg cacheName key op) t s
      = (Inl (TransportException (hostname a) (port a) m), s')
      \<and> fo_inv cfg op servers conn dead good s' \<and> took a t (\<lambda>c. True) (cl_fac s')"
    using exec_ready [of cfg op servers conn dead good s a t]
    by (cases "on_transport t op s") (auto simp: fo_inv_def operation_on_def)
next
  fix a t s
  assume "fo_inv cfg op servers conn dead good s \<and> took a t (\<lambda>c. conn a c \<and> t_valid c) (cl_fac s)"
  then show "\<exists>s'. ro_releaseTransport (operation_on cfg cacheName key op) t s = (Inr (), s')
      \<and> fo_inv cfg op servers conn dead good s'"
    using release_ready [of cfg op servers conn dead good "cl_fac s" a t]
    by (auto simp: fo_inv_def operation_on_def on_cl_def on_part_run)
next
  fix a t s
  assume "fo_inv cfg op servers conn dead good s \<and> took a t (\<lambda>c. True) (cl_fac s)"
  then show "\<exists>s'. ro_invalidateTransport (operation_on cfg cacheName key op) a t s = (Inr (), s')
      \<and> fo_inv cfg op servers conn dead good s'"
    using invalidate_ready [of cfg op servers conn dead good "cl_fac s" a t "\<lambda>c. True"]
    by (auto simp: fo_inv_def operation_on_def on_cl_def on_part_run)
next
  fix s a
  assume "fo_inv cfg op servers conn dead good s" "a \<in> set servers"
  then show "InetSocketAddress (hostname a) (port a) = a"
    by (cases a) (auto simp: fo_inv_def masks_def InetSocketAddress_def)
qed


text \<open>Two servers of which the first refuses connections; the other one keeps a cache.\<close>

definition one_down :: network where
  "one_down n a = (if a = Inet ''a'' 1 then Inl (TransportException ''a'' 1 ''connect'') else Inr reference_server)"

definition one_down_config :: tf_config where
  "one_down_config = plain_tf_config\<lparr>tc_net := one_down\<rparr>"

definition fresh_conn :: "inet \<Rightarrow> transport \<Rightarrow> bool" where
  "fresh_conn a c \<longleftrightarrow> a \<noteq> Inet ''a'' 1 \<and> pending (t_inp c) = [] \<and> t_out c = [] \<and> serves_cache (t_peer c)
     \<and> cache_after (t_sent c) = empty_cache"

lemma one_down_masks:
  "masks one_down_config (client_op (TransportFactory_iface one_down_config) session_ctx (OpContainsKey [1]))
     [Inet ''a'' 1, Inet ''a'' 2] fresh_conn {Inet ''a'' 1} (\<lambda>v. v = Found False)"
proof -
  let ?op = "client_op (TransportFactory_iface one_down_config) session_ctx (OpContainsKey [1])"
  have ctx: "ctx_ok session_ctx"
    by (simp add: ctx_ok_def session_ctx_def media_type_ok_def example_format_def MediaType_def)
  have srv: "serves_cache reference_server" by (simp add: serves_cache_def reference_server_def)
  have "fac (snd (?op x)) = fac x \<and> fst (?op x) = Inr (Found False) \<and> fresh_conn a (tr (snd (?op x))) \<and> t_valid (tr (snd (?op x)))"
    if "fresh_conn a (tr x)" "t_valid (tr x)" for a and x :: "tfactory io"
  proof -
    have q: "quiet x" "serves_cache (t_peer (tr x))" "cache_after (t_sent (tr x)) = empty_cache"
      using that(1) by (simp_all add: fresh_conn_def quiet_def inp_of_def)
    have "cache_op_ok (OpContainsKey [1])" by simp
    note r = client_op_refines(1) [OF q(1,2) ctx this, of "TransportFactory_iface one_down_config"]
      client_op_refines(2) [OF q(1,2) ctx this]
    show ?thesis
      using r q that by (simp add: fresh_conn_def exchanged_def empty_cache_def)
  qed
  then have "answers ?op fresh_conn {Inet ''a'' 1} (\<lambda>v. v = Found False)"
    by (auto simp: answers_def fresh_conn_def)
  moreover have "reaches one_down_config fresh_conn {Inet ''a'' 1}"
    using srv by (auto simp: reaches_def one_down_config_def one_down_def fresh_conn_def TcpTransport_def cache_after_def)
  ultimately show ?thesis
    by (simp add: masks_def plain_pool_def one_down_config_def plain_tf_config_def example_tf_config_def example_cfg_def)
qed


section \<open>Termination\<close>

text \<open>\<open>yields m P\<close>: from every state \<open>m\<close> ends, and its result has \<open>P\<close> when it returns one.\<close>

definition yields :: "('s, 'a) sm \<Rightarrow> ('a \<Rightarrow> bool) \<Rightarrow> bool" where
  "yields m P \<longleftrightarrow> (\<forall>s. case fst (m s) of Inl e \<Rightarrow> e \<noteq> OutOfFuel | Inr x \<Rightarrow> P x)"

abbreviation ends :: "('s, 'a) sm \<Rightarrow> bool" where
  "ends m \<equiv> yields m (\<lambda>_. True)"

lemma yields_run: "yields m P \<Longrightarrow> m s = (r, s') \<Longrightarrow> case r of Inl e \<Rightarrow> e \<noteq> OutOfFuel | Inr x \<Rightarrow> P x"
  by (metis fst_conv yields_def)

lemma yields_bind: "yields m Q \<Longrightarrow> (\<And>x. Q x \<Longrightarrow> yields (f x) P) \<Longrightarrow> yields (bind m f) P"
proof (unfold yields_def, rule allI)
  fix s
  assume m: "\<forall>s. case fst (m s) of Inl e \<Rightarrow> e \<noteq> OutOfFuel | Inr x \<Rightarrow> Q x"
    and f: "\<And>x. Q x \<Longrightarrow> \<forall>s. case fst (f x s) of Inl e \<Rightarrow> e \<noteq> OutOfFuel | Inr x \<Rightarrow> P x"
  obtain r s1 where r: "m s = (r, s1)" by fastforce
  then show "case fst (bind m f s) of Inl e \<Rightarrow> e \<noteq> OutOfFuel | Inr x \<Rightarrow> P x"
    using m [rule_format, of s] f by (cases r) (simp_all add: bind_run)
qed

lemma yields_seq: "ends m \<Longrightarrow> yields k P \<Longrightarrow> yields (seq m k) P"
  unfolding seq_def by (rule yields_bind)

lemma yields_catch: "yields m P \<Longrightarrow> (\<And>e. e \<noteq> OutOfFuel \<Longrightarrow> yields (h e) P) \<Longrightarrow> yields (catch m h) P"
proof (unfold yields_def, rule allI)
  fix s
  assume m: "\<forall>s. case fst (m s) of Inl e \<Rightarrow> e \<noteq> OutOfFuel | Inr x \<Rightarrow> P x"
    and h: "\<And>e. e \<noteq> OutOfFuel \<Longrightarrow> \<forall>s. case fst (h e s) of Inl e \<Rightarrow> e \<noteq> OutOfFuel | Inr x \<Rightarrow> P x"
  obtain r s1 where r: "m s = (r, s1)" by fastforce
  then show "case fst (catch m h s) of Inl e \<Rightarrow> e \<noteq> OutOfFuel | Inr x \<Rightarrow> P x"
    using m [rule_format, of s] h by (cases r) (simp_all add: catch_run)
qed

lemma yields_part: "yields m P \<Longrightarrow> yields (on_part g p m) P"
  by (simp add: yields_def on_part_run split_beta)

lemma yields_mono: "yields m Q \<Longrightarrow> (\<And>x. Q x \<Longrightarrow> P x) \<Longrightarrow> yields m P"
  unfolding yields_def by (metis (mono_tags, lifting) old.sum.exhaust old.sum.simps(5,6))

lemma yields_basic [simp]:
  "yields (ret x) P \<longleftrightarrow> P x" "yields (raise e) P \<longleftrightarrow> e \<noteq> OutOfFuel" "ends (gets f)" "ends (modify g)"
  by (auto simp: yields_def sm_simps)

lemma ends_iff: "ends m \<longleftrightarrow> (\<forall>s. fst (m s) \<noteq> Inl OutOfFuel)"
  by (auto simp: yields_def split: sum.splits)

definition members_end :: "('s, 't, 'a) retry_ops \<Rightarrow> bool" where
  "members_end R \<longleftrightarrow> (\<forall>n failed. ends (ro_getTransport R n failed)) \<and> (\<forall>t. ends (ro_executeOperation R t))
     \<and> (\<forall>t. ends (ro_releaseTransport R t)) \<and> (\<forall>a t. ends (ro_invalidateTransport R a t))
     \<and> (\<forall>a. ends (ro_addFailedServer R a)) \<and> yields (ro_clusterSwitch R) (\<lambda>switched. \<not> switched)"

text \<open>A failed round that is to be repeated keeps the retry count, which then is below \<open>maxRetries - 1\<close>.\<close>

abbreviation (input) again :: "('s, 't, 'a) retry_ops \<Rightarrow> int \<Rightarrow> int \<Rightarrow> bool" where
  "again R n n' \<equiv> n' = n \<and> n < ro_maxRetries R - 1"

lemma log_again: "members_end R \<Longrightarrow> e \<noteq> OutOfFuel \<Longrightarrow> yields (logErrorAndThrowExceptionIfNeeded R n e) (again R n)"
  unfolding logErrorAndThrowExceptionIfNeeded_def members_end_def by (auto intro!: yields_bind)

lemma release_ends: "members_end R \<Longrightarrow> ends (retry_release R t)" "members_end R \<Longrightarrow> ends (retry_invalidate R a t)"
  by (auto simp: members_end_def retry_release_def retry_invalidate_def split: option.splits)

lemma handler_again:
  assumes "members_end R" "e \<noteq> OutOfFuel"
  shows "yields (retry_handler R t n failed e) (\<lambda>x. again R n (fst x))"
  using assms release_ends [OF assms(1)]
  by (cases e) (auto simp: retry_handler_def Let_def intro!: yields_seq yields_bind [OF log_again])

lemma round_again:
  assumes "members_end R"
  shows "yields (retry_round R n failed) (\<lambda>r. case r of Inl v \<Rightarrow> True | Inr x \<Rightarrow> again R n (fst x))"
proof -
  have get: "yields (catch (bind (ro_getTransport R n failed) (\<lambda>t. ret (Inr t))) (\<lambda>e. ret (Inl e)))
      (\<lambda>got. got \<noteq> Inl OutOfFuel)"
    using assms by (intro yields_catch yields_bind) (auto simp: members_end_def)
  show ?thesis
    using assms unfolding retry_round_def
    by (intro yields_bind [OF get])
       (auto simp: members_end_def [of R] simp del: split_paired_All intro!: yields_catch yields_seq
         handler_again [OF assms] yields_bind split: sum.splits)
qed

lemma loop_ends:
  assumes "members_end R"
  shows "0 \<le> n \<Longrightarrow> ro_maxRetries R - n \<le> int fuel \<Longrightarrow> 0 < fuel \<Longrightarrow> ends (retry_loop fuel R n failed)"
proof (induction fuel arbitrary: n failed)
  case (Suc fuel)
  have "ends (retry_loop fuel R (fst x + 1) (snd x))" if "again R n (fst x)" for x
    using Suc.IH [of "n + 1" "snd x"] Suc.prems that by auto
  then show ?case
    by (auto intro!: yields_bind [OF round_again [OF assms]] split: sum.splits)
qed simp

text \<open>The specialization for void operations, in the same way.\<close>

lemma void_round_again:
  assumes "members_end R"
  shows "yields (void_round R n) (\<lambda>r. case r of Inl v \<Rightarrow> True | Inr n' \<Rightarrow> again R n n')"
proof -
  have handler: "yields (void_handler R t n e) (again R n)" if "e \<noteq> OutOfFuel" for t e
    using assms that release_ends [OF assms] log_again [OF assms that]
    by (cases e) (auto simp: void_handler_def Let_def members_end_def [of R] intro!: yields_seq)
  have get: "yields (catch (bind (gets (ro_getFailedServers R)) (\<lambda>failed. bind (ro_getTransport R n failed) (\<lambda>t. ret (Inr t))))
      (\<lambda>e. ret (Inl e))) (\<lambda>got. got \<noteq> Inl OutOfFuel)"
    using assms
    by (intro yields_catch yields_bind [of _ "\<lambda>_. True"]) (auto simp: members_end_def)
  show ?thesis
    using assms unfolding void_round_def
    by (intro yields_bind [OF get])
       (auto simp: members_end_def [of R] intro!: yields_catch yields_seq yields_bind handler split: sum.splits)
qed

lemma void_loop_ends:
  assumes "members_end R"
  shows "0 \<le> n \<Longrightarrow> ro_maxRetries R - n \<le> int fuel \<Longrightarrow> 0 < fuel \<Longrightarrow> ends (void_loop fuel R n)"
proof (induction fuel arbitrary: n)
  case (Suc fuel)
  have "ends (void_loop fuel R (n' + 1))" if "again R n n'" for n'
    using Suc.IH [of "n + 1"] Suc.prems that by auto
  then show ?case
    by (auto intro!: yields_bind [OF void_round_again [OF assms]] split: sum.splits)
qed simp

text \<open>
  C24. The retry loop ends: when the functions it calls end and no other cluster takes over, it runs
  the operation at most \<open>max 1 maxRetries\<close> times, in both specializations and from every state.
\<close>

theorem execute_terminates:
  assumes "members_end R" "members_end V" "ro_maxRetries R \<le> int fuel" "ro_maxRetries V \<le> int fuel" "0 < fuel"
  shows "fst (execute fuel R s) \<noteq> Inl OutOfFuel \<and> fst (execute_void fuel V u) \<noteq> Inl OutOfFuel"
proof -
  have "ends (execute fuel R)" "ends (execute_void fuel V)"
    unfolding execute_def execute_void_def
    using loop_ends [OF assms(1)] void_loop_ends [OF assms(2)] assms(3-5) by simp_all
  then show ?thesis
    by (auto simp: ends_iff)
qed

text \<open>Servers that break every connection: the state counts the rounds.\<close>

definition breaking :: "(nat, unit, unit) retry_ops" where
  "breaking = \<lparr>ro_getTransport = (\<lambda>n failed. ret ()),
     ro_executeOperation = (\<lambda>t. seq (modify Suc) (raise (TransportException ''a'' 1 ''read''))),
     ro_releaseTransport = (\<lambda>t. ret ()), ro_invalidateTransport = (\<lambda>a t. ret ()), ro_clusterSwitch = ret False,
     ro_maxRetries = 3, ro_getFailedServers = (\<lambda>s. {}), ro_addFailedServer = (\<lambda>a. ret ())\<rparr>"

theorem execute_terminates_witness:
  "fst (execute 3 breaking 0) \<noteq> Inl OutOfFuel \<and> fst (execute_void 3 breaking 0) \<noteq> Inl OutOfFuel
   \<and> execute 3 breaking 0 = (Inl (TransportException ''a'' 1 ''read''), 3)"
proof -
  have "members_end breaking" by (auto simp: members_end_def breaking_def intro!: yields_seq)
  from execute_terminates [OF this this, of 3 0 0] show ?thesis
    by (simp add: breaking_def execute_def numeral_3_eq_3 shouldRetry_def retry_round_def retry_handler_def
        logErrorAndThrowExceptionIfNeeded_def retry_invalidate_def Let_def sm_simps)
qed

end
