(* ===== verification/HR_RemoteCache_Correct.thy ===== *)
theory HR_RemoteCache_Correct
  imports HR_RemoteCache HR_Retry_Correct
begin

text \<open>
  The calls of \<open>RemoteCacheImpl\<close> through the whole stack, flags, operations factory, retry loop, pool,
  transport and codec, compute the operations on a map from keys to versioned values. The contract
  is the locale \<open>versioned_map\<close>; it is stated for the application's keys and values and is interpreted
  on \<open>RemoteCacheImpl\<close> here and on the near cache later.
\<close>

section \<open>The contract\<close>

datatype ('k, 'v) call =
    Get 'k
  | GetWithVersion 'k
  | ContainsKey 'k
  | Put 'k 'v u64 u64
  | PutIfAbsent 'k 'v u64 u64
  | Replace 'k 'v u64 u64
  | Remove 'k
  | ReplaceWithVersion 'k 'v u64 u64 u64
  | RemoveWithVersion 'k u64
  | Clear
  | WithFlags u32

datatype 'v answer =
    AValue "'v option"
  | AVersioned "'v option \<times> u64"
  | ABool bool
  | AUnit

text \<open>A map with versions; \<open>vm_force\<close> is the flag \<open>FORCE_RETURN_VALUE\<close> given for the next call.\<close>

record ('k, 'v) vmap =
  vm_map :: "'k \<rightharpoonup> u64 \<times> 'v"
  vm_next :: u64
  vm_force :: bool

definition vm_value :: "('k, 'v) vmap \<Rightarrow> 'k \<Rightarrow> 'v option" where
  "vm_value M k = map_option snd (vm_map M k)"

definition vm_prev :: "bool \<Rightarrow> ('k, 'v) vmap \<Rightarrow> 'k \<Rightarrow> 'v answer" where
  "vm_prev force M k = AValue (if force \<or> vm_force M then vm_value M k else None)"

definition vm_version :: "('k, 'v) vmap \<Rightarrow> 'k \<Rightarrow> u64 \<Rightarrow> bool" where
  "vm_version M k w \<longleftrightarrow> map_option fst (vm_map M k) = Some w"

definition vm_used :: "('k, 'v) vmap \<Rightarrow> ('k, 'v) vmap" where
  "vm_used M = M\<lparr>vm_force := False\<rparr>"

definition vm_store :: "'k \<Rightarrow> 'v \<Rightarrow> ('k, 'v) vmap \<Rightarrow> ('k, 'v) vmap" where
  "vm_store k v M = vm_used (M\<lparr>vm_map := (vm_map M)(k \<mapsto> (vm_next M, v)), vm_next := vm_next M + 1\<rparr>)"

definition vm_forget :: "'k \<Rightarrow> ('k, 'v) vmap \<Rightarrow> ('k, 'v) vmap" where
  "vm_forget k M = vm_used (M\<lparr>vm_map := (vm_map M)(k := None)\<rparr>)"

fun vm_answer :: "bool \<Rightarrow> ('k, 'v) call \<Rightarrow> ('k, 'v) vmap \<Rightarrow> 'v answer" where
  "vm_answer force (Get k) M = AValue (vm_value M k)"
| "vm_answer force (GetWithVersion k) M =
     AVersioned (case vm_map M k of None \<Rightarrow> (None, 0) | Some (w, v) \<Rightarrow> (Some v, w))"
| "vm_answer force (ContainsKey k) M = ABool (vm_map M k \<noteq> None)"
| "vm_answer force (Put k v life maxIdle) M = vm_prev force M k"
| "vm_answer force (PutIfAbsent k v life maxIdle) M = vm_prev force M k"
| "vm_answer force (Replace k v life maxIdle) M = vm_prev force M k"
| "vm_answer force (Remove k) M = vm_prev force M k"
| "vm_answer force (ReplaceWithVersion k v version life maxIdle) M = ABool (vm_version M k version)"
| "vm_answer force (RemoveWithVersion k version) M = ABool (vm_version M k version)"
| "vm_answer force Clear M = AUnit"
| "vm_answer force (WithFlags flags) M = AUnit"

fun vm_after :: "('k, 'v) call \<Rightarrow> ('k, 'v) vmap \<Rightarrow> ('k, 'v) vmap" where
  "vm_after (Get k) M = vm_used M"
| "vm_after (GetWithVersion k) M = vm_used M"
| "vm_after (ContainsKey k) M = vm_used M"
| "vm_after (Put k v life maxIdle) M = vm_store k v M"
| "vm_after (PutIfAbsent k v life maxIdle) M = (if vm_map M k = None then vm_store k v M else vm_used M)"
| "vm_after (Replace k v life maxIdle) M = (if vm_map M k = None then vm_used M else vm_store k v M)"
| "vm_after (Remove k) M = vm_forget k M"
| "vm_after (ReplaceWithVersion k v version life maxIdle) M =
     (if vm_version M k version then vm_store k v M else vm_used M)"
| "vm_after (RemoveWithVersion k version) M = (if vm_version M k version then vm_forget k M else vm_used M)"
| "vm_after Clear M = vm_used (M\<lparr>vm_map := Map.empty\<rparr>)"
| "vm_after (WithFlags flags) M = M\<lparr>vm_force := forces flags\<rparr>"

fun vm_answers :: "bool \<Rightarrow> ('k, 'v) call list \<Rightarrow> ('k, 'v) vmap \<Rightarrow> 'v answer list" where
  "vm_answers force [] M = []"
| "vm_answers force (c # cs) M = vm_answer force c M # vm_answers force cs (vm_after c M)"

fun run_calls :: "(('k, 'v) call \<Rightarrow> ('s, 'v answer) sm) \<Rightarrow> ('k, 'v) call list \<Rightarrow> ('s, 'v answer list) sm" where
  "run_calls call [] = ret []"
| "run_calls call (c # cs) = bind (call c) (\<lambda>a. bind (run_calls call cs) (\<lambda>as. ret (a # as)))"

locale versioned_map =
  fixes call :: "('k, 'v) call \<Rightarrow> ('s, 'v answer) sm"
    and rel :: "('k, 'v) vmap \<Rightarrow> 's \<Rightarrow> bool"
    and admits :: "('k, 'v) call \<Rightarrow> bool"
    and force :: bool
  assumes step: "rel M s \<Longrightarrow> admits c \<Longrightarrow> \<exists>s'. call c s = (Inr (vm_answer force c M), s') \<and> rel (vm_after c M) s'"
begin

lemma session:
  "rel M s \<Longrightarrow> list_all admits cs \<Longrightarrow> \<exists>s'. run_calls call cs s = (Inr (vm_answers force cs M), s') \<and> rel (fold vm_after cs M) s'"
proof (induction cs arbitrary: M s)
  case (Cons c cs)
  from step [OF Cons.prems(1), of c] Cons.prems(2) obtain s1
    where 1: "call c s = (Inr (vm_answer force c M), s1)" "rel (vm_after c M) s1" by auto
  from Cons.IH [OF 1(2)] Cons.prems(2) show ?case using 1(1) by (auto simp: sm_simps)
qed (simp add: ret_run)

end

section \<open>A cache with one connection\<close>

text \<open>
  One server, whose idle transport \<open>t\<close> is the only one; \<open>c\<close> is the connection behind it, with nothing in
  flight. The pool hands \<open>t\<close> out for each operation and takes it back.
\<close>

definition attached :: "inet \<Rightarrow> nat \<Rightarrow> transport \<Rightarrow> rcache \<Rightarrow> bool" where
  "attached srv t c s \<longleftrightarrow>
    (let f = cl_fac (rc_client s); p = cpool f in
     rc_started s \<and> \<not> closed p \<and> rr_ok (balancer f) \<and> rr_servers (balancer f) = [srv] \<and> ti_ok (ti f)
     \<and> smap_ok (idle p) \<and> smap_ok (busy p) \<and> map_of (idle p) srv = Some (Some [t]) \<and> map_of (busy p) srv = Some (Some [])
     \<and> conns (world p) t = Some (srv, c) \<and> t_valid c \<and> pending (t_inp c) = [] \<and> t_out c = [])"

definition rc_ok :: "rc_config \<Rightarrow> bool" where
  "rc_ok cfg \<longleftrightarrow> plain_pool (rc_tf cfg) \<and> \<not> testOnReturn (tc_pool (rc_tf cfg)) \<and> 0 \<le> tc_maxRetries (rc_tf cfg)
     \<and> 0 < rc_fuel cfg \<and> length (rc_name cfg) < 2 ^ 32
     \<and> (case rc_dataFormat cfg of None \<Rightarrow> True
        | Some f \<Rightarrow> media_type_ok (keyMediaType f) \<and> media_type_ok (valueMediaType f))"

definition sent_on :: "bytes \<Rightarrow> transport \<Rightarrow> transport" where
  "sent_on req c = c\<lparr>t_sent := t_sent c @ [req]\<rparr>"

lemma attached_flags [simp]: "attached srv t c (s\<lparr>rc_flags := f\<rparr>) = attached srv t c s"
  by (simp add: attached_def)

lemma get_attached:
  assumes "rc_ok cfg" "attached srv t c s"
  shows "\<exists>b'. rr_ok b' \<and> rr_servers b' = [srv] \<and> ro_getTransport (operation_on (rc_tf cfg) nm key op) 0 {} (rc_client s) =
    (Inr t, (rc_client s)\<lparr>cl_fac := (cl_fac (rc_client s))\<lparr>balancer := b', cpool :=
        hand_out srv [] t (cpool (cl_fac (rc_client s))\<lparr>idle := smap_put srv (Some []) (idle (cpool (cl_fac (rc_client s)))),
          totalIdle := totalIdle (cpool (cl_fac (rc_client s))) - 1\<rparr>)\<rparr>\<rparr>)"
proof -
  let ?f = "cl_fac (rc_client s)"
  let ?p = "cpool ?f"
  have at: "\<not> closed ?p" "rr_ok (balancer ?f)" "rr_servers (balancer ?f) = [srv]" "ti_ok (ti ?f)"
    "smap_ok (idle ?p)" "smap_ok (busy ?p)" "map_of (idle ?p) srv = Some (Some [t])" "map_of (busy ?p) srv = Some (Some [])"
    using assms(2) by (simp_all add: attached_def Let_def)
  obtain r b' where nx: "nextServer {} (balancer ?f) = (r, b')" by fastforce
  with nextServer_ok [OF at(2), of "{}"] at(3) have b': "r = Inr srv" "rr_ok b'" "rr_servers b' = [srv]"
    by (auto split: sum.splits)
  obtain n where n: "tc_fuel (rc_tf cfg) = Suc (Suc n)"
    using assms(1) by (metis add_2_eq_Suc le_Suc_ex plain_pool_def rc_ok_def)
  have cfg: "\<not> testOnBorrow (tc_pool (rc_tf cfg))" "maxTotal (tc_pool (rc_tf cfg)) \<le> 0"
    using assms(1) by (simp_all add: rc_ok_def plain_pool_def)
  note bo = borrowObject_run [OF at(1,5,6,7,8) cfg n, of "obj_fac (rc_tf cfg)"]
  have "getTransport (rc_tf cfg) nm {} ?f = (Inr t, ?f\<lparr>balancer := b', cpool :=
        hand_out srv [] t (?p\<lparr>idle := smap_put srv (Some []) (idle ?p), totalIdle := totalIdle ?p - 1\<rparr>)\<rparr>)"
    using nx b'(1) bo by (simp add: getTransport_def bind_run on_part_run borrowTransportFromPool_def on_pool_def)
  then show ?thesis
    using b' getTransportForKey_run [OF at(4)]
    by (auto simp: operation_on_def on_cl_def on_part_run split: option.splits)
qed

text \<open>
  An operation on the transport that is out, and its return. It ends the loop when it has a result, or an
  exception of a counter, which is not retried.
\<close>

fun ends_loop :: "exn + 'a \<Rightarrow> bool" where
  "ends_loop (Inr v) = True"
| "ends_loop (Inl (CounterUpperBoundException n)) = True"
| "ends_loop (Inl (CounterLowerBoundException n)) = True"
| "ends_loop (Inl e) = False"

lemma ends_loop_cases:
  assumes "ends_loop r"
  obtains v where "r = Inr v" | n where "r = Inl (CounterUpperBoundException n)" | n where "r = Inl (CounterLowerBoundException n)"
  using assms by (cases r rule: ends_loop.cases) auto

lemma end_attached:
  assumes cfg: "rc_ok cfg" and at: "attached srv t c s"
    and op: "\<And>x. tr x = c \<Longrightarrow> \<exists>req. op x = (r, exchanged x req []) \<and> P req"
    and r: "ends_loop r"
  shows "\<exists>req s'. run cfg (operation_on (rc_tf cfg) nm key op) s = (r, s') \<and> P req
    \<and> attached srv t (sent_on req c) s' \<and> rc_flags s' = rc_flags s"
proof -
  let ?R = "operation_on (rc_tf cfg) nm key op"
  from get_attached [OF cfg at, of nm key op] obtain b' s1 where b': "rr_ok b'" "rr_servers b' = [srv]"
    and get: "ro_getTransport ?R 0 {} (rc_client s) = (Inr t, s1)"
    and s1: "s1 = (rc_client s)\<lparr>cl_fac := (cl_fac (rc_client s))\<lparr>balancer := b', cpool :=
        hand_out srv [] t (cpool (cl_fac (rc_client s))\<lparr>idle := smap_put srv (Some []) (idle (cpool (cl_fac (rc_client s)))),
          totalIdle := totalIdle (cpool (cl_fac (rc_client s))) - 1\<rparr>)\<rparr>\<rparr>"
    by blast
  let ?p = "cpool (cl_fac s1)"
  have c: "conns (world ?p) t = Some (srv, c)" "t_valid c" "pending (t_inp c) = []" "t_out c = []"
    using at by (simp_all add: attached_def Let_def s1 hand_out_def)
  define x where "x = \<lparr>tr = c, fac = cl_fac s1, topo = cl_topo s1, msgId = w_msgId (world ?p)\<rparr>"
  from op [of x] obtain req where req: "op x = (r, exchanged x req [])" "P req" by (auto simp: x_def)
  have tr: "tr (exchanged x req []) = sent_on req c" using c by (simp add: exchanged_def x_def sent_on_def)
  define s2 where "s2 = \<lparr>cl_fac = (cl_fac s1)\<lparr>cpool := ?p\<lparr>world := put_conn t srv (exchanged x req []) (world ?p)\<rparr>\<rparr>,
    cl_topo = cl_topo s1\<rparr>"
  have exec: "ro_executeOperation ?R t s1 = (r, s2)"
    using c(1) req(1) by (simp add: operation_on_def on_transport_def s2_def x_def)
  let ?p2 = "cpool (cl_fac s2)"
  have c2: "conns (world ?p2) t = Some (srv, sent_on req c)"
    using c(1) tr by (auto simp: s2_def put_conn_def)
  have q: "smap_ok (busy ?p2)" "\<not> closed ?p2" "map_of (busy ?p2) srv = Some (Some [t])" "map_of (idle ?p2) srv = Some (Some [])"
      "smap_ok (idle ?p2)"
    using at by (simp_all add: attached_def Let_def s2_def s1 hand_out_def smap_ok_put)
  define p3 where "p3 = ?p2\<lparr>busy := smap_put srv (Some []) (busy ?p2), idle := smap_put srv (Some [t]) (idle ?p2),
    totalActive := totalActive ?p2 - 1, totalIdle := totalIdle ?p2 + 1\<rparr>"
  have cf: "\<not> testOnReturn (tc_pool (rc_tf cfg))" "maxTotal (tc_pool (rc_tf cfg)) \<le> 0"
    using cfg by (simp_all add: rc_ok_def plain_pool_def)
  have "returnObject (tc_pool (rc_tf cfg)) (obj_fac (rc_tf cfg)) srv t ?p2 = (Inr (), p3)"
    using returnObject_run [OF q(1,2) cf q(3,4), of "obj_fac (rc_tf cfg)" t] by (simp add: p3_def)
  then have rel: "ro_releaseTransport ?R t s2 = (Inr (), s2\<lparr>cl_fac := (cl_fac s2)\<lparr>cpool := p3\<rparr>\<rparr>)"
    using c(2) c2
    by (simp add: operation_on_def on_cl_def on_part_run releaseTransport_def heap_get_def bind_run on_pool_def sent_on_def)
  obtain n where fuel: "rc_fuel cfg = Suc n" using cfg by (auto simp: rc_ok_def gr0_conv_Suc)
  have retries: "0 \<le> ro_maxRetries ?R" using cfg by (simp add: rc_ok_def operation_on_def)
  have "run cfg ?R s = (r, s\<lparr>rc_client := s2\<lparr>cl_fac := (cl_fac s2)\<lparr>cpool := p3\<rparr>\<rparr>\<rparr>)"
    using r
  proof (rule ends_loop_cases)
  qed (use retries get exec rel in \<open>simp_all add: run_def execute_def fuel shouldRetry_def retry_round_def retry_handler_def
      retry_release_def on_part_run sm_simps\<close>)
  moreover have "attached srv t (sent_on req c) (s\<lparr>rc_client := s2\<lparr>cl_fac := (cl_fac s2)\<lparr>cpool := p3\<rparr>\<rparr>\<rparr>)"
    using at b' c c2 q by (simp add: attached_def Let_def p3_def smap_ok_put) (simp add: s2_def s1 sent_on_def)
  ultimately show ?thesis using req(2) by fastforce
qed

lemma run_attached:
  assumes "rc_ok cfg" "attached srv t c s"
    and "\<And>x. tr x = c \<Longrightarrow> \<exists>req. op x = (Inr v, exchanged x req []) \<and> P req"
  shows "\<exists>req s'. run cfg (operation_on (rc_tf cfg) nm key op) s = (Inr v, s') \<and> P req
    \<and> attached srv t (sent_on req c) s' \<and> rc_flags s' = rc_flags s"
  by (rule end_attached [OF assms]) simp_all

section \<open>Against a server\<close>

text \<open>
  What the application's marshallers promise: keys and values are read back, different keys stay
  different, a value is never marshalled to nothing, and all fit the length fields of the protocol.
\<close>

definition marshallers_ok :: "('k, 'v) marshallers \<Rightarrow> bool" where
  "marshallers_ok m \<longleftrightarrow> (\<forall>k. keyUnmarshall m (keyMarshall m k) = k \<and> length (keyMarshall m k) < 2 ^ 32)
    \<and> (\<forall>v. valueUnmarshall m (valueMarshall m v) = v \<and> valueMarshall m v \<noteq> [] \<and> length (valueMarshall m v) < 2 ^ 32)"

definition represents :: "('k, 'v) marshallers \<Rightarrow> ('k, 'v) vmap \<Rightarrow> cache \<Rightarrow> bool" where
  "represents m M c \<longleftrightarrow> (\<forall>k. entries c (keyMarshall m k) = map_option (apsnd (valueMarshall m)) (vm_map M k))
     \<and> next_version c = vm_next M"

definition serving ::
  "rc_config \<Rightarrow> ('k, 'v) marshallers \<Rightarrow> inet \<Rightarrow> nat \<Rightarrow> ('k, 'v) vmap \<Rightarrow> rcache \<Rightarrow> bool" where
  "serving cfg m srv t M s \<longleftrightarrow> rc_ok cfg \<and> marshallers_ok m \<and> vm_force M = forces (rc_flags s)
     \<and> (\<exists>c. attached srv t c s \<and> serves_cache (t_peer c) \<and> represents m M (cache_after (t_sent c)))"

lemma forces_or: "forces (a OR b) \<longleftrightarrow> forces a \<or> forces b"
proof -
  have "forces x \<longleftrightarrow> bit x 0" for x :: u32
    by (simp add: forces_def and_one_eq bit_0 mod2_eq_if)
  then show ?thesis by (simp add: bit_or_iff)
qed

lemma forces_flag [simp]: "forces FORCE_RETURN_VALUE" "\<not> forces DEFAULT_LIFESPAN" "\<not> forces DEFAULT_MAXIDLE" "\<not> forces 0"
  by (simp_all add: forces_def flag_defs)

text \<open>
  What all calls share: the flags are taken, the operation is run on a transport, and its result
  and the cache it leaves are those of the operation \<open>p\<close> on the map.
\<close>

lemma call_serving:
  assumes sv: "serving cfg m srv t M s" and p: "cache_op_ok p"
    and con: "\<And>tf ctx (x :: tfactory io). client_op tf ctx p x = bind (op tf ctx) (\<lambda>v. ret (con v)) x"
    and inj: "\<And>v w. con v = con w \<Longrightarrow> v = w"
    and res: "\<And>C. represents m M C \<Longrightarrow> cache_result (rc_force cfg \<or> vm_force M) p C = con v"
    and upd: "\<And>C. represents m M C \<Longrightarrow> represents m M' (cache_update p C)" and used: "\<not> vm_force M'"
  shows "\<exists>s'. bind (newOperation cfg key op) (run cfg) s = (Inr v, s') \<and> serving cfg m srv t M' s'"
proof -
  define flags where "flags = (if rc_force cfg then rc_flags s OR FORCE_RETURN_VALUE else rc_flags s)"
  let ?tf = "TransportFactory_iface (rc_tf cfg)" and ?ctx = "op_context cfg flags"
  obtain c where c: "attached srv t c s" "serves_cache (t_peer c)" "represents m M (cache_after (t_sent c))"
    using sv by (auto simp: serving_def)
  have cfg: "rc_ok cfg" "ctx_ok ?ctx" using sv by (simp_all add: serving_def rc_ok_def ctx_ok_def op_context_def)
  have force: "forces (oc_flags ?ctx) \<longleftrightarrow> rc_force cfg \<or> vm_force M"
    using sv by (auto simp: op_context_def flags_def forces_or serving_def)
  have op: "\<exists>req. op ?tf ?ctx x = (Inr v, exchanged x req [])
      \<and> cache_after (t_sent c @ [req]) = cache_update p (cache_after (t_sent c))" if "tr x = c" for x
  proof -
    have q: "quiet x" "serves_cache (t_peer (tr x))"
      using c(1,2) that by (simp_all add: quiet_def inp_of_def attached_def Let_def)
    note run = client_op_refines(1) [OF q cfg(2) p, of ?tf] and after = client_op_refines(2) [OF q cfg(2) p]
    have "op ?tf ?ctx x = (Inr v, exchanged x (op_request ?ctx p x) [])"
      using run res [OF c(3)] inj unfolding con force that by (auto simp: bind_eq_Inr ret_run)
    then show ?thesis using after that by auto
  qed
  have new: "newOperation cfg key op s = (Inr (operation_on (rc_tf cfg) (rc_name cfg) key (op ?tf ?ctx)), s\<lparr>rc_flags := 0\<rparr>)"
    by (simp add: newOperation_def getFlags_def flags_def sm_simps)
  have "attached srv t c (s\<lparr>rc_flags := 0\<rparr>)" using c(1) by simp
  from run_attached [OF cfg(1) this op, of "rc_name cfg" key] obtain req s'
    where run: "run cfg (operation_on (rc_tf cfg) (rc_name cfg) key (op ?tf ?ctx)) (s\<lparr>rc_flags := 0\<rparr>) = (Inr v, s')"
      and after: "cache_after (t_sent c @ [req]) = cache_update p (cache_after (t_sent c))"
      and s': "attached srv t (sent_on req c) s'" "rc_flags s' = 0"
    by auto
  have "represents m M' (cache_after (t_sent (sent_on req c)))"
    using upd [OF c(3)] after by (simp add: sent_on_def)
  then have "serving cfg m srv t M' s'"
    using sv s' c(2) used by (auto simp: serving_def sent_on_def)
  then show ?thesis using new run by simp
qed

lemma bind_assoc: "bind m (\<lambda>x. bind (f x) g) = bind (bind m f) g"
  by (rule ext) (simp add: sm_simps split: prod.splits sum.splits)

lemma started: "serving cfg m srv t M s \<Longrightarrow> assertRemoteCacheManagerIsStarted s = (Inr (), s)"
  by (auto simp: serving_def attached_def Let_def assertRemoteCacheManagerIsStarted_def sm_simps)

lemma default_flags:
  assumes "serving cfg m srv t M s"
  shows "\<exists>s'. applyDefaultExpirationFlags life maxIdle s = (Inr (), s') \<and> serving cfg m srv t M s'"
  using assms
  by (auto simp: applyDefaultExpirationFlags_def addFlags_def sm_simps serving_def forces_or)

text \<open>The map of the server seen through the marshallers.\<close>

definition prev_bytes :: "('k, 'v) marshallers \<Rightarrow> bool \<Rightarrow> ('k, 'v) vmap \<Rightarrow> 'k \<Rightarrow> bytes" where
  "prev_bytes m force M k = (case vm_map M k of Some (w, v) \<Rightarrow> if force then valueMarshall m v else [] | None \<Rightarrow> [])"

lemma rep_entry: "represents m M C \<Longrightarrow> entries C (keyMarshall m k) = map_option (apsnd (valueMarshall m)) (vm_map M k)"
  by (simp add: represents_def)

lemma key_eq: "marshallers_ok m \<Longrightarrow> keyMarshall m k = keyMarshall m k' \<longleftrightarrow> k = k'"
  by (metis marshallers_ok_def)

lemma rep_prev: "represents m M C \<Longrightarrow> prev_value force (keyMarshall m k) C = prev_bytes m force M k"
  by (auto simp: prev_value_def prev_bytes_def rep_entry split: option.splits)

lemma value_of_prev:
  "marshallers_ok m \<Longrightarrow> value_of m (prev_bytes m force M k) = (if force then vm_value M k else None)"
  by (auto simp: value_of_def prev_bytes_def vm_value_def marshallers_ok_def split: option.splits)

lemma rep_used: "represents m M C \<Longrightarrow> represents m (vm_used M) C"
  by (simp add: represents_def vm_used_def)

lemma rep_store:
  assumes "marshallers_ok m" "represents m M C" "kv_key a = keyMarshall m k" "kv_value a = valueMarshall m v"
  shows "represents m (vm_store k v M) (store a C)"
  using assms by (auto simp: represents_def vm_store_def vm_used_def store_def key_eq)

lemma rep_forget:
  assumes "marshallers_ok m" "represents m M C"
  shows "represents m (vm_forget k M) (forget (keyMarshall m k) C)"
  using assms by (auto simp: represents_def vm_forget_def vm_used_def forget_def key_eq)

lemma used_force [simp]: "\<not> vm_force (vm_used M)" "\<not> vm_force (vm_store k v M)" "\<not> vm_force (vm_forget k M)"
  by (simp_all add: vm_used_def vm_store_def vm_forget_def)

lemma serving_ok: "serving cfg m srv t M s \<Longrightarrow> marshallers_ok m"
  by (simp add: serving_def)

lemma key_fits: "marshallers_ok m \<Longrightarrow> length (keyMarshall m k) < 4294967296"
  "marshallers_ok m \<Longrightarrow> length (valueMarshall m v) < 4294967296"
  by (simp_all add: marshallers_ok_def)

lemmas new_operation_defs = newGetKeyOperation_def newGetWithVersionOperation_def newContainsKeyOperation_def
  newPutKeyValueOperation_def newPutIfAbsentOperation_def newReplaceOperation_def newRemoveOperation_def
  newReplaceIfUnmodifiedOperation_def newRemoveIfUnmodifiedOperation_def newClearOperation_def

lemma impl_get_serving:
  assumes "serving cfg m srv t M s"
  shows "\<exists>s'. impl_get cfg m k s = (Inr (vm_value M k), s') \<and> serving cfg m srv t (vm_used M) s'"
proof -
  let ?p = "OpGet (keyMarshall m k)"
  have "\<exists>s'. bind (newGetKeyOperation cfg (keyMarshall m k)) (run cfg) s = (Inr (prev_bytes m True M k), s')
      \<and> serving cfg m srv t (vm_used M) s'"
    unfolding new_operation_defs
    by (rule call_serving [OF assms, where p = ?p and con = Value])
       (use key_fits [OF serving_ok [OF assms]] in \<open>simp_all add: rep_prev rep_used\<close>)
  then show ?thesis
    using started [OF assms]
    by (auto simp: impl_get_def bind_assoc ret_run value_of_prev [OF serving_ok [OF assms]])
qed

lemma impl_getWithVersion_serving:
  assumes "serving cfg m srv t M s"
  shows "\<exists>s'. impl_getWithVersion cfg m k s =
      (Inr (case vm_map M k of None \<Rightarrow> (None, 0) | Some (w, v) \<Rightarrow> (Some v, w)), s') \<and> serving cfg m srv t (vm_used M) s'"
proof -
  let ?p = "OpGetWithVersion (keyMarshall m k)"
  have "\<exists>s'. bind (newGetWithVersionOperation cfg (keyMarshall m k)) (run cfg) s =
      (Inr (map_option (apsnd (valueMarshall m)) (vm_map M k)), s') \<and> serving cfg m srv t (vm_used M) s'"
    unfolding new_operation_defs
    by (rule call_serving [OF assms, where p = ?p and con = Versioned])
       (use key_fits [OF serving_ok [OF assms]] in \<open>simp_all add: rep_entry rep_used\<close>)
  then show ?thesis
    using started [OF assms] serving_ok [OF assms]
    by (auto simp: impl_getWithVersion_def bind_assoc ret_run value_of_def marshallers_ok_def split: option.splits)
qed

lemma impl_containsKey_serving:
  assumes "serving cfg m srv t M s"
  shows "\<exists>s'. impl_containsKey cfg m k s = (Inr (vm_map M k \<noteq> None), s') \<and> serving cfg m srv t (vm_used M) s'"
proof -
  let ?p = "OpContainsKey (keyMarshall m k)"
  have "\<exists>s'. bind (newContainsKeyOperation cfg (keyMarshall m k)) (run cfg) s = (Inr (vm_map M k \<noteq> None), s')
      \<and> serving cfg m srv t (vm_used M) s'"
    unfolding new_operation_defs
    by (rule call_serving [OF assms, where p = ?p and con = Found])
       (use key_fits [OF serving_ok [OF assms]] in \<open>simp_all add: rep_entry rep_used\<close>)
  then show ?thesis using started [OF assms] by (simp add: impl_containsKey_def)
qed

text \<open>The calls that write a value first set the flags for the default expiration.\<close>

lemma flagged_serving:
  assumes "serving cfg m srv t M s"
    and "\<And>s. serving cfg m srv t M s \<Longrightarrow> \<exists>s'. bind new (run cfg) s = (Inr bs, s') \<and> serving cfg m srv t M' s'"
  shows "\<exists>s'. seq assertRemoteCacheManagerIsStarted (seq (applyDefaultExpirationFlags life maxIdle)
      (bind new (\<lambda>op. bind (run cfg op) (\<lambda>bs. ret (value_of m bs))))) s = (Inr (value_of m bs), s') \<and> serving cfg m srv t M' s'"
proof -
  from default_flags [OF assms(1), of life maxIdle] obtain s1
    where s1: "applyDefaultExpirationFlags life maxIdle s = (Inr (), s1)" "serving cfg m srv t M s1" by blast
  from assms(2) [OF s1(2)] show ?thesis
    using started [OF assms(1)] s1(1) by (auto simp: bind_assoc seq_run ret_run)
qed

lemma impl_put_serving:
  assumes "serving cfg m srv t M s"
  shows "\<exists>s'. impl_put cfg m k v life maxIdle s =
      (Inr (if rc_force cfg \<or> vm_force M then vm_value M k else None), s') \<and> serving cfg m srv t (vm_store k v M) s'"
proof -
  note ok = serving_ok [OF assms]
  let ?a = "\<lparr>kv_key = keyMarshall m k, kv_value = valueMarshall m v, kv_lifespan = ucast life, kv_maxIdle = ucast maxIdle\<rparr>"
  have "\<exists>s'. bind (newPutKeyValueOperation cfg (keyMarshall m k) (valueMarshall m v) (ucast life) (ucast maxIdle)) (run cfg) s =
      (Inr (prev_bytes m (rc_force cfg \<or> vm_force M) M k), s') \<and> serving cfg m srv t (vm_store k v M) s'"
    if "serving cfg m srv t M s" for s
    unfolding new_operation_defs
    by (rule call_serving [OF that, where p = "OpPut ?a" and con = Value])
       (use ok in \<open>simp_all add: kv_ok_def key_fits rep_prev rep_store\<close>)
  from flagged_serving [OF assms this] show ?thesis
    by (simp only: impl_put_def value_of_prev [OF ok])
qed

lemma impl_putIfAbsent_serving:
  assumes "serving cfg m srv t M s"
  shows "\<exists>s'. impl_putIfAbsent cfg m k v life maxIdle s =
      (Inr (if rc_force cfg \<or> vm_force M then vm_value M k else None), s')
    \<and> serving cfg m srv t (if vm_map M k = None then vm_store k v M else vm_used M) s'"
proof -
  note ok = serving_ok [OF assms]
  let ?a = "\<lparr>kv_key = keyMarshall m k, kv_value = valueMarshall m v, kv_lifespan = ucast life, kv_maxIdle = ucast maxIdle\<rparr>"
  have "\<exists>s'. bind (newPutIfAbsentOperation cfg (keyMarshall m k) (valueMarshall m v) (ucast life) (ucast maxIdle)) (run cfg) s =
      (Inr (prev_bytes m (rc_force cfg \<or> vm_force M) M k), s')
    \<and> serving cfg m srv t (if vm_map M k = None then vm_store k v M else vm_used M) s'"
    if "serving cfg m srv t M s" for s
    unfolding new_operation_defs
    by (rule call_serving [OF that, where p = "OpPutIfAbsent ?a" and con = Value])
       (use ok in \<open>simp_all add: kv_ok_def key_fits rep_prev rep_store rep_used rep_entry\<close>)
  from flagged_serving [OF assms this] show ?thesis
    by (simp only: impl_putIfAbsent_def value_of_prev [OF ok])
qed

lemma impl_replace_serving:
  assumes "serving cfg m srv t M s"
  shows "\<exists>s'. impl_replace cfg m k v life maxIdle s =
      (Inr (if rc_force cfg \<or> vm_force M then vm_value M k else None), s')
    \<and> serving cfg m srv t (if vm_map M k = None then vm_used M else vm_store k v M) s'"
proof -
  note ok = serving_ok [OF assms]
  let ?a = "\<lparr>kv_key = keyMarshall m k, kv_value = valueMarshall m v, kv_lifespan = ucast life, kv_maxIdle = ucast maxIdle\<rparr>"
  have "\<exists>s'. bind (newReplaceOperation cfg (keyMarshall m k) (valueMarshall m v) (ucast life) (ucast maxIdle)) (run cfg) s =
      (Inr (prev_bytes m (rc_force cfg \<or> vm_force M) M k), s')
    \<and> serving cfg m srv t (if vm_map M k = None then vm_used M else vm_store k v M) s'"
    if "serving cfg m srv t M s" for s
    unfolding new_operation_defs
    by (rule call_serving [OF that, where p = "OpReplace ?a" and con = Value])
       (use ok in \<open>simp_all add: kv_ok_def key_fits rep_prev rep_store rep_used rep_entry\<close>)
  from flagged_serving [OF assms this] show ?thesis
    by (simp only: impl_replace_def value_of_prev [OF ok])
qed

lemma impl_remove_serving:
  assumes "serving cfg m srv t M s"
  shows "\<exists>s'. impl_remove cfg m k s =
      (Inr (if rc_force cfg \<or> vm_force M then vm_value M k else None), s') \<and> serving cfg m srv t (vm_forget k M) s'"
proof -
  note ok = serving_ok [OF assms]
  let ?p = "OpRemove (keyMarshall m k)"
  have "\<exists>s'. bind (newRemoveOperation cfg (keyMarshall m k)) (run cfg) s =
      (Inr (prev_bytes m (rc_force cfg \<or> vm_force M) M k), s') \<and> serving cfg m srv t (vm_forget k M) s'"
    unfolding new_operation_defs
    by (rule call_serving [OF assms, where p = ?p and con = Value])
       (use ok in \<open>simp_all add: key_fits rep_prev rep_forget\<close>)
  then show ?thesis
    using started [OF assms] by (auto simp: impl_remove_def bind_assoc ret_run value_of_prev [OF ok])
qed

text \<open>The calls with a version tell by the status whether they were carried out.\<close>

definition version_status :: "('k, 'v) vmap \<Rightarrow> 'k \<Rightarrow> u64 \<Rightarrow> rsp_code" where
  "version_status M k version =
    (case vm_map M k of None \<Rightarrow> NO_SUCH_KEY | Some (w, x) \<Rightarrow> if version = w then RSP_SUCCESS else MODIFIED_KEY)"

lemma rep_versioned:
  "represents m M C \<Longrightarrow> versioned_result force (keyMarshall m k) version C =
    (\<lambda>(x, code). VersionedResponse x code) (prev_bytes m force M k, version_status M k version)"
  by (auto simp: versioned_result_def rep_prev rep_entry version_status_def split: option.splits)

lemma versioned_con:
  "(\<lambda>(x, code). ret (VersionedResponse x code)) = (\<lambda>v. ret ((\<lambda>(x, code). VersionedResponse x code) v))"
  by (simp add: fun_eq_iff)

lemma isUpdated_status: "isUpdated (bs, version_status M k version) \<longleftrightarrow> vm_version M k version"
  by (auto simp: isUpdated_def version_status_def vm_version_def split: option.splits)

lemma impl_replaceWithVersion_serving:
  assumes "serving cfg m srv t M s"
  shows "\<exists>s'. impl_replaceWithVersion cfg m k v version life maxIdle s = (Inr (vm_version M k version), s')
    \<and> serving cfg m srv t (if vm_version M k version then vm_store k v M else vm_used M) s'"
proof -
  note ok = serving_ok [OF assms]
  let ?a = "\<lparr>kv_key = keyMarshall m k, kv_value = valueMarshall m v, kv_lifespan = ucast life, kv_maxIdle = ucast maxIdle\<rparr>"
  have "\<exists>s'. bind (newReplaceIfUnmodifiedOperation cfg (keyMarshall m k) (valueMarshall m v) (ucast life) (ucast maxIdle) version)
        (run cfg) s = (Inr (prev_bytes m (rc_force cfg \<or> vm_force M) M k, version_status M k version), s')
    \<and> serving cfg m srv t (if vm_version M k version then vm_store k v M else vm_used M) s'"
    unfolding new_operation_defs
    by (rule call_serving [OF assms, where p = "OpReplaceIfUnmodified ?a version" and con = "\<lambda>(x, code). VersionedResponse x code"])
       (use ok in \<open>auto simp: kv_ok_def key_fits rep_versioned rep_store rep_used rep_entry vm_version_def versioned_con split: option.splits\<close>)
  then show ?thesis
    using started [OF assms] by (auto simp: impl_replaceWithVersion_def bind_assoc ret_run isUpdated_status)
qed

lemma impl_removeWithVersion_serving:
  assumes "serving cfg m srv t M s"
  shows "\<exists>s'. impl_removeWithVersion cfg m k version s = (Inr (vm_version M k version), s')
    \<and> serving cfg m srv t (if vm_version M k version then vm_forget k M else vm_used M) s'"
proof -
  note ok = serving_ok [OF assms]
  let ?p = "OpRemoveIfUnmodified (keyMarshall m k) version"
  have "\<exists>s'. bind (newRemoveIfUnmodifiedOperation cfg (keyMarshall m k) version) (run cfg) s =
      (Inr (prev_bytes m (rc_force cfg \<or> vm_force M) M k, version_status M k version), s')
    \<and> serving cfg m srv t (if vm_version M k version then vm_forget k M else vm_used M) s'"
    unfolding new_operation_defs
    by (rule call_serving [OF assms, where p = ?p and con = "\<lambda>(x, code). VersionedResponse x code"])
       (use ok in \<open>auto simp: key_fits rep_versioned rep_forget rep_used rep_entry vm_version_def versioned_con split: option.splits\<close>)
  then show ?thesis
    using started [OF assms] by (auto simp: impl_removeWithVersion_def bind_assoc ret_run isUpdated_status)
qed

lemma impl_clear_serving:
  assumes "serving cfg m srv t M s"
  shows "\<exists>s'. impl_clear cfg s = (Inr (), s') \<and> serving cfg m srv t (vm_used (M\<lparr>vm_map := Map.empty\<rparr>)) s'"
proof -
  have "\<exists>s'. bind (newClearOperation cfg) (run cfg) s = (Inr [], s')
      \<and> serving cfg m srv t (vm_used (M\<lparr>vm_map := Map.empty\<rparr>)) s'"
    unfolding new_operation_defs
    by (rule call_serving [OF assms, where p = OpClear and con = Value])
       (simp_all add: represents_def vm_used_def)
  then show ?thesis
    using started [OF assms] by (auto simp: impl_clear_def bind_assoc ret_run)
qed

lemma impl_withFlags_serving:
  "serving cfg m srv t M s \<Longrightarrow>
    \<exists>s'. impl_withFlags flags s = (Inr (), s') \<and> serving cfg m srv t (M\<lparr>vm_force := forces flags\<rparr>) s'"
  by (auto simp: impl_withFlags_def setFlags_def modify_run serving_def represents_def)

section \<open>RemoteCacheImpl implements the contract\<close>

fun api_call :: "rc_config \<Rightarrow> ('k, 'v) marshallers \<Rightarrow> ('k, 'v) call \<Rightarrow> (rcache, 'v answer) sm" where
  "api_call cfg m (Get k) = bind (impl_get cfg m k) (\<lambda>v. ret (AValue v))"
| "api_call cfg m (GetWithVersion k) = bind (impl_getWithVersion cfg m k) (\<lambda>v. ret (AVersioned v))"
| "api_call cfg m (ContainsKey k) = bind (impl_containsKey cfg m k) (\<lambda>b. ret (ABool b))"
| "api_call cfg m (Put k v life maxIdle) = bind (impl_put cfg m k v life maxIdle) (\<lambda>v. ret (AValue v))"
| "api_call cfg m (PutIfAbsent k v life maxIdle) = bind (impl_putIfAbsent cfg m k v life maxIdle) (\<lambda>v. ret (AValue v))"
| "api_call cfg m (Replace k v life maxIdle) = bind (impl_replace cfg m k v life maxIdle) (\<lambda>v. ret (AValue v))"
| "api_call cfg m (Remove k) = bind (impl_remove cfg m k) (\<lambda>v. ret (AValue v))"
| "api_call cfg m (ReplaceWithVersion k v version life maxIdle) =
     bind (impl_replaceWithVersion cfg m k v version life maxIdle) (\<lambda>b. ret (ABool b))"
| "api_call cfg m (RemoveWithVersion k version) = bind (impl_removeWithVersion cfg m k version) (\<lambda>b. ret (ABool b))"
| "api_call cfg m Clear = bind (impl_clear cfg) (\<lambda>_. ret AUnit)"
| "api_call cfg m (WithFlags flags) = bind (impl_withFlags flags) (\<lambda>_. ret AUnit)"

interpretation rc: versioned_map "api_call cfg m" "serving cfg m srv t" "\<lambda>c. True" "rc_force cfg"
  for cfg and m :: "('k, 'v) marshallers" and srv t
proof
  fix M :: "('k, 'v) vmap" and s c
  assume s: "serving cfg m srv t M s"
  show "\<exists>s'. api_call cfg m c s = (Inr (vm_answer (rc_force cfg) c M), s') \<and> serving cfg m srv t (vm_after c M) s'"
  proof (cases c)
    case (Get k)
    then show ?thesis using impl_get_serving [OF s, of k] by (fastforce simp: ret_run vm_prev_def)
  next
    case (GetWithVersion k)
    then show ?thesis using impl_getWithVersion_serving [OF s, of k] by (fastforce simp: ret_run vm_prev_def)
  next
    case (ContainsKey k)
    then show ?thesis using impl_containsKey_serving [OF s, of k] by (fastforce simp: ret_run vm_prev_def)
  next
    case (Put k v life maxIdle)
    then show ?thesis using impl_put_serving [OF s, of k v life maxIdle] by (fastforce simp: ret_run vm_prev_def)
  next
    case (PutIfAbsent k v life maxIdle)
    then show ?thesis using impl_putIfAbsent_serving [OF s, of k v life maxIdle] by (fastforce simp: ret_run vm_prev_def)
  next
    case (Replace k v life maxIdle)
    then show ?thesis using impl_replace_serving [OF s, of k v life maxIdle] by (fastforce simp: ret_run vm_prev_def)
  next
    case (Remove k)
    then show ?thesis using impl_remove_serving [OF s, of k] by (fastforce simp: ret_run vm_prev_def)
  next
    case (ReplaceWithVersion k v version life maxIdle)
    then show ?thesis using impl_replaceWithVersion_serving [OF s, of k v version life maxIdle] by (fastforce simp: ret_run vm_prev_def)
  next
    case (RemoveWithVersion k version)
    then show ?thesis using impl_removeWithVersion_serving [OF s, of k version] by (fastforce simp: ret_run vm_prev_def)
  next
    case Clear
    then show ?thesis using impl_clear_serving [OF s] by (fastforce simp: ret_run vm_prev_def)
  next
    case (WithFlags flags)
    then show ?thesis using impl_withFlags_serving [OF s, of flags] by (fastforce simp: ret_run vm_prev_def)
  qed
qed

text \<open>
  C2. Through the whole stack, a sequence of calls on a cache returns what the same calls return on a
  map from the application's keys to versioned values: the flags of one call do not leak into the
  next, the previous value comes back exactly when \<open>FORCE_RETURN_VALUE\<close> is set for the call or in
  the configuration, a call with a version is carried out exactly when the version is current, and
  the connection is back in the pool with nothing in flight. It holds for every protocol
  version and every marshaller that reads back what it writes, against a server that keeps a versioned map.
\<close>

theorem remote_cache_refines:
  assumes "serving cfg m srv t M s"
  shows "\<exists>s'. run_calls (api_call cfg m) cs s = (Inr (vm_answers (rc_force cfg) cs M), s')
    \<and> serving cfg m srv t (fold vm_after cs M) s'"
  using assms by (rule rc.session) (simp add: list_all_iff)

text \<open>A cache with one server.\<close>

definition byte_marshallers :: "(byte, byte) marshallers" where
  "byte_marshallers = \<lparr>keyMarshall = (\<lambda>k. [k]), valueMarshall = (\<lambda>v. [v]), keyUnmarshall = hd, valueUnmarshall = hd\<rparr>"

definition one_server_config :: rc_config where
  "one_server_config = \<lparr>rc_tf = plain_tf_config, rc_name = [99], rc_force = False, rc_dataFormat = None, rc_fuel = 1\<rparr>"

definition one_server :: rcache where
  "one_server = \<lparr>rc_client =
     \<lparr>cl_fac = (TransportFactory example_world)
       \<lparr>ti := TopologyInfo [example_server], balancer := \<lparr>rr_servers = [example_server], rr_index = 0\<rparr>,
        cpool := (ConnectionPool example_world)
          \<lparr>idle := [(example_server, Some [0])], busy := [(example_server, Some [])], totalIdle := 1,
           world := \<lparr>conns = [0 \<mapsto> (example_server, TcpTransport example_server reference_server)],
             next_addr = 1, attempts = 1, w_msgId = 0\<rparr>\<rparr>\<rparr>,
      cl_topo = 0\<rparr>, rc_flags = 0, rc_started = True\<rparr>"

definition no_entries :: "('k, 'v) vmap" where
  "no_entries = \<lparr>vm_map = Map.empty, vm_next = 1, vm_force = False\<rparr>"

lemma one_server_serving: "serving one_server_config byte_marshallers example_server 0 no_entries one_server"
proof -
  have "rc_ok one_server_config"
    by (simp add: rc_ok_def one_server_config_def plain_tf_config_def example_tf_config_def example_cfg_def plain_pool_def)
  moreover have "marshallers_ok byte_marshallers" by (simp add: marshallers_ok_def byte_marshallers_def)
  moreover have "attached example_server 0 (TcpTransport example_server reference_server) one_server"
    by (simp add: attached_def one_server_def ConnectionPool_def rr_ok_def ti_ok_init smap_ok_def TcpTransport_def)
  moreover have "serves_cache (t_peer (TcpTransport example_server reference_server))"
    by (simp add: serves_cache_def reference_server_def TcpTransport_def)
  moreover have "represents byte_marshallers no_entries (cache_after (t_sent (TcpTransport example_server reference_server)))"
    by (simp add: represents_def no_entries_def TcpTransport_def cache_after_def empty_cache_def)
  ultimately show ?thesis
    unfolding serving_def by (auto simp: no_entries_def one_server_def)
qed

theorem remote_cache_refines_witness:
  "fst (run_calls (api_call one_server_config byte_marshallers)
      [Put 1 7 0 0, WithFlags 1, Put 1 8 0 60, GetWithVersion 1, RemoveWithVersion 1 1, Get 1, Remove 1, ContainsKey 1]
      one_server) =
    Inr [AValue None, AUnit, AValue (Some 7), AVersioned (Some 8, 2), ABool False, AValue (Some 8), AValue None, ABool False]"
  using remote_cache_refines [OF one_server_serving, of "[Put 1 7 0 0, WithFlags 1, Put 1 8 0 60, GetWithVersion 1,
      RemoveWithVersion 1 1, Get 1, Remove 1, ContainsKey 1]"]
  by (auto simp: vm_prev_def vm_value_def vm_version_def vm_store_def vm_used_def vm_forget_def no_entries_def
      one_server_config_def forces_def)

section \<open>Lifespans\<close>

text \<open>
  The expiration times of a call are 64 bit numbers, but \<open>OperationsFactory\<close> takes them as 32 bit
  ones: two times that differ by a multiple of \<open>2 ^ 32\<close> seconds have the same effect, and \<open>2 ^ 32\<close>
  itself is sent as 0, without the flag that asks for the default. Nothing is raised.
\<close>

theorem lifespan_truncated:
  assumes "life \<noteq> 0" "life + 2 ^ 32 \<noteq> 0"
  shows "impl_put cfg m k v (life + 2 ^ 32) maxIdle = impl_put cfg m k v life maxIdle
    \<and> impl_putIfAbsent cfg m k v (life + 2 ^ 32) maxIdle = impl_putIfAbsent cfg m k v life maxIdle
    \<and> impl_replace cfg m k v (life + 2 ^ 32) maxIdle = impl_replace cfg m k v life maxIdle
    \<and> impl_replaceWithVersion cfg m k v version (life + 2 ^ 32) maxIdle = impl_replaceWithVersion cfg m k v version life maxIdle
    \<and> impl_put cfg m k v (2 ^ 32) 1 = seq assertRemoteCacheManagerIsStarted
        (bind (newPutKeyValueOperation cfg (keyMarshall m k) (valueMarshall m v) 0 1) (\<lambda>op.
         bind (run cfg op) (\<lambda>bs. ret (value_of m bs))))"
proof -
  have zero: "(4294967296 :: u32) = 0" by simp
  have "ucast (life + 4294967296) = (ucast life :: u32)"
    by transfer (simp add: take_bit_eq_mod mod_mod_cancel)
  then show ?thesis
    using assms
    by (simp add: impl_put_def impl_putIfAbsent_def impl_replace_def impl_replaceWithVersion_def
        applyDefaultExpirationFlags_def zero seq_def bind_def ret_def fun_eq_iff)
qed

theorem lifespan_truncated_witness:
  "impl_put one_server_config byte_marshallers 1 7 (1 + 2 ^ 32) 0 = impl_put one_server_config byte_marshallers 1 7 1 0"
  using lifespan_truncated [of 1 one_server_config byte_marshallers 1 7 0 0] by simp

end
