(* ===== verification/HR_NearCache_Correct.thy ===== *)
theory HR_NearCache_Correct
  imports HR_NearCache HR_RemoteCache_Correct
begin

text \<open>
  The near cache is bounded, evicts the oldest entry, and answers as the remote cache does; its
  entries agree with the server for every key that has no event on its way. The last section has
  the interleaving in which they do not.
\<close>

section \<open>The local map\<close>

text \<open>
  The invariant of the local part: no key twice, at most \<open>maxEntries\<close> of them, and each in the queue
  that finds the one to evict.
\<close>

definition near_ok :: "nat \<Rightarrow> near_local \<Rightarrow> bool" where
  "near_ok maxE n \<longleftrightarrow> distinct (map fst (nearMap n))
     \<and> (maxE > 0 \<longrightarrow> length (nearMap n) \<le> maxE \<and> set (map fst (nearMap n)) \<subseteq> set (nearFifo n))"

text \<open>As long as the map was not invalidated, the queue is the list of the keys in the order they came.\<close>

definition fifo_exact :: "near_local \<Rightarrow> bool" where
  "fifo_exact n \<longleftrightarrow> nearFifo n = rev (map fst (nearMap n))"

lemma erase_keys: "map fst (smap_erase k m) = filter (\<lambda>k'. k' \<noteq> k) (map fst m)"
  by (induction m) (auto simp: smap_erase_def)

lemma length_erase: "distinct (map fst m) \<Longrightarrow> length (smap_erase k m) = length m - (if k \<in> fst ` set m then 1 else 0)"
proof -
  assume d: "distinct (map fst m)"
  have "length (smap_erase k m) = length (filter (\<lambda>k'. k' \<noteq> k) (map fst m))"
    by (metis erase_keys length_map)
  also have "\<dots> = length (remove1 k (map fst m))" by (simp only: distinct_remove1_removeAll [OF d] removeAll_filter_not_eq)
     (simp add: neq_commute)
  finally show ?thesis by (auto simp: length_remove1)
qed

lemma near_put_lookup [simp]: "map_of (near_put k v m) = (map_of m)(k \<mapsto> v)"
  by (simp add: near_put_def)

lemma dropWhile_split:
  assumes "set ys \<subseteq> set xs" "ys \<noteq> []" "\<And>y. P y \<longleftrightarrow> y \<notin> set ys"
  shows "\<exists>x zs. dropWhile P xs = x # zs \<and> x \<in> set ys \<and> set ys \<subseteq> set (x # zs)"
proof -
  have "\<exists>x \<in> set xs. \<not> P x" using assms by (metis list.set_intros(1) neq_Nil_conv subsetD)
  then obtain x zs where dw: "dropWhile P xs = x # zs" by (metis dropWhile_eq_Nil_conv neq_Nil_conv)
  have "\<not> P x" using dw by (metis hd_dropWhile list.distinct(1) list.sel(1))
  moreover have "set ys \<subseteq> set (dropWhile P xs)"
  proof
    fix y assume y: "y \<in> set ys"
    have "y \<notin> set (takeWhile P xs)" using y assms(3) by (auto dest: set_takeWhileD)
    moreover have "y \<in> set xs" using y assms(1) by blast
    ultimately show "y \<in> set (dropWhile P xs)"
      by (metis UnE set_append takeWhile_dropWhile_id)
  qed
  ultimately show ?thesis using dw assms(3) by auto
qed

lemma map_of_None_keys: "map_of m k = None \<longleftrightarrow> k \<notin> set (map fst m)"
  by (simp add: map_of_eq_None_iff)

lemma evict:
  assumes "near_ok maxE n" "maxE > 0" "length (nearMap n) \<ge> maxE"
  obtains x zs where "addElementToMap maxE k v n = n\<lparr>nearFifo := zs @ [k], nearMap := near_put k v (smap_erase x (nearMap n))\<rparr>"
    and "dropWhile (\<lambda>k. map_of (nearMap n) k = None) (nearFifo n) = x # zs"
    and "x \<in> set (map fst (nearMap n))" "set (map fst (nearMap n)) \<subseteq> set (x # zs)"
proof -
  let ?P = "\<lambda>k. map_of (nearMap n) k = None"
  have d: "set (map fst (nearMap n)) \<subseteq> set (nearFifo n)" using assms by (auto simp: near_ok_def)
  have "map fst (nearMap n) \<noteq> []" using assms(2,3) by auto
  from dropWhile_split [OF d this map_of_None_keys] obtain x zs
    where x: "dropWhile ?P (nearFifo n) = x # zs" "x \<in> set (map fst (nearMap n))"
      "set (map fst (nearMap n)) \<subseteq> set (x # zs)" by blast
  have "x \<in> set (nearFifo n)" "\<not> ?P x" using x(2) d by (auto simp: map_of_eq_None_iff)
  from dropWhile_append1 [where P = ?P, OF this, of "[k]"] have "dropWhile ?P (nearFifo n @ [k]) = x # zs @ [k]"
    using x(1) by simp
  then show ?thesis
    using that x assms(2,3) by (simp add: addElementToMap_def)
qed

lemma near_ok_add:
  assumes ok: "near_ok maxE n"
  shows "near_ok maxE (addElementToMap maxE k v n)"
proof (cases "maxE > 0 \<and> length (nearMap n) \<ge> maxE")
  case True
  then have "maxE > 0" "length (nearMap n) \<ge> maxE" by auto
  from evict [OF ok this] obtain x zs
    where add: "addElementToMap maxE k v n = n\<lparr>nearFifo := zs @ [k], nearMap := near_put k v (smap_erase x (nearMap n))\<rparr>"
      and x: "x \<in> set (map fst (nearMap n))" "set (map fst (nearMap n)) \<subseteq> set (x # zs)" .
  have d: "distinct (map fst (nearMap n))" "length (nearMap n) \<le> maxE" using ok True by (auto simp: near_ok_def)
  then have "length (smap_erase x (nearMap n)) < maxE"
    using x(1) True by (auto simp: length_erase)
  moreover have "distinct (map fst (smap_erase x (nearMap n)))" using d(1) by (simp add: erase_keys)
  ultimately have "length (near_put k v (smap_erase x (nearMap n))) \<le> maxE"
    by (auto simp: near_put_def length_erase)
  then show ?thesis
    using d(1) x(2) by (auto simp: near_ok_def add near_put_def erase_keys)
next
  case False
  then show ?thesis
    using ok by (auto simp: near_ok_def addElementToMap_def near_put_def erase_keys Let_def length_erase)
qed

lemma near_ok_remove: "near_ok maxE n \<Longrightarrow> near_ok maxE (removeElementFromMap maxE k n)"
  by (auto simp: near_ok_def removeElementFromMap_def erase_keys length_erase)

lemma near_ok_event: "near_ok maxE n \<Longrightarrow> near_ok maxE (near_event maxE k n)"
proof -
  have "near_ok maxE n \<Longrightarrow> near_ok maxE ((removeElementFromMap maxE k ^^ i) n)" for i
    by (induction i) (simp_all add: near_ok_remove)
  then show "near_ok maxE n \<Longrightarrow> near_ok maxE (near_event maxE k n)" by (simp add: near_event_def)
qed

lemma near_ok_clear [simp]: "near_ok maxE (clearMap n)" "near_ok maxE NearRemoteCacheImpl"
  "near_ok maxE (invalidateCache n)" "near_ok maxE (n\<lparr>nearHits := h\<rparr>) = near_ok maxE n"
  "near_ok maxE (n\<lparr>callbacks := c\<rparr>) = near_ok maxE n" "near_ok maxE (n\<lparr>shutdown := b\<rparr>) = near_ok maxE n"
  by (simp_all add: near_ok_def clearMap_def NearRemoteCacheImpl_def invalidateCache_def)

text \<open>What is in the map after each step.\<close>

lemma add_lookup:
  "map_of (nearMap (addElementToMap maxE k v n)) k' = Some e \<Longrightarrow>
    (k' = k \<and> e = v) \<or> (k' \<noteq> k \<and> map_of (nearMap n) k' = Some e)"
  by (auto simp: addElementToMap_def Let_def split: if_splits list.splits)

lemma add_has: "map_of (nearMap (addElementToMap maxE k v n)) k = Some v"
  by (auto simp: addElementToMap_def Let_def split: list.splits)

lemma remove_lookup [simp]: "map_of (nearMap (removeElementFromMap maxE k n)) = (map_of (nearMap n))(k := None)"
  by (simp add: removeElementFromMap_def)

lemma event_lookup: "callbacks n > 0 \<Longrightarrow> map_of (nearMap (near_event maxE k n)) = (map_of (nearMap n))(k := None)"
proof -
  have "map_of (nearMap ((removeElementFromMap maxE k ^^ Suc i) n)) = (map_of (nearMap n))(k := None)" for i
    by (induction i) auto
  then show "callbacks n > 0 \<Longrightarrow> map_of (nearMap (near_event maxE k n)) = (map_of (nearMap n))(k := None)"
    by (metis Suc_pred near_event_def)
qed

text \<open>What happens to the local part, in any order: threads that read, write and clear, events, fail over, stop.\<close>

datatype near_act =
    Fill bytes "u64 \<times> bytes"
  | Drop bytes
  | Event bytes
  | ClearAll
  | FailOver
  | Stop

fun near_apply :: "nat \<Rightarrow> near_act \<Rightarrow> near_local \<Rightarrow> near_local" where
  "near_apply maxE (Fill k e) n = addElementToMap maxE k e n"
| "near_apply maxE (Drop k) n = removeElementFromMap maxE k n"
| "near_apply maxE (Event k) n = near_event maxE k n"
| "near_apply maxE ClearAll n = clearMap n"
| "near_apply maxE FailOver n = (if shutdown n then n else (invalidateCache n)\<lparr>callbacks := callbacks n + 1\<rparr>)"
| "near_apply maxE Stop n = invalidateCache (n\<lparr>shutdown := True\<rparr>)"

text \<open>
  C26. Whatever happens to the near cache and in which order, reads, writes, events, fail over and
  stop, also several reads of one key at the same time: it holds no more than
  \<open>maxEntries\<close> entries, no key twice, and every key it holds is in the queue from which the next
  one to evict is taken.
\<close>

theorem near_bounded:
  "near_ok maxE (fold (near_apply maxE) acts NearRemoteCacheImpl)"
proof -
  have "near_ok maxE (near_apply maxE a n)" if "near_ok maxE n" for a n
    using that by (cases a) (simp_all add: near_ok_add near_ok_remove near_ok_event)
  then have "near_ok maxE n \<Longrightarrow> near_ok maxE (fold (near_apply maxE) acts n)" for n
    by (induction acts arbitrary: n) simp_all
  then show ?thesis by simp
qed

lemma fifo_exact_init: "fifo_exact NearRemoteCacheImpl" "fifo_exact (clearMap n)"
  by (simp_all add: fifo_exact_def NearRemoteCacheImpl_def clearMap_def)

lemma fifo_exact_remove:
  assumes "near_ok maxE n" "fifo_exact n" "maxE > 0"
  shows "fifo_exact (removeElementFromMap maxE k n)"
proof -
  have "distinct (nearFifo n)" using assms by (simp add: fifo_exact_def near_ok_def)
  then have "remove1 k (nearFifo n) = filter (\<lambda>k'. k' \<noteq> k) (nearFifo n)"
    by (simp add: distinct_remove1_removeAll removeAll_filter_not_eq neq_commute)
  then show ?thesis using assms(2,3) by (simp add: fifo_exact_def removeElementFromMap_def erase_keys rev_filter)
qed

lemma butlast_erase:
  assumes "distinct (map fst m)" "m \<noteq> []"
  shows "smap_erase (fst (last m)) m = butlast m"
proof -
  obtain ys y where m: "m = ys @ [y]" using assms(2) by (metis rev_exhaust)
  then have "\<forall>z \<in> set ys. fst z \<noteq> fst y" using assms(1) by (auto simp: image_iff)
  then have "filter (\<lambda>(k', v). k' \<noteq> fst y) ys = ys" by (intro filter_True) auto
  then show ?thesis by (simp add: smap_erase_def m split_beta)
qed

text \<open>
  When the near cache is full, the entry that makes room is the oldest one, and only that one
  goes: the entries are those there were, without the last of them, and the new one in front. This
  holds as long as the queue is the list of the keys in the order they came, which filling,
  removing and clearing keep.
\<close>

theorem near_evicts_oldest:
  assumes "near_ok maxE n" "fifo_exact n" "maxE > 0" "map_of (nearMap n) k = None"
  shows "nearMap (addElementToMap maxE k e n) =
      (k, e) # (if length (nearMap n) = maxE then butlast (nearMap n) else nearMap n)
    \<and> fifo_exact (addElementToMap maxE k e n) \<and> fifo_exact (removeElementFromMap maxE k' n) \<and> fifo_exact (clearMap n)"
proof -
  have d: "distinct (map fst (nearMap n))" "length (nearMap n) \<le> maxE" using assms(1,3) by (auto simp: near_ok_def)
  have new: "smap_erase k m = m" if "set m \<subseteq> set (nearMap n)" for m
    unfolding smap_erase_def using that assms(4) by (intro filter_True) (force simp: map_of_eq_None_iff)
  have "nearMap (addElementToMap maxE k e n) =
      (k, e) # (if length (nearMap n) = maxE then butlast (nearMap n) else nearMap n)
    \<and> fifo_exact (addElementToMap maxE k e n)"
  proof (cases "length (nearMap n) = maxE")
    case True
    then have full: "length (nearMap n) \<ge> maxE" "nearMap n \<noteq> []" using assms(3) by auto
    from evict [OF assms(1,3) full(1), where k = k and v = e] obtain x zs
      where add: "addElementToMap maxE k e n = n\<lparr>nearFifo := zs @ [k], nearMap := near_put k e (smap_erase x (nearMap n))\<rparr>"
        and dw: "dropWhile (\<lambda>k. map_of (nearMap n) k = None) (nearFifo n) = x # zs" .
    obtain ys y where m: "nearMap n = ys @ [y]" using full(2) by (metis rev_exhaust)
    have "nearFifo n = fst y # rev (map fst ys)" using assms(2) m by (simp add: fifo_exact_def)
    moreover have "map_of (nearMap n) (fst y) \<noteq> None" by (simp add: m map_of_eq_None_iff)
    ultimately have "x = fst y" "zs = rev (map fst ys)" using dw by auto
    moreover have "smap_erase (fst y) (nearMap n) = ys" using butlast_erase [OF d(1) full(2)] by (simp add: m)
    ultimately show ?thesis
      using True new [of ys] by (simp add: add near_put_def m fifo_exact_def subset_insertI)
  next
    case False
    then show ?thesis
      using d(2) assms(2,3) new [of "nearMap n"] by (simp add: addElementToMap_def near_put_def fifo_exact_def)
  qed
  then show ?thesis using fifo_exact_remove [OF assms(1,2,3)] by (simp add: fifo_exact_init)
qed

theorem near_evicts_oldest_witness:
  "map fst (nearMap (addElementToMap 2 [3] (1, [9])
     (fold (near_apply 2) [Fill [1] (1, [7]), Fill [2] (2, [8])] NearRemoteCacheImpl))) = [[3], [2]]"
proof -
  let ?n = "fold (near_apply 2) [Fill [1] (1, [7]), Fill [2] (2, [8])] NearRemoteCacheImpl"
  have n: "nearMap ?n = [([2], 2, [8]), ([1], 1, [7])]" "nearFifo ?n = [[1], [2]]"
    by (simp_all add: addElementToMap_def NearRemoteCacheImpl_def near_put_def smap_erase_def)
  then have "near_ok 2 ?n" "fifo_exact ?n" by (simp_all add: near_ok_def fifo_exact_def del: fold.simps)
  from near_evicts_oldest [OF this, of "[3]" "(1, [9])"] n show ?thesis by (simp del: fold.simps)
qed

section \<open>The near cache implements the contract of the remote cache\<close>

fun near_call :: "rc_config \<Rightarrow> near_config \<Rightarrow> ('k, 'v) marshallers \<Rightarrow> ('k, 'v) call \<Rightarrow> (near, 'v answer) sm" where
  "near_call cfg N m (Get k) = bind (near_get cfg N m k) (\<lambda>v. ret (AValue v))"
| "near_call cfg N m (GetWithVersion k) = bind (near_getWithVersion cfg N m k) (\<lambda>v. ret (AVersioned v))"
| "near_call cfg N m (Put k v life maxIdle) = bind (near_putCall cfg N m k v life maxIdle) (\<lambda>v. ret (AValue v))"
| "near_call cfg N m (Replace k v life maxIdle) = bind (near_replace cfg N m k v life maxIdle) (\<lambda>v. ret (AValue v))"
| "near_call cfg N m (Remove k) = bind (near_remove cfg N m k) (\<lambda>v. ret (AValue v))"
| "near_call cfg N m (ReplaceWithVersion k v version life maxIdle) =
     bind (near_replaceWithVersion cfg N m k v version life maxIdle) (\<lambda>b. ret (ABool b))"
| "near_call cfg N m (RemoveWithVersion k version) = bind (near_removeWithVersion cfg N m k version) (\<lambda>b. ret (ABool b))"
| "near_call cfg N m Clear = bind (near_clear cfg) (\<lambda>_. ret AUnit)"
| "near_call cfg N m c = on_rc (api_call cfg m c)"

text \<open>Every entry of the near cache is the entry of the map.\<close>

definition coherent :: "('k, 'v) marshallers \<Rightarrow> ('k \<rightharpoonup> u64 \<times> 'v) \<Rightarrow> near_local \<Rightarrow> bool" where
  "coherent m V n \<longleftrightarrow> (\<forall>kb w vb. map_of (nearMap n) kb = Some (w, vb) \<longrightarrow>
     (\<exists>k v. kb = keyMarshall m k \<and> vb = valueMarshall m v \<and> V k = Some (w, v)))"

lemma coherent_hit:
  assumes "marshallers_ok m" "coherent m V n" "map_of (nearMap n) (keyMarshall m k) = Some (w, vb)"
  shows "V k = Some (w, valueUnmarshall m vb)"
proof -
  obtain k' v where "keyMarshall m k = keyMarshall m k'" "vb = valueMarshall m v" "V k' = Some (w, v)"
    using assms(2,3) unfolding coherent_def by blast
  then show ?thesis using assms(1) by (simp add: key_eq) (simp add: marshallers_ok_def)
qed

lemma coherent_add: "coherent m V n \<Longrightarrow> V k = Some (w, v) \<Longrightarrow>
    coherent m V (addElementToMap maxE (keyMarshall m k) (w, valueMarshall m v) n)"
  unfolding coherent_def by (blast dest: add_lookup)

lemma coherent_remove:
  assumes "marshallers_ok m" "coherent m V n" "\<And>k'. k' \<noteq> k \<Longrightarrow> V' k' = V k'"
  shows "coherent m V' (removeElementFromMap maxE (keyMarshall m k) n)"
proof (unfold coherent_def, intro allI impI)
  fix kb w vb assume e: "map_of (nearMap (removeElementFromMap maxE (keyMarshall m k) n)) kb = Some (w, vb)"
  then have "kb \<noteq> keyMarshall m k" "map_of (nearMap n) kb = Some (w, vb)" by (auto split: if_splits)
  with assms(2) obtain k' v where k': "kb = keyMarshall m k'" "vb = valueMarshall m v" "V k' = Some (w, v)" "k' \<noteq> k"
    unfolding coherent_def by blast
  then show "\<exists>k v. kb = keyMarshall m k \<and> vb = valueMarshall m v \<and> V' k = Some (w, v)"
    using assms(3) by fastforce
qed

lemma coherent_absent:
  assumes "coherent m V n" "V k = None" "\<And>k'. k' \<noteq> k \<Longrightarrow> V' k' = V k'"
  shows "coherent m V' n"
  unfolding coherent_def using assms by (metis (no_types, lifting) coherent_def option.distinct(1))

lemma coherent_simps [simp]: "coherent m V (clearMap n)" "coherent m V (invalidateCache n)"
  "coherent m V (n\<lparr>nearHits := h\<rparr>) = coherent m V n"
  by (simp_all add: coherent_def clearMap_def invalidateCache_def)

text \<open>A hit does not take the flags that are set, so the state may have kept some the contract has used up.\<close>

definition same_map :: "('k, 'v) vmap \<Rightarrow> ('k, 'v) vmap \<Rightarrow> bool" where
  "same_map M M' \<longleftrightarrow> vm_map M = vm_map M' \<and> vm_next M = vm_next M'"

definition flag_free :: "rc_config \<Rightarrow> ('k, 'v) vmap \<Rightarrow> bool" where
  "flag_free cfg M \<longleftrightarrow> rc_force cfg \<or> \<not> vm_force M"

definition near_rel ::
  "rc_config \<Rightarrow> near_config \<Rightarrow> ('k, 'v) marshallers \<Rightarrow> inet \<Rightarrow> nat \<Rightarrow> ('k, 'v) vmap \<Rightarrow> near \<Rightarrow> bool" where
  "near_rel cfg N m srv t M s \<longleftrightarrow> (\<exists>M'. serving cfg m srv t M' (nc_rc s) \<and> same_map M M' \<and> flag_free cfg M \<and> flag_free cfg M')
     \<and> coherent m (vm_map M) (nc_local s) \<and> near_ok (maxEntries N) (nc_local s)"

definition near_admits :: "rc_config \<Rightarrow> ('k, 'v) call \<Rightarrow> bool" where
  "near_admits cfg c \<longleftrightarrow> (case c of WithFlags flags \<Rightarrow> rc_force cfg \<or> \<not> forces flags | _ \<Rightarrow> True)"

lemma same_after: "same_map M M' \<Longrightarrow> same_map (vm_after c M) (vm_after c M')"
  by (cases c) (auto simp: same_map_def vm_used_def vm_store_def vm_forget_def vm_version_def)

lemma same_answer:
  "same_map M M' \<Longrightarrow> flag_free cfg M \<Longrightarrow> flag_free cfg M' \<Longrightarrow> vm_answer (rc_force cfg) c M' = vm_answer (rc_force cfg) c M"
  by (cases c) (auto simp: same_map_def flag_free_def vm_prev_def vm_value_def vm_version_def)

lemma free_after: "near_admits cfg c \<Longrightarrow> flag_free cfg (vm_after c M)"
  by (cases c) (auto simp: flag_free_def near_admits_def vm_used_def vm_store_def vm_forget_def)

text \<open>A call that goes to the server, and what is to be shown of the local part.\<close>

lemma near_remote:
  assumes rel: "near_rel cfg N m srv t M s" and adm: "near_admits cfg c"
  shows "\<exists>r. api_call cfg m c (nc_rc s) = (Inr (vm_answer (rc_force cfg) c M), r) \<and>
    (\<forall>n. coherent m (vm_map (vm_after c M)) n \<and> near_ok (maxEntries N) n \<longrightarrow>
      near_rel cfg N m srv t (vm_after c M) (s\<lparr>nc_rc := r, nc_local := n\<rparr>))"
proof -
  obtain M' where M': "serving cfg m srv t M' (nc_rc s)" "same_map M M'" "flag_free cfg M" "flag_free cfg M'"
    using rel by (auto simp: near_rel_def)
  from rc.step [OF M'(1), of c] obtain r
    where r: "api_call cfg m c (nc_rc s) = (Inr (vm_answer (rc_force cfg) c M'), r)" "serving cfg m srv t (vm_after c M') r"
    by auto
  then show ?thesis
    using same_answer [OF M'(2-4)] same_after [OF M'(2)] free_after [OF adm] by (fastforce simp: near_rel_def)
qed

lemma drop_then_run:
  assumes "bind op (\<lambda>v. ret (g v)) (nc_rc s) = (Inr a, r)"
  shows "bind (seq (local f) (on_rc op)) (\<lambda>v. ret (g v)) s = (Inr a, s\<lparr>nc_rc := r, nc_local := f (nc_local s)\<rparr>)"
proof -
  obtain v where "op (nc_rc s) = (Inr v, r)" "a = g v" using assms by (auto simp: bind_eq_Inr ret_run)
  then show ?thesis by (simp add: local_def on_rc_def seq_run bind_run modify_run on_part_run ret_run)
qed

lemma run_then_drop:
  assumes "bind op (\<lambda>b. ret (ABool b)) (nc_rc s) = (Inr (ABool b), r)"
  shows "bind (bind (on_rc op) (\<lambda>b. seq (if b then local f else ret ()) (ret b))) (\<lambda>b. ret (ABool b)) s =
    (Inr (ABool b), s\<lparr>nc_rc := r, nc_local := (if b then f (nc_local s) else nc_local s)\<rparr>)"
proof -
  have "op (nc_rc s) = (Inr b, r)" using assms by (auto simp: bind_eq_Inr ret_run)
  then show ?thesis by (simp add: local_def on_rc_def seq_run bind_run modify_run on_part_run ret_run)
qed

lemma near_write:
  assumes rel: "near_rel cfg N m srv t M s" and c: "near_admits cfg c"
    and call: "near_call cfg N m c = bind (seq (local (removeElementFromMap (maxEntries N) (keyMarshall m k))) (on_rc op)) (\<lambda>v. ret (g v))"
    and api: "api_call cfg m c = bind op (\<lambda>v. ret (g v))"
    and other: "\<And>k'. k' \<noteq> k \<Longrightarrow> vm_map (vm_after c M) k' = vm_map M k'"
  shows "\<exists>s'. near_call cfg N m c s = (Inr (vm_answer (rc_force cfg) c M), s') \<and> near_rel cfg N m srv t (vm_after c M) s'"
proof -
  let ?n = "removeElementFromMap (maxEntries N) (keyMarshall m k) (nc_local s)"
  from near_remote [OF rel c] obtain r where r: "api_call cfg m c (nc_rc s) = (Inr (vm_answer (rc_force cfg) c M), r)"
    and next_rel: "\<And>n. coherent m (vm_map (vm_after c M)) n \<Longrightarrow> near_ok (maxEntries N) n \<Longrightarrow>
      near_rel cfg N m srv t (vm_after c M) (s\<lparr>nc_rc := r, nc_local := n\<rparr>)" by blast
  have "marshallers_ok m" using rel by (auto simp: near_rel_def serving_ok)
  then have "coherent m (vm_map (vm_after c M)) ?n" "near_ok (maxEntries N) ?n"
    using rel other by (auto simp: near_rel_def near_ok_remove intro!: coherent_remove)
  from next_rel [OF this] show ?thesis
    using drop_then_run [OF r [unfolded api]] by (auto simp: call)
qed

lemma near_versioned:
  assumes rel: "near_rel cfg N m srv t M s" and c: "near_admits cfg c"
    and call: "near_call cfg N m c = bind (bind (on_rc op) (\<lambda>b. seq (if b
      then local (removeElementFromMap (maxEntries N) (keyMarshall m k)) else ret ()) (ret b))) (\<lambda>b. ret (ABool b))"
    and api: "api_call cfg m c = bind op (\<lambda>v. ret (ABool v))"
    and ans: "vm_answer (rc_force cfg) c M = ABool b" "\<not> b \<Longrightarrow> vm_map (vm_after c M) = vm_map M"
    and other: "\<And>k'. k' \<noteq> k \<Longrightarrow> vm_map (vm_after c M) k' = vm_map M k'"
  shows "\<exists>s'. near_call cfg N m c s = (Inr (vm_answer (rc_force cfg) c M), s') \<and> near_rel cfg N m srv t (vm_after c M) s'"
proof -
  let ?n = "if b then removeElementFromMap (maxEntries N) (keyMarshall m k) (nc_local s) else nc_local s"
  from near_remote [OF rel c] obtain r where r: "api_call cfg m c (nc_rc s) = (Inr (vm_answer (rc_force cfg) c M), r)"
    and next_rel: "\<And>n. coherent m (vm_map (vm_after c M)) n \<Longrightarrow> near_ok (maxEntries N) n \<Longrightarrow>
      near_rel cfg N m srv t (vm_after c M) (s\<lparr>nc_rc := r, nc_local := n\<rparr>)" by blast
  have "marshallers_ok m" using rel by (auto simp: near_rel_def serving_ok)
  then have "coherent m (vm_map (vm_after c M)) ?n" "near_ok (maxEntries N) ?n"
    using rel other ans(2) by (auto simp: near_rel_def near_ok_remove intro!: coherent_remove)
  from next_rel [OF this] show ?thesis
    using run_then_drop [OF r [unfolded api ans(1)]] by (auto simp: call ans(1))
qed

lemma near_other:
  assumes rel: "near_rel cfg N m srv t M s" and c: "near_admits cfg c" and call: "near_call cfg N m c = on_rc (api_call cfg m c)"
    and other: "\<And>k'. vm_map M k' \<noteq> None \<Longrightarrow> vm_map (vm_after c M) k' = vm_map M k'"
  shows "\<exists>s'. near_call cfg N m c s = (Inr (vm_answer (rc_force cfg) c M), s') \<and> near_rel cfg N m srv t (vm_after c M) s'"
proof -
  from near_remote [OF rel c] obtain r where r: "api_call cfg m c (nc_rc s) = (Inr (vm_answer (rc_force cfg) c M), r)"
    and next_rel: "\<And>n. coherent m (vm_map (vm_after c M)) n \<Longrightarrow> near_ok (maxEntries N) n \<Longrightarrow>
      near_rel cfg N m srv t (vm_after c M) (s\<lparr>nc_rc := r, nc_local := n\<rparr>)" by blast
  have "coherent m (vm_map (vm_after c M)) (nc_local s)" "near_ok (maxEntries N) (nc_local s)"
    using rel other unfolding near_rel_def coherent_def by (metis option.distinct(1))+
  from next_rel [OF this] show ?thesis by (auto simp: call on_rc_def on_part_run r)
qed

text \<open>Reads: a hit is answered from the map, a miss is fetched and kept.\<close>

lemma near_hit:
  assumes rel: "near_rel cfg N m srv t M s" and e: "map_of (nearMap (nc_local s)) (keyMarshall m k) = Some (w, vb)"
  shows "\<exists>v s'. near_getWithVersion cfg N m k s = (Inr (Some v, w), s') \<and> vm_map M k = Some (w, v)
    \<and> near_rel cfg N m srv t (vm_used M) s'"
proof -
  let ?s = "s\<lparr>nc_local := (nc_local s)\<lparr>nearHits := nearHits (nc_local s) + 1\<rparr>\<rparr>"
  have "marshallers_ok m" "coherent m (vm_map M) (nc_local s)" using rel by (auto simp: near_rel_def serving_ok)
  from coherent_hit [OF this e] have v: "vm_map M k = Some (w, valueUnmarshall m vb)" .
  have "near_getWithVersion cfg N m k s = (Inr (Some (valueUnmarshall m vb), w), ?s)"
    by (simp add: near_getWithVersion_def near_lookup_def local_def sm_simps e)
  moreover have "near_rel cfg N m srv t (vm_used M) ?s"
    using rel by (auto simp: near_rel_def same_map_def flag_free_def vm_used_def)
  ultimately show ?thesis using v by blast
qed

lemma near_miss:
  assumes rel: "near_rel cfg N m srv t M s" and e: "map_of (nearMap (nc_local s)) (keyMarshall m k) = None"
  shows "\<exists>s'. near_getWithVersion cfg N m k s = (Inr (case vm_map M k of None \<Rightarrow> (None, 0) | Some (w, v) \<Rightarrow> (Some v, w)), s')
    \<and> near_rel cfg N m srv t (vm_used M) s'"
proof -
  let ?c = "GetWithVersion k"
  have "near_admits cfg ?c" by (simp add: near_admits_def)
  from near_remote [OF rel this] obtain r where r: "impl_getWithVersion cfg m k (nc_rc s) =
        (Inr (case vm_map M k of None \<Rightarrow> (None, 0) | Some (w, v) \<Rightarrow> (Some v, w)), r)"
    and next_rel: "\<And>n. coherent m (vm_map M) n \<Longrightarrow> near_ok (maxEntries N) n \<Longrightarrow>
      near_rel cfg N m srv t (vm_used M) (s\<lparr>nc_rc := r, nc_local := n\<rparr>)"
    by (fastforce simp: bind_eq_Inr ret_run vm_used_def)
  let ?n = "case vm_map M k of None \<Rightarrow> nc_local s
    | Some (w, v) \<Rightarrow> addElementToMap (maxEntries N) (keyMarshall m k) (w, valueMarshall m v) (nc_local s)"
  have "coherent m (vm_map M) ?n" "near_ok (maxEntries N) ?n"
    using rel by (auto simp: near_rel_def coherent_add near_ok_add split: option.splits)
  from next_rel [OF this] show ?thesis
    by (cases "vm_map M k") (auto simp: near_getWithVersion_def near_lookup_def local_def on_rc_def sm_simps e r)
qed

interpretation nearc: versioned_map "near_call cfg N m" "near_rel cfg N m srv t" "near_admits cfg" "rc_force cfg"
  for cfg N and m :: "('k, 'v) marshallers" and srv t
proof
  fix M :: "('k, 'v) vmap" and s and c :: "('k, 'v) call"
  assume s: "near_rel cfg N m srv t M s" and c: "near_admits cfg c"
  have read: "\<exists>s'. near_getWithVersion cfg N m k s =
      (Inr (case vm_map M k of None \<Rightarrow> (None, 0) | Some (w, v) \<Rightarrow> (Some v, w)), s') \<and> near_rel cfg N m srv t (vm_used M) s'" for k
    using near_hit [OF s, of k] near_miss [OF s, of k] by (cases "map_of (nearMap (nc_local s)) (keyMarshall m k)") auto
  show "\<exists>s'. near_call cfg N m c s = (Inr (vm_answer (rc_force cfg) c M), s') \<and> near_rel cfg N m srv t (vm_after c M) s'"
  proof (cases c)
    case (Get k)
    then show ?thesis
      using read [of k] by (cases "vm_map M k") (auto simp: near_get_def vm_value_def ret_run)
  next
    case (GetWithVersion k)
    then show ?thesis using read [of k] by (auto simp: ret_run)
  next
    case (ContainsKey k)
    show ?thesis by (rule near_other [OF s c]) (simp_all add: ContainsKey vm_used_def)
  next
    case (Put k v life maxIdle)
    show ?thesis
      by (rule near_write [OF s c, where k = k]) (simp_all add: Put near_putCall_def vm_store_def vm_used_def)
  next
    case (PutIfAbsent k v life maxIdle)
    show ?thesis by (rule near_other [OF s c]) (auto simp: PutIfAbsent vm_store_def vm_used_def)
  next
    case (Replace k v life maxIdle)
    show ?thesis
      by (rule near_write [OF s c, where k = k]) (simp_all add: Replace near_replace_def vm_store_def vm_used_def)
  next
    case (Remove k)
    show ?thesis
      by (rule near_write [OF s c, where k = k]) (simp_all add: Remove near_remove_def vm_forget_def vm_used_def)
  next
    case (ReplaceWithVersion k v version life maxIdle)
    show ?thesis
      by (rule near_versioned [OF s c, where k = k])
         (auto simp: ReplaceWithVersion near_replaceWithVersion_def vm_store_def vm_used_def)
  next
    case (RemoveWithVersion k version)
    show ?thesis
      by (rule near_versioned [OF s c, where k = k])
         (auto simp: RemoveWithVersion near_removeWithVersion_def vm_forget_def vm_used_def)
  next
    case Clear
    from near_remote [OF s c] obtain r where "impl_clear cfg (nc_rc s) = (Inr (), r)"
      "near_rel cfg N m srv t (vm_after c M) (s\<lparr>nc_rc := r, nc_local := clearMap (nc_local s)\<rparr>)"
      by (auto simp: Clear bind_eq_Inr ret_run)
    then show ?thesis
      by (auto simp: Clear near_clear_def on_rc_def local_def seq_run on_part_run modify_run ret_run)
  next
    case (WithFlags flags)
    show ?thesis by (rule near_other [OF s c]) (simp_all add: WithFlags)
  qed
qed

lemma same_answers:
  "same_map M M' \<Longrightarrow> flag_free cfg M \<Longrightarrow> flag_free cfg M' \<Longrightarrow> list_all (near_admits cfg) cs \<Longrightarrow>
    vm_answers (rc_force cfg) cs M' = vm_answers (rc_force cfg) cs M"
proof (induction cs arbitrary: M M')
  case (Cons c cs)
  then show ?case
    using same_answer [of M M' cfg c] Cons.IH [OF same_after [OF Cons.prems(1)]] free_after [of cfg c] by auto
qed simp


definition near_start :: near where
  "near_start = \<lparr>nc_rc = one_server, nc_local = NearRemoteCacheImpl\<lparr>callbacks := 1\<rparr>\<rparr>"

definition small_near :: near_config where
  "small_near = \<lparr>maxEntries = 1, addClientListener = ret (), removeClientListener = ret ()\<rparr>"

lemma near_start_rel: "near_rel one_server_config small_near byte_marshallers example_server 0 no_entries near_start"
proof -
  have "coherent byte_marshallers Map.empty (NearRemoteCacheImpl\<lparr>callbacks := 1\<rparr>)"
    by (simp add: coherent_def NearRemoteCacheImpl_def)
  then show ?thesis
    using one_server_serving by (auto simp: near_rel_def near_start_def same_map_def flag_free_def no_entries_def)
qed

lemma one_server_force [simp]: "\<not> rc_force one_server_config"
  by (simp add: one_server_config_def)


text \<open>
  A read that the near cache answers does not take the flags that were set for it, unlike a read
  that goes to the server: they stay for the next call. So a call after \<open>withFlags(FORCE_RETURN_VALUE)\<close> and
  a hit returns the previous value although the flag was given for the read.
\<close>

theorem near_hit_keeps_flags:
  assumes "serving cfg m srv t M (nc_rc s)" "map_of (nearMap (nc_local s)) (keyMarshall m k) = Some e"
  shows "rc_flags (nc_rc (snd (near_get cfg N m k s))) = rc_flags (nc_rc s)
    \<and> \<not> forces (rc_flags (snd (impl_get cfg m k (nc_rc s))))"
proof -
  from impl_get_serving [OF assms(1), of k] obtain s'
    where "impl_get cfg m k (nc_rc s) = (Inr (vm_value M k), s')" "serving cfg m srv t (vm_used M) s'" by blast
  moreover have "\<not> forces (rc_flags s')" using calculation(2) by (auto simp: serving_def vm_used_def)
  moreover obtain w vb where "e = (w, vb)" by (cases e)
  ultimately show ?thesis
    using assms(2) by (simp add: near_get_def near_getWithVersion_def near_lookup_def local_def sm_simps)
qed

definition near_flagged :: near where
  "near_flagged = \<lparr>nc_rc = one_server\<lparr>rc_flags := 1\<rparr>, nc_local = NearRemoteCacheImpl\<lparr>nearMap := [([1], 1, [7])]\<rparr>\<rparr>"

theorem near_hit_keeps_flags_witness:
  "rc_flags (nc_rc (snd (near_get one_server_config small_near byte_marshallers 1 near_flagged))) = 1
    \<and> \<not> forces (rc_flags (snd (impl_get one_server_config byte_marshallers 1 (nc_rc near_flagged))))"
proof -
  have "serving one_server_config byte_marshallers example_server 0 (no_entries\<lparr>vm_force := True\<rparr>) (nc_rc near_flagged)"
    using one_server_serving by (auto simp: serving_def near_flagged_def represents_def forces_def)
  from near_hit_keeps_flags [OF this, of 1 "(1, [7])"] show ?thesis
    by (simp add: near_flagged_def byte_marshallers_def)
qed

section \<open>Events\<close>

text \<open>
  The near cache next to a server that others write to. The server sends an event for every write,
  also for those of this client; events arrive in order. A read that misses is in
  \<open>ns_fetched\<close> between the answer of the server and \<open>addElementToMap\<close>: the mutex is not held there.
\<close>

record near_sys =
  ns_server :: "bytes \<rightharpoonup> u64 \<times> bytes"
  ns_events :: "bytes list"
  ns_fetched :: "(bytes \<times> u64 \<times> bytes) list"
  ns_local :: near_local

text \<open>With \<open>alone\<close>, events are only handled while no read is between its two parts.\<close>

inductive near_step :: "bool \<Rightarrow> nat \<Rightarrow> near_sys \<Rightarrow> near_sys \<Rightarrow> bool" for alone maxE where
  Write: "near_step alone maxE s
      (s\<lparr>ns_server := (ns_server s)(k := e), ns_events := ns_events s @ [k]\<rparr>)"
| OwnWrite: "near_step alone maxE s (s\<lparr>ns_local := removeElementFromMap maxE k (ns_local s)\<rparr>)"
| Fetch: "map_of (nearMap (ns_local s)) k = None \<Longrightarrow> ns_server s k = Some e \<Longrightarrow>
    near_step alone maxE s (s\<lparr>ns_fetched := (k, e) # ns_fetched s\<rparr>)"
| Keep: "(k, e) \<in> set (ns_fetched s) \<Longrightarrow>
    near_step alone maxE s (s\<lparr>ns_fetched := remove1 (k, e) (ns_fetched s),
      ns_local := addElementToMap maxE k e (ns_local s)\<rparr>)"
| Handle: "ns_events s = k # ks \<Longrightarrow> alone \<longrightarrow> ns_fetched s = [] \<Longrightarrow>
    near_step alone maxE s (s\<lparr>ns_events := ks, ns_local := near_event maxE k (ns_local s)\<rparr>)"
| Invalidate: "near_step alone maxE s
      (s\<lparr>ns_local := (invalidateCache (ns_local s))\<lparr>callbacks := callbacks (ns_local s) + 1\<rparr>\<rparr>)"

inductive_cases near_stepE: "near_step alone maxE s s'"

definition near_sys_start :: near_sys where
  "near_sys_start = \<lparr>ns_server = Map.empty, ns_events = [], ns_fetched = [],
     ns_local = NearRemoteCacheImpl\<lparr>callbacks := 1\<rparr>\<rparr>"

definition current :: "near_sys \<Rightarrow> bool" where
  "current s \<longleftrightarrow> callbacks (ns_local s) > 0
    \<and> (\<forall>k e. map_of (nearMap (ns_local s)) k = Some e \<longrightarrow> k \<in> set (ns_events s) \<or> ns_server s k = Some e)
    \<and> (\<forall>(k, e) \<in> set (ns_fetched s). k \<in> set (ns_events s) \<or> ns_server s k = Some e)"

lemma callbacks_event: "callbacks (near_event maxE k n) = callbacks n" "callbacks (addElementToMap maxE k e n) = callbacks n"
  "callbacks (removeElementFromMap maxE k n) = callbacks n"
proof -
  have "callbacks ((removeElementFromMap maxE k ^^ i) n) = callbacks n" for i n
    by (induction i) (simp_all add: removeElementFromMap_def)
  then show "callbacks (near_event maxE k n) = callbacks n" by (simp add: near_event_def)
qed (auto simp: addElementToMap_def removeElementFromMap_def Let_def split: list.splits)

lemma current_step: "near_step True maxE s s' \<Longrightarrow> current s \<Longrightarrow> current s'"
proof (induction rule: near_step.induct)
  case (Write s k e)
  then show ?case by (auto simp: current_def)
next
  case (OwnWrite s k)
  then show ?case by (auto simp: current_def callbacks_event)
next
  case (Fetch s k e)
  then show ?case by (auto simp: current_def)
next
  case (Keep k e s)
  then show ?case by (fastforce simp: current_def callbacks_event dest: add_lookup notin_set_remove1)
next
  case (Handle s k ks)
  then show ?case by (auto simp: current_def callbacks_event event_lookup)
next
  case (Invalidate s)
  then show ?case by (auto simp: current_def invalidateCache_def)
qed


text \<open>A run: another client writes, this one reads, the event arrives, it reads again.\<close>

definition near_read :: near_sys where
  "near_read = \<lparr>ns_server = [[1] \<mapsto> (1, [7])], ns_events = [], ns_fetched = [([1], 1, [7])],
     ns_local = (NearRemoteCacheImpl\<lparr>callbacks := 1\<rparr>)\<lparr>nearRemoved := 1\<rparr>\<rparr>"

lemma near_read_reached: "(near_step alone 1)\<^sup>*\<^sup>* near_sys_start near_read"
proof -
  define s1 where "s1 = near_sys_start\<lparr>ns_server := [[1] \<mapsto> (1, [7])], ns_events := [[1]]\<rparr>"
  define s2 where "s2 = s1\<lparr>ns_events := [], ns_local := near_event 1 [1] (ns_local s1)\<rparr>"
  have 1: "near_step alone 1 near_sys_start s1"
    using near_step.Write [of alone 1 near_sys_start "[1]" "Some (1, [7])"] by (simp add: s1_def near_sys_start_def)
  have 2: "near_step alone 1 s1 s2"
    using near_step.Handle [of s1 "[1]" "[]" alone 1] by (simp add: s1_def s2_def near_sys_start_def)
  have 3: "near_step alone 1 s2 near_read"
    using near_step.Fetch [of s2 "[1]" "(1, [7])" alone 1]
    by (simp add: s2_def s1_def near_sys_start_def near_event_def NearRemoteCacheImpl_def removeElementFromMap_def
        smap_erase_def near_read_def)
  from 1 2 3 show ?thesis by (auto intro: rtranclp.rtrancl_into_rtrancl)
qed


text \<open>
  Without that restriction a stale entry can stay: an event that is handled after the server has
  answered a read and before the answer is kept removes nothing, and the value the write
  replaced is kept after it. No event is on its way then and no read is running, and the near cache
  serves the old version until the key is written again.
\<close>

theorem near_race:
  "\<exists>s. (near_step False 1)\<^sup>*\<^sup>* near_sys_start s \<and> ns_events s = [] \<and> ns_fetched s = []
     \<and> map_of (nearMap (ns_local s)) [1] = Some (1, [7]) \<and> ns_server s [1] = Some (2, [8])"
proof -
  define s1 where "s1 = near_read\<lparr>ns_server := [[1] \<mapsto> (2, [8])], ns_events := [[1]]\<rparr>"
  define s2 where "s2 = s1\<lparr>ns_events := [], ns_local := near_event 1 [1] (ns_local s1)\<rparr>"
  define s3 where "s3 = s2\<lparr>ns_fetched := [], ns_local := addElementToMap 1 [1] (1, [7]) (ns_local s2)\<rparr>"
  have 1: "near_step False 1 near_read s1"
    using near_step.Write [of False 1 near_read "[1]" "Some (2, [8])"] by (simp add: s1_def near_read_def)
  have 2: "near_step False 1 s1 s2"
    using near_step.Handle [of s1 "[1]" "[]" False 1] by (simp add: s1_def s2_def)
  have 3: "near_step False 1 s2 s3"
    using near_step.Keep [of "[1]" "(1, [7])" s2 False 1] by (simp add: s1_def s2_def s3_def near_read_def)
  from 1 2 3 near_read_reached [of False] have "(near_step False 1)\<^sup>*\<^sup>* near_sys_start s3"
    by (auto intro: rtranclp.rtrancl_into_rtrancl)
  moreover have "ns_events s3 = []" "ns_fetched s3 = []" "ns_server s3 [1] = Some (2, [8])"
    "map_of (nearMap (ns_local s3)) [1] = Some (1, [7])"
    by (simp_all add: s3_def s2_def s1_def add_has)
  ultimately show ?thesis by blast
qed

end
