(* ===== verification/HR_Transactions.thy ===== *)
theory HR_Transactions
  imports HR_RemoteCache HR_Containers
begin

text \<open>
  Transactions: \<open>Transactions.h\<close> and \<open>api/TransactionManager.cpp\<close> with the state of a transaction and
  its two phases, \<open>impl/operations/TransactionOperations.cpp\<close> with the requests, and the calls of
  \<open>api/RemoteCacheBase.cpp\<close> that read and write the context of a transaction instead of the server.
  Values are held by pointer there, \<open>None\<close> is the null pointer, and a copy of a value is the value. A
  \<open>RemoteCacheBase*\<close> is a number, a thread id as well. The random numbers are parameters.
\<close>

section \<open>Identifiers\<close>

record xid =
  globalId :: bytes
  branchId :: bytes

definition generateV4UUID :: "bytes \<Rightarrow> bytes" where
  "generateV4UUID rnd = rnd[6 := (rnd ! 6 AND 0x0F) OR 0x40, 8 := (rnd ! 8 AND 0x3F) OR 0x80]"

definition XID :: "bytes \<Rightarrow> bytes \<Rightarrow> bytes \<Rightarrow> xid" where
  "XID uuid rnd1 rnd2 =
    (let ends = take 8 uuid @ drop (length uuid - 8) uuid in
     \<lparr>globalId = ends @ rnd1, branchId = ends @ rnd2\<rparr>)"

definition getFormatId :: u32 where
  "getFormatId = 0x48525458"

text \<open>Comparison of two \<open>std::vector<char>\<close>; \<open>char\<close> is signed.\<close>

fun vec_less :: "bytes \<Rightarrow> bytes \<Rightarrow> bool" where
  "vec_less [] bs = (bs \<noteq> [])"
| "vec_less (a # as) [] = False"
| "vec_less (a # as) (b # bs) = (sint a < sint b \<or> (a = b \<and> vec_less as bs))"

definition xid_less :: "xid \<Rightarrow> xid \<Rightarrow> bool" where
  "xid_less x y =
    (if vec_less (branchId x) (branchId y) then True
     else if vec_less (branchId y) (branchId x) then False
     else vec_less (globalId x) (globalId y))"

section \<open>TransactionContext\<close>

datatype tx_action = SET | DELETED

abbreviation (input) CB_NONE :: byte where "CB_NONE \<equiv> 0x00"
abbreviation (input) NOT_READ :: byte where "NOT_READ \<equiv> 0x01"
abbreviation (input) NON_EXISTING :: byte where "NON_EXISTING \<equiv> 0x02"
abbreviation (input) REMOVE_OP :: byte where "REMOVE_OP \<equiv> 0x04"

text \<open>\<open>ce_marshaller\<close> tells whether the entry has a \<open>valueMarshaller\<close>: an empty \<open>std::function\<close> cannot be called.\<close>

record 'v context_entry =
  ce_action :: tx_action
  ce_value :: "'v option"
  ce_origMeta :: metadata
  ce_meta :: metadata
  ce_changed :: bool
  ce_marshaller :: bool
  ce_controlByte :: byte

definition ContextEntry0 :: "'v context_entry" where
  "ContextEntry0 = \<lparr>ce_action = SET, ce_value = None, ce_origMeta = MetadataValue, ce_meta = MetadataValue,
     ce_changed = False, ce_marshaller = False, ce_controlByte = CB_NONE\<rparr>"

definition ContextEntry :: "tx_action \<Rightarrow> 'v option \<Rightarrow> metadata \<Rightarrow> 'v context_entry" where
  "ContextEntry action val meta = \<lparr>ce_action = action, ce_value = val, ce_origMeta = meta, ce_meta = meta,
     ce_changed = False, ce_marshaller = True, ce_controlByte = CB_NONE\<rparr>"

type_synonym 'v ctx = "(bytes \<times> 'v context_entry) list"

fun ctx_put :: "bytes \<Rightarrow> 'v context_entry \<Rightarrow> 'v ctx \<Rightarrow> 'v ctx" where
  "ctx_put k e [] = [(k, e)]"
| "ctx_put k e ((k', e') # c) =
     (if vec_less k k' then (k, e) # (k', e') # c
      else if k = k' then (k, e) # c
      else (k', e') # ctx_put k e c)"

text \<open>\<open>context[key]\<close>: the entry, made when it is not there.\<close>

definition ctx_entry :: "bytes \<Rightarrow> 'v ctx \<Rightarrow> 'v context_entry" where
  "ctx_entry key c = (case map_of c key of None \<Rightarrow> ContextEntry0 | Some e \<Rightarrow> e)"

definition hasValue :: "bytes \<Rightarrow> 'v ctx \<Rightarrow> bool" where
  "hasValue key c \<longleftrightarrow> map_of c key \<noteq> None"

definition isDeleted :: "bytes \<Rightarrow> 'v ctx \<Rightarrow> bool" where
  "isDeleted key c \<longleftrightarrow> (case map_of c key of None \<Rightarrow> False | Some e \<Rightarrow> ce_action e = DELETED)"

definition getValue :: "bytes \<Rightarrow> 'v ctx \<Rightarrow> 'v option \<times> 'v ctx" where
  "getValue key c =
    (let ce = ctx_entry key c in
     ((if ce_action ce = DELETED then None else ce_value ce), ctx_put key ce c))"

definition getEntry :: "bytes \<Rightarrow> 'v ctx \<Rightarrow> 'v context_entry \<times> 'v ctx" where
  "getEntry key c = (let ce = ctx_entry key c in (ce, ctx_put key ce c))"

definition setValue :: "bytes \<Rightarrow> 'v \<Rightarrow> metadata \<Rightarrow> 'v ctx \<Rightarrow> 'v ctx" where
  "setValue key val meta c =
    (let ce = ctx_entry key c in
     ctx_put key (ce\<lparr>ce_action := SET, ce_meta := meta\<lparr>md_version := md_version (ce_origMeta ce) + 1\<rparr>,
       ce_changed := True, ce_marshaller := True, ce_value := Some val\<rparr>) c)"

definition addValue :: "bytes \<Rightarrow> 'v option \<Rightarrow> metadata \<Rightarrow> byte \<Rightarrow> 'v ctx \<Rightarrow> 'v ctx" where
  "addValue key val meta cb c =
    (let ce = ContextEntry SET val meta in ctx_put key (ce\<lparr>ce_controlByte := ce_controlByte ce OR cb\<rparr>) c)"

definition setValueAsDeleted :: "bytes \<Rightarrow> 'v ctx \<Rightarrow> 'v ctx" where
  "setValueAsDeleted key c =
    (let ce = ctx_entry key c in
     ctx_put key (ce\<lparr>ce_action := DELETED, ce_meta := MetadataValue\<lparr>md_version := md_version (ce_origMeta ce) + 1\<rparr>,
       ce_changed := True, ce_value := None\<rparr>) c)"

definition ctx_getBulk :: "'v ctx \<Rightarrow> (bytes \<times> 'v) list" where
  "ctx_getBulk c = List.map_filter (\<lambda>(k, e). if ce_action e \<noteq> DELETED
     then map_option (Pair k) (ce_value e) else None) c"

definition removeEntry :: "bytes \<Rightarrow> 'v ctx \<Rightarrow> 'v ctx" where
  "removeEntry key c = filter (\<lambda>(k, e). k \<noteq> key) c"

section \<open>Transaction\<close>

datatype tx_status = ACTIVE | MARKED_ROLLBACK | PREPARED | COMMITTED | ROLLEDBACK | TX_UNKNOWN | NO_TRANSACTION
  | PREPARING | COMMITTING | ROLLING_BACK

fun statusToString :: "tx_status \<Rightarrow> string" where
  "statusToString ACTIVE = ''ACTIVE''"
| "statusToString MARKED_ROLLBACK = ''MARKED_ROLLBACK''"
| "statusToString PREPARED = ''PREPARED''"
| "statusToString COMMITTED = ''COMMITTED''"
| "statusToString ROLLEDBACK = ''ROLLEDBACK''"
| "statusToString TX_UNKNOWN = ''UNKNOWN''"
| "statusToString NO_TRANSACTION = ''NO_TRANSACTION''"
| "statusToString PREPARING = ''PREPARING''"
| "statusToString COMMITTING = ''COMMITTING''"
| "statusToString ROLLING_BACK = ''ROLLING_BACK''"

text \<open>\<open>tx_prepared\<close> has the caches of \<open>preparedCache\<close>, which points into \<open>registeredCache\<close>.\<close>

record 'v transaction =
  tx_status :: tx_status
  tx_xid :: xid
  tx_registered :: "(nat, 'v ctx) smap"
  tx_prepared :: "(nat, unit) smap"

definition canBegin :: "tx_status \<Rightarrow> bool" where
  "canBegin st \<longleftrightarrow> st = NO_TRANSACTION \<or> st = COMMITTED"

definition canCommit :: "tx_status \<Rightarrow> bool" where
  "canCommit st \<longleftrightarrow> st = ACTIVE"

definition canRollback :: "tx_status \<Rightarrow> bool" where
  "canRollback st \<longleftrightarrow> st = ACTIVE"

definition needsRollback :: "tx_status \<Rightarrow> bool" where
  "needsRollback st \<longleftrightarrow> st = MARKED_ROLLBACK"

definition acceptRW :: "tx_status \<Rightarrow> bool" where
  "acceptRW st \<longleftrightarrow> st = ACTIVE \<or> st = MARKED_ROLLBACK"

definition acceptRead :: "tx_status \<Rightarrow> bool" where
  "acceptRead st \<longleftrightarrow> st \<noteq> COMMITTED \<and> st \<noteq> ROLLEDBACK"

section \<open>TransactionManager\<close>

text \<open>The transactions of the threads, the identifiers not used yet, and the state behind the caches.\<close>

record ('s, 'v) tx_sys =
  currentTransactions :: "nat \<rightharpoonup> 'v transaction"
  freshXid :: "nat \<Rightarrow> xid"
  xidCount :: nat
  tx_env :: 's

record ('s, 'v) tx_remote =
  tr_prepare :: "nat \<Rightarrow> xid \<Rightarrow> 'v ctx \<Rightarrow> ('s, u32) sm"
  tr_commit :: "nat \<Rightarrow> xid \<Rightarrow> 'v ctx \<Rightarrow> ('s, u32) sm"
  tr_rollback :: "nat \<Rightarrow> xid \<Rightarrow> 'v ctx \<Rightarrow> ('s, u32) sm"

definition on_env :: "('s, 'a) sm \<Rightarrow> (('s, 'v) tx_sys, 'a) sm" where
  "on_env m = on_part tx_env (\<lambda>e s. s\<lparr>tx_env := e\<rparr>) m"

text \<open>A new \<open>Transaction\<close> draws an identifier.\<close>

definition getCurrentTransaction :: "nat \<Rightarrow> (('s, 'v) tx_sys, 'v transaction) sm" where
  "getCurrentTransaction tid s =
    (case currentTransactions s tid of
       Some t \<Rightarrow> (Inr t, s)
     | None \<Rightarrow>
         (let t = \<lparr>tx_status = NO_TRANSACTION, tx_xid = freshXid s (xidCount s), tx_registered = [], tx_prepared = []\<rparr> in
          (Inr t, s\<lparr>currentTransactions := (currentTransactions s)(tid \<mapsto> t), xidCount := xidCount s + 1\<rparr>)))"

definition set_tx :: "nat \<Rightarrow> 'v transaction \<Rightarrow> (('s, 'v) tx_sys, unit) sm" where
  "set_tx tid t = modify (\<lambda>s. s\<lparr>currentTransactions := (currentTransactions s)(tid \<mapsto> t)\<rparr>)"

definition cleanUpCurrentTransaction :: "nat \<Rightarrow> (('s, 'v) tx_sys, unit) sm" where
  "cleanUpCurrentTransaction tid = modify (\<lambda>s. s\<lparr>currentTransactions := (currentTransactions s)(tid := None)\<rparr>)"

definition tx_begin :: "nat \<Rightarrow> (('s, 'v) tx_sys, unit) sm" where
  "tx_begin tid =
    bind (getCurrentTransaction tid) (\<lambda>t.
    if canBegin (tx_status t) then set_tx tid (t\<lparr>tx_status := ACTIVE\<rparr>)
    else raise (HotRodClientTxStateException (statusToString (tx_status t)) ''begin()''))"

abbreviation (input) XA_OK :: u32 where "XA_OK \<equiv> 0x00"
abbreviation (input) XA_RDONLY :: u32 where "XA_RDONLY \<equiv> 0x03"
abbreviation (input) XA_HEURCOM :: u32 where "XA_HEURCOM \<equiv> 0x07"
abbreviation (input) XAER_NOTA :: u32 where "XAER_NOTA \<equiv> 0xFFFFFFFC"
abbreviation (input) XA_HEURMIX :: u32 where "XA_HEURMIX \<equiv> 0x05"
abbreviation (input) XA_HEURHAZ :: u32 where "XA_HEURHAZ \<equiv> 0x08"
abbreviation (input) XA_HEURRB :: u32 where "XA_HEURRB \<equiv> 0x06"
abbreviation (input) XA_RBROLLBACK :: u32 where "XA_RBROLLBACK \<equiv> 0x64"

text \<open>
  The loop over \<open>registeredCache\<close>; the caches prepared so far are in the transaction, where a rollback
  after an exception finds them.
\<close>

definition note_prepared :: "nat \<Rightarrow> nat \<Rightarrow> (('s, 'v) tx_sys, unit) sm" where
  "note_prepared tid cache =
    bind (getCurrentTransaction tid) (\<lambda>t. set_tx tid (t\<lparr>tx_prepared := smap_put cache () (tx_prepared t)\<rparr>))"

fun prepare_caches ::
  "('s, 'v) tx_remote \<Rightarrow> nat \<Rightarrow> xid \<Rightarrow> (nat, 'v ctx) smap \<Rightarrow> bool \<Rightarrow> (('s, 'v) tx_sys, bool) sm" where
  "prepare_caches R tid xid [] readOnly = ret readOnly"
| "prepare_caches R tid xid ((cache, c) # cs) readOnly =
     bind (on_env (tr_prepare R cache xid c)) (\<lambda>code.
     if code = XA_OK then seq (note_prepared tid cache) (prepare_caches R tid xid cs False)
     else if code = XA_RDONLY then prepare_caches R tid xid cs readOnly
     else seq (note_prepared tid cache) (raise (HotRodClientTxRemoteStateException code)))"

definition remotePrepareCommit :: "('s, 'v) tx_remote \<Rightarrow> nat \<Rightarrow> (('s, 'v) tx_sys, u32) sm" where
  "remotePrepareCommit R tid =
    bind (getCurrentTransaction tid) (\<lambda>t.
    bind (prepare_caches R tid (tx_xid t) (tx_registered t) True) (\<lambda>readOnly.
    ret (if readOnly then XA_RDONLY else XA_OK)))"

text \<open>What the two loops of the second phase collect: \<open>hasCommit\<close>, \<open>hasRollback\<close>, \<open>alreadyForgot\<close>, \<open>unknown\<close>.\<close>

record tx_outcome =
  hasCommit :: bool
  hasRollback :: bool
  alreadyForgot :: bool
  unknownCode :: "u32 option"

definition no_outcome :: tx_outcome where
  "no_outcome = \<lparr>hasCommit = False, hasRollback = False, alreadyForgot = False, unknownCode = None\<rparr>"

definition commit_code :: "u32 \<Rightarrow> tx_outcome \<Rightarrow> tx_outcome" where
  "commit_code code r =
    (if code = XA_OK \<or> code = XA_RDONLY \<or> code = XA_HEURCOM then r\<lparr>hasCommit := True\<rparr>
     else if code = XAER_NOTA then r\<lparr>alreadyForgot := True\<rparr>
     else if code = XA_HEURMIX \<or> code = XA_HEURHAZ then r\<lparr>hasCommit := True, hasRollback := True\<rparr>
     else if code = XA_HEURRB then r\<lparr>hasRollback := True\<rparr>
     else r\<lparr>unknownCode := Some code\<rparr>)"

definition rollback_code :: "u32 \<Rightarrow> tx_outcome \<Rightarrow> tx_outcome" where
  "rollback_code code r =
    (if code = XA_OK \<or> code = XA_RDONLY \<or> code = XA_HEURRB then r\<lparr>hasRollback := True\<rparr>
     else if code = XAER_NOTA then r\<lparr>alreadyForgot := True\<rparr>
     else if code = XA_HEURMIX \<or> code = XA_HEURHAZ then r\<lparr>hasCommit := True, hasRollback := True\<rparr>
     else if code = XA_HEURCOM then r\<lparr>hasCommit := True\<rparr>
     else r\<lparr>unknownCode := Some code\<rparr>)"

fun commit_caches ::
  "('s, 'v) tx_remote \<Rightarrow> xid \<Rightarrow> (nat, 'v ctx) smap \<Rightarrow> tx_outcome \<Rightarrow> (('s, 'v) tx_sys, tx_outcome) sm" where
  "commit_caches R xid [] r = ret r"
| "commit_caches R xid ((cache, c) # cs) r =
     bind (on_env (tr_commit R cache xid c)) (\<lambda>code. commit_caches R xid cs (commit_code code r))"

definition commit_verdict :: "tx_outcome \<Rightarrow> u32 option" where
  "commit_verdict r =
    (if \<not> hasCommit r \<and> \<not> hasRollback r then (if alreadyForgot r then Some XAER_NOTA else unknownCode r)
     else if hasCommit r \<and> hasRollback r then Some XA_HEURMIX
     else if hasRollback r then Some XA_HEURRB
     else None)"

definition rollback_verdict :: "tx_outcome \<Rightarrow> u32 option" where
  "rollback_verdict r =
    (if \<not> hasCommit r \<and> \<not> hasRollback r then (if alreadyForgot r then Some XAER_NOTA else unknownCode r)
     else if hasCommit r \<and> hasRollback r then Some XA_HEURMIX
     else if hasCommit r then Some XA_HEURCOM
     else None)"

definition throw_verdict :: "u32 option \<Rightarrow> ('s, unit) sm" where
  "throw_verdict v = (case v of None \<Rightarrow> ret () | Some code \<Rightarrow> raise (HotRodClientTxRemoteStateException code))"

definition remoteCommit :: "('s, 'v) tx_remote \<Rightarrow> nat \<Rightarrow> (('s, 'v) tx_sys, unit) sm" where
  "remoteCommit R tid =
    bind (getCurrentTransaction tid) (\<lambda>t.
    bind (commit_caches R (tx_xid t) (tx_registered t) no_outcome) (\<lambda>r. throw_verdict (commit_verdict r)))"

fun rollback_caches ::
  "('s, 'v) tx_remote \<Rightarrow> xid \<Rightarrow> (nat, 'v ctx) smap \<Rightarrow> (nat, unit) smap \<Rightarrow> tx_outcome \<Rightarrow> (('s, 'v) tx_sys, tx_outcome) sm" where
  "rollback_caches R xid registered [] r = ret r"
| "rollback_caches R xid registered ((cache, u) # cs) r =
     (case map_of registered cache of
        None \<Rightarrow> raise (UndefinedBehaviour ''dangling context'')
      | Some c \<Rightarrow>
          bind (on_env (tr_rollback R cache xid c)) (\<lambda>code. rollback_caches R xid registered cs (rollback_code code r)))"

definition remoteRollback :: "('s, 'v) tx_remote \<Rightarrow> nat \<Rightarrow> (('s, 'v) tx_sys, unit) sm" where
  "remoteRollback R tid =
    bind (getCurrentTransaction tid) (\<lambda>t.
    bind (rollback_caches R (tx_xid t) (tx_registered t) (tx_prepared t) no_outcome) (\<lambda>r.
    throw_verdict (rollback_verdict r)))"

definition set_status :: "nat \<Rightarrow> tx_status \<Rightarrow> (('s, 'v) tx_sys, unit) sm" where
  "set_status tid st = bind (getCurrentTransaction tid) (\<lambda>t. set_tx tid (t\<lparr>tx_status := st\<rparr>))"

text \<open>The handlers and the \<open>try\<close> block: the status is set, the code for the exception is returned.\<close>

definition commit_handler :: "('s, 'v) tx_remote \<Rightarrow> nat \<Rightarrow> exn \<Rightarrow> (('s, 'v) tx_sys, u32) sm" where
  "commit_handler R tid e =
    (case e of
       HotRodClientTxRemoteStateException code \<Rightarrow>
         seq (remoteRollback R tid) (seq (set_status tid ROLLEDBACK) (ret code))
     | _ \<Rightarrow>
         if is_client_exn e then seq (remoteRollback R tid) (seq (set_status tid ROLLEDBACK) (ret XA_RBROLLBACK))
         else raise e)"

definition commit_phases :: "('s, 'v) tx_remote \<Rightarrow> nat \<Rightarrow> (('s, 'v) tx_sys, u32) sm" where
  "commit_phases R tid =
    catch (bind (remotePrepareCommit R tid) (\<lambda>code.
           seq (if code = XA_OK then remoteCommit R tid else ret ())
          (seq (set_status tid COMMITTED) (ret XA_RBROLLBACK))))
      (commit_handler R tid)"

definition tx_commit :: "('s, 'v) tx_remote \<Rightarrow> nat \<Rightarrow> (('s, 'v) tx_sys, unit) sm" where
  "tx_commit R tid =
    bind (getCurrentTransaction tid) (\<lambda>t.
    if canCommit (tx_status t)
    then bind (if needsRollback (tx_status t)
               then seq (remoteRollback R tid) (seq (set_status tid ROLLEDBACK) (ret XA_RBROLLBACK))
               else commit_phases R tid) (\<lambda>exCode.
         bind (getCurrentTransaction tid) (\<lambda>t'.
         seq (cleanUpCurrentTransaction tid)
             (if tx_status t' = ROLLEDBACK then raise (HotRodClientRollbackException exCode) else ret ())))
    else raise (HotRodClientTxStateException (statusToString (tx_status t)) ''commit()''))"

definition tx_rollback :: "('s, 'v) tx_remote \<Rightarrow> nat \<Rightarrow> (('s, 'v) tx_sys, unit) sm" where
  "tx_rollback R tid =
    bind (getCurrentTransaction tid) (\<lambda>t.
    if canRollback (tx_status t)
    then seq (remoteRollback R tid) (seq (set_status tid ROLLEDBACK) (cleanUpCurrentTransaction tid))
    else raise (HotRodClientTxStateException (statusToString (tx_status t)) ''rollback()''))"

end
