(* ===== verification/HR_TxCache.thy ===== *)
theory HR_TxCache
  imports HR_Transactions
begin

text \<open>
  \<open>api/RemoteCacheBase.cpp\<close>: the calls of a cache. Outside of a transaction they go to the
  implementation, in a transaction to its context. The implementation, \<open>RemoteCacheImpl\<close> or the near
  cache, is the record \<open>impl_ops\<close>. The transaction is the one of the calling thread.
\<close>

section \<open>The cache and its implementation\<close>

record ('s, 'k, 'v) impl_ops =
  im_get :: "'k \<Rightarrow> ('s, 'v option) sm"
  im_put :: "'k \<Rightarrow> 'v \<Rightarrow> u64 \<Rightarrow> u64 \<Rightarrow> ('s, 'v option) sm"
  im_putIfAbsent :: "'k \<Rightarrow> 'v \<Rightarrow> u64 \<Rightarrow> u64 \<Rightarrow> ('s, 'v option) sm"
  im_replace :: "'k \<Rightarrow> 'v \<Rightarrow> u64 \<Rightarrow> u64 \<Rightarrow> ('s, 'v option) sm"
  im_remove :: "'k \<Rightarrow> ('s, 'v option) sm"
  im_containsKey :: "'k \<Rightarrow> ('s, bool) sm"
  im_replaceWithVersion :: "'k \<Rightarrow> 'v \<Rightarrow> u64 \<Rightarrow> u64 \<Rightarrow> u64 \<Rightarrow> ('s, bool) sm"
  im_removeWithVersion :: "'k \<Rightarrow> u64 \<Rightarrow> ('s, bool) sm"
  im_getWithVersion :: "'k \<Rightarrow> ('s, 'v option \<times> u64) sm"
  im_getWithMetadata :: "'k \<Rightarrow> ('s, 'v option \<times> metadata) sm"

definition RemoteCacheImpl_ops :: "rc_config \<Rightarrow> ('k, 'v) marshallers \<Rightarrow> (rcache, 'k, 'v) impl_ops" where
  "RemoteCacheImpl_ops cfg m =
    \<lparr>im_get = impl_get cfg m, im_put = impl_put cfg m, im_putIfAbsent = impl_putIfAbsent cfg m,
     im_replace = impl_replace cfg m, im_remove = impl_remove cfg m, im_containsKey = impl_containsKey cfg m,
     im_replaceWithVersion = impl_replaceWithVersion cfg m, im_removeWithVersion = impl_removeWithVersion cfg m,
     im_getWithVersion = impl_getWithVersion cfg m, im_getWithMetadata = impl_getWithMetadata cfg m\<rparr>"

record ('s, 'k, 'v) rcb =
  rb_id :: nat
  rb_transactional :: bool
  rb_forceReturnValue :: bool
  rb_keyMarshall :: "'k \<Rightarrow> bytes"
  rb_impl :: "('s, 'k, 'v) impl_ops"

section \<open>The context of the transaction\<close>

text \<open>\<open>transactionTable.getAdapter(tx).getTransactionContext(this)\<close> and what is done with it.\<close>

definition on_ctx :: "nat \<Rightarrow> nat \<Rightarrow> ('v ctx \<Rightarrow> 'a \<times> 'v ctx) \<Rightarrow> (('s, 'v) tx_sys, 'a) sm" where
  "on_ctx tid cache f =
    bind (getCurrentTransaction tid) (\<lambda>t.
    case f (case map_of (tx_registered t) cache of None \<Rightarrow> [] | Some c \<Rightarrow> c) of
      (a, c) \<Rightarrow> seq (set_tx tid (t\<lparr>tx_registered := smap_put cache c (tx_registered t)\<rparr>)) (ret a))"

definition require :: "nat \<Rightarrow> (tx_status \<Rightarrow> bool) \<Rightarrow> string \<Rightarrow> (('s, 'v) tx_sys, unit) sm" where
  "require tid P action =
    bind (getCurrentTransaction tid) (\<lambda>t.
    if P (tx_status t) then ret ()
    else raise (HotRodClientTxStateException (statusToString (tx_status t)) action))"

definition transactional_base_get :: "('s, 'k, 'v) rcb \<Rightarrow> nat \<Rightarrow> 'k \<Rightarrow> (('s, 'v) tx_sys, 'v option) sm" where
  "transactional_base_get B tid k =
    seq (require tid acceptRead ''get'')
    (bind (on_ctx tid (rb_id B) (\<lambda>c. (hasValue (rb_keyMarshall B k) c, c))) (\<lambda>there.
     if \<not> there
     then bind (on_env (im_getWithMetadata (rb_impl B) k)) (\<lambda>(val, meta).
          seq (on_ctx tid (rb_id B) (\<lambda>c. ((), addValue (rb_keyMarshall B k) val meta
                (if val \<noteq> None then CB_NONE else NON_EXISTING) c)))
              (ret val))
     else on_ctx tid (rb_id B) (getValue (rb_keyMarshall B k))))"

definition tx_meta :: "u64 \<Rightarrow> u64 \<Rightarrow> metadata" where
  "tx_meta life maxIdle = MetadataValue\<lparr>md_lifespan := ucast life, md_maxIdle := ucast maxIdle\<rparr>"

definition transactional_base_put ::
  "('s, 'k, 'v) rcb \<Rightarrow> nat \<Rightarrow> 'k \<Rightarrow> 'v \<Rightarrow> u64 \<Rightarrow> u64 \<Rightarrow> bool \<Rightarrow> (('s, 'v) tx_sys, 'v option) sm" where
  "transactional_base_put B tid k v life maxIdle forceRV =
    seq (require tid acceptRW ''put'')
    (bind (if forceRV then transactional_base_get B tid k else ret None) (\<lambda>retVal.
     seq (on_ctx tid (rb_id B) (\<lambda>c. ((),
            if hasValue (rb_keyMarshall B k) c then setValue (rb_keyMarshall B k) v (tx_meta life maxIdle) c
            else addValue (rb_keyMarshall B k) (Some v) (tx_meta life maxIdle) NOT_READ c)))
         (ret retVal)))"

section \<open>The calls\<close>

text \<open>The test all calls begin with.\<close>

definition in_tx ::
  "('s, 'k, 'v) rcb \<Rightarrow> nat \<Rightarrow> (('s, 'v) tx_sys, 'a) sm \<Rightarrow> (('s, 'v) tx_sys, 'a) sm \<Rightarrow> (('s, 'v) tx_sys, 'a) sm" where
  "in_tx B tid tx plain =
    (if rb_transactional B
     then bind (getCurrentTransaction tid) (\<lambda>t. if tx_status t \<noteq> NO_TRANSACTION then tx else plain)
     else plain)"

definition base_get :: "('s, 'k, 'v) rcb \<Rightarrow> nat \<Rightarrow> 'k \<Rightarrow> (('s, 'v) tx_sys, 'v option) sm" where
  "base_get B tid k = in_tx B tid (transactional_base_get B tid k) (on_env (im_get (rb_impl B) k))"

definition base_put :: "('s, 'k, 'v) rcb \<Rightarrow> nat \<Rightarrow> 'k \<Rightarrow> 'v \<Rightarrow> u64 \<Rightarrow> u64 \<Rightarrow> (('s, 'v) tx_sys, 'v option) sm" where
  "base_put B tid k v life maxIdle =
    in_tx B tid (transactional_base_put B tid k v life maxIdle (rb_forceReturnValue B))
      (on_env (im_put (rb_impl B) k v life maxIdle))"

fun base_putAll :: "('s, 'k, 'v) rcb \<Rightarrow> nat \<Rightarrow> ('k \<times> 'v) list \<Rightarrow> u64 \<Rightarrow> u64 \<Rightarrow> (('s, 'v) tx_sys, unit) sm" where
  "base_putAll B tid [] life maxIdle = ret ()"
| "base_putAll B tid ((k, v) # kvs) life maxIdle =
     seq (base_put B tid k v life maxIdle) (base_putAll B tid kvs life maxIdle)"

definition base_putIfAbsent ::
  "('s, 'k, 'v) rcb \<Rightarrow> nat \<Rightarrow> 'k \<Rightarrow> 'v \<Rightarrow> u64 \<Rightarrow> u64 \<Rightarrow> (('s, 'v) tx_sys, 'v option) sm" where
  "base_putIfAbsent B tid k v life maxIdle =
    in_tx B tid
      (bind (transactional_base_get B tid k) (\<lambda>retVal.
       seq (if retVal = None then bind (transactional_base_put B tid k v life maxIdle False) (\<lambda>_. ret ()) else ret ())
           (ret None)))
      (on_env (im_putIfAbsent (rb_impl B) k v life maxIdle))"

definition base_replace ::
  "('s, 'k, 'v) rcb \<Rightarrow> nat \<Rightarrow> 'k \<Rightarrow> 'v \<Rightarrow> u64 \<Rightarrow> u64 \<Rightarrow> (('s, 'v) tx_sys, 'v option) sm" where
  "base_replace B tid k v life maxIdle =
    in_tx B tid
      (seq (require tid acceptRW ''replace'')
      (bind (transactional_base_get B tid k) (\<lambda>retVal.
       if retVal \<noteq> None
       then seq (on_ctx tid (rb_id B) (\<lambda>c. ((), setValue (rb_keyMarshall B k) v (tx_meta life maxIdle) c)))
                (ret (if rb_forceReturnValue B then retVal else None))
       else ret None)))
      (on_env (im_replace (rb_impl B) k v life maxIdle))"

definition base_remove :: "('s, 'k, 'v) rcb \<Rightarrow> nat \<Rightarrow> 'k \<Rightarrow> (('s, 'v) tx_sys, 'v option) sm" where
  "base_remove B tid k =
    in_tx B tid
      (seq (require tid acceptRW ''remove'')
      (bind (if rb_forceReturnValue B then transactional_base_get B tid k else ret None) (\<lambda>retVal.
       seq (on_ctx tid (rb_id B) (\<lambda>c. ((), setValueAsDeleted (rb_keyMarshall B k) c))) (ret retVal))))
      (on_env (im_remove (rb_impl B) k))"

text \<open>In a transaction, a key without a value in the context is looked for on the server.\<close>

definition base_containsKey :: "('s, 'k, 'v) rcb \<Rightarrow> nat \<Rightarrow> 'k \<Rightarrow> (('s, 'v) tx_sys, bool) sm" where
  "base_containsKey B tid k =
    in_tx B tid
      (seq (require tid acceptRead ''containsKey'')
      (bind (on_ctx tid (rb_id B) (getValue (rb_keyMarshall B k))) (\<lambda>val.
       if val \<noteq> None then ret True else on_env (im_containsKey (rb_impl B) k))))
      (on_env (im_containsKey (rb_impl B) k))"

definition base_replaceWithVersion ::
  "('s, 'k, 'v) rcb \<Rightarrow> nat \<Rightarrow> 'k \<Rightarrow> 'v \<Rightarrow> u64 \<Rightarrow> u64 \<Rightarrow> u64 \<Rightarrow> (('s, 'v) tx_sys, bool) sm" where
  "base_replaceWithVersion B tid k v version life maxIdle =
    in_tx B tid
      (seq (require tid acceptRW ''replaceWithVersion'')
      (bind (transactional_base_get B tid k) (\<lambda>retVal.
       if retVal \<noteq> None
       then bind (on_ctx tid (rb_id B) (getEntry (rb_keyMarshall B k))) (\<lambda>entry.
            if md_version (ce_meta entry) = version
            then seq (on_ctx tid (rb_id B) (\<lambda>c. ((), setValue (rb_keyMarshall B k) v
                       ((tx_meta life maxIdle)\<lparr>md_version := md_version (ce_meta entry) + 1\<rparr>) c)))
                     (ret True)
            else ret False)
       else ret False)))
      (on_env (im_replaceWithVersion (rb_impl B) k v version life maxIdle))"

definition base_removeWithVersion :: "('s, 'k, 'v) rcb \<Rightarrow> nat \<Rightarrow> 'k \<Rightarrow> u64 \<Rightarrow> (('s, 'v) tx_sys, bool) sm" where
  "base_removeWithVersion B tid k version =
    in_tx B tid
      (seq (require tid acceptRW ''removeWithVersion'')
      (bind (transactional_base_get B tid k) (\<lambda>retVal.
       if retVal \<noteq> None
       then bind (on_ctx tid (rb_id B) (getEntry (rb_keyMarshall B k))) (\<lambda>entry.
            if md_version (ce_meta entry) = version
            then seq (on_ctx tid (rb_id B) (\<lambda>c. ((), setValueAsDeleted (rb_keyMarshall B k) c))) (ret True)
            else ret False)
       else ret False)))
      (on_env (im_removeWithVersion (rb_impl B) k version))"

text \<open>
  In a transaction the two calls below leave what the caller gave for the version or the metadata as it
  is: \<open>ver\<close> and \<open>meta\<close>.
\<close>

definition base_getWithVersion :: "('s, 'k, 'v) rcb \<Rightarrow> nat \<Rightarrow> 'k \<Rightarrow> u64 \<Rightarrow> (('s, 'v) tx_sys, 'v option \<times> u64) sm" where
  "base_getWithVersion B tid k ver =
    in_tx B tid (bind (transactional_base_get B tid k) (\<lambda>v. ret (v, ver)))
      (on_env (im_getWithVersion (rb_impl B) k))"

definition base_getWithMetadata ::
  "('s, 'k, 'v) rcb \<Rightarrow> nat \<Rightarrow> 'k \<Rightarrow> metadata \<Rightarrow> (('s, 'v) tx_sys, 'v option \<times> metadata) sm" where
  "base_getWithMetadata B tid k meta =
    in_tx B tid (bind (transactional_base_get B tid k) (\<lambda>v. ret (v, meta)))
      (on_env (im_getWithMetadata (rb_impl B) k))"

section \<open>The requests\<close>

definition writeXID :: "xid \<Rightarrow> bytes" where
  "writeXID x = writeVInt (push_bit 1 getFormatId XOR drop_bit 31 getFormatId)
     @ writeArray (globalId x) @ writeArray (branchId x)"

text \<open>
  Marshalling the value of an entry: a call of an empty \<open>std::function\<close> throws, and a null pointer is
  dereferenced by the marshaller of the cache.
\<close>

definition entry_value :: "('v \<Rightarrow> bytes) \<Rightarrow> 'v context_entry \<Rightarrow> ('f io, bytes) sm" where
  "entry_value mv e =
    (if \<not> ce_marshaller e then raise (StdException ''bad_function_call'')
     else case ce_value e of
       None \<Rightarrow> raise (UndefinedBehaviour ''null value'')
     | Some v \<Rightarrow> ret (mv v))"

text \<open>The durations are signed; what is not set is \<open>-1\<close>.\<close>

definition positive_duration :: "u32 \<Rightarrow> bytes" where
  "positive_duration d = (if 0 < sint d then writeVLong (ucast d) else [])"

definition write_entry :: "('v \<Rightarrow> bytes) \<Rightarrow> bytes \<times> 'v context_entry \<Rightarrow> ('f io, unit) sm" where
  "write_entry mv = (\<lambda>(k, e).
    seq (wr (writeArray k @ [ce_controlByte e]))
    (seq (if ce_controlByte e AND (NON_EXISTING OR NOT_READ) = 0 then wr (writeLong (md_version (ce_origMeta e))) else ret ())
         (if ce_controlByte e AND REMOVE_OP = 0
          then seq (wr ([0x77] @ positive_duration (md_lifespan (ce_meta e)) @ positive_duration (md_maxIdle (ce_meta e))))
               (bind (entry_value mv e) (\<lambda>bs. wr (writeArray bs)))
          else ret ())))"

definition PrepareCommitOperation ::
  "'f tf_iface \<Rightarrow> op_ctx \<Rightarrow> ('v \<Rightarrow> bytes) \<Rightarrow> xid \<Rightarrow> 'v ctx \<Rightarrow> ('f io, u32) sm" where
  "PrepareCommitOperation tf ctx mv x c =
    bind (exchange tf ctx PREPARE_REQUEST
      (seq (wr (writeXID x @ [0] @ writeVInt (of_nat (length c)))) (for_each c (write_entry mv)))) (\<lambda>_.
    rd read4ByteInt)"

definition CommitOperation :: "'f tf_iface \<Rightarrow> op_ctx \<Rightarrow> xid \<Rightarrow> ('f io, u32) sm" where
  "CommitOperation tf ctx x = bind (exchange tf ctx COMMIT_REQUEST (wr (writeXID x))) (\<lambda>_. rd read4ByteInt)"

definition RollbackOperation :: "'f tf_iface \<Rightarrow> op_ctx \<Rightarrow> xid \<Rightarrow> ('f io, u32) sm" where
  "RollbackOperation tf ctx x =
    bind (exchange tf ctx ROLLBACK_REQUEST (wr (writeXID x))) (\<lambda>_. seq (rd read4ByteInt) (ret 0))"

definition newPrepareCommitOperation :: "rc_config \<Rightarrow> ('v \<Rightarrow> bytes) \<Rightarrow> xid \<Rightarrow> 'v ctx \<Rightarrow> (rcache, u32 operation) sm" where
  "newPrepareCommitOperation cfg mv x c = newOperation cfg None (\<lambda>tf ctx. PrepareCommitOperation tf ctx mv x c)"

definition newCommitOperation :: "rc_config \<Rightarrow> xid \<Rightarrow> (rcache, u32 operation) sm" where
  "newCommitOperation cfg x = newOperation cfg None (\<lambda>tf ctx. CommitOperation tf ctx x)"

definition newRollbackOperation :: "rc_config \<Rightarrow> xid \<Rightarrow> (rcache, u32 operation) sm" where
  "newRollbackOperation cfg x = newOperation cfg None (\<lambda>tf ctx. RollbackOperation tf ctx x)"

definition impl_prepareCommit :: "rc_config \<Rightarrow> ('v \<Rightarrow> bytes) \<Rightarrow> xid \<Rightarrow> 'v ctx \<Rightarrow> (rcache, u32) sm" where
  "impl_prepareCommit cfg mv x c = bind (newPrepareCommitOperation cfg mv x c) (\<lambda>op. run cfg op)"

definition impl_commit :: "rc_config \<Rightarrow> xid \<Rightarrow> (rcache, u32) sm" where
  "impl_commit cfg x = bind (newCommitOperation cfg x) (\<lambda>op. run cfg op)"

definition impl_rollback :: "rc_config \<Rightarrow> xid \<Rightarrow> (rcache, u32) sm" where
  "impl_rollback cfg x = bind (newRollbackOperation cfg x) (\<lambda>op. run cfg op)"

text \<open>The transaction manager over caches \<open>RemoteCacheImpl\<close>, one for each number.\<close>

definition tx_remote_of :: "(nat \<Rightarrow> rc_config) \<Rightarrow> ('v \<Rightarrow> bytes) \<Rightarrow> (nat \<Rightarrow> rcache, 'v) tx_remote" where
  "tx_remote_of cfgs mv =
    (let at = (\<lambda>i m. on_part (\<lambda>s. s i) (\<lambda>r s. s(i := r)) m) in
     \<lparr>tr_prepare = (\<lambda>i x c. at i (impl_prepareCommit (cfgs i) mv x c)),
      tr_commit = (\<lambda>i x c. at i (impl_commit (cfgs i) x)),
      tr_rollback = (\<lambda>i x c. at i (impl_rollback (cfgs i) x))\<rparr>)"

end
