(* ===== verification/HR_Transactions_Correct.thy ===== *)
theory HR_Transactions_Correct
  imports HR_TxCache HR_RemoteCache_Correct
begin

text \<open>
  The two phases of a commit against caches that answer in any way, the private view a transaction
  has of a cache, and the request that carries its writes.
\<close>

section \<open>Two phases\<close>

text \<open>Caches that answer each call as \<open>ans\<close> says, given the calls made before, with a code or an exception.\<close>

datatype tx_call = CPrepare nat | CCommit nat | CRollback nat

type_synonym tx_answers = "tx_call list \<Rightarrow> tx_call \<Rightarrow> exn + u32"

definition logged :: "tx_answers \<Rightarrow> (tx_call list, 'v) tx_remote" where
  "logged ans =
    \<lparr>tr_prepare = (\<lambda>i x c h. (ans h (CPrepare i), h @ [CPrepare i])),
     tr_commit = (\<lambda>i x c h. (ans h (CCommit i), h @ [CCommit i])),
     tr_rollback = (\<lambda>i x c h. (ans h (CRollback i), h @ [CRollback i]))\<rparr>"

text \<open>All caches vote for the commit; the first that does not, and what it answers.\<close>

definition yes :: "exn + u32 \<Rightarrow> bool" where
  "yes r \<longleftrightarrow> r = Inr XA_OK \<or> r = Inr XA_RDONLY"

fun voted :: "tx_answers \<Rightarrow> tx_call list \<Rightarrow> nat list \<Rightarrow> bool" where
  "voted ans h [] = True"
| "voted ans h (i # is) = (yes (ans h (CPrepare i)) \<and> voted ans (h @ [CPrepare i]) is)"

text \<open>The caches a rollback is for: those that answered the prepare request with a code other than read only.\<close>

fun prepared_by :: "tx_answers \<Rightarrow> tx_call list \<Rightarrow> nat list \<Rightarrow> nat list" where
  "prepared_by ans h [] = []"
| "prepared_by ans h (i # is) =
     (case ans h (CPrepare i) of
        Inl e \<Rightarrow> []
      | Inr code \<Rightarrow> if code = XA_OK then i # prepared_by ans (h @ [CPrepare i]) is
                    else if code = XA_RDONLY then prepared_by ans (h @ [CPrepare i]) is
                    else [i])"

text \<open>The calls of the first phase, and its result.\<close>

fun polled :: "tx_answers \<Rightarrow> tx_call list \<Rightarrow> nat list \<Rightarrow> nat list" where
  "polled ans h [] = []"
| "polled ans h (i # is) = i # (if yes (ans h (CPrepare i)) then polled ans (h @ [CPrepare i]) is else [])"

fun refusal :: "tx_answers \<Rightarrow> tx_call list \<Rightarrow> nat list \<Rightarrow> exn option" where
  "refusal ans h [] = None"
| "refusal ans h (i # is) =
     (if yes (ans h (CPrepare i)) then refusal ans (h @ [CPrepare i]) is
      else Some (case ans h (CPrepare i) of Inl e \<Rightarrow> e | Inr code \<Rightarrow> HotRodClientTxRemoteStateException code))"

lemma refusal_voted: "refusal ans h is = None \<longleftrightarrow> voted ans h is"
  by (induction "is" arbitrary: h) auto

lemma polled_voted: "voted ans h is \<Longrightarrow> polled ans h is = is"
  by (induction "is" arbitrary: h) auto

lemma prepared_polled: "set (prepared_by ans h is) \<subseteq> set (polled ans h is)"
  by (induction "is" arbitrary: h) (auto simp: yes_def split: sum.splits if_splits)

lemma polled_subset: "set (polled ans h is) \<subseteq> set is"
  by (induction "is" arbitrary: h) auto

text \<open>The state of the thread's transaction and the log, the rest unchanged.\<close>

definition at_tx :: "nat \<Rightarrow> 'v transaction \<Rightarrow> tx_call list \<Rightarrow> (tx_call list, 'v) tx_sys \<Rightarrow> (tx_call list, 'v) tx_sys" where
  "at_tx tid t h s = s\<lparr>currentTransactions := (currentTransactions s)(tid \<mapsto> t), tx_env := h\<rparr>"

lemma at_tx_simps [simp]:
  "currentTransactions (at_tx tid t h s) tid = Some t" "tx_env (at_tx tid t h s) = h"
  "at_tx tid t' h' (at_tx tid t h s) = at_tx tid t' h' s"
  by (simp_all add: at_tx_def)

lemma at_tx_self: "currentTransactions s tid = Some t \<Longrightarrow> at_tx tid t (tx_env s) s = s"
  by (simp add: at_tx_def fun_upd_idem)

lemma tx_run [simp]:
  "getCurrentTransaction tid (at_tx tid t h s) = (Inr t, at_tx tid t h s)"
  "set_tx tid t' (at_tx tid t h s) = (Inr (), at_tx tid t' h s)"
  "on_env m (at_tx tid t h s) = (case m h of (r, h') \<Rightarrow> (r, at_tx tid t h' s))"
  by (simp_all add: getCurrentTransaction_def set_tx_def on_env_def on_part_run modify_run at_tx_def)

lemma bind_tx: "bind (getCurrentTransaction tid) f (at_tx tid t h s) = f t (at_tx tid t h s)"
  by simp

lemma note_run [simp]: "note_prepared tid i (at_tx tid t h s)
    = (Inr (), at_tx tid (t\<lparr>tx_prepared := smap_put i () (tx_prepared t)\<rparr>) h s)"
  by (simp add: note_prepared_def bind_run)

lemma status_run [simp]: "set_status tid st (at_tx tid t h s) = (Inr (), at_tx tid (t\<lparr>tx_status := st\<rparr>) h s)"
  by (simp add: set_status_def bind_run)

definition prepared_with :: "nat list \<Rightarrow> 'v transaction \<Rightarrow> 'v transaction" where
  "prepared_with is t = fold (\<lambda>i t. t\<lparr>tx_prepared := smap_put i () (tx_prepared t)\<rparr>) is t"

lemma prepare_run:
  "prepare_caches (logged ans) tid x cs ro (at_tx tid t h s) =
    (case refusal ans h (map fst cs) of
       None \<Rightarrow> Inr (ro \<and> prepared_by ans h (map fst cs) = [])
     | Some e \<Rightarrow> Inl e,
     at_tx tid (prepared_with (prepared_by ans h (map fst cs)) t) (h @ map CPrepare (polled ans h (map fst cs))) s)"
proof (induction cs arbitrary: ro t h)
  case Nil
  then show ?case by (simp add: ret_run prepared_with_def)
next
  case (Cons a cs)
  obtain i c where a: "a = (i, c)" by (cases a)
  show ?case
  proof (cases "ans h (CPrepare i)")
    case (Inl e)
    then show ?thesis by (simp add: a logged_def bind_run yes_def prepared_with_def)
  next
    case (Inr code)
    then show ?thesis
      using Cons.IH by (simp add: a logged_def bind_run seq_run raise_run yes_def prepared_with_def split: option.split)
  qed
qed

text \<open>The second phase: the calls made until one throws, and what is collected from the codes.\<close>

fun asked :: "tx_answers \<Rightarrow> (nat \<Rightarrow> tx_call) \<Rightarrow> tx_call list \<Rightarrow> nat list \<Rightarrow> nat list" where
  "asked ans C h [] = []"
| "asked ans C h (i # is) = i # (case ans h (C i) of Inl e \<Rightarrow> [] | Inr code \<Rightarrow> asked ans C (h @ [C i]) is)"

fun collected :: "tx_answers \<Rightarrow> (nat \<Rightarrow> tx_call) \<Rightarrow> (u32 \<Rightarrow> tx_outcome \<Rightarrow> tx_outcome) \<Rightarrow> tx_call list \<Rightarrow> nat list \<Rightarrow> tx_outcome
    \<Rightarrow> exn + tx_outcome" where
  "collected ans C f h [] r = Inr r"
| "collected ans C f h (i # is) r =
     (case ans h (C i) of Inl e \<Rightarrow> Inl e | Inr code \<Rightarrow> collected ans C f (h @ [C i]) is (f code r))"

lemma commit_run:
  "commit_caches (logged ans) x cs r (at_tx tid t h s) =
    (collected ans CCommit commit_code h (map fst cs) r,
     at_tx tid t (h @ map CCommit (asked ans CCommit h (map fst cs))) s)"
proof (induction cs arbitrary: r h)
  case (Cons a cs)
  obtain i c where a: "a = (i, c)" by (cases a)
  show ?case
    using Cons.IH by (cases "ans h (CCommit i)") (simp_all add: a logged_def bind_run)
qed (simp add: ret_run)

lemma rollback_run:
  "fst ` set ps \<subseteq> dom (map_of reg) \<Longrightarrow> rollback_caches (logged ans) x reg ps r (at_tx tid t h s) =
    (collected ans CRollback rollback_code h (map fst ps) r,
     at_tx tid t (h @ map CRollback (asked ans CRollback h (map fst ps))) s)"
proof (induction ps arbitrary: r h)
  case (Cons a ps)
  obtain i u where a: "a = (i, u)" by (cases a)
  then obtain c where "map_of reg i = Some c" using Cons.prems by auto
  then show ?case
    using Cons by (cases "ans h (CRollback i)") (simp_all add: a logged_def bind_run)
qed (simp add: ret_run)

definition verdict_of :: "(tx_outcome \<Rightarrow> u32 option) \<Rightarrow> exn + tx_outcome \<Rightarrow> exn + unit" where
  "verdict_of v r = (case r of Inl e \<Rightarrow> Inl e
     | Inr x \<Rightarrow> (case v x of None \<Rightarrow> Inr () | Some code \<Rightarrow> Inl (HotRodClientTxRemoteStateException code)))"

lemma verdict_run: "bind m (\<lambda>r. throw_verdict (v r)) s = (case m s of (r, s') \<Rightarrow> (verdict_of v r, s'))"
  by (auto simp: bind_run verdict_of_def throw_verdict_def ret_run raise_run split: prod.split sum.split option.split)

lemma remoteCommit_run:
  "remoteCommit (logged ans) tid (at_tx tid t h s) =
    (verdict_of commit_verdict (collected ans CCommit commit_code h (map fst (tx_registered t)) no_outcome),
     at_tx tid t (h @ map CCommit (asked ans CCommit h (map fst (tx_registered t)))) s)"
  unfolding remoteCommit_def by (subst bind_tx) (simp add: verdict_run commit_run)

lemma remoteRollback_run:
  "fst ` set (tx_prepared t) \<subseteq> fst ` set (tx_registered t) \<Longrightarrow> remoteRollback (logged ans) tid (at_tx tid t h s) =
    (verdict_of rollback_verdict (collected ans CRollback rollback_code h (map fst (tx_prepared t)) no_outcome),
     at_tx tid t (h @ map CRollback (asked ans CRollback h (map fst (tx_prepared t)))) s)"
  unfolding remoteRollback_def
  by (subst bind_tx) (simp add: verdict_run rollback_run dom_map_of_conv_image_fst)

lemma prepared_with_simps [simp]:
  "tx_registered (prepared_with is t) = tx_registered t" "tx_xid (prepared_with is t) = tx_xid t"
  "tx_status (prepared_with is t) = tx_status t"
  "fst ` set (tx_prepared (prepared_with is t)) = set is \<union> fst ` set (tx_prepared t)"
proof -
  show "tx_registered (prepared_with is t) = tx_registered t" "tx_xid (prepared_with is t) = tx_xid t"
    "tx_status (prepared_with is t) = tx_status t"
    unfolding prepared_with_def by (induction "is" arbitrary: t) simp_all
  show "fst ` set (tx_prepared (prepared_with is t)) = set is \<union> fst ` set (tx_prepared t)"
    unfolding prepared_with_def by (induction "is" arbitrary: t) auto
qed

lemma remotePrepare_run:
  "remotePrepareCommit (logged ans) tid (at_tx tid t h s) =
    (case refusal ans h (map fst (tx_registered t)) of
       None \<Rightarrow> Inr (if prepared_by ans h (map fst (tx_registered t)) = [] then XA_RDONLY else XA_OK)
     | Some e \<Rightarrow> Inl e,
     at_tx tid (prepared_with (prepared_by ans h (map fst (tx_registered t))) t)
       (h @ map CPrepare (polled ans h (map fst (tx_registered t)))) s)"
  unfolding remotePrepareCommit_def
  by (subst bind_tx) (simp add: bind_run prepare_run ret_run split: option.split)

text \<open>The end of \<open>tx_commit\<close>: the transaction goes, and a rollback is reported.\<close>

definition tx_end :: "nat \<Rightarrow> u32 \<Rightarrow> ((tx_call list, 'v) tx_sys, unit) sm" where
  "tx_end tid exCode =
    bind (getCurrentTransaction tid) (\<lambda>t'.
    seq (cleanUpCurrentTransaction tid)
        (if tx_status t' = ROLLEDBACK then raise (HotRodClientRollbackException exCode) else ret ()))"

definition forget_tx :: "nat \<Rightarrow> tx_call list \<Rightarrow> (tx_call list, 'v) tx_sys \<Rightarrow> (tx_call list, 'v) tx_sys" where
  "forget_tx tid h s = s\<lparr>currentTransactions := (currentTransactions s)(tid := None), tx_env := h\<rparr>"

lemma forget_simps [simp]: "tx_env (forget_tx tid h s) = h" "currentTransactions (forget_tx tid h s) tid = None"
  by (simp_all add: forget_tx_def)

lemma tx_end_run: "tx_end tid code (at_tx tid t h s) =
    (if tx_status t = ROLLEDBACK then Inl (HotRodClientRollbackException code) else Inr (), forget_tx tid h s)"
  unfolding tx_end_def bind_tx
  by (simp add: cleanUpCurrentTransaction_def seq_run modify_run raise_run ret_run at_tx_def forget_tx_def)

lemma tx_commit_phases:
  assumes "currentTransactions s tid = Some t" "tx_status t = ACTIVE"
  shows "tx_commit (logged ans) tid s = bind (commit_phases (logged ans) tid) (tx_end tid) (at_tx tid t (tx_env s) s)"
proof -
  have "getCurrentTransaction tid s = (Inr t, s)" using assms(1) by (simp add: getCurrentTransaction_def)
  then show ?thesis
    unfolding tx_commit_def at_tx_self [OF assms(1)]
    by (simp add: assms(2) canCommit_def needsRollback_def tx_end_def [abs_def])
qed

text \<open>The way of \<open>tx_commit\<close> after a refusal or a failed commit: the rollback, and what it leads to.\<close>

definition undo :: "tx_answers \<Rightarrow> nat \<Rightarrow> exn \<Rightarrow> 'v transaction \<Rightarrow> tx_call list \<Rightarrow> (tx_call list, 'v) tx_sys
    \<Rightarrow> (exn + unit) \<times> (tx_call list, 'v) tx_sys" where
  "undo ans tid e t h s =
    (let h' = h @ map CRollback (asked ans CRollback h (map fst (tx_prepared t))) in
     if is_client_exn e
     then (case verdict_of rollback_verdict (collected ans CRollback rollback_code h (map fst (tx_prepared t)) no_outcome) of
             Inl e' \<Rightarrow> (Inl e', at_tx tid t h' s)
           | Inr _ \<Rightarrow> (Inl (HotRodClientRollbackException
                 (case e of HotRodClientTxRemoteStateException code \<Rightarrow> code | _ \<Rightarrow> XA_RBROLLBACK)), forget_tx tid h' s))
     else (Inl e, at_tx tid t h s))"

lemma undo_run:
  assumes "fst ` set (tx_prepared t) \<subseteq> fst ` set (tx_registered t)"
  shows "bind (commit_handler (logged ans) tid e) (tx_end tid) (at_tx tid t h s) = undo ans tid e t h s"
proof -
  have "bind (seq (remoteRollback (logged ans) tid) (seq (set_status tid ROLLEDBACK) (ret code))) (tx_end tid) (at_tx tid t h s) =
    (case verdict_of rollback_verdict (collected ans CRollback rollback_code h (map fst (tx_prepared t)) no_outcome) of
       Inl e' \<Rightarrow> (Inl e', at_tx tid t (h @ map CRollback (asked ans CRollback h (map fst (tx_prepared t)))) s)
     | Inr _ \<Rightarrow> (Inl (HotRodClientRollbackException code),
         forget_tx tid (h @ map CRollback (asked ans CRollback h (map fst (tx_prepared t)))) s))" for code
    using remoteRollback_run [OF assms, of ans tid h s]
    by (simp add: bind_run seq_run ret_run tx_end_run split: sum.split)
  then show ?thesis
    by (cases e) (simp_all add: commit_handler_def undo_def Let_def bind_run raise_run split: sum.split)
qed

definition tx_phases :: "tx_answers \<Rightarrow> nat \<Rightarrow> 'v transaction \<Rightarrow> tx_call list \<Rightarrow> (tx_call list, 'v) tx_sys
    \<Rightarrow> (exn + unit) \<times> (tx_call list, 'v) tx_sys" where
  "tx_phases ans tid t h s =
    (let is = map fst (tx_registered t);
         h1 = h @ map CPrepare (polled ans h is);
         h2 = h1 @ map CCommit (asked ans CCommit h1 is);
         t1 = prepared_with (prepared_by ans h is) t
     in case refusal ans h is of
          Some e \<Rightarrow> undo ans tid e t1 h1 s
        | None \<Rightarrow>
            if prepared_by ans h is = [] then (Inr (), forget_tx tid h1 s)
            else (case verdict_of commit_verdict (collected ans CCommit commit_code h1 is no_outcome) of
                    Inl e \<Rightarrow> undo ans tid e t1 h2 s
                  | Inr _ \<Rightarrow> (Inr (), forget_tx tid h2 s)))"

lemma catch_bind: "bind (catch m k) f s = (case m s of (Inl e, s') \<Rightarrow> bind (k e) f s' | (Inr x, s') \<Rightarrow> f x s')"
  by (simp add: catch_def bind_def split: prod.splits sum.splits)

lemma tx_commit_run:
  assumes "currentTransactions s tid = Some t" "tx_status t = ACTIVE" "tx_prepared t = []"
  shows "tx_commit (logged ans) tid s = tx_phases ans tid t (tx_env s) s"
proof -
  let ?h = "tx_env s"
  let ?is = "map fst (tx_registered t)"
  define t1 where "t1 = prepared_with (prepared_by ans ?h ?is) t"
  have t1: "tx_status t1 = ACTIVE" "tx_registered t1 = tx_registered t" using assms(2) by (simp_all add: t1_def)
  have sub: "fst ` set (tx_prepared t1) \<subseteq> fst ` set (tx_registered t1)"
    using assms(3) prepared_polled [of ans ?h ?is] polled_subset [of ans ?h ?is]
    unfolding t1_def prepared_with_simps by auto
  have "tx_commit (logged ans) tid s = bind (commit_phases (logged ans) tid) (tx_end tid) (at_tx tid t ?h s)"
    by (rule tx_commit_phases [OF assms(1,2)])
  also have "\<dots> = tx_phases ans tid t ?h s"
    unfolding commit_phases_def catch_bind tx_phases_def Let_def t1_def [symmetric]
    using remotePrepare_run [of ans tid t ?h s, folded t1_def] remoteCommit_run [of ans tid t1 _ s, unfolded t1(2)] t1(1)
    by (simp add: bind_run seq_run ret_run undo_run [OF sub, unfolded bind_run] tx_end_run split: option.split sum.split)
  finally show ?thesis .
qed

text \<open>What the log of a rollback holds.\<close>

lemma undo_log:
  assumes "undo ans tid e t h s = (r, s')"
  shows "\<exists>rs. tx_env s' = h @ map CRollback rs \<and> set rs \<subseteq> fst ` set (tx_prepared t)"
    and "r \<noteq> Inr ()"
proof -
  let ?rs = "asked ans CRollback h (map fst (tx_prepared t))"
  have asked: "set (asked ans C h is) \<subseteq> set is" for C h "is"
    by (induction "is" arbitrary: h) (auto split: sum.splits)
  have "tx_env s' = h @ map CRollback ?rs \<or> tx_env s' = h @ map CRollback []"
    using assms by (auto simp: undo_def Let_def split: if_splits sum.splits)
  moreover have "set ?rs \<subseteq> fst ` set (tx_prepared t)" using asked [of CRollback h "map fst (tx_prepared t)"] by auto
  ultimately show "\<exists>rs. tx_env s' = h @ map CRollback rs \<and> set rs \<subseteq> fst ` set (tx_prepared t)"
    by (metis empty_set empty_subsetI)
  show "r \<noteq> Inr ()" using assms by (auto simp: undo_def Let_def split: if_splits sum.splits)
qed


definition two_caches :: "(tx_call list, byte) tx_sys" where
  "two_caches = \<lparr>currentTransactions = [0 \<mapsto> \<lparr>tx_status = ACTIVE, tx_xid = \<lparr>globalId = [], branchId = []\<rparr>,
       tx_registered = [(1, []), (2, [])], tx_prepared = []\<rparr>],
     freshXid = (\<lambda>n. \<lparr>globalId = [of_nat n], branchId = []\<rparr>), xidCount = 1, tx_env = []\<rparr>"


lemma rollback_answers:
  assumes "\<And>h i. ans h (CRollback i) = Inr XA_OK"
  shows "asked ans CRollback h is = is"
    and "collected ans CRollback rollback_code h is r = Inr (if is = [] then r else r\<lparr>hasRollback := True\<rparr>)"
  by (induction "is" arbitrary: h r) (simp_all add: assms rollback_code_def)

text \<open>
  A transaction one cache refuses is undone: when the first refusal, or failure, of the first
  phase is an exception of the client and the caches take the rollback, every cache that has prepared, the refusing one
  included, and no other one is rolled back, nothing is committed, the thread has no transaction any more, and
  the caller gets a \<open>HotRodClientRollbackException\<close> with the code of the cache that refused.
\<close>

theorem tx_abort:
  assumes "currentTransactions s tid = Some t" "tx_status t = ACTIVE" "tx_prepared t = []"
    and "refusal ans (tx_env s) (map fst (tx_registered t)) = Some e" "is_client_exn e"
    and "\<And>h i. ans h (CRollback i) = Inr XA_OK"
  shows "\<exists>rs s'. tx_commit (logged ans) tid s = (Inl (HotRodClientRollbackException
        (case e of HotRodClientTxRemoteStateException code \<Rightarrow> code | _ \<Rightarrow> XA_RBROLLBACK)), s')
    \<and> tx_env s' = tx_env s @ map CPrepare (polled ans (tx_env s) (map fst (tx_registered t))) @ map CRollback rs
    \<and> set rs = set (prepared_by ans (tx_env s) (map fst (tx_registered t))) \<and> currentTransactions s' tid = None"
proof -
  let ?h = "tx_env s" and ?is = "map fst (tx_registered t)"
  let ?t = "prepared_with (prepared_by ans ?h ?is) t"
  let ?rs = "map fst (tx_prepared ?t)"
  have ok: "verdict_of rollback_verdict (Inr (if is = [] then no_outcome else no_outcome\<lparr>hasRollback := True\<rparr>)) = Inr ()" for "is" :: "nat list"
    by (simp add: verdict_of_def rollback_verdict_def no_outcome_def)
  have "tx_commit (logged ans) tid s = undo ans tid e ?t (?h @ map CPrepare (polled ans ?h ?is)) s"
    using tx_commit_run [OF assms(1-3)] assms(4) by (simp add: tx_phases_def Let_def)
  also have "\<dots> = (Inl (HotRodClientRollbackException (case e of HotRodClientTxRemoteStateException code \<Rightarrow> code | _ \<Rightarrow> XA_RBROLLBACK)),
      forget_tx tid (?h @ map CPrepare (polled ans ?h ?is) @ map CRollback ?rs) s)"
    unfolding undo_def Let_def rollback_answers [of ans, OF assms(6)] ok using assms(5) by simp
  finally have "tx_commit (logged ans) tid s = (Inl (HotRodClientRollbackException
      (case e of HotRodClientTxRemoteStateException code \<Rightarrow> code | _ \<Rightarrow> XA_RBROLLBACK)),
      forget_tx tid (?h @ map CPrepare (polled ans ?h ?is) @ map CRollback ?rs) s)" .
  moreover have "set ?rs = set (prepared_by ans ?h ?is)" using assms(3) by simp
  ultimately show ?thesis
    by (intro exI [of _ ?rs] exI [of _ "forget_tx tid (?h @ map CPrepare (polled ans ?h ?is) @ map CRollback ?rs) s"]) simp
qed

definition second_refuses :: tx_answers where
  "second_refuses h c = Inr (if c = CPrepare 2 then 0x66 else XA_OK)"

theorem tx_abort_witness:
  "fst (tx_commit (logged second_refuses) 0 two_caches) = Inl (HotRodClientRollbackException 0x66)
    \<and> CRollback 1 \<in> set (tx_env (snd (tx_commit (logged second_refuses) 0 two_caches)))
    \<and> CCommit 1 \<notin> set (tx_env (snd (tx_commit (logged second_refuses) 0 two_caches)))"
proof -
  let ?t = "the (currentTransactions two_caches 0)"
  have t: "currentTransactions two_caches 0 = Some ?t" "tx_status ?t = ACTIVE" "tx_prepared ?t = []"
    and e: "refusal second_refuses (tx_env two_caches) (map fst (tx_registered ?t)) = Some (HotRodClientTxRemoteStateException 0x66)"
    and r: "\<And>h i. second_refuses h (CRollback i) = Inr 0"
    by (simp_all add: two_caches_def second_refuses_def yes_def)
  have p: "prepared_by second_refuses (tx_env two_caches) (map fst (tx_registered ?t)) = [1, 2]"
    by (simp add: two_caches_def second_refuses_def)
  from tx_abort [OF t e _ r] show ?thesis
    unfolding p by (auto simp: two_caches_def)
qed

section \<open>The private view of a transaction\<close>

text \<open>What the calls of a transaction do to a map of their own.\<close>

datatype ('k, 'v) tx_op =
    TGet 'k
  | TPut 'k 'v u64 u64
  | TPutIfAbsent 'k 'v u64 u64
  | TReplace 'k 'v u64 u64
  | TRemove 'k

fun view_after :: "('k, 'v) tx_op \<Rightarrow> ('k \<rightharpoonup> 'v) \<Rightarrow> ('k \<rightharpoonup> 'v)" where
  "view_after (TGet k) W = W"
| "view_after (TPut k v life maxIdle) W = W(k \<mapsto> v)"
| "view_after (TPutIfAbsent k v life maxIdle) W = (if W k = None then W(k \<mapsto> v) else W)"
| "view_after (TReplace k v life maxIdle) W = (if W k = None then W else W(k \<mapsto> v))"
| "view_after (TRemove k) W = W(k := None)"

fun view_answer :: "bool \<Rightarrow> ('k, 'v) tx_op \<Rightarrow> ('k \<rightharpoonup> 'v) \<Rightarrow> 'v option" where
  "view_answer force (TGet k) W = W k"
| "view_answer force (TPut k v life maxIdle) W = (if force then W k else None)"
| "view_answer force (TPutIfAbsent k v life maxIdle) W = None"
| "view_answer force (TReplace k v life maxIdle) W = (if force then W k else None)"
| "view_answer force (TRemove k) W = (if force then W k else None)"

fun tx_do :: "('s, 'k, 'v) rcb \<Rightarrow> nat \<Rightarrow> ('k, 'v) tx_op \<Rightarrow> (('s, 'v) tx_sys, 'v option) sm" where
  "tx_do B tid (TGet k) = base_get B tid k"
| "tx_do B tid (TPut k v life maxIdle) = base_put B tid k v life maxIdle"
| "tx_do B tid (TPutIfAbsent k v life maxIdle) = base_putIfAbsent B tid k v life maxIdle"
| "tx_do B tid (TReplace k v life maxIdle) = base_replace B tid k v life maxIdle"
| "tx_do B tid (TRemove k) = base_remove B tid k"

fun tx_dos :: "('s, 'k, 'v) rcb \<Rightarrow> nat \<Rightarrow> ('k, 'v) tx_op list \<Rightarrow> (('s, 'v) tx_sys, 'v option list) sm" where
  "tx_dos B tid [] = ret []"
| "tx_dos B tid (p # ps) = bind (tx_do B tid p) (\<lambda>a. bind (tx_dos B tid ps) (\<lambda>as. ret (a # as)))"

fun view_answers :: "bool \<Rightarrow> ('k, 'v) tx_op list \<Rightarrow> ('k \<rightharpoonup> 'v) \<Rightarrow> 'v option list" where
  "view_answers force [] W = []"
| "view_answers force (p # ps) W = view_answer force p W # view_answers force ps (view_after p W)"

text \<open>
  The implementation of the cache reads the values \<open>V\<close> of the server in every state with \<open>srv\<close>, and
  reading keeps \<open>srv\<close>: nobody else writes while the transaction runs.
\<close>

definition reads :: "('s, 'k, 'v) rcb \<Rightarrow> ('s \<Rightarrow> bool) \<Rightarrow> ('k \<rightharpoonup> 'v) \<Rightarrow> bool" where
  "reads B srv V \<longleftrightarrow> inj (rb_keyMarshall B) \<and>
     (\<forall>k e. srv e \<longrightarrow> (\<exists>meta e'. im_getWithMetadata (rb_impl B) k e = (Inr (V k, meta), e') \<and> srv e'))"

text \<open>The context over the values of the server.\<close>

definition tx_view :: "('s, 'k, 'v) rcb \<Rightarrow> ('k \<rightharpoonup> 'v) \<Rightarrow> 'v ctx \<Rightarrow> 'k \<Rightarrow> 'v option" where
  "tx_view B V c k = (case map_of c (rb_keyMarshall B k) of
     None \<Rightarrow> V k | Some e \<Rightarrow> if ce_action e = DELETED then None else ce_value e)"

definition ctx_at :: "('s, 'k, 'v) rcb \<Rightarrow> 'v transaction \<Rightarrow> 'v ctx" where
  "ctx_at B t = (case map_of (tx_registered t) (rb_id B) of None \<Rightarrow> [] | Some c \<Rightarrow> c)"

definition in_view :: "('s, 'k, 'v) rcb \<Rightarrow> nat \<Rightarrow> ('s \<Rightarrow> bool) \<Rightarrow> ('k \<rightharpoonup> 'v) \<Rightarrow> ('k \<rightharpoonup> 'v) \<Rightarrow> ('s, 'v) tx_sys \<Rightarrow> bool" where
  "in_view B tid srv V W s \<longleftrightarrow> rb_transactional B \<and> reads B srv V \<and> srv (tx_env s)
     \<and> (\<exists>t. currentTransactions s tid = Some t \<and> tx_status t = ACTIVE \<and> tx_view B V (ctx_at B t) = W)"

lemma map_of_ctx_put [simp]: "map_of (ctx_put k e c) = (map_of c)(k \<mapsto> e)"
  by (induction k e c rule: ctx_put.induct) auto

lemma on_ctx_run:
  assumes "currentTransactions s tid = Some t"
  shows "on_ctx tid (rb_id B) f s = (case f (ctx_at B t) of (a, c) \<Rightarrow>
    (Inr a, s\<lparr>currentTransactions := (currentTransactions s)(tid \<mapsto> t\<lparr>tx_registered := smap_put (rb_id B) c (tx_registered t)\<rparr>)\<rparr>))"
  using assms by (simp add: on_ctx_def getCurrentTransaction_def ctx_at_def bind_run set_tx_def seq_run modify_run ret_run split: prod.split)

lemma ctx_at_put [simp]: "ctx_at B (t\<lparr>tx_registered := smap_put (rb_id B) c m\<rparr>) = c"
  by (simp add: ctx_at_def)

text \<open>A step on the context keeps everything else.\<close>

lemma ctx_step:
  assumes "in_view B tid srv V W s" "\<And>c. tx_view B V c = W \<Longrightarrow> tx_view B V (snd (f c)) = W'"
    and "\<And>c. tx_view B V c = W \<Longrightarrow> fst (f c) = a"
  shows "\<exists>s'. on_ctx tid (rb_id B) f s = (Inr a, s') \<and> in_view B tid srv V W' s' \<and> tx_env s' = tx_env s"
proof -
  obtain t where t: "currentTransactions s tid = Some t" "tx_status t = ACTIVE" "tx_view B V (ctx_at B t) = W"
    using assms(1) by (auto simp: in_view_def)
  obtain c where c: "f (ctx_at B t) = (a, c)" using assms(3) [OF t(3)] by (metis surjective_pairing)
  then have "tx_view B V c = W'" using assms(2) [OF t(3)] by simp
  then show ?thesis using assms(1) t c by (auto simp: on_ctx_run [OF t(1)] in_view_def)
qed

lemma require_run:
  "in_view B tid srv V W s \<Longrightarrow> P ACTIVE \<Longrightarrow> require tid P act s = (Inr (), s)"
  by (auto simp: in_view_def require_def getCurrentTransaction_def bind_run ret_run)

lemma in_tx_run: "in_view B tid srv V W s \<Longrightarrow> in_tx B tid tx plain s = tx s"
  by (auto simp: in_view_def in_tx_def getCurrentTransaction_def bind_run)

lemma view_inj: "reads B srv V \<Longrightarrow> rb_keyMarshall B k = rb_keyMarshall B k' \<longleftrightarrow> k = k'"
  by (auto simp: reads_def inj_eq)

lemma view_set:
  assumes "reads B srv V" "map_of c' = (map_of c)(rb_keyMarshall B k \<mapsto> e)" "tx_view B V c = W"
    and "(if ce_action e = DELETED then None else ce_value e) = x"
  shows "tx_view B V c' = W(k := x)"
  using assms by (auto simp: tx_view_def view_inj)

lemma tx_get_view:
  assumes s: "in_view B tid srv V W s"
  shows "\<exists>s'. transactional_base_get B tid k s = (Inr (W k), s') \<and> in_view B tid srv V W s'"
proof -
  have rd: "reads B srv V" using s by (simp add: in_view_def)
  obtain t where t: "currentTransactions s tid = Some t" "tx_view B V (ctx_at B t) = W"
    using s by (auto simp: in_view_def)
  let ?k = "rb_keyMarshall B k"
  obtain s1 where s1: "on_ctx tid (rb_id B) (\<lambda>c. (hasValue ?k c, c)) s = (Inr (hasValue ?k (ctx_at B t)), s1)"
      "in_view B tid srv V W s1" "\<exists>t1. currentTransactions s1 tid = Some t1 \<and> ctx_at B t1 = ctx_at B t"
    using s t by (auto simp: on_ctx_run [OF t(1)] in_view_def)
  have req: "require tid acceptRead ''get'' s = (Inr (), s)" by (rule require_run [OF s]) (simp add: acceptRead_def)
  show ?thesis
  proof (cases "hasValue ?k (ctx_at B t)")
    case True
    from s1(3) obtain t1 where t1: "currentTransactions s1 tid = Some t1" "ctx_at B t1 = ctx_at B t" by blast
    obtain e where e: "map_of (ctx_at B t) ?k = Some e" using True by (auto simp: hasValue_def)
    have "fst (getValue ?k (ctx_at B t)) = W k"
      using t(2) e by (auto simp: getValue_def Let_def ctx_entry_def tx_view_def)
    moreover have "tx_view B V (snd (getValue ?k (ctx_at B t))) = W"
    proof -
      have "map_of (snd (getValue ?k (ctx_at B t))) = map_of (ctx_at B t)"
        using e by (auto simp: getValue_def Let_def ctx_entry_def)
      then show ?thesis using t(2) unfolding tx_view_def by simp
    qed
    ultimately have "\<exists>s'. on_ctx tid (rb_id B) (getValue ?k) s1 = (Inr (W k), s') \<and> in_view B tid srv V W s'"
      using s1(2) t1 by (auto simp: on_ctx_run [OF t1(1)] in_view_def split_beta)
    then show ?thesis using req s1(1) True by (simp add: transactional_base_get_def seq_run bind_run)
  next
    case False
    then have W: "W k = V k" using t(2) by (auto simp: tx_view_def hasValue_def)
    obtain meta e' where get: "im_getWithMetadata (rb_impl B) k (tx_env s1) = (Inr (V k, meta), e')" "srv e'"
      using rd s1(2) by (meson in_view_def reads_def)
    let ?s2 = "s1\<lparr>tx_env := e'\<rparr>"
    have s2: "in_view B tid srv V W ?s2" using s1(2) get(2) by (simp add: in_view_def)
    let ?cb = "if V k \<noteq> None then 0 else 2 :: byte"
    have "\<exists>s'. on_ctx tid (rb_id B) (\<lambda>c. ((), addValue ?k (V k) meta ?cb c)) ?s2 = (Inr (), s')
        \<and> in_view B tid srv V (W(k := V k)) s' \<and> tx_env s' = tx_env ?s2"
      by (rule ctx_step [OF s2], simp only: snd_conv,
          rule view_set [OF rd _ _, where e = "(ContextEntry SET (V k) meta)\<lparr>ce_controlByte := ?cb\<rparr>"])
         (simp_all add: addValue_def Let_def ContextEntry_def)
    moreover have "W(k := V k) = W" using W by auto
    ultimately show ?thesis
      using req s1(1) False get(1) W
      by (auto simp: transactional_base_get_def seq_run bind_run on_env_def on_part_run ret_run)
  qed
qed

lemma tx_write_view:
  assumes s: "in_view B tid srv V W s"
  shows "\<exists>s'. on_ctx tid (rb_id B) (\<lambda>c. ((), setValue (rb_keyMarshall B k) v meta c)) s = (Inr (), s')
      \<and> in_view B tid srv V (W(k \<mapsto> v)) s'"
    and "\<exists>s'. on_ctx tid (rb_id B) (\<lambda>c. ((), if hasValue (rb_keyMarshall B k) c then setValue (rb_keyMarshall B k) v meta c
          else addValue (rb_keyMarshall B k) (Some v) meta cb c)) s = (Inr (), s') \<and> in_view B tid srv V (W(k \<mapsto> v)) s'"
    and "\<exists>s'. on_ctx tid (rb_id B) (\<lambda>c. ((), setValueAsDeleted (rb_keyMarshall B k) c)) s = (Inr (), s')
      \<and> in_view B tid srv V (W(k := None)) s'"
proof -
  have rd: "reads B srv V" using s by (simp add: in_view_def)
  have set: "tx_view B V (setValue (rb_keyMarshall B k) v meta c) = W(k \<mapsto> v)" if "tx_view B V c = W" for c meta
    using rd that by (auto simp: setValue_def Let_def tx_view_def view_inj)
  have add: "tx_view B V (addValue (rb_keyMarshall B k) (Some v) meta cb c) = W(k \<mapsto> v)" if "tx_view B V c = W" for c meta cb
    using rd that by (auto simp: addValue_def Let_def tx_view_def view_inj ContextEntry_def)
  have put: "tx_view B V (if hasValue (rb_keyMarshall B k) c then setValue (rb_keyMarshall B k) v meta c
      else addValue (rb_keyMarshall B k) (Some v) meta cb c) = W(k \<mapsto> v)" if "tx_view B V c = W" for c
    using set add that by simp
  have del: "tx_view B V (setValueAsDeleted (rb_keyMarshall B k) c) = W(k := None)" if "tx_view B V c = W" for c
    using rd that by (auto simp: setValueAsDeleted_def Let_def tx_view_def view_inj)
  show "\<exists>s'. on_ctx tid (rb_id B) (\<lambda>c. ((), setValue (rb_keyMarshall B k) v meta c)) s = (Inr (), s')
      \<and> in_view B tid srv V (W(k \<mapsto> v)) s'"
    using ctx_step [OF s, of "\<lambda>c. ((), setValue (rb_keyMarshall B k) v meta c)" "W(k \<mapsto> v)" "()"] set by auto
  show "\<exists>s'. on_ctx tid (rb_id B) (\<lambda>c. ((), if hasValue (rb_keyMarshall B k) c then setValue (rb_keyMarshall B k) v meta c
      else addValue (rb_keyMarshall B k) (Some v) meta cb c)) s = (Inr (), s') \<and> in_view B tid srv V (W(k \<mapsto> v)) s'"
    using ctx_step [OF s, of "\<lambda>c. ((), if hasValue (rb_keyMarshall B k) c then setValue (rb_keyMarshall B k) v meta c
      else addValue (rb_keyMarshall B k) (Some v) meta cb c)" "W(k \<mapsto> v)" "()"] put by auto
  show "\<exists>s'. on_ctx tid (rb_id B) (\<lambda>c. ((), setValueAsDeleted (rb_keyMarshall B k) c)) s = (Inr (), s')
      \<and> in_view B tid srv V (W(k := None)) s'"
    using ctx_step [OF s, of "\<lambda>c. ((), setValueAsDeleted (rb_keyMarshall B k) c)" "W(k := None)" "()"] del by auto
qed

lemma rw_run: "in_view B tid srv V W s \<Longrightarrow> require tid acceptRW act s = (Inr (), s)"
  by (erule require_run) (simp add: acceptRW_def)

text \<open>A read that is only made for its result.\<close>

lemma maybe_get:
  "in_view B tid srv V W s \<Longrightarrow> \<exists>s'. (if force then transactional_base_get B tid k else ret None) s
    = (Inr (if force then W k else None), s') \<and> in_view B tid srv V W s'"
  using tx_get_view [of B tid srv V W s k] by (auto simp: ret_run)

lemma tx_put_view:
  assumes s: "in_view B tid srv V W s"
  shows "\<exists>s'. transactional_base_put B tid k v life maxIdle force s = (Inr (if force then W k else None), s')
    \<and> in_view B tid srv V (W(k \<mapsto> v)) s'"
proof -
  obtain s1 where s1: "(if force then transactional_base_get B tid k else ret None) s = (Inr (if force then W k else None), s1)"
    "in_view B tid srv V W s1" using maybe_get [OF s] by blast
  from tx_write_view(2) [OF s1(2), of k v "tx_meta life maxIdle" 1] s1(1) show ?thesis
    by (auto simp: transactional_base_put_def seq_run bind_run rw_run [OF s] ret_run simp del: split_paired_Ex split del: if_split)
qed

lemma tx_step_view:
  assumes s: "in_view B tid srv V W s"
  shows "\<exists>s'. tx_do B tid p s = (Inr (view_answer (rb_forceReturnValue B) p W), s') \<and> in_view B tid srv V (view_after p W) s'"
proof (cases p)
  case (TGet k)
  then show ?thesis using tx_get_view [OF s, of k] by (auto simp: base_get_def in_tx_run [OF s])
next
  case (TPut k v life maxIdle)
  then show ?thesis using tx_put_view [OF s] by (simp add: base_put_def in_tx_run [OF s])
next
  case (TPutIfAbsent k v life maxIdle)
  obtain s1 where s1: "transactional_base_get B tid k s = (Inr (W k), s1)" "in_view B tid srv V W s1"
    using tx_get_view [OF s] by blast
  obtain s2 where s2: "transactional_base_put B tid k v life maxIdle False s1 = (Inr None, s2)" "in_view B tid srv V (W(k \<mapsto> v)) s2"
    using tx_put_view [OF s1(2), of k v life maxIdle False] by auto
  show ?thesis
    using s1 s2 by (cases "W k") (auto simp: TPutIfAbsent base_putIfAbsent_def in_tx_run [OF s] seq_run bind_run ret_run)
next
  case (TReplace k v life maxIdle)
  obtain s1 where s1: "transactional_base_get B tid k s = (Inr (W k), s1)" "in_view B tid srv V W s1"
    using tx_get_view [OF s] by blast
  show ?thesis
    using s1 tx_write_view(1) [OF s1(2), of k v "tx_meta life maxIdle"]
    by (cases "W k") (auto simp: TReplace base_replace_def in_tx_run [OF s] rw_run [OF s] seq_run bind_run ret_run)
next
  case (TRemove k)
  obtain s1 where s1: "(if rb_forceReturnValue B then transactional_base_get B tid k else ret None) s
      = (Inr (if rb_forceReturnValue B then W k else None), s1)" "in_view B tid srv V W s1" using maybe_get [OF s] by blast
  show ?thesis
    using s1(1) tx_write_view(3) [OF s1(2), of k]
    by (auto simp: TRemove base_remove_def in_tx_run [OF s] rw_run [OF s] seq_run bind_run ret_run simp del: split_paired_Ex
        split del: if_split)
qed


text \<open>A cache whose server holds one entry that nobody writes.\<close>

definition one_entry :: "byte \<rightharpoonup> byte" where
  "one_entry = [1 \<mapsto> 7]"

definition fixed_cache :: "(unit, byte, byte) rcb" where
  "fixed_cache = \<lparr>rb_id = 1, rb_transactional = True, rb_forceReturnValue = False, rb_keyMarshall = (\<lambda>k. [k]),
     rb_impl = \<lparr>im_get = (\<lambda>k. ret (one_entry k)), im_put = (\<lambda>k v l i. ret None), im_putIfAbsent = (\<lambda>k v l i. ret None),
       im_replace = (\<lambda>k v l i. ret None), im_remove = (\<lambda>k. ret None), im_containsKey = (\<lambda>k. ret (one_entry k \<noteq> None)),
       im_replaceWithVersion = (\<lambda>k v w l i. ret False), im_removeWithVersion = (\<lambda>k w. ret False),
       im_getWithVersion = (\<lambda>k. ret (one_entry k, 1)), im_getWithMetadata = (\<lambda>k. ret (one_entry k, MetadataValue))\<rparr>\<rparr>"

definition begun :: "(unit, byte) tx_sys" where
  "begun = \<lparr>currentTransactions = [0 \<mapsto> \<lparr>tx_status = ACTIVE, tx_xid = \<lparr>globalId = [], branchId = []\<rparr>, tx_registered = [],
     tx_prepared = []\<rparr>], freshXid = (\<lambda>n. \<lparr>globalId = [of_nat n], branchId = []\<rparr>), xidCount = 1, tx_env = ()\<rparr>"

lemma begun_view: "in_view fixed_cache 0 (\<lambda>e. True) one_entry one_entry begun"
  by (auto simp: in_view_def reads_def fixed_cache_def begun_def inj_def ctx_at_def tx_view_def ret_run)


text \<open>
  \<open>containsKey\<close> is not part of that: in a transaction it asks the server whenever the context has no
  value for the key, so it still finds a key the transaction has removed; and it leaves an empty entry behind,
  so that a key it has found on the server reads as absent afterwards.
\<close>

theorem tx_containsKey_wrong:
  "fst (bind (base_remove fixed_cache 0 1) (\<lambda>_. base_containsKey fixed_cache 0 1) begun) = Inr True
   \<and> fst (bind (base_containsKey fixed_cache 0 1) (\<lambda>b. bind (base_get fixed_cache 0 1) (\<lambda>v. ret (b, v))) begun) = Inr (True, None)
   \<and> fst (base_get fixed_cache 0 1 begun) = Inr (Some 7)"
  by (simp add: base_remove_def base_containsKey_def base_get_def transactional_base_get_def in_tx_def require_def on_ctx_def
      getCurrentTransaction_def set_tx_def on_env_def fixed_cache_def begun_def one_entry_def acceptRW_def acceptRead_def
      setValueAsDeleted_def getValue_def hasValue_def addValue_def ctx_entry_def ContextEntry0_def Let_def sm_simps)

section \<open>The prepare request\<close>

text \<open>How the other end reads an entry: durations follow the units unless these say default or infinite.\<close>

record sent_entry =
  se_key :: bytes
  se_control :: byte
  se_version :: "u64 option"
  se_value :: bytes

definition parse_entry :: "(rstream, sent_entry) sm" where
  "parse_entry =
    bind readArray (\<lambda>k.
    bind readByte (\<lambda>cb.
    bind (if cb AND 3 = 0 then bind readLong (\<lambda>v. ret (Some v)) else ret None) (\<lambda>v.
    bind (if cb AND 4 = 0 then bind (parse_expiration Codec22) (\<lambda>_. readArray) else ret []) (\<lambda>x.
    ret \<lparr>se_key = k, se_control = cb, se_version = v, se_value = x\<rparr>))))"

fun parse_entries :: "nat \<Rightarrow> (rstream, sent_entry list) sm" where
  "parse_entries 0 = ret []"
| "parse_entries (Suc n) = bind parse_entry (\<lambda>e. bind (parse_entries n) (\<lambda>es. ret (e # es)))"

definition sent :: "('v \<Rightarrow> bytes) \<Rightarrow> bytes \<times> 'v context_entry \<Rightarrow> sent_entry" where
  "sent mv = (\<lambda>(k, e). \<lparr>se_key = k, se_control = ce_controlByte e,
     se_version = (if ce_controlByte e AND 3 = 0 then Some (md_version (ce_origMeta e)) else None),
     se_value = (case ce_value e of None \<Rightarrow> [] | Some v \<Rightarrow> mv v)\<rparr>)"

text \<open>Entries with a value and without durations; every entry of a context has a control byte without \<open>REMOVE_OP\<close>.\<close>

definition sendable :: "('v \<Rightarrow> bytes) \<Rightarrow> bytes \<times> 'v context_entry \<Rightarrow> bool" where
  "sendable mv = (\<lambda>(k, e). ce_marshaller e \<and> ce_controlByte e AND 4 = 0 \<and> length k < 2 ^ 32
     \<and> (\<exists>v. ce_value e = Some v \<and> length (mv v) < 2 ^ 32)
     \<and> sint (md_lifespan (ce_meta e)) \<le> 0 \<and> sint (md_maxIdle (ce_meta e)) \<le> 0)"

definition entry_bytes :: "('v \<Rightarrow> bytes) \<Rightarrow> bytes \<times> 'v context_entry \<Rightarrow> bytes" where
  "entry_bytes mv = (\<lambda>(k, e). writeArray k @ ce_controlByte e #
     (if ce_controlByte e AND 3 = 0 then writeLong (md_version (ce_origMeta e)) else [])
     @ 0x77 # writeArray (case ce_value e of None \<Rightarrow> [] | Some v \<Rightarrow> mv v))"

lemma write_entry_run: "sendable mv p \<Longrightarrow> write_entry mv p s = (Inr (), add_out (entry_bytes mv p) s)"
  by (cases p) (auto simp: sendable_def write_entry_def entry_bytes_def positive_duration_def entry_value_def seq_run bind_run
      ret_run wr_run)

lemma parse_entry_run:
  assumes "sendable mv p" "pending r = entry_bytes mv p @ rest"
  shows "parse_entry r = (Inr (sent mv p), r\<lparr>pending := rest\<rparr>)"
proof -
  obtain k e where p: "p = (k, e)" by (cases p)
  obtain v where v: "ce_value e = Some v" "length (mv v) < 2 ^ 32" "ce_controlByte e AND 4 = 0" "length k < 2 ^ 32"
    using assms(1) by (auto simp: sendable_def p)
  have pe: "parse_expiration Codec22 q = (Inr (0, 0), q\<lparr>pending := y\<rparr>)" if "pending q = 0x77 # y" for q y
    using that by (simp add: parse_expiration_def readByte_Cons bind_run ret_run)
  have pv: "bind (parse_expiration Codec22) (\<lambda>_. readArray) q = (Inr (mv v), q\<lparr>pending := y\<rparr>)"
    if "pending q = 0x77 # writeArray (mv v) @ y" for q y
    using pe [OF that] v(2) by (simp add: array.dec_enc)
  show ?thesis
  proof (cases "ce_controlByte e AND 3 = 0")
    case True
    let ?rest = "writeLong (md_version (ce_origMeta e)) @ 0x77 # writeArray (mv v) @ rest"
    have r: "pending r = writeArray k @ ce_controlByte e # ?rest"
      using assms(2) v True by (simp add: p entry_bytes_def)
    show ?thesis
      using v True r
      by (simp add: parse_entry_def sent_def p array.dec_app readByte_Cons long.dec_app pv ret_run)
  next
    case False
    then have r: "pending r = writeArray k @ ce_controlByte e # 0x77 # writeArray (mv v) @ rest"
      using assms(2) v by (simp add: p entry_bytes_def)
    show ?thesis
      using v False r
      by (simp add: parse_entry_def sent_def p array.dec_app readByte_Cons pv ret_run)
  qed
qed

lemma write_entries_run:
  "list_all (sendable mv) c \<Longrightarrow> for_each c (write_entry mv) s = (Inr (), add_out (concat (map (entry_bytes mv) c)) s)"
proof (induction c arbitrary: s)
  case Nil
  then show ?case by (simp add: ret_run add_out_def)
next
  case (Cons p c)
  then show ?case by (simp add: seq_run write_entry_run)
qed

lemma parse_entries_run:
  "list_all (sendable mv) c \<Longrightarrow> pending r = concat (map (entry_bytes mv) c) @ rest \<Longrightarrow>
    parse_entries (length c) r = (Inr (map (sent mv) c), r\<lparr>pending := rest\<rparr>)"
proof (induction c arbitrary: r)
  case Nil
  then show ?case by (simp add: ret_run)
next
  case (Cons p c)
  then show ?case
    using parse_entry_run [of mv p r "concat (map (entry_bytes mv) c) @ rest"] by (simp add: bind_run ret_run)
qed


definition put_ctx :: "byte ctx" where
  "put_ctx = addValue [1] (Some 7) (tx_meta 0 0) NOT_READ []"

definition voting_server :: "bytes list \<Rightarrow> exn + bytes" where
  "voting_server h = Inr (reply_header 5 PREPARE_RESPONSE 0 @ [0, 0, 0, 3])"

lemma put_ctx_entry: "put_ctx = [([1], \<lparr>ce_action = SET, ce_value = Some 7, ce_origMeta = tx_meta 0 0, ce_meta = tx_meta 0 0,
    ce_changed = False, ce_marshaller = True, ce_controlByte = 1\<rparr>)]"
  by (simp add: put_ctx_def addValue_def ContextEntry_def)


definition no_remove_op :: "'v ctx \<Rightarrow> bool" where
  "no_remove_op c \<longleftrightarrow> (\<forall>p \<in> set c. ce_controlByte (snd p) AND 4 = 0)"

lemma set_ctx_put: "set (ctx_put k e c) \<subseteq> insert (k, e) (set c)"
  by (induction k e c rule: ctx_put.induct) auto

lemma no_remove_put: "no_remove_op c \<Longrightarrow> ce_controlByte e AND 4 = 0 \<Longrightarrow> no_remove_op (ctx_put k e c)"
  unfolding no_remove_op_def using set_ctx_put by fastforce

lemma no_remove_entry: "no_remove_op c \<Longrightarrow> ce_controlByte (ctx_entry k c) AND 4 = 0"
  by (auto simp: no_remove_op_def ctx_entry_def ContextEntry0_def split: option.splits dest!: map_of_SomeD)

text \<open>\<open>throws m\<close>: from every state \<open>m\<close> ends without a result.\<close>

definition throws :: "('s, 'a) sm \<Rightarrow> bool" where
  "throws m \<longleftrightarrow> (\<forall>s. \<exists>e s'. m s = (Inl e, s'))"

lemma throws_bind: "throws m \<Longrightarrow> throws (bind m f)" "(\<And>x. throws (f x)) \<Longrightarrow> throws (bind m f)"
proof -
  show "throws m \<Longrightarrow> throws (bind m f)" unfolding throws_def by (metis bind_Inl)
  show "(\<And>x. throws (f x)) \<Longrightarrow> throws (bind m f)"
    unfolding throws_def by (auto simp: bind_run split: prod.split sum.split)
qed

lemma throws_seq: "throws m \<Longrightarrow> throws (seq m k)" "throws k \<Longrightarrow> throws (seq m k)"
  unfolding seq_def by (simp_all add: throws_bind)

lemma throws_for_each: "x \<in> set xs \<Longrightarrow> throws (f x) \<Longrightarrow> throws (for_each xs f)"
  by (induction xs) (auto intro: throws_seq)

lemma throws_no_value: "ce_value e = None \<Longrightarrow> ce_controlByte e AND 4 = 0 \<Longrightarrow> throws (write_entry mv (k, e))"
  by (simp add: throws_def write_entry_def entry_value_def seq_run bind_run wr_run ret_run raise_run)

text \<open>
  A transaction that has removed a key cannot be committed: no context ever has the control bit
  for a removal, so the request for its entry goes on to marshal the value, which is the null
  pointer. \<open>PrepareCommitOperation\<close> does not return a code then, whatever the server does. The same holds for
  a key that was read and is not on the server.
\<close>

theorem tx_remove_cannot_commit:
  assumes "no_remove_op c"
  shows "fst (PrepareCommitOperation tf ctx mv x (setValueAsDeleted key c) s) \<notin> range Inr
    \<and> fst (PrepareCommitOperation tf ctx mv x (addValue key None meta NON_EXISTING c) s) \<notin> range Inr
    \<and> no_remove_op (setValueAsDeleted key c) \<and> no_remove_op (addValue key v meta NON_EXISTING c)
    \<and> no_remove_op (addValue key v meta NOT_READ c) \<and> no_remove_op (addValue key v meta CB_NONE c)
    \<and> no_remove_op (setValue key w meta c) \<and> no_remove_op (snd (getValue key c))"
proof -
  have fails: "fst (PrepareCommitOperation tf ctx mv x c' s) \<notin> range Inr"
    if "map_of c' k = Some e" "ce_value e = None" "ce_controlByte e AND 4 = 0" for c' k e
  proof -
    have "throws (for_each c' (write_entry mv) :: ('b io, unit) sm)"
      by (rule throws_for_each, rule map_of_SomeD [OF that(1)], rule throws_no_value [OF that(2,3)])
    then have "throws (PrepareCommitOperation tf ctx mv x c')"
      unfolding PrepareCommitOperation_def exchange_def by (intro throws_bind(1) throws_bind(2) throws_seq(1) throws_seq(2))
    then show ?thesis unfolding throws_def by (metis Inl_Inr_False fst_conv rangeE)
  qed
  have e: "ce_controlByte (ctx_entry key c) AND 4 = 0" by (rule no_remove_entry [OF assms])
  have "no_remove_op (setValueAsDeleted key c)" "no_remove_op (setValue key w meta c)" "no_remove_op (snd (getValue key c))"
    "no_remove_op (addValue key v meta 2 c)" "no_remove_op (addValue key v meta 1 c)" "no_remove_op (addValue key v meta 0 c)"
    using e assms by (simp_all add: setValueAsDeleted_def setValue_def getValue_def addValue_def Let_def ContextEntry_def no_remove_put)
  moreover have "fst (PrepareCommitOperation tf ctx mv x (setValueAsDeleted key c) s) \<notin> range Inr"
    by (rule fails [of _ key "(ctx_entry key c)\<lparr>ce_action := DELETED, ce_meta := MetadataValue\<lparr>md_version :=
          md_version (ce_origMeta (ctx_entry key c)) + 1\<rparr>, ce_changed := True, ce_value := None\<rparr>"])
       (use e in \<open>simp_all add: setValueAsDeleted_def Let_def\<close>)
  moreover have "fst (PrepareCommitOperation tf ctx mv x (addValue key None meta 2 c) s) \<notin> range Inr"
    by (rule fails [of _ key "(ContextEntry SET None meta)\<lparr>ce_controlByte := 2\<rparr>"])
       (simp_all add: addValue_def Let_def ContextEntry_def)
  ultimately show ?thesis by simp
qed

theorem tx_remove_cannot_commit_witness:
  "fst (PrepareCommitOperation example_tf session_ctx (\<lambda>v. [v]) \<lparr>globalId = [1], branchId = [2]\<rparr>
      (setValueAsDeleted [2] put_ctx) session_io) \<notin> range Inr"
proof -
  have "no_remove_op put_ctx" by (simp add: no_remove_op_def put_ctx_entry)
  from tx_remove_cannot_commit [OF this] show ?thesis by blast
qed

end
