(* ===== verification/HR_Counters.thy ===== *)
theory HR_Counters
  imports HR_Retry_Correct
begin

text \<open>
  Counters: \<open>impl/operations/CounterOperations.cpp\<close>, \<open>api/CountersImpl.cpp\<close> and
  \<open>api/RemoteCounterManagerImpl.cpp\<close>. A \<open>long\<close> is a word of 64 bits, compared as a signed number.
  The thread that dispatches the events is not modelled; the table of listeners it reads is.
\<close>

section \<open>Configuration\<close>

datatype storage = VOLATILE | PERSISTENT

datatype counter_type = UNBOUNDED_STRONG | BOUNDED_STRONG | WEAK

record counter_config =
  initialValue :: u64
  lowerBound :: u64
  upperBound :: u64
  concurrencyLevel :: u32
  counterType :: counter_type
  counterStorage :: storage

definition writeConfiguration :: "counter_config \<Rightarrow> bytes" where
  "writeConfiguration c =
    (let flags = (case counterType c of WEAK \<Rightarrow> 0x01 | BOUNDED_STRONG \<Rightarrow> 0x02 | UNBOUNDED_STRONG \<Rightarrow> 0x00)
           OR (case counterStorage c of PERSISTENT \<Rightarrow> 0x04 | VOLATILE \<Rightarrow> 0x00) in
     [flags]
     @ (if counterType c = WEAK then writeVInt (concurrencyLevel c) else [])
     @ (if counterType c = BOUNDED_STRONG then writeLong (lowerBound c) @ writeLong (upperBound c) else [])
     @ writeLong (initialValue c))"

definition string_of :: "bytes \<Rightarrow> string" where
  "string_of bs = map (\<lambda>b. char_of (unat b)) bs"

definition readConfiguration :: "(rstream, counter_config) sm" where
  "readConfiguration =
    bind readByte (\<lambda>flags.
    bind (if flags AND 0x03 = 0x00 then ret UNBOUNDED_STRONG
          else if flags AND 0x03 = 0x01 then ret WEAK
          else if flags AND 0x03 = 0x02 then ret BOUNDED_STRONG
          else raise (HotRodClientException (''Unknown counter type: '' @ string_of (to_string (uint flags))))) (\<lambda>ct.
    bind (if ct = WEAK then readVInt else ret 0) (\<lambda>level.
    bind (if ct = BOUNDED_STRONG then bind readLong (\<lambda>l. bind readLong (\<lambda>u. ret (l, u))) else ret (0, 0)) (\<lambda>(lower, upper).
    bind readLong (\<lambda>initial.
    ret \<lparr>initialValue = initial, lowerBound = lower, upperBound = upper, concurrencyLevel = level, counterType = ct,
         counterStorage = (if flags AND 0x04 \<noteq> 0 then PERSISTENT else VOLATILE)\<rparr>)))))"

section \<open>Operations\<close>

definition counter_ctx :: "codec \<Rightarrow> op_ctx" where
  "counter_ctx codec = \<lparr>oc_codec = codec, oc_flags = 0, oc_cacheName = [], oc_dataFormat = None\<rparr>"

definition counter_error :: "string \<Rightarrow> string \<Rightarrow> byte \<Rightarrow> exn" where
  "counter_error what name status =
    HotRodClientException (what @ name @ '' status: '' @ string_of (to_string (uint status)))"

definition DefineCounterOperation :: "'f tf_iface \<Rightarrow> op_ctx \<Rightarrow> string \<Rightarrow> counter_config \<Rightarrow> ('f io, bool) sm" where
  "DefineCounterOperation tf ctx name c =
    bind (exchange tf ctx COUNTER_CREATE_REQUEST (wr (writeArray (ascii name) @ writeConfiguration c))) (\<lambda>status.
    ret (isSuccess status))"

definition GetCounterConfigurationOperation :: "'f tf_iface \<Rightarrow> op_ctx \<Rightarrow> string \<Rightarrow> ('f io, counter_config) sm" where
  "GetCounterConfigurationOperation tf ctx name =
    bind (exchange tf ctx COUNTER_GET_CONFIGURATION_REQUEST (wr (writeArray (ascii name)))) (\<lambda>status.
    if \<not> isSuccess status
    then raise (counter_error ''Error in CounterGetConfiguration operation, counter name: '' name status)
    else rd readConfiguration)"

definition ResetCounterOperation :: "'f tf_iface \<Rightarrow> op_ctx \<Rightarrow> string \<Rightarrow> ('f io, unit) sm" where
  "ResetCounterOperation tf ctx name =
    bind (exchange tf ctx COUNTER_RESET_REQUEST (wr (writeArray (ascii name)))) (\<lambda>status.
    if \<not> isSuccess status \<and> status \<noteq> KEY_DOES_NOT_EXIST_STATUS
    then raise (counter_error ''Error in CounterReset operation, counter name: '' name status)
    else ret ())"

definition RemoveCounterOperation :: "'f tf_iface \<Rightarrow> op_ctx \<Rightarrow> string \<Rightarrow> ('f io, unit) sm" where
  "RemoveCounterOperation tf ctx name =
    bind (exchange tf ctx COUNTER_REMOVE_REQUEST (wr (writeArray (ascii name)))) (\<lambda>status.
    if \<not> isSuccess status \<and> status \<noteq> KEY_DOES_NOT_EXIST_STATUS
    then raise (counter_error ''Error in CounterRemove operation, counter name: '' name status)
    else ret ())"

text \<open>The request is not flushed, and the names are read when the status is not success.\<close>

definition GetCounterNamesOperation :: "'f tf_iface \<Rightarrow> op_ctx \<Rightarrow> ('f io, bytes set) sm" where
  "GetCounterNamesOperation tf ctx =
    bind (op_writeHeader ctx COUNTER_GET_NAMES_REQUEST) (\<lambda>params.
    bind (readHeaderAndValidate tf params) (\<lambda>status.
    if \<not> isSuccess status
    then bind (rd readVInt) (\<lambda>num. bind (repeat_sm (unat num) (rd readString)) (\<lambda>names. ret (set names)))
    else ret {}))"

definition IsCounterDefinedOperation :: "'f tf_iface \<Rightarrow> op_ctx \<Rightarrow> string \<Rightarrow> ('f io, bool) sm" where
  "IsCounterDefinedOperation tf ctx name =
    bind (exchange tf ctx COUNTER_CREATE_REQUEST (wr (writeArray (ascii name)))) (\<lambda>status. ret (status = 0x00))"

definition GetCounterValueOperation :: "'f tf_iface \<Rightarrow> op_ctx \<Rightarrow> string \<Rightarrow> ('f io, u64) sm" where
  "GetCounterValueOperation tf ctx name =
    bind (exchange tf ctx COUNTER_GET_REQUEST (wr (writeArray (ascii name)))) (\<lambda>status.
    if \<not> isSuccess status
    then raise (counter_error ''Error in GetCountervalue operation, counter name: '' name status)
    else rd readLong)"

definition add_assertBoundaries :: "string \<Rightarrow> u64 \<Rightarrow> byte \<Rightarrow> ('s, unit) sm" where
  "add_assertBoundaries name delta status =
    (if status = NOT_EXECUTED_WITH_PREVIOUS
     then raise (if 0 < sint delta then CounterUpperBoundException name else CounterLowerBoundException name)
     else ret ())"

definition AddAndGetCounterValueOperation :: "'f tf_iface \<Rightarrow> op_ctx \<Rightarrow> string \<Rightarrow> u64 \<Rightarrow> ('f io, u64) sm" where
  "AddAndGetCounterValueOperation tf ctx name delta =
    bind (exchange tf ctx COUNTER_ADD_AND_GET_REQUEST (wr (writeArray (ascii name) @ writeLong delta))) (\<lambda>status.
    seq (add_assertBoundaries name delta status)
        (if \<not> isSuccess status
         then raise (counter_error ''Error in GetCounterValue operation, counter name: '' name status)
         else rd readLong))"

definition cas_assertBoundaries :: "string \<Rightarrow> u64 \<Rightarrow> counter_config \<Rightarrow> byte \<Rightarrow> ('s, unit) sm" where
  "cas_assertBoundaries name update cc status =
    (if status = NOT_EXECUTED_WITH_PREVIOUS
     then raise (if sint (upperBound cc) \<le> sint update then CounterUpperBoundException name else CounterLowerBoundException name)
     else ret ())"

definition CompareAndSwapCounterValueOperation ::
  "'f tf_iface \<Rightarrow> op_ctx \<Rightarrow> string \<Rightarrow> u64 \<Rightarrow> u64 \<Rightarrow> counter_config \<Rightarrow> ('f io, u64) sm" where
  "CompareAndSwapCounterValueOperation tf ctx name expect update cc =
    bind (exchange tf ctx COUNTER_CAS_REQUEST (wr (writeArray (ascii name) @ writeLong expect @ writeLong update))) (\<lambda>status.
    seq (cas_assertBoundaries name update cc status)
        (if status \<noteq> NO_ERROR_STATUS
         then raise (counter_error ''Error in CompareAndSwap operation, counter name: '' name status)
         else rd readLong))"

text \<open>The result says whether the transport stays with the listener.\<close>

definition AddCounterListenerOperation :: "'f tf_iface \<Rightarrow> op_ctx \<Rightarrow> string \<Rightarrow> bytes \<Rightarrow> ('f io, bool) sm" where
  "AddCounterListenerOperation tf ctx name listenerId =
    bind (exchange tf ctx COUNTER_ADD_LISTENER_REQUEST (wr (writeArray (ascii name) @ writeArray listenerId))) (\<lambda>status.
    ret (status = NO_ERROR_STATUS))"

definition RemoveCounterListenerOperation :: "'f tf_iface \<Rightarrow> op_ctx \<Rightarrow> string \<Rightarrow> bytes \<Rightarrow> ('f io, bool) sm" where
  "RemoveCounterListenerOperation tf ctx name listenerId =
    bind (exchange tf ctx COUNTER_REMOVE_LISTENER_REQUEST (wr (writeArray (ascii name) @ writeArray listenerId))) (\<lambda>status.
    ret (status = NO_ERROR_STATUS))"

section \<open>Counters and their manager\<close>

text \<open>
  \<open>counters\<close> has the counters that were asked for, with the configuration the server gave. The
  listeners of \<open>CounterDispatcher\<close> are \<open>None\<close> while there is no dispatcher; a listener is a number.
\<close>

record counter_manager =
  cm_client :: client
  counters :: "string \<rightharpoonup> counter_config"
  cm_listeners :: "(string \<rightharpoonup> nat list) option"
  cm_listenerId :: bytes

record counter_env =
  ce_tf :: tf_config
  ce_fuel :: nat
  ce_uuid :: bytes

definition on_client :: "(client, 'a) sm \<Rightarrow> (counter_manager, 'a) sm" where
  "on_client m = on_part cm_client (\<lambda>c s. s\<lparr>cm_client := c\<rparr>) m"

definition counter_op :: "counter_env \<Rightarrow> (tfactory tf_iface \<Rightarrow> op_ctx \<Rightarrow> (tfactory io, 'a) sm) \<Rightarrow> (client, nat, 'a) retry_ops" where
  "counter_op E op =
    operation_on (ce_tf E) [] None (op (TransportFactory_iface (ce_tf E)) (counter_ctx (tc_codec (ce_tf E))))"

definition counter_run :: "counter_env \<Rightarrow> (tfactory tf_iface \<Rightarrow> op_ctx \<Rightarrow> (tfactory io, 'a) sm) \<Rightarrow> (counter_manager, 'a) sm" where
  "counter_run E op = on_client (execute (ce_fuel E) (counter_op E op))"

definition counter_run_void :: "counter_env \<Rightarrow> (tfactory tf_iface \<Rightarrow> op_ctx \<Rightarrow> (tfactory io, unit) sm) \<Rightarrow> (counter_manager, unit) sm" where
  "counter_run_void E op = on_client (execute_void (ce_fuel E) (counter_op E op))"

text \<open>A counter that is already known is cast to the class that is asked for.\<close>

definition getStrongCounter :: "counter_env \<Rightarrow> string \<Rightarrow> (counter_manager, counter_config) sm" where
  "getStrongCounter E name =
    bind (gets (\<lambda>s. counters s name)) (\<lambda>known.
    case known of
      None \<Rightarrow>
        bind (counter_run E (\<lambda>tf ctx. GetCounterConfigurationOperation tf ctx name)) (\<lambda>cc.
        if counterType cc = WEAK
        then raise (HotRodClientException (name @ '' counter is the wrong type (weak instead of strong''))
        else seq (modify (\<lambda>s. s\<lparr>counters := (counters s)(name \<mapsto> cc)\<rparr>)) (ret cc))
    | Some cc \<Rightarrow> if counterType cc = WEAK then raise (UndefinedBehaviour ''static_pointer_cast'') else ret cc)"

definition getWeakCounter :: "counter_env \<Rightarrow> string \<Rightarrow> (counter_manager, counter_config) sm" where
  "getWeakCounter E name =
    bind (gets (\<lambda>s. counters s name)) (\<lambda>known.
    case known of
      None \<Rightarrow>
        bind (counter_run E (\<lambda>tf ctx. GetCounterConfigurationOperation tf ctx name)) (\<lambda>cc.
        if counterType cc \<noteq> WEAK
        then raise (HotRodClientException (name @ '' counter is the wrong type (strong instead of weak''))
        else seq (modify (\<lambda>s. s\<lparr>counters := (counters s)(name \<mapsto> cc)\<rparr>)) (ret cc))
    | Some cc \<Rightarrow> if counterType cc \<noteq> WEAK then raise (UndefinedBehaviour ''static_pointer_cast'') else ret cc)"

definition defineCounter :: "counter_env \<Rightarrow> string \<Rightarrow> counter_config \<Rightarrow> (counter_manager, bool) sm" where
  "defineCounter E name c = counter_run E (\<lambda>tf ctx. DefineCounterOperation tf ctx name c)"

definition isDefined :: "counter_env \<Rightarrow> string \<Rightarrow> (counter_manager, bool) sm" where
  "isDefined E name = counter_run E (\<lambda>tf ctx. IsCounterDefinedOperation tf ctx name)"

definition getConfiguration :: "counter_env \<Rightarrow> string \<Rightarrow> (counter_manager, counter_config) sm" where
  "getConfiguration E name = counter_run E (\<lambda>tf ctx. GetCounterConfigurationOperation tf ctx name)"

definition manager_remove :: "counter_env \<Rightarrow> string \<Rightarrow> (counter_manager, unit) sm" where
  "manager_remove E name =
    seq (counter_run_void E (\<lambda>tf ctx. RemoveCounterOperation tf ctx name))
        (modify (\<lambda>s. s\<lparr>counters := (counters s)(name := None)\<rparr>))"

definition getCounterNames :: "counter_env \<Rightarrow> (counter_manager, bytes set) sm" where
  "getCounterNames E = counter_run E GetCounterNamesOperation"

text \<open>The members of a counter.\<close>

definition counter_reset :: "counter_env \<Rightarrow> string \<Rightarrow> (counter_manager, unit) sm" where
  "counter_reset E name = counter_run_void E (\<lambda>tf ctx. ResetCounterOperation tf ctx name)"

definition counter_remove :: "counter_env \<Rightarrow> string \<Rightarrow> (counter_manager, unit) sm" where
  "counter_remove E name = counter_run_void E (\<lambda>tf ctx. RemoveCounterOperation tf ctx name)"

definition counter_getValue :: "counter_env \<Rightarrow> string \<Rightarrow> (counter_manager, u64) sm" where
  "counter_getValue E name = counter_run E (\<lambda>tf ctx. GetCounterValueOperation tf ctx name)"

definition addAndGet :: "counter_env \<Rightarrow> string \<Rightarrow> u64 \<Rightarrow> (counter_manager, u64) sm" where
  "addAndGet E name delta = counter_run E (\<lambda>tf ctx. AddAndGetCounterValueOperation tf ctx name delta)"

definition compareAndSwap :: "counter_env \<Rightarrow> string \<Rightarrow> counter_config \<Rightarrow> u64 \<Rightarrow> u64 \<Rightarrow> (counter_manager, u64) sm" where
  "compareAndSwap E name cc expect update =
    counter_run E (\<lambda>tf ctx. CompareAndSwapCounterValueOperation tf ctx name expect update cc)"

definition compareAndSet :: "counter_env \<Rightarrow> string \<Rightarrow> counter_config \<Rightarrow> u64 \<Rightarrow> u64 \<Rightarrow> (counter_manager, bool) sm" where
  "compareAndSet E name cc expect update =
    bind (compareAndSwap E name cc expect update) (\<lambda>v. ret (v = expect))"

definition weak_add :: "counter_env \<Rightarrow> string \<Rightarrow> u64 \<Rightarrow> (counter_manager, unit) sm" where
  "weak_add E name delta = bind (addAndGet E name delta) (\<lambda>_. ret ())"

section \<open>Listeners\<close>

text \<open>
  \<open>releaseTransport\<close> of \<open>AddCounterListenerOperation\<close>: the flag \<open>failed\<close> is the second component of the
  state. The transport is kept when the listener was registered on it and it is to be kept.
\<close>

definition add_listener_op :: "counter_env \<Rightarrow> string \<Rightarrow> bytes \<Rightarrow> bool \<Rightarrow> (client \<times> bool, nat, bool) retry_ops" where
  "add_listener_op E name listenerId keepTransport =
    (let R = counter_op E (\<lambda>tf ctx. AddCounterListenerOperation tf ctx name listenerId);
         lift = (\<lambda>m. on_part fst (\<lambda>c s. (c, snd s)) m) in
     \<lparr>ro_getTransport = (\<lambda>n failed. on_part fst (\<lambda>c s. (c, snd s)) (ro_getTransport R n failed)),
      ro_executeOperation = (\<lambda>t.
        seq (modify (\<lambda>s. (fst s, False)))
        (bind (on_part fst (\<lambda>c s. (c, snd s)) (ro_executeOperation R t)) (\<lambda>ok.
         seq (modify (\<lambda>s. (fst s, \<not> ok))) (ret ok)))),
      ro_releaseTransport = (\<lambda>t.
        bind (gets snd) (\<lambda>fd.
        if fd \<or> \<not> keepTransport then seq (lift (ro_releaseTransport R t)) (modify (\<lambda>s. (fst s, False))) else ret ())),
      ro_invalidateTransport = (\<lambda>a t. lift (ro_invalidateTransport R a t)),
      ro_clusterSwitch = on_part fst (\<lambda>c s. (c, snd s)) (ro_clusterSwitch R),
      ro_maxRetries = ro_maxRetries R,
      ro_getFailedServers = (\<lambda>s. ro_getFailedServers R (fst s)),
      ro_addFailedServer = (\<lambda>a. lift (ro_addFailedServer R a))\<rparr>)"

definition register :: "counter_env \<Rightarrow> string \<Rightarrow> bytes \<Rightarrow> bool \<Rightarrow> (counter_manager, bool) sm" where
  "register E name listenerId keepTransport =
    on_client (on_part (\<lambda>c. (c, False)) (\<lambda>x c. fst x) (execute (ce_fuel E) (add_listener_op E name listenerId keepTransport)))"

definition dispatcher_getListeners :: "string \<Rightarrow> (string \<rightharpoonup> nat list) \<Rightarrow> nat list" where
  "dispatcher_getListeners name ls = (case ls name of None \<Rightarrow> [] | Some xs \<Rightarrow> xs)"

definition addListener :: "counter_env \<Rightarrow> string \<Rightarrow> nat \<Rightarrow> (counter_manager, nat option) sm" where
  "addListener E name listener =
    bind (gets cm_listeners) (\<lambda>d.
    bind (case d of
            None \<Rightarrow>
              seq (modify (\<lambda>s. s\<lparr>cm_listenerId := ce_uuid E\<rparr>))
              (bind (register E name (ce_uuid E) True) (\<lambda>ok.
               if ok then seq (modify (\<lambda>s. s\<lparr>cm_listeners := Some Map.empty\<rparr>)) (ret True) else ret False))
          | Some ls \<Rightarrow>
              seq (modify (\<lambda>s. s\<lparr>cm_listeners := Some (ls(name \<mapsto> dispatcher_getListeners name ls))\<rparr>))
              (if dispatcher_getListeners name ls = []
               then bind (gets cm_listenerId) (\<lambda>lid. register E name lid False)
               else ret True)) (\<lambda>ok.
    if \<not> ok then ret None
    else seq (modify (\<lambda>s. s\<lparr>cm_listeners := map_option (\<lambda>ls. ls(name \<mapsto> dispatcher_getListeners name ls @ [listener]))
                (cm_listeners s)\<rparr>))
             (ret (Some listener))))"

text \<open>The handler is removed from a copy of the list of listeners.\<close>

definition removeListener :: "counter_env \<Rightarrow> string \<Rightarrow> nat \<Rightarrow> (counter_manager, unit) sm" where
  "removeListener E name handler =
    bind (gets cm_listeners) (\<lambda>d.
    case d of
      None \<Rightarrow> ret ()
    | Some ls \<Rightarrow>
        seq (modify (\<lambda>s. s\<lparr>cm_listeners := Some (ls(name \<mapsto> dispatcher_getListeners name ls))\<rparr>))
        (seq (if removeAll handler (dispatcher_getListeners name ls) = []
              then bind (gets cm_listenerId) (\<lambda>lid.
                   bind (counter_run E (\<lambda>tf ctx. RemoveCounterListenerOperation tf ctx name lid)) (\<lambda>ok.
                   if ok then modify (\<lambda>s. s\<lparr>cm_listeners := map_option (\<lambda>ls. ls(name := None)) (cm_listeners s)\<rparr>) else ret ()))
              else ret ())
             (modify (\<lambda>s. if cm_listeners s = Some Map.empty then s\<lparr>cm_listeners := None\<rparr> else s))))"

end
