(* ===== verification/HR_Counters_Correct.thy ===== *)
theory HR_Counters_Correct
  imports HR_Counters HR_RemoteCache_Correct
begin

text \<open>
  The calls of strong counters implement bounded counters: against a server that keeps them, the
  values and the exceptions of a sequence of calls are those of the abstract counters, through the
  retry loop, the transport factory and the codec. Configurations reach the other end.
\<close>

section \<open>Bounded counters\<close>

datatype counter_call = CtGet | CtAdd u64 | CtCas u64 u64

definition within :: "counter_config \<Rightarrow> int \<Rightarrow> bool" where
  "within cc n \<longleftrightarrow> sint (lowerBound cc) \<le> n \<and> n \<le> sint (upperBound cc)"

text \<open>The value a call asks for.\<close>

fun wanted :: "counter_call \<Rightarrow> u64 \<Rightarrow> int" where
  "wanted CtGet v = sint v"
| "wanted (CtAdd d) v = sint v + sint d"
| "wanted (CtCas e u) v = (if v = e then sint u else sint v)"

text \<open>The answer to a call when the counter has the value \<open>v\<close>: a bound that is crossed is named.\<close>

definition counter_answer :: "string \<Rightarrow> counter_config \<Rightarrow> counter_call \<Rightarrow> u64 \<Rightarrow> exn + u64" where
  "counter_answer name cc c v =
    (if sint (upperBound cc) < wanted c v then Inl (CounterUpperBoundException name)
     else if wanted c v < sint (lowerBound cc) then Inl (CounterLowerBoundException name)
     else Inr (case c of CtAdd d \<Rightarrow> v + d | _ \<Rightarrow> v))"

text \<open>The value after it. What a server keeps when a bound is crossed is its choice, \<open>stuck\<close>.\<close>

definition counter_next :: "(counter_config \<Rightarrow> counter_call \<Rightarrow> u64 \<Rightarrow> u64) \<Rightarrow> counter_config \<Rightarrow> counter_call \<Rightarrow> u64 \<Rightarrow> u64" where
  "counter_next stuck cc c v = (if within cc (wanted c v) then word_of_int (wanted c v) else stuck cc c v)"

type_synonym counter_table = "bytes \<rightharpoonup> counter_config \<times> u64"

definition table_after :: "(counter_config \<Rightarrow> counter_call \<Rightarrow> u64 \<Rightarrow> u64) \<Rightarrow> bytes \<times> counter_call \<Rightarrow> counter_table \<Rightarrow> counter_table" where
  "table_after stuck p V = (case V (fst p) of None \<Rightarrow> V
     | Some (cc, v) \<Rightarrow> V(fst p \<mapsto> (cc, counter_next stuck cc (snd p) v)))"

section \<open>The protocol\<close>

fun call_code :: "counter_call \<Rightarrow> byte" where
  "call_code CtGet = COUNTER_GET_REQUEST"
| "call_code (CtAdd d) = COUNTER_ADD_AND_GET_REQUEST"
| "call_code (CtCas e u) = COUNTER_CAS_REQUEST"

fun call_resp :: "counter_call \<Rightarrow> byte" where
  "call_resp CtGet = COUNTER_GET_RESPONSE"
| "call_resp (CtAdd d) = COUNTER_ADD_AND_GET_RESPONSE"
| "call_resp (CtCas e u) = COUNTER_CAS_RESPONSE"

fun call_body :: "counter_call \<Rightarrow> bytes" where
  "call_body CtGet = []"
| "call_body (CtAdd d) = writeLong d"
| "call_body (CtCas e u) = writeLong e @ writeLong u"

definition parse_call :: "byte \<Rightarrow> (rstream, bytes \<times> counter_call) sm" where
  "parse_call code =
    bind readArray (\<lambda>name.
    if code = COUNTER_GET_REQUEST then ret (name, CtGet)
    else if code = COUNTER_ADD_AND_GET_REQUEST then bind readLong (\<lambda>d. ret (name, CtAdd d))
    else if code = COUNTER_CAS_REQUEST then bind readLong (\<lambda>e. bind readLong (\<lambda>u. ret (name, CtCas e u)))
    else raise (InternalException ''unsupported''))"

definition call_of :: "bytes \<Rightarrow> (request_header \<times> bytes \<times> counter_call) option" where
  "call_of req = (case fst (parse_message (\<lambda>h. parse_call (rq_opCode h)) \<lparr>rhost = [], rport = 0, pending = req\<rparr>) of
     Inl e \<Rightarrow> None | Inr x \<Rightarrow> Some x)"

definition call_reply :: "bytes \<times> counter_call \<Rightarrow> counter_table \<Rightarrow> byte \<times> bytes" where
  "call_reply p V = (case V (fst p) of
     None \<Rightarrow> (KEY_DOES_NOT_EXIST_STATUS, [])
   | Some (cc, v) \<Rightarrow>
       if within cc (wanted (snd p) v) then (NO_ERROR_STATUS, writeLong (case snd p of CtAdd d \<Rightarrow> v + d | _ \<Rightarrow> v))
       else (NOT_EXECUTED_WITH_PREVIOUS, []))"

definition counters_after :: "(counter_config \<Rightarrow> counter_call \<Rightarrow> u64 \<Rightarrow> u64) \<Rightarrow> counter_table \<Rightarrow> bytes list \<Rightarrow> counter_table" where
  "counters_after stuck V h =
    foldl (\<lambda>V req. case call_of req of None \<Rightarrow> V | Some (rh, p) \<Rightarrow> table_after stuck p V) V h"

definition serves_counters :: "(counter_config \<Rightarrow> counter_call \<Rightarrow> u64 \<Rightarrow> u64) \<Rightarrow> counter_table \<Rightarrow> (bytes list \<Rightarrow> exn + bytes) \<Rightarrow> bool" where
  "serves_counters stuck V peer \<longleftrightarrow> (\<forall>h req rh p. call_of req = Some (rh, p) \<longrightarrow>
     peer (h @ [req]) = Inr (case call_reply p (counters_after stuck V h) of
       (st, payload) \<Rightarrow> reply_header (rq_messageId rh) (call_resp (snd p)) st @ payload))"

section \<open>Operations\<close>

fun counter_client :: "'f tf_iface \<Rightarrow> op_ctx \<Rightarrow> string \<Rightarrow> counter_config \<Rightarrow> counter_call \<Rightarrow> ('f io, u64) sm" where
  "counter_client tf ctx name cc CtGet = GetCounterValueOperation tf ctx name"
| "counter_client tf ctx name cc (CtAdd d) = AddAndGetCounterValueOperation tf ctx name d"
| "counter_client tf ctx name cc (CtCas e u) = CompareAndSwapCounterValueOperation tf ctx name e u cc"

lemma call_resp_of [simp]: "toOpRespCode (call_code c) = Inr (call_resp c)" "call_resp c \<noteq> ERROR_RESPONSE"
  by (cases c; simp add: toOpRespCode_def op_resp_table_def)+

lemma parse_call_enc:
  assumes "length name < 2 ^ 32" "pending r = writeArray name @ call_body c @ rest"
  shows "parse_call (call_code c) r = (Inr (name, c), r\<lparr>pending := rest\<rparr>)"
  using assms by (cases c) (simp_all add: parse_call_def array.dec_app long.dec_app ret_run)

lemma call_of_request:
  assumes "ctx_ok ctx" "length name < 2 ^ 32"
  shows "call_of (request_bytes ctx (call_code c) resp i t (writeArray name @ call_body c))
    = Some (sent_header ctx (call_code c) i t, name, c)"
proof -
  have "parse_call (rq_opCode (sent_header ctx (call_code c) i t)) r = (Inr (name, c), r\<lparr>pending := []\<rparr>)"
    if "pending r = writeArray name @ call_body c" for r
    using parse_call_enc [OF assms(2), of r c "[]"] that by (simp add: sent_header_def)
  from parse_message_run [where body = "\<lambda>h. parse_call (rq_opCode h)", OF assms(1) this] show ?thesis
    by (simp add: call_of_def)
qed

text \<open>The client, from the status and the sign of what it asked for, names the bound that was crossed.\<close>

lemma add_bound:
  assumes "within cc (sint v)" "\<not> within cc (sint v + sint d)"
  shows "0 < sint d \<longleftrightarrow> sint (upperBound cc) < sint v + sint d"
  using assms by (auto simp: within_def)

lemma cas_bound:
  assumes "within cc (sint v)" "\<not> within cc (sint u)"
  shows "sint (upperBound cc) \<le> sint u \<longleftrightarrow> sint (upperBound cc) < sint u"
  using assms by (auto simp: within_def)

lemma counter_client_exchange:
  "counter_client tf ctx name cc c =
    bind (exchange tf ctx (call_code c) (wr (writeArray (ascii name) @ call_body c))) (\<lambda>st.
    case c of
      CtGet \<Rightarrow> if \<not> isSuccess st then raise (counter_error ''Error in GetCountervalue operation, counter name: '' name st) else rd readLong
    | CtAdd d \<Rightarrow> seq (add_assertBoundaries name d st)
        (if \<not> isSuccess st then raise (counter_error ''Error in GetCounterValue operation, counter name: '' name st) else rd readLong)
    | CtCas e u \<Rightarrow> seq (cas_assertBoundaries name u cc st)
        (if st \<noteq> NO_ERROR_STATUS then raise (counter_error ''Error in CompareAndSwap operation, counter name: '' name st) else rd readLong))"
  by (cases c) (simp_all add: GetCounterValueOperation_def AddAndGetCounterValueOperation_def CompareAndSwapCounterValueOperation_def)

lemma counter_client_run:
  assumes q: "quiet s" and srv: "serves_counters stuck V (t_peer (tr s))" and ctx: "ctx_ok ctx"
    and name: "length (ascii name) < 2 ^ 32"
    and v: "counters_after stuck V (t_sent (tr s)) (ascii name) = Some (cc, v)" "within cc (sint v)"
  shows "\<exists>req. counter_client tf ctx name cc c s = (counter_answer name cc c v, exchanged s req [])
    \<and> counters_after stuck V (t_sent (tr s) @ [req])
      = table_after stuck (ascii name, c) (counters_after stuck V (t_sent (tr s)))"
proof -
  let ?W = "counters_after stuck V (t_sent (tr s))" and ?p = "(ascii name, c)"
  define req where "req = request_bytes ctx (call_code c) (call_resp c) (msgId s + 1) (topo s) (writeArray (ascii name) @ call_body c)"
  obtain st payload where rep: "call_reply ?p ?W = (st, payload)" by fastforce
  have of: "call_of req = Some (sent_header ctx (call_code c) (msgId s + 1) (topo s), ?p)"
    unfolding req_def by (rule call_of_request [OF ctx name])
  then have peer: "t_peer (tr s) (t_sent (tr s) @ [req]) = Inr (reply_header (msgId s + 1) (call_resp c) st @ payload)"
    using srv rep by (auto simp: serves_counters_def sent_header_def)
  have "exchange tf ctx (call_code c) (wr (writeArray (ascii name) @ call_body c)) s = (Inr st, exchanged s req payload)"
    unfolding req_def by (rule exchange_run [OF q]) (use peer in \<open>simp_all add: wr_run req_def\<close>)
  moreover have long: "rd readLong (exchanged s req (writeLong n)) = (Inr n, exchanged s req [])" for n
    using long.dec_enc [of "t_inp (tr (exchanged s req (writeLong n)))" n "[]"]
    by (simp add: rd_def on_part_run exchanged_def)
  ultimately have "counter_client tf ctx name cc c s = (counter_answer name cc c v, exchanged s req [])"
    using rep v add_bound [OF v(2)] cas_bound [OF v(2)] unfolding counter_client_exchange
    by (cases c) (auto simp: call_reply_def counter_answer_def isSuccess_def add_assertBoundaries_def cas_assertBoundaries_def
        seq_run raise_run ret_run within_def split: if_splits)
  moreover have "counters_after stuck V (t_sent (tr s) @ [req]) = table_after stuck ?p ?W"
    using of by (simp add: counters_after_def)
  ultimately show ?thesis by blast
qed

text \<open>The counters of the server stay within their bounds.\<close>

definition table_ok :: "counter_table \<Rightarrow> bool" where
  "table_ok V \<longleftrightarrow> (\<forall>n cc v. V n = Some (cc, v) \<longrightarrow> within cc (sint v))"

definition stuck_ok :: "(counter_config \<Rightarrow> counter_call \<Rightarrow> u64 \<Rightarrow> u64) \<Rightarrow> bool" where
  "stuck_ok stuck \<longleftrightarrow> (\<forall>cc c v. within cc (sint v) \<longrightarrow> within cc (sint (stuck cc c v)))"

lemma within_long: "within cc n \<Longrightarrow> sint (word_of_int n :: u64) = n"
  using sint_greater_eq [of "lowerBound cc"] sint_less [of "upperBound cc"]
  by (auto simp: within_def sint_sbintrunc' intro!: signed_take_bit_int_eq_self)

lemma table_ok_after: "table_ok V \<Longrightarrow> stuck_ok stuck \<Longrightarrow> table_ok (table_after stuck p V)"
  by (auto simp: table_ok_def table_after_def counter_next_def stuck_ok_def within_long split: option.splits if_splits)

section \<open>Counters through the whole client\<close>

text \<open>A call: name and configuration of the counter, as the counter object has them, and what is asked.\<close>

type_synonym counter_req = "string \<times> counter_config \<times> counter_call"

fun counter_do :: "counter_env \<Rightarrow> counter_req \<Rightarrow> (counter_manager, u64) sm" where
  "counter_do E (name, cc, CtGet) = counter_getValue E name"
| "counter_do E (name, cc, CtAdd d) = addAndGet E name d"
| "counter_do E (name, cc, CtCas e u) = compareAndSwap E name cc e u"

text \<open>A sequence of calls, whose exceptions the application catches.\<close>

definition attempt :: "('s, 'a) sm \<Rightarrow> ('s, exn + 'a) sm" where
  "attempt m s = (case m s of (r, s') \<Rightarrow> (Inr r, s'))"

fun counter_dos :: "counter_env \<Rightarrow> counter_req list \<Rightarrow> (counter_manager, (exn + u64) list) sm" where
  "counter_dos E [] = ret []"
| "counter_dos E (p # ps) = bind (attempt (counter_do E p)) (\<lambda>r. bind (counter_dos E ps) (\<lambda>rs. ret (r # rs)))"

fun table_value :: "counter_table \<Rightarrow> string \<Rightarrow> u64" where
  "table_value V name = (case V (ascii name) of None \<Rightarrow> 0 | Some (cc, v) \<Rightarrow> v)"

fun counter_answers ::
  "(counter_config \<Rightarrow> counter_call \<Rightarrow> u64 \<Rightarrow> u64) \<Rightarrow> counter_req list \<Rightarrow> counter_table \<Rightarrow> (exn + u64) list" where
  "counter_answers stuck [] V = []"
| "counter_answers stuck ((name, cc, c) # ps) V =
    counter_answer name cc c (table_value V name) # counter_answers stuck ps (table_after stuck (ascii name, c) V)"

definition counter_known :: "counter_table \<Rightarrow> counter_req \<Rightarrow> bool" where
  "counter_known V = (\<lambda>(name, cc, c). length name < 2 ^ 32 \<and> (case V (ascii name) of None \<Rightarrow> False | Some (cc', v) \<Rightarrow> cc' = cc))"

definition env_cfg :: "counter_env \<Rightarrow> rc_config" where
  "env_cfg E = \<lparr>rc_tf = ce_tf E, rc_name = [], rc_force = False, rc_dataFormat = None, rc_fuel = ce_fuel E\<rparr>"

definition as_rcache :: "client \<Rightarrow> rcache" where
  "as_rcache c = \<lparr>rc_client = c, rc_flags = 0, rc_started = True\<rparr>"

definition counting ::
  "counter_env \<Rightarrow> (counter_config \<Rightarrow> counter_call \<Rightarrow> u64 \<Rightarrow> u64) \<Rightarrow> inet \<Rightarrow> nat \<Rightarrow> counter_table \<Rightarrow> counter_manager \<Rightarrow> bool" where
  "counting E stuck srv t V s \<longleftrightarrow> rc_ok (env_cfg E) \<and> table_ok V \<and> stuck_ok stuck
     \<and> (\<exists>c V0. attached srv t c (as_rcache (cm_client s)) \<and> serves_counters stuck V0 (t_peer c)
          \<and> counters_after stuck V0 (t_sent c) = V)"

lemma counter_do_run:
  "counter_do E (name, cc, c) = counter_run E (\<lambda>tf ctx. counter_client tf ctx name cc c)"
  by (cases c) (simp_all add: counter_getValue_def addAndGet_def compareAndSwap_def)

lemma run_as_rcache:
  "run (env_cfg E) op (as_rcache c) = (case execute (ce_fuel E) op c of (r, c') \<Rightarrow> (r, as_rcache c'))"
  by (simp add: run_def env_cfg_def as_rcache_def on_part_run)

lemma counter_answer_ends: "ends_loop (counter_answer name cc c v)"
  by (simp add: counter_answer_def)

lemma counter_step:
  assumes "counting E stuck srv t V s" "counter_known V (name, cc, c)"
  shows "\<exists>s'. counter_do E (name, cc, c) s = (counter_answer name cc c (table_value V name), s')
    \<and> counting E stuck srv t (table_after stuck (ascii name, c) V) s'"
proof -
  obtain k V0 where k: "attached srv t k (as_rcache (cm_client s))" "serves_counters stuck V0 (t_peer k)"
    "counters_after stuck V0 (t_sent k) = V" and ok: "rc_ok (env_cfg E)" "table_ok V" "stuck_ok stuck"
    using assms(1) by (auto simp: counting_def)
  obtain v where v: "V (ascii name) = Some (cc, v)" and len: "length (ascii name) < 2 ^ 32"
    using assms(2) by (auto simp: counter_known_def ascii_def split: option.splits)
  let ?op = "counter_client (TransportFactory_iface (ce_tf E)) (counter_ctx (tc_codec (ce_tf E))) name cc c"
  let ?r = "counter_answer name cc c v"
  have op: "\<exists>req. ?op x = (?r, exchanged x req []) \<and> counters_after stuck V0 (t_sent k @ [req]) = table_after stuck (ascii name, c) V"
    if "tr x = k" for x :: "tfactory io"
  proof -
    have "quiet x" using k(1) that by (simp add: quiet_def inp_of_def attached_def Let_def)
    moreover have "ctx_ok (counter_ctx (tc_codec (ce_tf E)))" by (simp add: ctx_ok_def counter_ctx_def)
    moreover have "within cc (sint v)" using ok(2) v by (auto simp: table_ok_def)
    ultimately show ?thesis using counter_client_run [of x stuck V0 _ name cc v _ c] k(2,3) v len that by auto
  qed
  have "rc_tf (env_cfg E) = ce_tf E" by (simp add: env_cfg_def)
  with end_attached [OF ok(1) k(1) op counter_answer_ends, of "[]" None] obtain req s1
    where run: "run (env_cfg E) (operation_on (ce_tf E) [] None ?op) (as_rcache (cm_client s)) = (?r, s1)"
      and after: "counters_after stuck V0 (t_sent k @ [req]) = table_after stuck (ascii name, c) V"
      and at: "attached srv t (sent_on req k) s1"
    by auto
  obtain c' where c': "execute (ce_fuel E) (operation_on (ce_tf E) [] None ?op) (cm_client s) = (?r, c')" "s1 = as_rcache c'"
    using run unfolding run_as_rcache by (auto split: prod.splits)
  have "counter_do E (name, cc, c) s = (?r, s\<lparr>cm_client := c'\<rparr>)"
    unfolding counter_do_run using c'(1) by (simp add: counter_run_def counter_op_def on_client_def on_part_run)
  moreover have "counting E stuck srv t (table_after stuck (ascii name, c) V) (s\<lparr>cm_client := c'\<rparr>)"
    unfolding counting_def
    by (intro conjI exI [of _ "sent_on req k"] exI [of _ V0])
       (use ok at after c'(2) k(2) table_ok_after [OF ok(2,3)] in \<open>simp_all add: sent_on_def\<close>)
  ultimately show ?thesis using v by auto
qed

lemma counter_known_after: "counter_known (table_after stuck p V) q = counter_known V q"
  by (auto simp: counter_known_def table_after_def split: option.splits prod.splits)

text \<open>
  C27. Strong counters implement bounded counters through the whole client: against a server that keeps
  them, a sequence of \<open>getValue\<close>, \<open>addAndGet\<close> and \<open>compareAndSwap\<close> on any counters returns the values the
  counters have, and throws \<open>CounterUpperBoundException\<close> or \<open>CounterLowerBoundException\<close> exactly when the call would
  cross that bound, although the server only says that a bound was crossed. Such a call is sent once,
  the connection is back in the pool after each, and a value never wraps around.
\<close>

theorem counters_refine:
  assumes "counting E stuck srv t V s" "list_all (counter_known V) ps"
  shows "\<exists>s'. counter_dos E ps s = (Inr (counter_answers stuck ps V), s')
    \<and> counting E stuck srv t (fold (\<lambda>(name, cc, c). table_after stuck (ascii name, c)) ps V) s'"
  using assms
proof (induction ps arbitrary: V s)
  case (Cons p ps)
  obtain name cc c where p: "p = (name, cc, c)" by (cases p)
  from Cons.prems counter_step [of E stuck srv t V s name cc c] obtain s1
    where s1: "counter_do E p s = (counter_answer name cc c (table_value V name), s1)"
      "counting E stuck srv t (table_after stuck (ascii name, c) V) s1"
    unfolding p by auto
  from Cons.IH [OF s1(2)] Cons.prems(2) show ?case
    using s1(1) p by (auto simp: counter_known_after attempt_def bind_run ret_run list_all_iff)
qed (auto simp: ret_run)

definition client_to :: "(bytes list \<Rightarrow> exn + bytes) \<Rightarrow> client" where
  "client_to peer = \<lparr>cl_fac = (TransportFactory example_world)
     \<lparr>ti := TopologyInfo [example_server], balancer := \<lparr>rr_servers = [example_server], rr_index = 0\<rparr>,
      cpool := (ConnectionPool example_world)
        \<lparr>idle := [(example_server, Some [0])], busy := [(example_server, Some [])], totalIdle := 1,
         world := \<lparr>conns = [0 \<mapsto> (example_server, TcpTransport example_server peer)],
           next_addr = 1, attempts = 1, w_msgId = 0\<rparr>\<rparr>\<rparr>, cl_topo = 0\<rparr>"

text \<open>A server with the counter \<open>c\<close> from 0 to 10, at 8; it keeps the value when a bound is crossed.\<close>

definition small_config :: counter_config where
  "small_config = \<lparr>initialValue = 0, lowerBound = 0, upperBound = 10, concurrencyLevel = 0, counterType = BOUNDED_STRONG,
     counterStorage = VOLATILE\<rparr>"

definition small_table :: counter_table where
  "small_table = [ascii ''c'' \<mapsto> (small_config, 8)]"

definition counter_server :: "bytes list \<Rightarrow> exn + bytes" where
  "counter_server h =
    (case call_of (last h) of
       None \<Rightarrow> Inr []
     | Some (rh, p) \<Rightarrow> Inr (case call_reply p (counters_after (\<lambda>cc c v. v) small_table (butlast h)) of
         (st, payload) \<Rightarrow> reply_header (rq_messageId rh) (call_resp (snd p)) st @ payload))"

definition counter_start :: counter_manager where
  "counter_start = \<lparr>cm_client = client_to counter_server, counters = [''c'' \<mapsto> small_config], cm_listeners = None, cm_listenerId = []\<rparr>"

definition small_env :: counter_env where
  "small_env = \<lparr>ce_tf = plain_tf_config, ce_fuel = 1, ce_uuid = [1]\<rparr>"

lemma counter_start_counting: "counting small_env (\<lambda>cc c v. v) example_server 0 small_table counter_start"
proof -
  have "rc_ok (env_cfg small_env)"
    by (simp add: rc_ok_def env_cfg_def small_env_def plain_tf_config_def example_tf_config_def example_cfg_def plain_pool_def)
  moreover have "table_ok small_table"
    by (auto simp: table_ok_def small_table_def within_def small_config_def split: if_splits)
  moreover have "attached example_server 0 (TcpTransport example_server counter_server) (as_rcache (cm_client counter_start))"
    by (simp add: attached_def as_rcache_def counter_start_def client_to_def ConnectionPool_def rr_ok_def ti_ok_init smap_ok_def
        TcpTransport_def)
  moreover have "serves_counters (\<lambda>cc c v. v) small_table (t_peer (TcpTransport example_server counter_server))"
    by (simp add: serves_counters_def counter_server_def TcpTransport_def)
  moreover have "counters_after (\<lambda>cc c v. v) small_table (t_sent (TcpTransport example_server counter_server)) = small_table"
    by (simp add: counters_after_def TcpTransport_def)
  ultimately show ?thesis unfolding counting_def by (auto simp: stuck_ok_def)
qed

theorem counters_refine_witness:
  "fst (counter_dos small_env [(''c'', small_config, CtAdd 1), (''c'', small_config, CtAdd 5), (''c'', small_config, CtCas 9 2),
      (''c'', small_config, CtAdd (- 3)), (''c'', small_config, CtGet)] counter_start) =
    Inr [Inr 9, Inl (CounterUpperBoundException ''c''), Inr 9, Inl (CounterLowerBoundException ''c''), Inr 2]"
proof -
  have "list_all (counter_known small_table) [(''c'', small_config, CtAdd 1), (''c'', small_config, CtAdd 5),
      (''c'', small_config, CtCas 9 2), (''c'', small_config, CtAdd (- 3)), (''c'', small_config, CtGet)]"
    by (simp add: counter_known_def small_table_def)
  from counters_refine [OF counter_start_counting this] show ?thesis
    by (auto simp: counter_answer_def table_after_def counter_next_def small_table_def within_def small_config_def)
qed

section \<open>Configurations\<close>

text \<open>The part of a configuration that its type has.\<close>

definition sent_part :: "counter_config \<Rightarrow> counter_config" where
  "sent_part c = c\<lparr>lowerBound := (if counterType c = BOUNDED_STRONG then lowerBound c else 0),
     upperBound := (if counterType c = BOUNDED_STRONG then upperBound c else 0),
     concurrencyLevel := (if counterType c = WEAK then concurrencyLevel c else 0)\<rparr>"

lemma readConfiguration_enc:
  assumes "pending r = writeConfiguration c @ rest"
  shows "readConfiguration r = (Inr (sent_part c), r\<lparr>pending := rest\<rparr>)"
  using assms
  by (cases "counterType c"; cases "counterStorage c"; cases c)
     (simp_all add: readConfiguration_def writeConfiguration_def sent_part_def readByte_Cons bind_run [of readByte] long.dec_app
        vint.dec_app ret_run)

interpretation config: wire_codec writeConfiguration readConfiguration "\<lambda>c. sent_part c = c"
  by unfold_locales (simp add: readConfiguration_enc)

text \<open>
  A configuration survives the way to the server and back: when the server answers with the
  configuration bytes it was sent in a definition, \<open>GetCounterConfigurationOperation\<close> returns the configuration that was
  defined, with bounds for bounded counters only and the concurrency level for weak ones only, and
  reads exactly those bytes.
\<close>

theorem counter_config_roundtrip:
  assumes "quiet s" "dbody = writeArray (ascii name) @ writeConfiguration c"
    and "dreq = request_bytes ctx COUNTER_CREATE_REQUEST COUNTER_CREATE_RESPONSE (msgId s + 1) (topo s) dbody"
    and "t_peer (tr s) (t_sent (tr s) @ [dreq]) = Inr (reply_header (msgId s + 1) COUNTER_CREATE_RESPONSE 0)"
    and "greq = request_bytes ctx COUNTER_GET_CONFIGURATION_REQUEST COUNTER_GET_CONFIGURATION_RESPONSE (msgId s + 1 + 1) (topo s)
           (writeArray (ascii name))"
    and "t_peer (tr s) (t_sent (tr s) @ [dreq, greq]) = Inr (reply_header (msgId s + 1 + 1) COUNTER_GET_CONFIGURATION_RESPONSE 0
           @ drop (length (writeArray (ascii name))) dbody)"
  shows "bind (DefineCounterOperation tf ctx name c) (\<lambda>ok. bind (GetCounterConfigurationOperation tf ctx name) (\<lambda>cc. ret (ok, cc))) s
    = (Inr (True, sent_part c), exchanged (exchanged s dreq []) greq [])"
proof -
  have codes: "toOpRespCode COUNTER_CREATE_REQUEST = Inr COUNTER_CREATE_RESPONSE"
    "toOpRespCode COUNTER_GET_CONFIGURATION_REQUEST = Inr COUNTER_GET_CONFIGURATION_RESPONSE"
    by (simp_all add: toOpRespCode_def op_resp_table_def)
  let ?s = "exchanged s dreq []"
  have "exchange tf ctx COUNTER_CREATE_REQUEST (wr dbody) s = (Inr 0, ?s)"
    unfolding assms(3) by (rule exchange_run [OF assms(1) codes(1)]) (use assms(3,4) in \<open>simp_all add: wr_run\<close>)
  then have def: "DefineCounterOperation tf ctx name c s = (Inr True, ?s)"
    by (simp add: DefineCounterOperation_def assms(2) isSuccess_def ret_run)
  have quiet: "quiet ?s" using assms(1) by (simp add: quiet_def)
  have "exchange tf ctx COUNTER_GET_CONFIGURATION_REQUEST (wr (writeArray (ascii name))) ?s
      = (Inr 0, exchanged ?s greq (writeConfiguration c))"
    using exchange_run [OF quiet codes(2), of "wr (writeArray (ascii name))" "writeArray (ascii name)" ctx 0 "writeConfiguration c" tf]
      assms(2,5,6) by (simp add: wr_run)
  moreover have "rd readConfiguration (exchanged ?s greq (writeConfiguration c)) = (Inr (sent_part c), exchanged ?s greq [])"
    using readConfiguration_enc [of "t_inp (tr (exchanged ?s greq (writeConfiguration c)))" c "[]"]
    by (simp add: rd_def on_part_run exchanged_def)
  ultimately have "GetCounterConfigurationOperation tf ctx name ?s = (Inr (sent_part c), exchanged ?s greq [])"
    by (simp add: GetCounterConfigurationOperation_def isSuccess_def)
  with def show ?thesis by (simp add: ret_run)
qed

definition config_req :: "bool \<Rightarrow> bytes" where
  "config_req create = (if create
     then request_bytes (counter_ctx Codec28) COUNTER_CREATE_REQUEST COUNTER_CREATE_RESPONSE 1 0
            (writeArray (ascii ''c'') @ writeConfiguration small_config)
     else request_bytes (counter_ctx Codec28) COUNTER_GET_CONFIGURATION_REQUEST COUNTER_GET_CONFIGURATION_RESPONSE 2 0
            (writeArray (ascii ''c'')))"

definition config_io :: "unit io" where
  "config_io = (example_io [])\<lparr>msgId := 0, topo := 0, tr := (tr (example_io []))\<lparr>t_sent := [], t_out := [], t_peer := (\<lambda>h.
     if h = [config_req True] then Inr (reply_header 1 COUNTER_CREATE_RESPONSE 0)
     else Inr (reply_header 2 COUNTER_GET_CONFIGURATION_RESPONSE 0 @ writeConfiguration small_config))\<rparr>\<rparr>"

theorem counter_config_roundtrip_witness:
  "fst (bind (DefineCounterOperation example_tf (counter_ctx Codec28) ''c'' small_config)
      (\<lambda>ok. bind (GetCounterConfigurationOperation example_tf (counter_ctx Codec28) ''c'') (\<lambda>cc. ret (ok, cc))) config_io)
    = Inr (True, small_config)"
proof -
  have "quiet config_io" by (simp add: quiet_def config_io_def example_io_def inp_of_def)
  moreover have "sent_part small_config = small_config" by (simp add: sent_part_def small_config_def)
  ultimately show ?thesis
    using counter_config_roundtrip [of config_io "writeArray (ascii ''c'') @ writeConfiguration small_config" "''c''" small_config
      "config_req True" "counter_ctx Codec28" "config_req False" example_tf]
    by (simp add: config_io_def config_req_def example_io_def)
qed

section \<open>Listeners\<close>

text \<open>
  Removing one of several listeners of a counter has no effect: the call leaves the table of
  listeners, and all else, as it was, and the listener goes on being called.
\<close>

theorem listener_stays:
  assumes "cm_listeners s = Some ls" "ls name = Some xs" "removeAll handler xs \<noteq> []"
  shows "removeListener E name handler s = (Inr (), s)"
proof -
  have "ls(name \<mapsto> xs) = ls" "ls \<noteq> Map.empty" using assms(2) by auto
  then show ?thesis
    using assms by (simp add: removeListener_def dispatcher_getListeners_def sm_simps)
qed

theorem listener_stays_witness:
  "removeListener small_env ''c'' 1 (counter_start\<lparr>cm_listeners := Some [''c'' \<mapsto> [1, 2]]\<rparr>)
    = (Inr (), counter_start\<lparr>cm_listeners := Some [''c'' \<mapsto> [1, 2]]\<rparr>)"
  by (rule listener_stays [where ls = "[''c'' \<mapsto> [1, 2]]" and xs = "[1, 2]"]) simp_all

end
