(* ===== verification/HR_Marshallers.thy ===== *)
theory HR_Marshallers
  imports HR_RemoteCache_Correct
begin

text \<open>
  The marshallers shipped with the client: \<open>JBasicMarshaller.h\<close> and \<open>JBossMarshaller.h\<close>, which write the
  preamble of JBoss Marshalling, and the string marshaller of \<open>BasicMarshaller.h\<close>. Strings are
  sequences of bytes. Integers are read back and have what the remote cache expects of
  marshallers; strings are read back up to a length.
\<close>

section \<open>Errors\<close>

text \<open>
  \<open>Exception\<close> with one of three messages; \<open>std::length_error\<close>, thrown by \<open>std::string(p, n)\<close> for a negative \<open>char\<close> or
  difference converted to \<open>size_t\<close>; a read past the end of the buffer, which is undefined.
\<close>

datatype unmarshall_error = BadVersion | NotAString | NotAnInteger | LengthError | PastTheEnd

definition MARSHALL_VERSION :: byte where "MARSHALL_VERSION = 0x03"
definition SMALL_STRING :: byte where "SMALL_STRING = 0x3e"
definition MEDIUM_STRING :: byte where "MEDIUM_STRING = 0x3f"
definition INTEGER :: byte where "INTEGER = 0x4b"

lemmas preamble_defs = MARSHALL_VERSION_def SMALL_STRING_def MEDIUM_STRING_def INTEGER_def

definition byte_at :: "bytes \<Rightarrow> nat \<Rightarrow> unmarshall_error + byte" where
  "byte_at b i = (if i < length b then Inr (b ! i) else Inl PastTheEnd)"

section \<open>Integers\<close>

text \<open>\<open>(char) (s >> 8 * i)\<close> for the four bytes, most significant first.\<close>

definition marshall_int :: "u32 \<Rightarrow> bytes" where
  "marshall_int s = [MARSHALL_VERSION, INTEGER] @ map (\<lambda>i. ucast (drop_bit (8 * i) s)) [3, 2, 1, 0]"

fun int_loop :: "bytes \<Rightarrow> nat \<Rightarrow> nat \<Rightarrow> u32 \<Rightarrow> unmarshall_error + u32" where
  "int_loop b i 0 result = Inr result"
| "int_loop b i (Suc n) result =
    (case byte_at b (i + 2) of Inl e \<Rightarrow> Inl e | Inr c \<Rightarrow> int_loop b (i + 1) n (push_bit 8 result XOR (ucast c AND 0xFF)))"

definition unmarshall_int :: "bytes \<Rightarrow> unmarshall_error + u32" where
  "unmarshall_int b = int_loop b 0 4 0"

text \<open>\<open>JBasicMarshallerHelper::unmarshall<int>\<close>, which looks at the preamble.\<close>

definition helper_int :: "bytes \<Rightarrow> unmarshall_error + u32" where
  "helper_int b =
    (case byte_at b 0 of Inl e \<Rightarrow> Inl e | Inr b0 \<Rightarrow>
     if b0 \<noteq> MARSHALL_VERSION then Inl BadVersion
     else case byte_at b 1 of Inl e \<Rightarrow> Inl e | Inr b1 \<Rightarrow>
     if b1 \<noteq> INTEGER then Inl NotAnInteger else unmarshall_int b)"

text \<open>\<open>JBossMarshaller::unmarshall<int*>\<close>: no bytes are the null pointer.\<close>

definition jboss_unmarshall_int :: "bytes \<Rightarrow> unmarshall_error + u32 option" where
  "jboss_unmarshall_int b = (if b = [] then Inr None else map_sum id Some (unmarshall_int b))"

section \<open>Strings\<close>

definition marshallSmall :: "bytes \<Rightarrow> bytes" where
  "marshallSmall s = [MARSHALL_VERSION, SMALL_STRING, of_nat (length s)] @ s"

definition marshallMedium :: "bytes \<Rightarrow> bytes" where
  "marshallMedium s = [MARSHALL_VERSION, MEDIUM_STRING, of_nat (drop_bit 8 (length s)), of_nat (take_bit 8 (length s))] @ s"

definition marshall_string :: "bytes \<Rightarrow> bytes" where
  "marshall_string s = (if length s \<le> 0x100 then marshallSmall s else marshallMedium s)"

definition unmarshall_string :: "bytes \<Rightarrow> unmarshall_error + bytes" where
  "unmarshall_string b = (if length b < 3 then Inl LengthError else Inr (drop 3 b))"

text \<open>
  \<open>JBasicMarshallerHelper::unmarshall<std::string>\<close>: the length is the \<open>char\<close> \<open>b[2]\<close>, whatever the kind of string.
\<close>

definition helper_string :: "bytes \<Rightarrow> unmarshall_error + bytes" where
  "helper_string b =
    (case byte_at b 0 of Inl e \<Rightarrow> Inl e | Inr b0 \<Rightarrow>
     if b0 \<noteq> MARSHALL_VERSION then Inl BadVersion
     else case byte_at b 1 of Inl e \<Rightarrow> Inl e | Inr b1 \<Rightarrow>
     if b1 \<noteq> SMALL_STRING \<and> b1 \<noteq> MEDIUM_STRING then Inl NotAString
     else case byte_at b 2 of Inl e \<Rightarrow> Inl e | Inr b2 \<Rightarrow>
     if sint b2 < 0 then Inl LengthError
     else if length b < 3 + nat (sint b2) then Inl PastTheEnd else Inr (take (nat (sint b2)) (drop 3 b)))"

text \<open>\<open>JBossMarshaller::unmarshall<std::string*>\<close>.\<close>

definition jboss_unmarshall_string :: "bytes \<Rightarrow> unmarshall_error + bytes option" where
  "jboss_unmarshall_string b = (if b = [] then Inr None else map_sum id Some (unmarshall_string b))"

text \<open>The low byte of a medium length is written with \<open>&&\<close>.\<close>

definition addPreambleSmall :: "bytes \<Rightarrow> bytes" where
  "addPreambleSmall s = [0x03, 0x3e] @ [of_nat (length s)] @ s"

definition addPreambleMedium :: "bytes \<Rightarrow> bytes" where
  "addPreambleMedium s = [0x03, 0x3f] @ [of_nat (drop_bit 8 (length s))] @ [if length s \<noteq> 0 then 1 else 0] @ s"

definition addPreamble :: "bytes \<Rightarrow> bytes" where
  "addPreamble s = (if length s < 0x100 then addPreambleSmall s else addPreambleMedium s)"

text \<open>\<open>BasicMarshaller<std::string>\<close>.\<close>

definition basic_marshall_string :: "bytes \<Rightarrow> bytes" where "basic_marshall_string s = s"
definition basic_unmarshall_string :: "bytes \<Rightarrow> bytes" where "basic_unmarshall_string b = b"

section \<open>Round trips\<close>

lemma int_bytes:
  "push_bit 8 (push_bit 8 (push_bit 8 (ucast (ucast (drop_bit 24 s) :: byte)) XOR ucast (ucast (drop_bit 16 s) :: byte))
      XOR ucast (ucast (drop_bit 8 s) :: byte)) XOR ucast (ucast s :: byte) = (s :: u32)" (is "?l = s")
proof (rule bit_word_eqI)
  fix n :: nat assume "n < LENGTH(32)"
  then consider "n < 8" | "8 \<le> n" "n < 16" | "16 \<le> n" "n < 24" | "24 \<le> n" "n < 32" by (simp; linarith)
  then show "bit ?l n = bit s n" by cases (auto simp: bit_simps)
qed

lemma ucast_and_255: "ucast (b :: byte) AND 0xFF = (ucast b :: u32)"
proof -
  have m: "(0xFF :: u32) = mask 8" by (simp add: mask_eq_exp_minus_1)
  show ?thesis unfolding m by (rule bit_word_eqI) (auto simp: bit_simps dest: bit_imp_le_length)
qed

lemma unmarshall_marshall_int: "unmarshall_int (marshall_int n) = Inr n"
proof -
  have "int_loop b 0 (Suc (Suc (Suc (Suc 0)))) 0 = Inr n" if "b = marshall_int n" for b
    using int_bytes [of n] that by (simp add: marshall_int_def byte_at_def ucast_and_255)
  then show ?thesis by (simp add: unmarshall_int_def numeral_eq_Suc)
qed

lemma length_marshall_int: "length (marshall_int n) = 6"
  by (simp add: marshall_int_def)

definition int_marshallers :: "(u32, u32) marshallers" where
  "int_marshallers = \<lparr>keyMarshall = marshall_int, valueMarshall = marshall_int,
     keyUnmarshall = (\<lambda>b. case unmarshall_int b of Inr n \<Rightarrow> n | Inl e \<Rightarrow> 0),
     valueUnmarshall = (\<lambda>b. case unmarshall_int b of Inr n \<Rightarrow> n | Inl e \<Rightarrow> 0)\<rparr>"

text \<open>
  Every \<open>int\<close> is read back by the three readers the client has for it, and the integer marshaller
  has what the remote cache relies on: keys and values are read back, different keys stay
  different, and no value is marshalled to nothing.
\<close>

theorem int_roundtrip:
  "unmarshall_int (marshall_int n) = Inr n \<and> helper_int (marshall_int n) = Inr n
   \<and> jboss_unmarshall_int (marshall_int n) = Inr (Some n) \<and> marshallers_ok int_marshallers"
proof -
  have "marshall_int k \<noteq> []" for k by (simp add: marshall_int_def)
  moreover have "helper_int (marshall_int n) = unmarshall_int (marshall_int n)"
    by (simp add: helper_int_def marshall_int_def byte_at_def)
  ultimately show ?thesis
    by (simp add: unmarshall_marshall_int jboss_unmarshall_int_def marshallers_ok_def int_marshallers_def length_marshall_int)
qed

lemma helper_small:
  assumes "length s \<le> 0x100"
  shows "helper_string (marshall_string s) =
    (if 128 \<le> length s \<and> length s < 256 then Inl LengthError else if length s = 256 then Inr [] else Inr s)"
proof -
  have shift: "(k + 128) mod 256 = k - 128" if "128 \<le> k" "k < 256" for k :: int
    using that mod_add_self2 [of "k - 128" 256] by (simp add: mod_pos_pos_trivial add.commute)
  have "sint (of_nat (length s) :: byte) = (if length s < 128 then int (length s) else if length s < 256 then int (length s) - 256 else 0)"
    using assms shift [of "int (length s)"] by (simp add: sint_uint uint_nat unat_of_nat signed_take_bit_eq_take_bit_shift take_bit_eq_mod)
  then show ?thesis
    using assms by (simp add: helper_string_def marshall_string_def marshallSmall_def byte_at_def)
qed

lemma helper_short: "helper_string b = Inr s \<Longrightarrow> length s < 128"
  using sint_less [of "b ! 2"]
  by (auto simp: helper_string_def byte_at_def min_def split: if_splits)

text \<open>
  C31. Strings are read back up to a length: \<open>JBasicMarshaller<std::string>\<close> reads what it has written exactly for strings
  of at most 256 bytes, beyond which the low byte of the length becomes part of the string; the
  helper reads exactly those of fewer than 128 bytes, since it takes the length for a signed number. The value of the
  low byte that \<open>addPreamble\<close> writes for a long string is 1, whatever its length.
\<close>

theorem string_roundtrip_limit:
  "unmarshall_string (marshall_string s) = Inr (if length s \<le> 256 then s else of_nat (take_bit 8 (length s)) # s)
   \<and> (unmarshall_string (marshall_string s) = Inr s \<longleftrightarrow> length s \<le> 256)
   \<and> (helper_string (marshall_string s) = Inr s \<longleftrightarrow> length s < 128)
   \<and> addPreambleMedium (c # s) = [MARSHALL_VERSION, MEDIUM_STRING, of_nat (drop_bit 8 (Suc (length s))), 1] @ c # s"
proof -
  have un: "unmarshall_string (marshall_string s) = Inr (if length s \<le> 256 then s else of_nat (take_bit 8 (length s)) # s)"
    by (simp add: unmarshall_string_def marshall_string_def marshallSmall_def marshallMedium_def)
  have "helper_string (marshall_string s) = Inr s \<longleftrightarrow> length s < 128"
    using helper_small [of s] helper_short [of "marshall_string s" s] by (cases "length s < 128") auto
  then show ?thesis
    using un by (simp add: addPreambleMedium_def preamble_defs)
qed

end
