(* ===== verification/HR_Events.thy ===== *)
theory HR_Events
  imports HR_NearCache HR_Counters
begin

text \<open>
  Client events: the loops of \<open>EventDispatcher.cpp\<close>, which read the events of a connection and hand them
  to the listener. The thread of a dispatcher owns its connection; it is the function from the bytes
  that arrive until the connection ends to what it does. The state of the application is the second
  component of the state; a callback is a function on it that may throw. An exception
  that leaves a loop ends the process.
\<close>

section \<open>Events of a cache\<close>

definition on_io :: "('f io, 'a) sm \<Rightarrow> ('f io \<times> 'u, 'a) sm" where
  "on_io m = on_part fst (\<lambda>x s. (x, snd s)) m"

definition on_app :: "('u, 'a) sm \<Rightarrow> ('f io \<times> 'u, 'a) sm" where
  "on_app m = on_part snd (\<lambda>u s. (fst s, u)) m"

text \<open>
  The body of an event: listener, flags, and the event that its code calls for. An expired event on
  protocol 2.0 is reported as an error and its key stays unread.
\<close>

definition read_event :: "codec \<Rightarrow> byte \<Rightarrow> (rstream, bytes \<times> byte \<times> client_event option) sm" where
  "read_event c opCode =
    bind readArray (\<lambda>listId.
    bind readByte (\<lambda>isCustom.
    bind readByte (\<lambda>isRetried.
    bind (if isCustom \<noteq> 0 then bind (readCustomEvent isRetried) (\<lambda>ev. ret (Some ev))
          else if opCode = CACHE_ENTRY_CREATED_EVENT_RESPONSE then bind (readCreatedEvent isRetried) (\<lambda>ev. ret (Some ev))
          else if opCode = CACHE_ENTRY_MODIFIED_EVENT_RESPONSE then bind (readModifiedEvent isRetried) (\<lambda>ev. ret (Some ev))
          else if opCode = CACHE_ENTRY_REMOVED_EVENT_RESPONSE then bind (readRemovedEvent isRetried) (\<lambda>ev. ret (Some ev))
          else if opCode = CACHE_ENTRY_EXPIRED_EVENT_RESPONSE \<and> VERSION_21 \<le> protocolVersion c
          then bind readExpiredEvent (\<lambda>ev. ret (Some ev))
          else ret None) (\<lambda>ev.
    ret (listId, isCustom, ev)))))"

text \<open>A listener: what \<open>processEvent\<close> does with an event.\<close>

type_synonym 'u listener = "client_event \<Rightarrow> bytes \<Rightarrow> byte \<Rightarrow> ('u, unit) sm"

definition process :: "'u listener \<Rightarrow> bytes \<times> byte \<times> client_event option \<Rightarrow> ('u, unit) sm" where
  "process cl = (\<lambda>(listId, isCustom, ev). case ev of None \<Rightarrow> ret () | Some e \<Rightarrow> cl e listId isCustom)"

text \<open>\<open>try { recoveryCallback(); } catch (...) {}\<close>\<close>

definition recover :: "('u, unit) sm option \<Rightarrow> ('u, unit) sm" where
  "recover recoveryCallback u = (case recoveryCallback of None \<Rightarrow> (Inr (), u) | Some cb \<Rightarrow> (Inr (), snd (cb u)))"

text \<open>One round of the loop; the result says whether it goes on.\<close>

definition event_round :: "codec \<Rightarrow> 'u listener \<Rightarrow> ('u, unit) sm option \<Rightarrow> ('f io \<times> 'u, bool) sm" where
  "event_round c cl recoveryCallback =
    catch (bind (on_io readEventHeader) (\<lambda>params.
           if \<not> isEvent (eh_opCode params) then ret False
           else bind (on_io (rd (read_event c (eh_opCode params)))) (\<lambda>ev. seq (on_app (process cl ev)) (ret True))))
      (\<lambda>e. case e of TransportException h p m \<Rightarrow> seq (on_app (recover recoveryCallback)) (ret False) | _ \<Rightarrow> raise e)"

fun event_run :: "nat \<Rightarrow> codec \<Rightarrow> 'u listener \<Rightarrow> ('u, unit) sm option \<Rightarrow> ('f io \<times> 'u, unit) sm" where
  "event_run 0 c cl recoveryCallback = raise OutOfFuel"
| "event_run (Suc n) c cl recoveryCallback =
    bind (event_round c cl recoveryCallback) (\<lambda>more. if more then event_run n c cl recoveryCallback else ret ())"

section \<open>Listeners\<close>

text \<open>
  \<open>CacheClientListener.h\<close> and \<open>CustomClientListener.h\<close>: lists of callbacks for each kind of event; the first one
  unmarshalls the key and notes the kinds it has callbacks for.
\<close>

record ('k, 'u) callbacks =
  createdCallbacks :: "('k \<Rightarrow> u64 \<Rightarrow> bool \<Rightarrow> ('u, unit) sm) list"
  expiredCallbacks :: "('k \<Rightarrow> ('u, unit) sm) list"
  modifiedCallbacks :: "('k \<Rightarrow> u64 \<Rightarrow> bool \<Rightarrow> ('u, unit) sm) list"
  removedCallbacks :: "('k \<Rightarrow> bool \<Rightarrow> ('u, unit) sm) list"
  customCallbacks :: "(bytes \<Rightarrow> bool \<Rightarrow> ('u, unit) sm) list"
  cl_interest :: byte

definition CacheClientListener :: "('k, 'u) callbacks" where
  "CacheClientListener = \<lparr>createdCallbacks = [], expiredCallbacks = [], modifiedCallbacks = [], removedCallbacks = [],
     customCallbacks = [], cl_interest = 0\<rparr>"

definition add_created_listener where
  "add_created_listener cb l = l\<lparr>cl_interest := cl_interest l OR 0x01, createdCallbacks := createdCallbacks l @ [cb]\<rparr>"
definition add_expired_listener where
  "add_expired_listener cb l = l\<lparr>cl_interest := cl_interest l OR 0x08, expiredCallbacks := expiredCallbacks l @ [cb]\<rparr>"
definition add_modified_listener where
  "add_modified_listener cb l = l\<lparr>cl_interest := cl_interest l OR 0x02, modifiedCallbacks := modifiedCallbacks l @ [cb]\<rparr>"
definition add_removed_listener where
  "add_removed_listener cb l = l\<lparr>cl_interest := cl_interest l OR 0x04, removedCallbacks := removedCallbacks l @ [cb]\<rparr>"
definition add_custom_listener where
  "add_custom_listener cb l = l\<lparr>cl_interest := cl_interest l OR 0x0f, customCallbacks := customCallbacks l @ [cb]\<rparr>"

definition processEvent :: "(bytes \<Rightarrow> 'k) \<Rightarrow> ('k, 'u) callbacks \<Rightarrow> 'u listener" where
  "processEvent unmarshall l ev listId isCustom =
    (case ev of
       CreatedEvent key version retried \<Rightarrow> for_each (createdCallbacks l) (\<lambda>f. f (unmarshall key) version retried)
     | ModifiedEvent key version retried \<Rightarrow> for_each (modifiedCallbacks l) (\<lambda>f. f (unmarshall key) version retried)
     | RemovedEvent key retried \<Rightarrow> for_each (removedCallbacks l) (\<lambda>f. f (unmarshall key) retried)
     | ExpiredEvent key \<Rightarrow> for_each (expiredCallbacks l) (\<lambda>f. f (unmarshall key))
     | CustomEvent d retried \<Rightarrow> for_each (customCallbacks l) (\<lambda>f. f d retried))"

text \<open>
  The listener of the near cache: a \<open>CustomClientListener\<close> to which \<open>startListener\<close> has been applied \<open>n\<close>
  times; every callback removes the key.
\<close>

definition near_callbacks :: "near_config \<Rightarrow> nat \<Rightarrow> (bytes, near) callbacks" where
  "near_callbacks N n =
    (let drop_key = (\<lambda>key. local (removeElementFromMap (maxEntries N) key)) in
     CacheClientListener\<lparr>createdCallbacks := replicate n (\<lambda>key version retried. drop_key key),
       expiredCallbacks := replicate n drop_key, modifiedCallbacks := replicate n (\<lambda>key version retried. drop_key key),
       removedCallbacks := replicate n (\<lambda>key retried. drop_key key)\<rparr>)"

section \<open>Events of counters\<close>

datatype counter_state = VALID | LOWER_BOUND_REACHED | UPPER_BOUND_REACHED

definition encoded2OldState :: "byte \<Rightarrow> counter_state" where
  "encoded2OldState encoded =
    (if encoded AND 0x03 = 0x01 then LOWER_BOUND_REACHED
     else if encoded AND 0x03 = 0x02 then UPPER_BOUND_REACHED else VALID)"

definition encoded2NewState :: "byte \<Rightarrow> counter_state" where
  "encoded2NewState encoded =
    (if drop_bit 2 encoded AND 0x03 = 0x01 then LOWER_BOUND_REACHED
     else if drop_bit 2 encoded AND 0x03 = 0x02 then UPPER_BOUND_REACHED else VALID)"

record counter_event =
  ev_counterName :: bytes
  ev_oldValue :: u64
  ev_oldState :: counter_state
  ev_newValue :: u64
  ev_newState :: counter_state

definition read_counter_event :: "(rstream, counter_event) sm" where
  "read_counter_event =
    bind readString (\<lambda>counterName.
    bind readArray (\<lambda>listId.
    bind readByte (\<lambda>encodedState.
    bind readLong (\<lambda>oldValue.
    bind readLong (\<lambda>newValue.
    ret \<lparr>ev_counterName = counterName, ev_oldValue = oldValue, ev_oldState = encoded2OldState encodedState,
         ev_newValue = newValue, ev_newState = encoded2NewState encodedState\<rparr>)))))"

text \<open>The listeners of the counter, each in its own \<open>try { ... } catch (const std::exception &)\<close>.\<close>

definition notify_counter :: "(bytes \<rightharpoonup> (counter_event \<Rightarrow> ('u, unit) sm) list) \<Rightarrow> counter_event \<Rightarrow> ('u, unit) sm" where
  "notify_counter listeners ev =
    (case listeners (ev_counterName ev) of
       None \<Rightarrow> ret ()
     | Some ls \<Rightarrow> for_each ls (\<lambda>cl. catch (cl ev) (\<lambda>e. if is_std_exception e then ret () else raise e)))"

definition counter_round ::
  "(bytes \<rightharpoonup> (counter_event \<Rightarrow> ('u, unit) sm) list) \<Rightarrow> ('u, unit) sm option \<Rightarrow> ('f io \<times> 'u, bool) sm" where
  "counter_round listeners recoveryCallback =
    catch (bind (on_io readEventHeader) (\<lambda>params.
           if \<not> isCounterEvent (eh_opCode params) then ret False
           else bind (on_io (rd read_counter_event)) (\<lambda>ev. seq (on_app (notify_counter listeners ev)) (ret True))))
      (\<lambda>e. case e of TransportException h p m \<Rightarrow>
             (case recoveryCallback of None \<Rightarrow> ret False | Some cb \<Rightarrow> seq (on_app cb) (ret False))
           | _ \<Rightarrow> raise e)"

fun counter_event_run ::
  "nat \<Rightarrow> (bytes \<rightharpoonup> (counter_event \<Rightarrow> ('u, unit) sm) list) \<Rightarrow> ('u, unit) sm option \<Rightarrow> ('f io \<times> 'u, unit) sm" where
  "counter_event_run 0 listeners recoveryCallback = raise OutOfFuel"
| "counter_event_run (Suc n) listeners recoveryCallback =
    bind (counter_round listeners recoveryCallback) (\<lambda>more.
    if more then counter_event_run n listeners recoveryCallback else ret ())"

end
