(* ===== verification/HR_Listeners.thy ===== *)
theory HR_Listeners
  imports HR_Events
begin

text \<open>
  Registration of client listeners: \<open>ClientListenerNotifier.cpp\<close>, \<open>AddClientListenerOperation.cpp\<close> and
  \<open>RemoveClientListenerOperation.cpp\<close>. A dispatcher is known by the transport it reads from; its thread is the
  loop of \<open>HR_Events\<close>. The identifier of a listener is an argument.
\<close>

section \<open>The notifier\<close>

record dispatcher =
  dp_transport :: nat
  dp_addr :: inet
  dp_started :: bool

type_synonym notifier = "(bytes, dispatcher) smap"

definition notifier_addClientListener :: "bytes \<Rightarrow> nat \<Rightarrow> inet \<Rightarrow> notifier \<Rightarrow> notifier" where
  "notifier_addClientListener listenerId t addr n =
    smap_insert listenerId \<lparr>dp_transport = t, dp_addr = addr, dp_started = False\<rparr> n"

definition notifier_addCounterListener :: "bytes \<Rightarrow> nat \<Rightarrow> inet \<Rightarrow> notifier \<Rightarrow> notifier" where
  "notifier_addCounterListener listenerId t addr n =
    smap_insert listenerId \<lparr>dp_transport = t, dp_addr = addr, dp_started = True\<rparr> n"

definition notifier_removeClientListener :: "bytes \<Rightarrow> notifier \<Rightarrow> notifier" where
  "notifier_removeClientListener listenerId n = smap_erase listenerId n"

definition startClientListener :: "bytes \<Rightarrow> notifier \<Rightarrow> notifier" where
  "startClientListener listenerId n =
    (case map_of n listenerId of None \<Rightarrow> n | Some d \<Rightarrow> smap_put listenerId (d\<lparr>dp_started := True\<rparr>) n)"

definition findClientListenerTransport :: "bytes \<Rightarrow> notifier \<Rightarrow> exn + dispatcher" where
  "findClientListenerTransport listenerId n =
    (case map_of n listenerId of
       None \<Rightarrow> Inl (HotRodClientException ''Internal: client listener not found'')
     | Some d \<Rightarrow> Inr d)"

text \<open>
  \<open>failoverClientListeners\<close> runs the registration of every dispatcher whose transport targets a failed
  server again; \<open>failOver\<close> is that registration.
\<close>

definition failoverClientListeners :: "(bytes \<Rightarrow> ('s, unit) sm) \<Rightarrow> notifier \<Rightarrow> inet list \<Rightarrow> ('s, unit) sm" where
  "failoverClientListeners failOver n failed =
    for_each failed (\<lambda>server. for_each n (\<lambda>(listenerId, d). if dp_addr d = server then failOver listenerId else ret ()))"

text \<open>\<open>transport.release()\<close>: the socket is closed and the transport is not valid any more.\<close>

definition tcp_release :: "nat \<Rightarrow> world \<Rightarrow> world" where
  "tcp_release t w = (case conns w t of None \<Rightarrow> w
     | Some (a, c) \<Rightarrow> w\<lparr>conns := (conns w)(t \<mapsto> (a, c\<lparr>t_valid := False, t_inp := (t_inp c)\<lparr>pending := []\<rparr>\<rparr>))\<rparr>)"

definition on_transports :: "(world \<Rightarrow> world) \<Rightarrow> (tfactory, unit) sm" where
  "on_transports f = modify (\<lambda>s. s\<lparr>cpool := (cpool s)\<lparr>world := f (world (cpool s))\<rparr>\<rparr>)"

definition notifier_stop :: "notifier \<Rightarrow> (tfactory, unit) sm" where
  "notifier_stop n = for_each n (\<lambda>(listenerId, d). on_transports (tcp_release (dp_transport d)))"

definition notifier_releaseTransport :: "tf_config \<Rightarrow> bytes \<Rightarrow> notifier \<Rightarrow> (tfactory, unit) sm" where
  "notifier_releaseTransport cfg listenerId n =
    (case map_of n listenerId of
       None \<Rightarrow> raise (UndefinedBehaviour ''find(listenerId)->second'')
     | Some d \<Rightarrow> seq (on_transports (tcp_release (dp_transport d))) (releaseTransport cfg (dp_transport d)))"

section \<open>Adding a listener\<close>

text \<open>The second part of the state has the notifier and what the callbacks work on.\<close>

definition on_notifier :: "(notifier \<Rightarrow> notifier) \<Rightarrow> ('f io \<times> notifier \<times> 'u, unit) sm" where
  "on_notifier f = modify (\<lambda>(x, n, u). (x, f n, u))"

definition on_user :: "('u, 'a) sm \<Rightarrow> ('f io \<times> notifier \<times> 'u, 'a) sm" where
  "on_user m = on_app (on_part snd (\<lambda>u s. (fst s, u)) m)"

text \<open>Events that come before the response. The body of an expired one is not read.\<close>

definition processImmediateEvent :: "'u listener \<Rightarrow> byte \<Rightarrow> ('f io \<times> notifier \<times> 'u, unit) sm" where
  "processImmediateEvent cl respOpCode =
    bind (on_io (rd (read_event Codec20 respOpCode))) (\<lambda>ev. on_user (process cl ev))"

fun immediate_events ::
  "nat \<Rightarrow> 'u listener \<Rightarrow> byte \<Rightarrow> byte \<Rightarrow> u64 \<Rightarrow> ('f io \<times> notifier \<times> 'u, byte \<times> byte \<times> u64) sm" where
  "immediate_events fuel cl status respOpCode respMessageId =
    (if \<not> isEvent respOpCode then ret (status, respOpCode, respMessageId)
     else case fuel of 0 \<Rightarrow> raise OutOfFuel | Suc n \<Rightarrow>
     bind (catch (bind (on_io (readPartialEventHeader
                    \<lparr>eh_magic = 0, eh_messageId = respMessageId, eh_opCode = respOpCode, eh_status = 0\<rparr>))
                  (\<lambda>params. ret (Some (eh_status params))))
             (\<lambda>e. if is_client_exn e then ret None else raise e)) (\<lambda>read.
     bind (case read of
             None \<Rightarrow> ret status
           | Some st \<Rightarrow> seq (if isSuccess st
                            then catch (processImmediateEvent cl respOpCode) (\<lambda>e. if is_client_exn e then ret () else raise e)
                            else ret ())
                           (ret st)) (\<lambda>status'.
     bind (on_io readAddEventListenerResponseType) (\<lambda>(op, mid).
     immediate_events n cl status' op mid))))"

text \<open>
  The response, once the request is sent. The result says whether the listener is registered, which
  is the negation of the member \<open>failed\<close>.
\<close>

definition add_listener_response ::
  "nat \<Rightarrow> 'f tf_iface \<Rightarrow> header_params \<Rightarrow> 'u listener \<Rightarrow> bytes \<Rightarrow> ('f io \<times> notifier \<times> 'u, bool) sm" where
  "add_listener_response fuel tf params cl listenerId =
    bind (on_io readAddEventListenerResponseType) (\<lambda>(op, mid).
    bind (immediate_events fuel cl NO_ERROR_STATUS op mid) (\<lambda>(status, op, mid).
    if mid \<noteq> hp_messageId params \<and> mid \<noteq> 0
    then raise (InvalidResponseException (BadMessageId (hp_messageId params) mid))
    else bind (if isSuccess status then bind (on_io (readPartialHeader tf params op)) (\<lambda>st. ret (isSuccess st)) else ret False)
      (\<lambda>ok.
       if ok then seq (on_notifier (startClientListener listenerId)) (ret True)
       else seq (on_notifier (notifier_removeClientListener listenerId)) (ret False))))"

definition AddClientListenerOperation ::
  "nat \<Rightarrow> 'f tf_iface \<Rightarrow> op_ctx \<Rightarrow> nat \<Rightarrow> bytes \<Rightarrow> client_listener \<Rightarrow> bytes list \<Rightarrow> bytes list \<Rightarrow> 'u listener
     \<Rightarrow> ('f io \<times> notifier \<times> 'u, bool) sm" where
  "AddClientListenerOperation fuel tf ctx t listenerId l filterFactoryParams converterFactoryParams cl =
    bind (on_io (op_writeHeader ctx ADD_CLIENT_LISTENER_REQUEST)) (\<lambda>params.
    seq (on_io (seq (wr (writeArray listenerId
          @ writeClientListenerParams (oc_codec ctx) l filterFactoryParams converterFactoryParams
          @ writeClientListenerInterests (oc_codec ctx) (interestFlag l))) flush))
    (bind (on_io (gets (\<lambda>x. InetSocketAddress (rhost (t_inp (tr x))) (rport (t_inp (tr x)))))) (\<lambda>addr.
     seq (on_notifier (notifier_addClientListener listenerId t addr))
         (catch (add_listener_response fuel tf params cl listenerId)
            (\<lambda>e. seq (on_notifier (notifier_removeClientListener listenerId))
               (raise (case e of TransportException h p m \<Rightarrow> TransportException (hostname addr) (port addr) m | _ \<Rightarrow> e)))))))"

section \<open>Removing a listener\<close>

definition RemoveClientListenerOperation ::
  "tf_config \<Rightarrow> tfactory tf_iface \<Rightarrow> op_ctx \<Rightarrow> bytes \<Rightarrow> (tfactory io \<times> notifier, byte) sm" where
  "RemoveClientListenerOperation cfg tf ctx listenerId =
    bind (on_io (exchange tf ctx REMOVE_CLIENT_LISTENER_REQUEST (wr (writeArray listenerId)))) (\<lambda>status.
    if isSuccess status
    then bind (gets snd) (\<lambda>n.
         seq (on_io (on_fac (notifier_releaseTransport cfg listenerId n)))
        (seq (on_app (modify (notifier_removeClientListener listenerId))) (ret status)))
    else ret status)"

text \<open>Its transport is one to the server of the listener.\<close>

definition remove_getTransport :: "tf_config \<Rightarrow> bytes \<Rightarrow> notifier \<Rightarrow> (tfactory, nat) sm" where
  "remove_getTransport cfg listenerId n =
    (case findClientListenerTransport listenerId n of
       Inl e \<Rightarrow> raise e
     | Inr d \<Rightarrow> borrowTransportFromPool cfg (dp_addr d))"

end
