(* ===== verification/HR_Events_Correct.thy ===== *)
theory HR_Events_Correct
  imports HR_Listeners HR_NearCache_Correct HR_Counters_Correct
begin

text \<open>
  The dispatchers hand over exactly the events that were sent, in order, and call the recovery
  callback when the connection ends; so the near cache drops exactly the keys that were written. A
  listener is registered or gone after its registration, whatever happens on the way.
\<close>

section \<open>Events on the wire\<close>

definition event_frame :: "u64 \<Rightarrow> byte \<Rightarrow> bytes" where
  "event_frame mid op = [RESPONSE_MAGIC] @ writeVLong mid @ [op, NO_ERROR_STATUS, 0]"

fun event_code :: "client_event \<Rightarrow> byte" where
  "event_code (CreatedEvent k v r) = CACHE_ENTRY_CREATED_EVENT_RESPONSE"
| "event_code (ModifiedEvent k v r) = CACHE_ENTRY_MODIFIED_EVENT_RESPONSE"
| "event_code (RemovedEvent k r) = CACHE_ENTRY_REMOVED_EVENT_RESPONSE"
| "event_code (ExpiredEvent k) = CACHE_ENTRY_EXPIRED_EVENT_RESPONSE"
| "event_code (CustomEvent d r) = CACHE_ENTRY_CREATED_EVENT_RESPONSE"

definition flag :: "bool \<Rightarrow> byte" where
  "flag b = (if b then 1 else 0)"

lemma flag_zero [simp]: "flag b \<noteq> 0 \<longleftrightarrow> b" "0 \<noteq> flag b \<longleftrightarrow> b"
  by (simp_all add: flag_def)

fun event_body :: "client_event \<Rightarrow> bytes" where
  "event_body (CreatedEvent k v r) = [0, flag r] @ writeArray k @ writeLong v"
| "event_body (ModifiedEvent k v r) = [0, flag r] @ writeArray k @ writeLong v"
| "event_body (RemovedEvent k r) = [0, flag r] @ writeArray k"
| "event_body (ExpiredEvent k) = [0, 0] @ writeArray k"
| "event_body (CustomEvent d r) = [1, flag r] @ writeArray d"

fun is_custom :: "client_event \<Rightarrow> byte" where
  "is_custom (CustomEvent d r) = 1"
| "is_custom _ = 0"

definition event_bytes :: "u64 \<Rightarrow> bytes \<Rightarrow> client_event \<Rightarrow> bytes" where
  "event_bytes mid lid ev = event_frame mid (event_code ev) @ writeArray lid @ event_body ev"

text \<open>What fits the protocol: expired events need version 2.1.\<close>

fun event_ok :: "codec \<Rightarrow> client_event \<Rightarrow> bool" where
  "event_ok c (CreatedEvent k v r) = (length k < 2 ^ 32)"
| "event_ok c (ModifiedEvent k v r) = (length k < 2 ^ 32)"
| "event_ok c (RemovedEvent k r) = (length k < 2 ^ 32)"
| "event_ok c (ExpiredEvent k) = (length k < 2 ^ 32 \<and> c \<noteq> Codec20)"
| "event_ok c (CustomEvent d r) = (length d < 2 ^ 32)"

lemma is_event_code [simp]: "isEvent (event_code ev)" "event_code ev \<noteq> ERROR_RESPONSE"
  by (cases ev; simp add: isEvent_def)+

lemma version_21: "c \<noteq> Codec20 \<Longrightarrow> VERSION_21 \<le> protocolVersion c"
  by (cases c) (simp_all add: protocolVersion_def)

lemma read_event_enc:
  assumes "event_ok c ev" "length lid < 2 ^ 32" "pending r = writeArray lid @ event_body ev @ rest"
  shows "read_event c (event_code ev) r = (Inr (lid, is_custom ev, Some ev), r\<lparr>pending := rest\<rparr>)"
  using assms
  by (cases ev) (simp_all add: read_event_def array.dec_app long.dec_app readByte_app ret_run readCreatedEvent_def readModifiedEvent_def
      readRemovedEvent_def readExpiredEvent_def readCustomEvent_def version_21)

lemma readEventHeader_run:
  assumes "inp_of x = event_frame mid op @ rest" "op \<noteq> ERROR_RESPONSE"
  shows "\<exists>h. readEventHeader x = (Inr h, with_inp rest x) \<and> eh_opCode h = op"
proof -
  have a: "rd readByte x = (Inr RESPONSE_MAGIC, with_inp (writeVLong mid @ [op, 0, 0] @ rest) x)"
    using assms(1) by (intro rd_byte) (simp add: event_frame_def)
  have b: "rd readVLong (with_inp (writeVLong mid @ [op, 0, 0] @ rest) x) = (Inr mid, with_inp ([op, 0, 0] @ rest) x)"
    using vlong.rd_dec [of "with_inp (writeVLong mid @ [op, 0, 0] @ rest) x" mid "[op, 0, 0] @ rest"] by simp
  have c: "rd readByte (with_inp (y # ys) x) = (Inr y, with_inp ys x)" for y ys
    using rd_byte [of "with_inp (y # ys) x"] by simp
  show ?thesis
    using a b c [of op "[0, 0] @ rest"] c [of 0 "[0] @ rest"] c [of 0 rest] assms(2)
    by (simp add: readEventHeader_def ret_run)
qed

lemma readEventHeader_eof:
  "inp_of x = [] \<Longrightarrow> readEventHeader x =
    (Inl (TransportException (rhost (t_inp (tr x))) (rport (t_inp (tr x))) ''no read''), x)"
  by (simp add: readEventHeader_def bind_run rd_byte_eof)

section \<open>The dispatcher delivers\<close>

definition handles :: "'u listener \<Rightarrow> (client_event \<Rightarrow> 'u \<Rightarrow> 'u) \<Rightarrow> bool" where
  "handles cl f \<longleftrightarrow> (\<forall>ev lid k u. cl ev lid k u = (Inr (), f ev u))"

lemma event_round_run:
  assumes "inp_of x = event_bytes mid lid ev @ rest" "event_ok c ev" "length lid < 2 ^ 32" "handles cl f"
  shows "event_round c cl rec (x, u) = (Inr True, (with_inp rest x, f ev u))"
proof -
  let ?mid = "writeArray lid @ event_body ev @ rest"
  obtain h where h: "readEventHeader x = (Inr h, with_inp ?mid x)" "eh_opCode h = event_code ev"
    using readEventHeader_run [of x mid "event_code ev" ?mid] assms(1) by (auto simp: event_bytes_def)
  have "rd (read_event c (event_code ev)) (with_inp ?mid x) = (Inr (lid, is_custom ev, Some ev), with_inp rest x)"
    using rd_Inr [of "read_event c (event_code ev)" "with_inp ?mid x" _ rest] read_event_enc [OF assms(2,3)]
    by (simp add: with_inp_def)
  then show ?thesis
    using h assms(4)
    by (simp add: event_round_def on_io_def on_app_def process_def handles_def sm_simps)
qed

lemma event_round_eof:
  assumes "inp_of x = []"
  shows "event_round c cl rec (x, u) = (Inr False, (x, snd (recover rec u)))"
  using readEventHeader_eof [OF assms]
  by (simp add: event_round_def on_io_def on_app_def recover_def sm_simps split: option.splits)

lemma event_run_delivers:
  assumes "inp_of x = concat (map (\<lambda>(mid, lid, ev). event_bytes mid lid ev) evs)"
    and "\<forall>(mid, lid, ev) \<in> set evs. event_ok c ev \<and> length lid < 2 ^ 32" "handles cl f" "length evs < fuel"
  shows "event_run fuel c cl rec (x, u) =
    (Inr (), (with_inp [] x, snd (recover rec (fold f (map (\<lambda>(mid, lid, ev). ev) evs) u))))"
  using assms(1,2,4)
proof (induction evs arbitrary: x u fuel)
  case Nil
  then obtain n where "fuel = Suc n" by (cases fuel) auto
  moreover have "with_inp [] x = x" using Nil(1) by (simp add: with_inp_def inp_of_def)
  ultimately show ?case using event_round_eof [of x c cl rec u] Nil(1) by (simp add: bind_run ret_run)
next
  case (Cons e evs)
  obtain mid lid ev where e: "e = (mid, lid, ev)" by (cases e)
  from Cons.prems(3) obtain n where n: "fuel = Suc n" "length evs < n" by (cases fuel) auto
  let ?rest = "concat (map (\<lambda>(mid, lid, ev). event_bytes mid lid ev) evs)"
  have "event_round c cl rec (x, u) = (Inr True, (with_inp ?rest x, f ev u))"
    by (rule event_round_run) (use Cons.prems e assms(3) in auto)
  moreover have "event_run n c cl rec (with_inp ?rest x, f ev u) =
      (Inr (), (with_inp [] x, snd (recover rec (fold f (map (\<lambda>(mid, lid, ev). ev) evs) (f ev u)))))"
    using Cons.IH [of "with_inp ?rest x" n "f ev u"] Cons.prems(2) n(2) by simp
  ultimately show ?case using n(1) e by simp
qed

text \<open>
  C28. A dispatcher hands over what the server has sent: for every sequence of events on its
  connection, of any kinds, the listener gets exactly these events, in this order, each with the
  data it was sent with; when the connection ends the recovery callback runs once, its exceptions are swallowed, and the
  loop is left. One round more than there are events is enough.
\<close>

theorem events_delivered:
  assumes "inp_of x = concat (map (\<lambda>(mid, lid, ev). event_bytes mid lid ev) evs)"
    and "\<forall>(mid, lid, ev) \<in> set evs. event_ok c ev \<and> length lid < 2 ^ 32" "length evs < fuel"
  shows "event_run fuel c (\<lambda>ev lid k. modify (\<lambda>log. log @ [ev])) (Some recovery) (x, log) =
    (Inr (), (with_inp [] x, snd (recovery (log @ map (\<lambda>(mid, lid, ev). ev) evs))))"
proof -
  have "fold (\<lambda>ev log. log @ [ev]) es log = log @ es" for es :: "client_event list" and log
    by (induction es arbitrary: log) simp_all
  then show ?thesis
    using event_run_delivers [OF assms(1,2) _ assms(3), of _ "\<lambda>ev log. log @ [ev]"]
    by (simp add: handles_def modify_run recover_def)
qed

definition two_events :: "(u64 \<times> bytes \<times> client_event) list" where
  "two_events = [(0, [9], CreatedEvent [1] 5 False), (0, [9], ExpiredEvent [2])]"

theorem events_delivered_witness:
  "fst (event_run 3 Codec28 (\<lambda>ev lid k. modify (\<lambda>log. log @ [ev])) (Some (modify (\<lambda>log. log @ [CustomEvent [] False])))
      (example_io (concat (map (\<lambda>(mid, lid, ev). event_bytes mid lid ev) two_events)), [])) = Inr ()
   \<and> snd (snd (event_run 3 Codec28 (\<lambda>ev lid k. modify (\<lambda>log. log @ [ev])) (Some (modify (\<lambda>log. log @ [CustomEvent [] False])))
      (example_io (concat (map (\<lambda>(mid, lid, ev). event_bytes mid lid ev) two_events)), [])))
     = [CreatedEvent [1] 5 False, ExpiredEvent [2], CustomEvent [] False]"
proof -
  have "inp_of (example_io bs) = bs" for bs by (simp add: example_io_def inp_of_def)
  moreover have "\<forall>(mid, lid, ev) \<in> set two_events. event_ok Codec28 ev \<and> length lid < 2 ^ 32" "length two_events < 3"
    by (simp_all add: two_events_def)
  ultimately show ?thesis
    by (simp add: events_delivered modify_run) (simp add: two_events_def)
qed

section \<open>Events for the near cache\<close>

fun event_key :: "client_event \<Rightarrow> bytes list" where
  "event_key (CreatedEvent k v r) = [k]"
| "event_key (ModifiedEvent k v r) = [k]"
| "event_key (RemovedEvent k r) = [k]"
| "event_key (ExpiredEvent k) = [k]"
| "event_key (CustomEvent d r) = []"

definition near_drop :: "near_config \<Rightarrow> nat \<Rightarrow> client_event \<Rightarrow> near \<Rightarrow> near" where
  "near_drop N n ev s = s\<lparr>nc_local := fold (\<lambda>k. removeElementFromMap (maxEntries N) k ^^ n) (event_key ev) (nc_local s)\<rparr>"

lemma for_each_replicate:
  assumes "\<And>s. g f s = (Inr (), h s)"
  shows "for_each (replicate n f) g s = (Inr (), (h ^^ n) s)"
  by (induction n arbitrary: s) (simp_all add: assms sm_simps funpow_swap1)

lemma local_power: "((\<lambda>s. s\<lparr>nc_local := g (nc_local s)\<rparr>) ^^ n) s = s\<lparr>nc_local := (g ^^ n) (nc_local s)\<rparr>" for s :: near
  by (induction n arbitrary: s) simp_all

lemma for_each_local:
  assumes "\<And>s. g f s = local h s"
  shows "for_each (replicate n f) g s = (Inr (), s\<lparr>nc_local := (h ^^ n) (nc_local s)\<rparr>)"
  using for_each_replicate [of g f "\<lambda>s. s\<lparr>nc_local := h (nc_local s)\<rparr>" n s]
  by (simp add: assms local_def modify_run on_part_run local_power)

lemma near_handles: "handles (processEvent id (near_callbacks N n)) (near_drop N n)"
  unfolding handles_def
proof (intro allI)
  fix ev lid k u
  show "processEvent id (near_callbacks N n) ev lid k u = (Inr (), near_drop N n ev u)"
    by (cases ev) (simp_all add: processEvent_def near_callbacks_def near_drop_def CacheClientListener_def Let_def ret_run for_each_local)
qed

lemma near_drop_lookup:
  assumes "n > 0"
  shows "map_of (nearMap (nc_local (near_drop N n ev s))) = map_of (nearMap (nc_local s)) |` (- set (event_key ev))"
proof -
  have "map_of (nearMap ((removeElementFromMap maxE k ^^ Suc i) l)) = (map_of (nearMap l))(k := None)" for maxE k i l
    by (induction i) auto
  then have "map_of (nearMap ((removeElementFromMap maxE k ^^ n) l)) = (map_of (nearMap l))(k := None)" for maxE k l
    using assms by (metis Suc_pred)
  then show ?thesis by (cases ev) (auto simp: near_drop_def restrict_map_def fun_eq_iff)
qed

lemma near_drops:
  assumes "n > 0"
  shows "map_of (nearMap (nc_local (fold (near_drop N n) evs s))) = map_of (nearMap (nc_local s)) |` (- set (concat (map event_key evs)))"
    and "nc_rc (fold (near_drop N n) evs s) = nc_rc s"
    and "shutdown (nc_local (fold (near_drop N n) evs s)) = shutdown (nc_local s)"
proof (induction evs arbitrary: s)
  case (Cons ev evs)
  have "shutdown ((removeElementFromMap maxE k ^^ i) l) = shutdown l" for maxE k i l
    by (induction i) (simp_all add: removeElementFromMap_def)
  then have keep: "nc_rc (near_drop N n ev s) = nc_rc s" "shutdown (nc_local (near_drop N n ev s)) = shutdown (nc_local s)" for s
    by (cases ev; simp add: near_drop_def)+
  { case 1 show ?case using Cons(1) [of "near_drop N n ev s"]
      by (auto simp: near_drop_lookup [OF assms] restrict_map_def fun_eq_iff) }
  { case 2 show ?case using Cons(2) [of "near_drop N n ev s"] keep by simp }
  { case 3 show ?case using Cons(3) [of "near_drop N n ev s"] keep by simp }
qed (simp_all add: restrict_map_def)

lemma failOver_empties: "\<not> shutdown (nc_local s) \<Longrightarrow> nearMap (nc_local (snd (failOverHandler N s))) = []"
  by (simp add: failOverHandler_def startListener_def on_rc_def local_def on_part_run sm_simps invalidateCache_def
      split: sum.split prod.split)

text \<open>
  C29. The thread of the near cache's listener keeps it from serving what has changed: after any sequence
  of events on its connection the near cache has lost exactly the keys of these events, whatever their kinds,
  and the calls on the remote cache are untouched; when the connection ends and the cache has not been stopped, the fail
  over empties the near cache, even when the listener cannot be registered again.
\<close>

theorem near_events_dispatched:
  assumes "inp_of x = concat (map (\<lambda>(mid, lid, ev). event_bytes mid lid ev) evs)"
    and "\<forall>(mid, lid, ev) \<in> set evs. event_ok c ev \<and> length lid < 2 ^ 32" "length evs < fuel" "n > 0"
  shows "\<exists>s1. map_of (nearMap (nc_local s1)) =
        map_of (nearMap (nc_local s)) |` (- set (concat (map (\<lambda>(mid, lid, ev). event_key ev) evs)))
      \<and> nc_rc s1 = nc_rc s \<and> shutdown (nc_local s1) = shutdown (nc_local s)
      \<and> event_run fuel c (processEvent id (near_callbacks N n)) (Some (failOverHandler N)) (x, s) =
        (Inr (), (with_inp [] x, snd (failOverHandler N s1)))
      \<and> (\<not> shutdown (nc_local s) \<longrightarrow> nearMap (nc_local (snd (failOverHandler N s1))) = [])"
proof -
  let ?s1 = "fold (near_drop N n) (map (\<lambda>(mid, lid, ev). ev) evs) s"
  have "map event_key (map (\<lambda>(mid, lid, ev). ev) evs) = map (\<lambda>(mid, lid, ev). event_key ev) evs" by auto
  then show ?thesis
    using event_run_delivers [OF assms(1,2) near_handles assms(3), of N n "Some (failOverHandler N)" s]
      near_drops [OF assms(4), of N "map (\<lambda>(mid, lid, ev). ev) evs" s] failOver_empties [of ?s1 N]
    by (intro exI [of _ ?s1]) (simp add: recover_def)
qed

definition near_two :: near where
  "near_two = near_start\<lparr>nc_local := NearRemoteCacheImpl\<lparr>callbacks := 1, nearMap := [([1], 7, [3]), ([4], 8, [5])]\<rparr>\<rparr>"

theorem near_events_dispatched_witness:
  "\<exists>s1. map_of (nearMap (nc_local s1)) = [[4] \<mapsto> (8, [5])]
      \<and> event_run 3 Codec28 (processEvent id (near_callbacks small_near 1)) (Some (failOverHandler small_near))
          (example_io (concat (map (\<lambda>(mid, lid, ev). event_bytes mid lid ev) two_events)), near_two) =
        (Inr (), (with_inp [] (example_io (concat (map (\<lambda>(mid, lid, ev). event_bytes mid lid ev) two_events))),
           snd (failOverHandler small_near s1)))
      \<and> nearMap (nc_local (snd (failOverHandler small_near s1))) = []"
proof -
  have i: "inp_of (example_io bs) = bs" for bs by (simp add: example_io_def inp_of_def)
  have e: "\<forall>(mid, lid, ev) \<in> set two_events. event_ok Codec28 ev \<and> length lid < 2 ^ 32" "length two_events < 3"
    by (simp_all add: two_events_def)
  have m: "map_of (nearMap (nc_local near_two)) |` (- set (concat (map (\<lambda>(mid, lid, ev). event_key ev) two_events)))
      = [[4] \<mapsto> (8, [5])]" "\<not> shutdown (nc_local near_two)"
    by (auto simp: near_two_def near_start_def NearRemoteCacheImpl_def two_events_def restrict_map_def fun_eq_iff)
  show ?thesis
    using near_events_dispatched [OF i e, of 1 near_two small_near] m by auto
qed

section \<open>Registration\<close>

text \<open>\<open>records \<phi> m\<close>: what \<open>m\<close> does to the notifier is \<open>\<phi>\<close> of its result.\<close>

definition records :: "(exn + 'a \<Rightarrow> notifier \<Rightarrow> notifier) \<Rightarrow> ('f io \<times> notifier \<times> 'u, 'a) sm \<Rightarrow> bool" where
  "records \<phi> m \<longleftrightarrow> (\<forall>x n u. fst (snd (snd (m (x, n, u)))) = \<phi> (fst (m (x, n, u))) n)"

abbreviation same_notifier :: "('f io \<times> notifier \<times> 'u, 'a) sm \<Rightarrow> bool" where
  "same_notifier m \<equiv> records (\<lambda>r n. n) m"

lemma notes_bind:
  assumes "same_notifier m" "\<And>x. records \<phi> (f x)" "\<And>e. \<phi> (Inl e) = id"
  shows "records \<phi> (bind m f)"
  unfolding records_def
proof (intro allI)
  fix x n u
  obtain r x' n' u' where m: "m (x, n, u) = (r, x', n', u')" by (metis prod_cases4)
  have n': "n' = n" using assms(1) m unfolding records_def by (metis fst_conv snd_conv)
  show "fst (snd (snd (bind m f (x, n, u)))) = \<phi> (fst (bind m f (x, n, u))) n"
  proof (cases r)
    case (Inl e)
    then show ?thesis using m n' assms(3) by (simp add: bind_run)
  next
    case (Inr y)
    then show ?thesis using m n' assms(2) [of y] by (simp add: records_def)
  qed
qed

lemma notes_seq:
  "same_notifier m \<Longrightarrow> records \<phi> k \<Longrightarrow> (\<And>e. \<phi> (Inl e) = id) \<Longrightarrow> records \<phi> (seq m k)"
  unfolding seq_def by (rule notes_bind)

lemma same_catch:
  assumes "same_notifier m" "\<And>e. same_notifier (h e)"
  shows "same_notifier (catch m h)"
  unfolding records_def
proof (intro allI)
  fix x n u
  obtain r x' n' u' where m: "m (x, n, u) = (r, x', n', u')" by (metis prod_cases4)
  have "n' = n" using assms(1) m unfolding records_def by (metis fst_conv snd_conv)
  then show "fst (snd (snd (catch m h (x, n, u)))) = n"
    using m assms(2) by (cases r) (simp_all add: catch_run records_def)
qed

lemma same_basic [simp]:
  "same_notifier (ret y)" "same_notifier (raise e)" "same_notifier (on_io m)" "same_notifier (on_user k)"
  by (auto simp: records_def sm_simps on_io_def on_user_def on_app_def split: prod.splits)

lemmas same_rules = notes_bind notes_seq same_catch

lemma same_immediate: "same_notifier (immediate_events fuel cl status op mid)"
proof (induction fuel arbitrary: status op mid)
  case 0
  show ?case by simp
next
  case (Suc n)
  show ?case
    unfolding immediate_events.simps [of "Suc n"] processImmediateEvent_def
    by (auto intro!: same_rules Suc simp: id_def split: option.split)
qed

definition ends_as :: "bytes \<Rightarrow> exn + bool \<Rightarrow> notifier \<Rightarrow> notifier" where
  "ends_as lid r = (case r of Inl e \<Rightarrow> id
     | Inr ok \<Rightarrow> if ok then startClientListener lid else notifier_removeClientListener lid)"

lemma ends_as_Inl [simp]: "ends_as lid (Inl e) = id"
  by (simp add: ends_as_def)

lemma records_ends:
  "records (ends_as lid) (raise e)"
  "records (ends_as lid) (if ok then seq (on_notifier (startClientListener lid)) (ret True)
     else seq (on_notifier (notifier_removeClientListener lid)) (ret False))"
  by (simp_all add: records_def on_notifier_def ends_as_def sm_simps)

lemma records_if: "records \<phi> m \<Longrightarrow> records \<phi> k \<Longrightarrow> records \<phi> (if b then m else k)"
  by simp

lemma ends_bind: "same_notifier m \<Longrightarrow> (\<And>x. records (ends_as lid) (f x)) \<Longrightarrow> records (ends_as lid) (bind m f)"
  by (rule notes_bind) simp_all

lemma response_records: "records (ends_as lid) (add_listener_response fuel tf params cl lid)"
proof -
  have status: "same_notifier (if b then bind (on_io m) (\<lambda>st. ret (isSuccess st)) else ret False)" for b and m :: "('a io, byte) sm"
    by (simp add: notes_bind id_def)
  show ?thesis
    unfolding add_listener_response_def case_prod_unfold
    by (intro ends_bind same_basic same_immediate records_if records_ends status)
qed

abbreviation peer_of :: "'f io \<Rightarrow> inet" where
  "peer_of x \<equiv> InetSocketAddress (rhost (t_inp (tr x))) (rport (t_inp (tr x)))"

lemma same_peer:
  "op_writeHeader ctx op x = (r, x') \<Longrightarrow> peer_of x' = peer_of x"
  "seq (wr bs) flush x = (r', x'') \<Longrightarrow> peer_of x'' = peer_of x"
  by (auto simp: op_writeHeader_def writeHeader_run add_out_def sm_simps flush_def wr_def Let_def split: sum.splits if_splits)

text \<open>
  C30. A registration leaves the notifier in one of two states: when the operation reports success the
  listener has a dispatcher for the transport that was used, and it is started; when the server refuses, or when anything
  fails while the request is written, the events that come first are read and handed over, or the
  response is read, there is no dispatcher for it. The dispatchers of other listeners are as before in both cases.
\<close>

theorem listener_registered:
  assumes "map_of n lid = None"
  shows "case AddClientListenerOperation fuel tf ctx t lid l fps cps cl (x, n, u) of (r, x', n', u') \<Rightarrow>
      map_of n' = (if r = Inr True
        then (map_of n)(lid \<mapsto> \<lparr>dp_transport = t, dp_addr = peer_of x, dp_started = True\<rparr>)
        else map_of n)"
proof -
  let ?d = "\<lparr>dp_transport = t, dp_addr = peer_of x, dp_started = False\<rparr>"
  have ins: "map_of (notifier_addClientListener lid t (peer_of x) n) = (map_of n)(lid \<mapsto> ?d)"
    using assms by (simp add: notifier_addClientListener_def map_of_smap_insert)
  obtain p x1 where h: "op_writeHeader ctx ADD_CLIENT_LISTENER_REQUEST x = (p, x1)" by fastforce
  define body where "body = writeArray lid @ writeClientListenerParams (oc_codec ctx) l fps cps
    @ writeClientListenerInterests (oc_codec ctx) (interestFlag l)"
  obtain q x2 where b: "seq (wr body) flush x1 = (q, x2)" by fastforce
  note peers = same_peer(1) [OF h] same_peer(2) [OF b]
  show ?thesis
  proof (cases "\<exists>params. p = Inr params \<and> q = Inr ()")
    case False
    then show ?thesis
      using h b by (cases p; cases q) (auto simp: AddClientListenerOperation_def on_io_def body_def [symmetric] sm_simps)
  next
    case True
    then obtain params where pq: "p = Inr params" "q = Inr ()" by blast
    let ?n1 = "notifier_addClientListener lid t (peer_of x) n"
    obtain r x3 n3 u3 where resp: "add_listener_response fuel tf params cl lid (x2, ?n1, u) = (r, x3, n3, u3)" by (metis prod_cases4)
    then have n3: "n3 = ends_as lid r ?n1"
      using response_records [of lid fuel tf params cl] unfolding records_def by (metis fst_conv snd_conv)
    have run: "AddClientListenerOperation fuel tf ctx t lid l fps cps cl (x, n, u) =
        (case r of Inr ok \<Rightarrow> (Inr ok, x3, n3, u3)
         | Inl e \<Rightarrow> (Inl (case e of TransportException h p m \<Rightarrow> TransportException (hostname (peer_of x)) (port (peer_of x)) m | _ \<Rightarrow> e),
              x3, notifier_removeClientListener lid n3, u3))"
      using h b pq peers resp
      by (simp add: AddClientListenerOperation_def on_io_def body_def [symmetric] on_notifier_def sm_simps split: sum.split exn.split)
    show ?thesis
      unfolding run n3
      using assms by (auto simp: ends_as_def ins startClientListener_def notifier_removeClientListener_def split: sum.split)
  qed
qed

text \<open>The server confirms.\<close>

lemma confirmed_response:
  assumes "inp_of x = [RESPONSE_MAGIC] @ writeVLong (hp_messageId params) @ [ADD_CLIENT_LISTENER_RESPONSE, 0, 0]"
    and "hp_opRespCode params = ADD_CLIENT_LISTENER_RESPONSE"
  shows "fst (add_listener_response fuel tf params cl lid (x, n, u)) = Inr True"
proof -
  have a: "rd readByte x = (Inr RESPONSE_MAGIC, with_inp (writeVLong (hp_messageId params) @ [0x26, 0, 0]) x)"
    using assms(1) by (intro rd_byte) simp
  have b: "rd readVLong (with_inp (writeVLong (hp_messageId params) @ ys) x) = (Inr (hp_messageId params), with_inp ys x)" for ys
    using vlong.rd_dec [of "with_inp (writeVLong (hp_messageId params) @ ys) x" _ ys] by simp
  have c: "rd readByte (with_inp (y # ys) x) = (Inr y, with_inp ys x)" for y ys
    using rd_byte [of "with_inp (y # ys) x"] by simp
  show ?thesis
    using assms(2)
    by (simp add: add_listener_response_def readAddEventListenerResponseType_def a b c on_io_def on_notifier_def isEvent_def isSuccess_def
        readPartialHeader_def readNewTopologyIfPresent_def sm_simps)
qed

definition plain_listener :: client_listener where
  "plain_listener = \<lparr>includeCurrentState = True, filterFactoryName = [], converterFactoryName = [], useRawData = False,
     interestFlag = 15\<rparr>"

definition plain_ctx :: op_ctx where
  "plain_ctx = \<lparr>oc_codec = Codec28, oc_flags = 0, oc_cacheName = [], oc_dataFormat = None\<rparr>"

definition confirmed_io :: "unit io" where
  "confirmed_io = example_io ([RESPONSE_MAGIC] @ writeVLong 5 @ [ADD_CLIENT_LISTENER_RESPONSE, 0, 0])"

definition confirmed_run :: "(exn + bool) \<times> (unit io \<times> notifier \<times> client_event list)" where
  "confirmed_run = AddClientListenerOperation 1 example_tf plain_ctx 7 [9] plain_listener [] []
     (\<lambda>ev lid k. modify (\<lambda>log. log @ [ev])) (confirmed_io, [], [])"

lemma fst_catch: "fst (m s) = Inr r \<Longrightarrow> fst (catch m k s) = Inr r"
  by (cases "m s") (simp add: catch_run)

lemma confirmed_result: "fst confirmed_run = Inr True"
proof -
  have resp: "toOpRespCode ADD_CLIENT_LISTENER_REQUEST = Inr ADD_CLIENT_LISTENER_RESPONSE" by code_simp
  obtain params x1 where h: "op_writeHeader plain_ctx ADD_CLIENT_LISTENER_REQUEST confirmed_io = (Inr params, x1)"
    and params: "hp_messageId params = 5" "hp_opRespCode params = ADD_CLIENT_LISTENER_RESPONSE"
    and x1: "t_peer (tr x1) = (\<lambda>_. Inr [])" "inp_of x1 = inp_of confirmed_io"
    using op_writeHeader_run [OF resp, of plain_ctx confirmed_io]
    by (simp add: op_params_def confirmed_io_def example_io_def add_out_def inp_of_def)
  define body where "body = writeArray [9] @ writeClientListenerParams (oc_codec plain_ctx) plain_listener [] []
    @ writeClientListenerInterests (oc_codec plain_ctx) (interestFlag plain_listener)"
  obtain x2 where b: "seq (wr body) flush x1 = (Inr (), x2)" "inp_of x2 = inp_of confirmed_io"
    using x1 by (simp add: seq_run wr_def modify_run flush_def Let_def inp_of_def)
  have r: "fst (add_listener_response 1 example_tf params cl [9] (x2, n, u)) = Inr True" for cl n and u :: "client_event list"
    using confirmed_response [of x2 params 1 example_tf cl "[9]" n u] b(2) params
    by (simp add: confirmed_io_def example_io_def inp_of_def)
  show ?thesis
    unfolding confirmed_run_def AddClientListenerOperation_def
    using h b(1) r
    by (simp add: on_io_def on_notifier_def on_part_run modify_run gets_run seq_def [of "modify _"] body_def [symmetric] bind_Inr fst_catch
        seq_run [of "on_part _ _ _"])
qed

theorem listener_registered_witness:
  "map_of (fst (snd (snd confirmed_run))) =
    [[9] \<mapsto> \<lparr>dp_transport = 7, dp_addr = InetSocketAddress ''h'' 1, dp_started = True\<rparr>]"
proof -
  have "peer_of confirmed_io = InetSocketAddress ''h'' 1" by (simp add: confirmed_io_def example_io_def)
  with listener_registered [where n = "[]" and lid = "[9]" and fuel = 1 and tf = example_tf and ctx = plain_ctx and t = 7
      and l = plain_listener and fps = "[]" and cps = "[]" and cl = "\<lambda>ev lid k. modify (\<lambda>log. log @ [ev])"
      and x = confirmed_io and u = "[]"] confirmed_result
  show ?thesis unfolding confirmed_run_def by (auto simp: case_prod_unfold)
qed

end
