(* ===== verification/HR_Configuration.thy ===== *)
theory HR_Configuration
  imports HR_Factory
begin

text \<open>
  The configuration of the client: \<open>ConfigurationBuilder.h\<close> with its builders for servers, pool,
  near cache, TLS and authentication, the \<open>Configuration\<close> they make, and what the transport factory takes from it.
  The setters of a builder return the builder, so a chain of calls is the composition of the
  functions here. A \<open>ServerConfiguration\<close> is a pair of host and port.
\<close>

section \<open>Pool\<close>

record pool_settings =
  ps_exhaustedAction :: exhausted_action
  ps_lifo :: bool
  ps_maxActive :: int
  ps_maxTotal :: int
  ps_maxWait :: int
  ps_maxIdle :: int
  ps_minIdle :: int
  ps_numTestsPerEvictionRun :: int
  ps_timeBetweenEvictionRuns :: int
  ps_minEvictableIdleTime :: int
  ps_testOnBorrow :: bool
  ps_testOnReturn :: bool
  ps_testWhileIdle :: bool

text \<open>The builder has the fields of what it makes; \<open>create\<close> copies them.\<close>

definition ConnectionPoolConfigurationBuilder :: pool_settings where
  "ConnectionPoolConfigurationBuilder =
    \<lparr>ps_exhaustedAction = WAIT, ps_lifo = True, ps_maxActive = 8, ps_maxTotal = - 1, ps_maxWait = - 1, ps_maxIdle = 8,
     ps_minIdle = 0, ps_numTestsPerEvictionRun = 3, ps_timeBetweenEvictionRuns = 120000,
     ps_minEvictableIdleTime = 1000 * 60 * 30, ps_testOnBorrow = False, ps_testOnReturn = False, ps_testWhileIdle = True\<rparr>"

definition set_exhaustedAction where "set_exhaustedAction v b = b\<lparr>ps_exhaustedAction := v\<rparr>"
definition set_lifo where "set_lifo v b = b\<lparr>ps_lifo := v\<rparr>"
definition set_maxActive where "set_maxActive v b = b\<lparr>ps_maxActive := v\<rparr>"
definition set_maxTotal where "set_maxTotal v b = b\<lparr>ps_maxTotal := v\<rparr>"
definition set_maxWait where "set_maxWait v b = b\<lparr>ps_maxWait := v\<rparr>"
definition set_maxIdle where "set_maxIdle v b = b\<lparr>ps_maxIdle := v\<rparr>"
definition set_minIdle where "set_minIdle v b = b\<lparr>ps_minIdle := v\<rparr>"
definition set_numTestsPerEvictionRun where "set_numTestsPerEvictionRun v b = b\<lparr>ps_numTestsPerEvictionRun := v\<rparr>"
definition set_timeBetweenEvictionRuns where "set_timeBetweenEvictionRuns v b = b\<lparr>ps_timeBetweenEvictionRuns := v\<rparr>"
definition set_minEvictableIdleTime where "set_minEvictableIdleTime v b = b\<lparr>ps_minEvictableIdleTime := v\<rparr>"
definition set_testOnBorrow where "set_testOnBorrow v b = b\<lparr>ps_testOnBorrow := v\<rparr>"
definition set_testOnReturn where "set_testOnReturn v b = b\<lparr>ps_testOnReturn := v\<rparr>"
definition set_testWhileIdle where "set_testWhileIdle v b = b\<lparr>ps_testWhileIdle := v\<rparr>"

definition pool_create :: "pool_settings \<Rightarrow> pool_settings" where
  "pool_create b =
    \<lparr>ps_exhaustedAction = ps_exhaustedAction b, ps_lifo = ps_lifo b, ps_maxActive = ps_maxActive b, ps_maxTotal = ps_maxTotal b,
     ps_maxWait = ps_maxWait b, ps_maxIdle = ps_maxIdle b, ps_minIdle = ps_minIdle b,
     ps_numTestsPerEvictionRun = ps_numTestsPerEvictionRun b, ps_timeBetweenEvictionRuns = ps_timeBetweenEvictionRuns b,
     ps_minEvictableIdleTime = ps_minEvictableIdleTime b, ps_testOnBorrow = ps_testOnBorrow b,
     ps_testOnReturn = ps_testOnReturn b, ps_testWhileIdle = ps_testWhileIdle b\<rparr>"

text \<open>What the pool reads of it.\<close>

definition pool_config_of :: "pool_settings \<Rightarrow> pool_config" where
  "pool_config_of p = \<lparr>maxActive = ps_maxActive p, maxTotal = ps_maxTotal p, minIdle = ps_minIdle p,
     exhaustedAction = ps_exhaustedAction p, testOnBorrow = ps_testOnBorrow p, testOnReturn = ps_testOnReturn p\<rparr>"

section \<open>TLS and authentication\<close>

record ssl_config =
  ssl_enabled :: bool
  serverCAPath :: string
  serverCAFile :: string
  clientCertificateFile :: string
  sniHostName :: string

definition SslConfigurationBuilder :: ssl_config where
  "SslConfigurationBuilder = \<lparr>ssl_enabled = False, serverCAPath = [], serverCAFile = [], clientCertificateFile = [], sniHostName = []\<rparr>"

definition ssl_enable where "ssl_enable b = b\<lparr>ssl_enabled := True\<rparr>"
definition ssl_disable where "ssl_disable b = b\<lparr>ssl_enabled := False\<rparr>"
definition set_ssl_enabled where "set_ssl_enabled v b = b\<lparr>ssl_enabled := v\<rparr>"
definition set_serverCAPath where "set_serverCAPath v b = b\<lparr>serverCAPath := v\<rparr>"
definition set_serverCAFile where "set_serverCAFile v b = b\<lparr>serverCAFile := v\<rparr>"
definition set_clientCertificateFile where "set_clientCertificateFile v b = b\<lparr>clientCertificateFile := v\<rparr>"
definition set_sniHostName where "set_sniHostName v b = b\<lparr>sniHostName := v\<rparr>"

definition ssl_read :: "ssl_config \<Rightarrow> ssl_config \<Rightarrow> ssl_config" where
  "ssl_read c b = b\<lparr>ssl_enabled := ssl_enabled c, serverCAPath := serverCAPath c, serverCAFile := serverCAFile c,
     clientCertificateFile := clientCertificateFile c, sniHostName := sniHostName c\<rparr>"

text \<open>The callbacks of SASL are pointers to functions of the application: identifiers.\<close>

record auth_config =
  auth_enabled :: bool
  callbackHandler :: "nat list"
  saslMechanism :: string
  serverFQDN :: string

definition AuthenticationConfigurationBuilder :: auth_config where
  "AuthenticationConfigurationBuilder = \<lparr>auth_enabled = False, callbackHandler = [], saslMechanism = [], serverFQDN = []\<rparr>"

definition set_callbackHandler where "set_callbackHandler v b = b\<lparr>callbackHandler := v\<rparr>"
definition set_auth_enabled where "set_auth_enabled v b = b\<lparr>auth_enabled := v\<rparr>"
definition auth_enable where "auth_enable b = b\<lparr>auth_enabled := True\<rparr>"
definition auth_disable where "auth_disable b = b\<lparr>auth_enabled := False\<rparr>"
definition set_saslMechanism where "set_saslMechanism v b = b\<lparr>saslMechanism := v\<rparr>"
definition set_serverFQDN where "set_serverFQDN v b = b\<lparr>serverFQDN := v\<rparr>"

record security_config =
  sslConfiguration :: ssl_config
  authenticationConfiguration :: auth_config

section \<open>Near cache\<close>

datatype near_mode = DISABLED | INVALIDATED

record near_settings =
  nm_mode :: near_mode
  nm_maxEntries :: u32

definition NearCacheConfiguration :: near_settings where
  "NearCacheConfiguration = \<lparr>nm_mode = DISABLED, nm_maxEntries = 0\<rparr>"

definition set_mode where "set_mode v b = b\<lparr>nm_mode := v\<rparr>"
definition set_maxEntries where "set_maxEntries v b = b\<lparr>nm_maxEntries := v\<rparr>"

section \<open>The configuration and its builder\<close>

text \<open>
  The balancing strategy is a function the application may supply; \<open>None\<close> is the null pointer. The
  reference to the event marshaller is left out, nothing in the client uses it.
\<close>

record configuration =
  protocolVersionName :: string
  connectionPoolConfiguration :: pool_settings
  connectionTimeout :: int
  forceReturnValue :: bool
  keySizeEstimate :: int
  serversMap :: "(string \<times> (string \<times> int) list) list"
  socketTimeout :: int
  securityConfiguration :: security_config
  tcpNoDelay :: bool
  valueSizeEstimate :: int
  maxRetriesCount :: int
  nearCacheConfiguration :: near_settings
  balancingStrategyProducer :: "nat option"
  transactional :: bool

record config_builder =
  m_connectionTimeout :: int
  m_forceReturnValue :: bool
  m_keySizeEstimate :: int
  m_protocolVersion :: string
  m_serversMap :: "(string, (string \<times> int) list) smap"
  m_socketTimeout :: int
  m_tcpNoDelay :: bool
  m_valueSizeEstimate :: int
  m_maxRetries :: u32
  m_balancingStrategyProducer :: "nat option"
  connectionPoolConfigurationBuilder :: pool_settings
  securityConfigurationBuilder :: security_config
  nearCacheConfigurationBuilder :: near_settings
  m_transactional :: bool

definition ConfigurationBuilder :: config_builder where
  "ConfigurationBuilder =
    \<lparr>m_connectionTimeout = 60000, m_forceReturnValue = False, m_keySizeEstimate = 64, m_protocolVersion = ''2.4'',
     m_serversMap = [], m_socketTimeout = 60000, m_tcpNoDelay = True, m_valueSizeEstimate = 512, m_maxRetries = 10,
     m_balancingStrategyProducer = None, connectionPoolConfigurationBuilder = ConnectionPoolConfigurationBuilder,
     securityConfigurationBuilder = \<lparr>sslConfiguration = SslConfigurationBuilder,
       authenticationConfiguration = AuthenticationConfigurationBuilder\<rparr>,
     nearCacheConfigurationBuilder = NearCacheConfiguration, m_transactional = False\<rparr>"

definition set_connectionTimeout where "set_connectionTimeout v b = b\<lparr>m_connectionTimeout := v\<rparr>"
definition set_forceReturnValues where "set_forceReturnValues v b = b\<lparr>m_forceReturnValue := v\<rparr>"
definition set_keySizeEstimate where "set_keySizeEstimate v b = b\<lparr>m_keySizeEstimate := v\<rparr>"
definition set_protocolVersion where "set_protocolVersion v b = b\<lparr>m_protocolVersion := v\<rparr>"
definition set_socketTimeout where "set_socketTimeout v b = b\<lparr>m_socketTimeout := v\<rparr>"
definition set_tcpNoDelay where "set_tcpNoDelay v b = b\<lparr>m_tcpNoDelay := v\<rparr>"
definition set_valueSizeEstimate where "set_valueSizeEstimate v b = b\<lparr>m_valueSizeEstimate := v\<rparr>"
definition set_maxRetries :: "int \<Rightarrow> config_builder \<Rightarrow> config_builder" where
  "set_maxRetries v b = b\<lparr>m_maxRetries := word_of_int v\<rparr>"
definition set_balancingStrategyProducer where "set_balancingStrategyProducer v b = b\<lparr>m_balancingStrategyProducer := v\<rparr>"
definition set_transactional where "set_transactional v b = b\<lparr>m_transactional := v\<rparr>"

text \<open>\<open>connectionPool()\<close>, \<open>ssl()\<close>, \<open>nearCache()\<close> and \<open>security().authentication()\<close> give access to a part.\<close>

definition connectionPool where
  "connectionPool f b = b\<lparr>connectionPoolConfigurationBuilder := f (connectionPoolConfigurationBuilder b)\<rparr>"
definition ssl where
  "ssl f b = b\<lparr>securityConfigurationBuilder := (securityConfigurationBuilder b)
     \<lparr>sslConfiguration := f (sslConfiguration (securityConfigurationBuilder b))\<rparr>\<rparr>"
definition authentication where
  "authentication f b = b\<lparr>securityConfigurationBuilder := (securityConfigurationBuilder b)
     \<lparr>authenticationConfiguration := f (authenticationConfiguration (securityConfigurationBuilder b))\<rparr>\<rparr>"
definition nearCache where
  "nearCache f b = b\<lparr>nearCacheConfigurationBuilder := f (nearCacheConfigurationBuilder b)\<rparr>"

section \<open>Servers\<close>

text \<open>\<open>m_serversMap[clusterName]\<close>, with the entry made when it is missing.\<close>

definition cluster_servers :: "string \<Rightarrow> config_builder \<Rightarrow> (string \<times> int) list" where
  "cluster_servers name b = (case map_of (m_serversMap b) name of None \<Rightarrow> [] | Some s \<Rightarrow> s)"

definition addCluster :: "string \<Rightarrow> config_builder \<Rightarrow> config_builder" where
  "addCluster name b = b\<lparr>m_serversMap := smap_put name (cluster_servers name b) (m_serversMap b)\<rparr>"

definition addClusterNode :: "string \<Rightarrow> string \<Rightarrow> int \<Rightarrow> config_builder \<Rightarrow> config_builder" where
  "addClusterNode name h p b =
    b\<lparr>m_serversMap := smap_put name (cluster_servers name b @ [(h, p)]) (m_serversMap b)\<rparr>"

text \<open>\<open>addServer().host(h).port(p)\<close>: a builder starts as localhost:11222 and both are replaced.\<close>

definition ServerConfigurationBuilder :: "string \<times> int" where
  "ServerConfigurationBuilder = (''localhost'', 11222)"

definition addServer :: "(string \<times> int \<Rightarrow> string \<times> int) \<Rightarrow> config_builder \<Rightarrow> config_builder" where
  "addServer f b = b\<lparr>m_serversMap := smap_put DEFAULT_CLUSTER_NAME
     (cluster_servers DEFAULT_CLUSTER_NAME b @ [f ServerConfigurationBuilder]) (m_serversMap b)\<rparr>"

definition set_host :: "string \<Rightarrow> string \<times> int \<Rightarrow> string \<times> int" where "set_host h = (\<lambda>(_, p). (h, p))"
definition set_port :: "int \<Rightarrow> string \<times> int \<Rightarrow> string \<times> int" where "set_port p = (\<lambda>(h, _). (h, p))"

text \<open>
  A string stream: what is left to read and its state bits. \<open>std::getline\<close> leaves its string alone
  when the stream is not good, and sets \<open>failbit\<close> when it has extracted nothing.
\<close>

record text_stream =
  chars :: string
  eofbit :: bool
  failbit :: bool

definition istringstream :: "string \<Rightarrow> text_stream" where
  "istringstream s = \<lparr>chars = s, eofbit = False, failbit = False\<rparr>"

definition getline :: "char \<Rightarrow> text_stream \<Rightarrow> string \<Rightarrow> text_stream \<times> string" where
  "getline d st str =
    (if eofbit st \<or> failbit st then (st\<lparr>failbit := True\<rparr>, str)
     else let tok = takeWhile (\<lambda>c. c \<noteq> d) (chars st) in
       case dropWhile (\<lambda>c. c \<noteq> d) (chars st) of
         [] \<Rightarrow> (st\<lparr>chars := [], eofbit := True, failbit := tok = []\<rparr>, tok)
       | _ # rest \<Rightarrow> (st\<lparr>chars := rest\<rparr>, tok))"

text \<open>
  \<open>portStream >> portInt\<close> on a fresh stream: blanks are skipped; a stream that is then empty leaves the variable
  as it was, a text without digits stores 0, a value out of range the nearest one in range. \<open>None\<close> is a
  variable that was never assigned.
\<close>

definition isspace :: "char \<Rightarrow> bool" where
  "isspace c \<longleftrightarrow> of_char c \<in> {9, 10, 11, 12, 13, 32::nat}"

definition isdigit :: "char \<Rightarrow> bool" where
  "isdigit c \<longleftrightarrow> 48 \<le> (of_char c :: nat) \<and> (of_char c :: nat) \<le> 57"

definition digits_value :: "string \<Rightarrow> int" where
  "digits_value ds = foldl (\<lambda>n c. 10 * n + (of_char c - 48)) 0 ds"

definition extract_int :: "string \<Rightarrow> int option \<Rightarrow> int option" where
  "extract_int s old =
    (case dropWhile isspace s of
       [] \<Rightarrow> old
     | c # cs \<Rightarrow>
         let (neg, body) = (if c = CHR ''-'' then (True, cs) else if c = CHR ''+'' then (False, cs) else (False, c # cs));
             v = digits_value (takeWhile isdigit body);
             v = (if neg then - v else v)
         in Some (max (- (2 ^ 31)) (min (2 ^ 31 - 1) v)))"

definition left_in :: "text_stream \<Rightarrow> nat" where
  "left_in st = length (chars st) + (if eofbit st then 0 else 1)"

lemma getline_shrinks:
  assumes "getline d st s = (st', tok)" "\<not> failbit st'"
  shows "left_in st' < left_in st"
proof -
  define r where "r = dropWhile (\<lambda>c. c \<noteq> d) (chars st)"
  have "length r \<le> length (chars st)" unfolding r_def by (rule length_dropWhile_le)
  then show ?thesis
    using assms by (cases r) (auto simp: getline_def left_in_def Let_def r_def [symmetric] split: if_splits)
qed

text \<open>The loop of \<open>addServers\<close>; its four variables live across the rounds.\<close>

function addServers_loop :: "text_stream \<Rightarrow> string \<Rightarrow> string \<Rightarrow> int option \<Rightarrow> config_builder \<Rightarrow> exn + config_builder" where
  "addServers_loop originalStream hostHelper portHelper portInt b =
    (let (originalStream, stringHelper) = getline CHR '';'' originalStream [] in
     if failbit originalStream then Inr b
     else let (singleServerStream, hostHelper) = getline CHR '':'' (istringstream stringHelper) hostHelper;
              (singleServerStream, portHelper) = getline CHR '':'' singleServerStream portHelper;
              portInt = extract_int portHelper portInt
          in case portInt of
               None \<Rightarrow> Inl (UndefinedBehaviour ''portInt is not initialised'')
             | Some p \<Rightarrow> addServers_loop originalStream hostHelper portHelper portInt (addServer (set_port p \<circ> set_host hostHelper) b))"
  by auto

termination addServers_loop
  by (relation "measure (\<lambda>(st, _). left_in st)") (simp_all, metis getline_shrinks)

definition addServers :: "string \<Rightarrow> config_builder \<Rightarrow> exn + config_builder" where
  "addServers servers b = addServers_loop (istringstream servers) [] [] None b"

section \<open>Making and reading a configuration\<close>

definition create :: "config_builder \<Rightarrow> configuration" where
  "create b =
    \<lparr>protocolVersionName = m_protocolVersion b, connectionPoolConfiguration = pool_create (connectionPoolConfigurationBuilder b),
     connectionTimeout = m_connectionTimeout b, forceReturnValue = m_forceReturnValue b, keySizeEstimate = m_keySizeEstimate b,
     serversMap = (if m_serversMap b = [] then [(DEFAULT_CLUSTER_NAME, [ServerConfigurationBuilder])] else m_serversMap b),
     socketTimeout = m_socketTimeout b, securityConfiguration = securityConfigurationBuilder b, tcpNoDelay = m_tcpNoDelay b,
     valueSizeEstimate = m_valueSizeEstimate b, maxRetriesCount = sint (m_maxRetries b),
     nearCacheConfiguration = nearCacheConfigurationBuilder b, balancingStrategyProducer = m_balancingStrategyProducer b,
     transactional = m_transactional b\<rparr>"

definition read :: "configuration \<Rightarrow> config_builder \<Rightarrow> config_builder" where
  "read c b = b\<lparr>m_protocolVersion := protocolVersionName c, m_connectionTimeout := connectionTimeout c,
     m_forceReturnValue := forceReturnValue c, m_socketTimeout := socketTimeout c, m_tcpNoDelay := tcpNoDelay c,
     m_keySizeEstimate := keySizeEstimate c, m_valueSizeEstimate := valueSizeEstimate c,
     m_maxRetries := word_of_int (maxRetriesCount c), m_transactional := transactional c\<rparr>"

text \<open>What the transport factory is made from; the network and the fuel are those of the model.\<close>

definition tf_config_of :: "network \<Rightarrow> nat \<Rightarrow> codec \<Rightarrow> configuration \<Rightarrow> tf_config" where
  "tf_config_of net fuel codec c = \<lparr>tc_codec = codec, tc_servers = serversMap c,
     tc_pool = pool_config_of (connectionPoolConfiguration c), tc_maxRetries = maxRetriesCount c, tc_net = net, tc_fuel = fuel\<rparr>"

end
