(* ===== verification/HR_Configuration_Correct.thy ===== *)
theory HR_Configuration_Correct
  imports HR_Configuration
begin

text \<open>
  A list of servers in the documented form is understood when every server has a port; one without
  gets the port of the server before it, or an indeterminate one. Reading a configuration copies its scalar
  settings and loses its servers, pool, security and near cache.
\<close>

section \<open>Numbers and tokens\<close>

fun decimal :: "nat \<Rightarrow> string" where
  "decimal n = (if n < 10 then [char_of (48 + n)] else decimal (n div 10) @ [char_of (48 + n mod 10)])"

declare decimal.simps [simp del]

lemma digit_char [simp]: "n < 10 \<Longrightarrow> of_char (char_of (48 + n) :: char) = 48 + n" for n :: nat
  by (simp add: of_char_of)

lemma digit_char_int [simp]: "n < 10 \<Longrightarrow> of_char (char_of (48 + n) :: char) = 48 + int n" for n :: nat
proof -
  have "(of_char c :: int) = int (of_char c)" for c :: char
    by (simp add: of_char_def horner_sum_eq_sum)
  then show "n < 10 \<Longrightarrow> ?thesis" by (metis digit_char of_nat_add of_nat_numeral)
qed

lemma digit_isdigit [simp]: "n < 10 \<Longrightarrow> isdigit (char_of (48 + n))" for n :: nat
  by (simp add: isdigit_def)

lemma decimal_digits: "\<forall>c \<in> set (decimal n). isdigit c"
proof (induction n rule: decimal.induct)
  case (1 n)
  have "n mod 10 < 10" by simp
  with 1 show ?case by (subst decimal.simps) auto
qed

lemma decimal_not_Nil [simp]: "decimal n \<noteq> []"
  by (subst decimal.simps) simp

lemma digits_value_snoc: "digits_value (ds @ [c]) = 10 * digits_value ds + (of_char c - 48)"
  by (simp add: digits_value_def)

lemma digits_value_decimal: "digits_value (decimal n) = int n"
proof (induction n rule: decimal.induct)
  case (1 n)
  show ?case
  proof (cases "n < 10")
    case True
    then show ?thesis by (subst decimal.simps) (simp add: digits_value_def)
  next
    case False
    have "n mod 10 < 10" by simp
    then have "digits_value (decimal n) = 10 * int (n div 10) + int (n mod 10)"
      using 1 False by (subst decimal.simps) (simp add: digits_value_snoc)
    then show ?thesis by (metis mult_div_mod_eq of_nat_add of_nat_mult of_nat_numeral)
  qed
qed

lemma digit_not_space: "isdigit c \<Longrightarrow> \<not> isspace c \<and> c \<noteq> CHR ''-'' \<and> c \<noteq> CHR ''+'' \<and> c \<noteq> CHR '';'' \<and> c \<noteq> CHR '':''"
  by (auto simp: isdigit_def isspace_def)

lemma extract_decimal:
  assumes "n < 2 ^ 31"
  shows "extract_int (decimal n) old = Some (int n)"
proof -
  obtain c cs where d: "decimal n = c # cs" by (cases "decimal n") simp_all
  have all: "takeWhile isdigit (c # cs) = c # cs"
    using decimal_digits [of n] unfolding d by (intro takeWhile_eq_all_conv [THEN iffD2]) blast
  have "isdigit c" using decimal_digits [of n] d by simp
  then show ?thesis
    using digits_value_decimal [of n] assms unfolding d extract_int_def
    by (simp add: digit_not_space del: takeWhile.simps) (simp only: all)
qed

lemma getline_token:
  assumes "d \<notin> set tok" "\<not> eofbit st" "\<not> failbit st" "chars st = tok @ d # rest"
  shows "getline d st s = (st\<lparr>chars := rest\<rparr>, tok)"
proof -
  have "takeWhile (\<lambda>c. c \<noteq> d) (chars st) = tok" "dropWhile (\<lambda>c. c \<noteq> d) (chars st) = d # rest"
    using assms by (auto simp: takeWhile_append dropWhile_append)
  then show ?thesis using assms by (simp add: getline_def Let_def)
qed

lemma getline_last:
  assumes "d \<notin> set tok" "\<not> eofbit st" "\<not> failbit st" "chars st = tok"
  shows "getline d st s = (st\<lparr>chars := [], eofbit := True, failbit := tok = []\<rparr>, tok)"
proof -
  have "takeWhile (\<lambda>c. c \<noteq> d) (chars st) = tok" "dropWhile (\<lambda>c. c \<noteq> d) (chars st) = []"
    using assms by (auto simp: takeWhile_eq_all_conv)
  then show ?thesis using assms(2-) by (simp add: getline_def Let_def del: dropWhile_eq_Nil_conv takeWhile_eq_Nil_iff takeWhile_eq_all_conv)
qed

section \<open>Lists of servers\<close>

definition server_text :: "string \<times> int \<Rightarrow> string" where
  "server_text = (\<lambda>(h, p). h @ CHR '':'' # decimal (nat p))"

fun server_list :: "(string \<times> int) list \<Rightarrow> string" where
  "server_list [] = []"
| "server_list [s] = server_text s"
| "server_list (s # ss) = server_text s @ CHR '';'' # server_list ss"

definition server_ok :: "string \<times> int \<Rightarrow> bool" where
  "server_ok = (\<lambda>(h, p). CHR '';'' \<notin> set h \<and> CHR '':'' \<notin> set h \<and> 0 \<le> p \<and> p < 2 ^ 31)"

definition plus_server :: "string \<times> int \<Rightarrow> config_builder \<Rightarrow> config_builder" where
  "plus_server s = addServer (\<lambda>_. s)"

lemma decimal_delims [simp]: "CHR '';'' \<notin> set (decimal n)" "CHR '':'' \<notin> set (decimal n)"
  using decimal_digits digit_not_space by blast+

lemma set_server [simp]: "set_port p \<circ> set_host h = (\<lambda>_. (h, p))"
  by (auto simp: set_port_def set_host_def)

lemmas loop_step = addServers_loop.simps

text \<open>The host and the port of one server.\<close>

lemma server_parts:
  assumes "server_ok (h, p)"
  shows "getline CHR '':'' (istringstream (server_text (h, p))) hh =
      (\<lparr>chars = decimal (nat p), eofbit = False, failbit = False\<rparr>, h)"
    and "getline CHR '':'' \<lparr>chars = decimal (nat p), eofbit = False, failbit = False\<rparr> pp =
      (\<lparr>chars = [], eofbit = True, failbit = False\<rparr>, decimal (nat p))"
    and "extract_int (decimal (nat p)) q = Some p"
proof -
  show "getline CHR '':'' (istringstream (server_text (h, p))) hh =
      (\<lparr>chars = decimal (nat p), eofbit = False, failbit = False\<rparr>, h)"
    using assms getline_token [of "CHR '':''" h "istringstream (server_text (h, p))" "decimal (nat p)" hh]
    by (simp add: server_ok_def server_text_def istringstream_def)
  show "getline CHR '':'' \<lparr>chars = decimal (nat p), eofbit = False, failbit = False\<rparr> pp =
      (\<lparr>chars = [], eofbit = True, failbit = False\<rparr>, decimal (nat p))"
    using getline_last [of "CHR '':''" "decimal (nat p)" "\<lparr>chars = decimal (nat p), eofbit = False, failbit = False\<rparr>"] by simp
  have "nat p < 2 ^ 31" using assms by (simp add: server_ok_def nat_less_iff)
  then show "extract_int (decimal (nat p)) q = Some p"
    using extract_decimal [of "nat p" q] assms by (simp add: server_ok_def)
qed

lemma loop_round:
  assumes "server_ok (h, p)" "getline CHR '';'' st [] = (st', server_text (h, p))" "\<not> failbit st'"
  shows "addServers_loop st hh pp q b = addServers_loop st' h (decimal (nat p)) (Some p) (plus_server (h, p) b)"
  using assms by (subst loop_step) (simp add: server_parts [OF assms(1)] plus_server_def del: loop_step)

lemma loop_end: "eofbit st \<Longrightarrow> addServers_loop st hh pp q b = Inr b"
  by (subst loop_step) (simp add: getline_def)

lemma server_text_delim: "server_ok s \<Longrightarrow> CHR '';'' \<notin> set (server_text s)"
  by (auto simp: server_ok_def server_text_def split: prod.splits)

lemma server_text_not_Nil [simp]: "server_text s \<noteq> []"
  by (auto simp: server_text_def split: prod.splits)

lemma loop_servers:
  assumes "\<forall>s \<in> set ss. server_ok s"
  shows "addServers_loop \<lparr>chars = server_list ss, eofbit = False, failbit = False\<rparr> hh pp q b = Inr (fold plus_server ss b)"
  using assms
proof (induction ss arbitrary: hh pp q b rule: server_list.induct)
  case 1
  then show ?case by (subst loop_step) (simp add: getline_def)
next
  case (2 s)
  obtain h p where s: "s = (h, p)" by (cases s)
  have "getline CHR '';'' \<lparr>chars = server_text s, eofbit = False, failbit = False\<rparr> [] =
      (\<lparr>chars = [], eofbit = True, failbit = False\<rparr>, server_text s)"
    using 2 getline_last [of "CHR '';''" "server_text s" "\<lparr>chars = server_text s, eofbit = False, failbit = False\<rparr>"]
    by (simp add: server_text_delim)
  then show ?case using 2 by (simp add: s loop_round loop_end del: loop_step)
next
  case (3 s t ss)
  obtain h p where s: "s = (h, p)" by (cases s)
  have "getline CHR '';'' \<lparr>chars = server_text s @ CHR '';'' # server_list (t # ss), eofbit = False, failbit = False\<rparr> [] =
      (\<lparr>chars = server_list (t # ss), eofbit = False, failbit = False\<rparr>, server_text s)"
    using 3 by (subst getline_token) (simp_all add: server_text_delim)
  then show ?case using 3 loop_round [of h p] unfolding s by (simp del: loop_step)
qed

text \<open>What the loop leaves in the builder.\<close>

lemma plus_servers:
  "cluster_servers n (fold plus_server ss b) =
    (if n = DEFAULT_CLUSTER_NAME then cluster_servers n b @ ss else cluster_servers n b)"
  by (induction ss arbitrary: b) (simp_all add: plus_server_def addServer_def cluster_servers_def)

lemma plus_servers_only: "(fold plus_server ss b)\<lparr>m_serversMap := m\<rparr> = b\<lparr>m_serversMap := m\<rparr>"
  by (induction ss arbitrary: b) (simp_all add: plus_server_def addServer_def)

text \<open>
  C34. A list of servers is understood: \<open>addServers\<close> of the text of any list of hosts and ports, in the form
  \<open>host1:port1;host2:port2\<close>, adds exactly these servers to the default cluster, in order, and changes nothing else;
  hosts have no delimiter and ports fit an \<open>int\<close>. The configuration made from a fresh builder then has the
  default cluster with these servers, or localhost:11222 when the list is empty.
\<close>

theorem addServers_roundtrip:
  assumes "\<forall>s \<in> set ss. server_ok s"
  shows "\<exists>b'. addServers (server_list ss) b = Inr b' \<and> b'\<lparr>m_serversMap := m_serversMap b\<rparr> = b
      \<and> (\<forall>n. cluster_servers n b' = (if n = DEFAULT_CLUSTER_NAME then cluster_servers n b @ ss else cluster_servers n b))
      \<and> (b = ConfigurationBuilder \<longrightarrow> map_of (serversMap (create b')) DEFAULT_CLUSTER_NAME =
           Some (if ss = [] then [(''localhost'', 11222)] else ss))"
proof -
  let ?b' = "fold plus_server ss b"
  have loop: "addServers (server_list ss) b = Inr ?b'"
    using loop_servers [OF assms] by (simp add: addServers_def istringstream_def)
  have keep: "?b'\<lparr>m_serversMap := m_serversMap b\<rparr> = b" using plus_servers_only [where ss = ss and b = b and m = "m_serversMap b"] by simp
  have "map_of (serversMap (create (fold plus_server ss ConfigurationBuilder))) DEFAULT_CLUSTER_NAME =
      Some (if ss = [] then [(''localhost'', 11222)] else ss)"
  proof (cases "ss = []")
    case True
    then show ?thesis by (simp add: create_def ConfigurationBuilder_def ServerConfigurationBuilder_def)
  next
    case False
    then have "map_of (m_serversMap (fold plus_server ss ConfigurationBuilder)) DEFAULT_CLUSTER_NAME = Some ss"
      using plus_servers [of DEFAULT_CLUSTER_NAME ss ConfigurationBuilder]
      by (auto simp: cluster_servers_def ConfigurationBuilder_def split: option.splits)
    then show ?thesis using False by (auto simp: create_def)
  qed
  then show ?thesis
    using loop keep plus_servers [of _ ss b] by (intro exI [of _ ?b']) simp
qed

theorem addServers_roundtrip_witness:
  "\<exists>b'. addServers ''h1:8080;h2:80'' ConfigurationBuilder = Inr b'
    \<and> cluster_servers DEFAULT_CLUSTER_NAME b' = [(''h1'', 8080), (''h2'', 80)]"
proof -
  have "decimal 8080 = ''8080''" "decimal 80 = ''80''" by (simp_all add: decimal.simps char_of_eq_iff)
  then have t: "server_list [(''h1'', 8080), (''h2'', 80)] = ''h1:8080;h2:80''" by (simp add: server_text_def)
  have "\<forall>s \<in> set [(''h1'', 8080), (''h2'', 80::int)]. server_ok s" by (simp add: server_ok_def)
  from addServers_roundtrip [OF this, of ConfigurationBuilder] t show ?thesis
    by (auto simp: cluster_servers_def ConfigurationBuilder_def)
qed

text \<open>
  A server without a port, which the documented form allows, is not given the default port: after
  another server it gets the port of that one, and a first server without one gets an indeterminate value.
\<close>

theorem addServers_missing_port:
  assumes "server_ok (h, p)" "server_ok (h', 0)" "h' \<noteq> []"
  shows "addServers (server_text (h, p) @ CHR '';'' # h') b = Inr (plus_server (h', p) (plus_server (h, p) b))
    \<and> (\<exists>m. addServers h' b = Inl (UndefinedBehaviour m))"
proof -
  have delims: "CHR '';'' \<notin> set h'" "CHR '':'' \<notin> set h'" using assms(2) by (simp_all add: server_ok_def)
  let ?drained = "\<lparr>chars = [], eofbit = True, failbit = False\<rparr>"
  have last: "getline CHR '';'' \<lparr>chars = h', eofbit = False, failbit = False\<rparr> [] = (?drained, h')"
    using getline_last [of "CHR '';''" h' "\<lparr>chars = h', eofbit = False, failbit = False\<rparr>"] delims assms(3) by simp
  have parts: "getline CHR '':'' (istringstream h') hh = (?drained, h')" "getline CHR '':'' ?drained pp = (?drained\<lparr>failbit := True\<rparr>, pp)" for hh pp
    using getline_last [of "CHR '':''" h' "istringstream h'"] delims assms(3)
    by (simp_all add: istringstream_def) (simp add: getline_def)
  have round: "addServers_loop \<lparr>chars = h', eofbit = False, failbit = False\<rparr> hh pp q c =
      (case extract_int pp q of None \<Rightarrow> Inl (UndefinedBehaviour ''portInt is not initialised'')
       | Some v \<Rightarrow> Inr (plus_server (h', v) c))" for hh pp q c
    by (subst loop_step) (simp add: last parts loop_end plus_server_def del: loop_step split: option.split)
  have "getline CHR '';'' (istringstream (server_text (h, p) @ CHR '';'' # h')) [] =
      (\<lparr>chars = h', eofbit = False, failbit = False\<rparr>, server_text (h, p))"
    using getline_token [of "CHR '';''" "server_text (h, p)" "istringstream (server_text (h, p) @ CHR '';'' # h')" h']
      server_text_delim [OF assms(1)] by (simp add: istringstream_def)
  then have "addServers (server_text (h, p) @ CHR '';'' # h') b = Inr (plus_server (h', p) (plus_server (h, p) b))"
    using server_parts(3) [OF assms(1)] by (simp add: addServers_def loop_round [OF assms(1)] round del: loop_step)
  moreover have "addServers h' b = Inl (UndefinedBehaviour ''portInt is not initialised'')"
    using round [of "[]" "[]" None b] by (simp add: addServers_def istringstream_def extract_int_def del: loop_step)
  ultimately show ?thesis by blast
qed

theorem addServers_missing_port_witness:
  "addServers (server_text (''h1'', 80) @ '';h2'') ConfigurationBuilder =
    Inr (plus_server (''h2'', 80) (plus_server (''h1'', 80) ConfigurationBuilder))"
  using addServers_missing_port [of "''h1''" 80 "''h2''" ConfigurationBuilder] by (simp add: server_ok_def)

section \<open>Reading a configuration\<close>

text \<open>
  \<open>read\<close> copies the scalar settings of a configuration and nothing else: what is made after it has the protocol
  version, timeouts, estimates, retries and flags of the configuration that was read, and the servers, pool,
  security, near cache and balancing strategy of the builder that read it.
\<close>

theorem read_create:
  "create (read (create b) b0) =
    (create b)\<lparr>connectionPoolConfiguration := connectionPoolConfiguration (create b0), serversMap := serversMap (create b0),
      securityConfiguration := securityConfiguration (create b0), nearCacheConfiguration := nearCacheConfiguration (create b0),
      balancingStrategyProducer := balancingStrategyProducer (create b0)\<rparr>
   \<and> serversMap (create b) \<noteq> []"
  by (simp add: create_def read_def)

end
