(* ===== verification/HR_Sasl.thy ===== *)
theory HR_Sasl
  imports HR_Configuration HR_Remote_Map
begin

text \<open>
  Authentication of a new connection: \<open>do_sasl_authentication\<close> of \<open>TransportObjectFactory.cpp\<close>. The SASL library is a parameter:
  what its functions return, and the state of a connection of its own. A pointer a function
  leaves as it was is \<open>None\<close>.
\<close>

section \<open>The exchange\<close>

record 'c sasl_lib =
  sasl_client_new :: "string \<Rightarrow> int \<times> 'c"
  sasl_client_start :: "'c \<Rightarrow> string \<Rightarrow> int \<times> string option \<times> bytes option \<times> 'c"
  sasl_client_step :: "'c \<Rightarrow> bytes \<Rightarrow> int \<times> bytes option \<times> 'c"

abbreviation (input) SASL_OK :: int where "SASL_OK \<equiv> 0"
abbreviation (input) SASL_CONTINUE :: int where "SASL_CONTINUE \<equiv> 1"

definition saslfail :: "int \<Rightarrow> string \<Rightarrow> ('s, 'a) sm" where
  "saslfail why what = raise (HotRodClientException (''Sasl error '' @ map (char_of \<circ> unat) (to_string why) @ '' : '' @ what))"

text \<open>The operations have no cache, no flags and a topology of their own.\<close>

definition sasl_ctx :: "codec \<Rightarrow> op_ctx" where
  "sasl_ctx c = \<lparr>oc_codec = c, oc_flags = 0, oc_cacheName = [], oc_dataFormat = None\<rparr>"

definition own_topology :: "('f io, 'a) sm \<Rightarrow> ('f io, 'a) sm" where
  "own_topology m s = (case m (s\<lparr>topo := DEFAULT_CACHE_TOPOLOGY\<rparr>) of (r, s') \<Rightarrow> (r, s'\<lparr>topo := topo s\<rparr>))"

definition sasl_send :: "'f tf_iface \<Rightarrow> codec \<Rightarrow> bytes \<Rightarrow> bytes \<Rightarrow> ('f io, bytes) sm" where
  "sasl_send tf c mech resp = own_topology (AuthOperation tf (sasl_ctx c) mech resp)"

fun sasl_loop ::
  "nat \<Rightarrow> 'f tf_iface \<Rightarrow> codec \<Rightarrow> 'c sasl_lib \<Rightarrow> bytes \<Rightarrow> int \<Rightarrow> 'c \<Rightarrow> bytes \<Rightarrow> bytes \<Rightarrow> ('f io, int) sm" where
  "sasl_loop 0 tf c lib mech r conn respOp data = raise OutOfFuel"
| "sasl_loop (Suc n) tf c lib mech r conn respOp data =
    (if r = SASL_CONTINUE
     then case sasl_client_step lib conn respOp of
       (r', out, conn') \<Rightarrow>
         let data' = (case out of None \<Rightarrow> data | Some d \<Rightarrow> d) in
         bind (sasl_send tf c mech data') (\<lambda>respOp'. sasl_loop n tf c lib mech r' conn' respOp' data')
     else ret r)"

definition do_sasl_authentication :: "nat \<Rightarrow> 'f tf_iface \<Rightarrow> codec \<Rightarrow> 'c sasl_lib \<Rightarrow> auth_config \<Rightarrow> ('f io, unit) sm" where
  "do_sasl_authentication n tf c lib conf =
    bind (own_topology (AuthMechListOperation tf (sasl_ctx c))) (\<lambda>_.
    case sasl_client_new lib (serverFQDN conf) of
      (r, conn) \<Rightarrow>
        if r \<noteq> SASL_OK then saslfail r ''allocating connection state''
        else case sasl_client_start lib conn (saslMechanism conf) of
          (r, chosenmech, out, conn) \<Rightarrow>
            let data = (if saslMechanism conf \<noteq> ''DIGEST-MD5'' then (case out of None \<Rightarrow> [] | Some d \<Rightarrow> d) else []) in
            if r \<noteq> SASL_OK \<and> r \<noteq> SASL_CONTINUE then saslfail r ''starting SASL negotiation''
            else case chosenmech of
              None \<Rightarrow> raise (UndefinedBehaviour ''strlen(chosenmech)'')
            | Some mech \<Rightarrow>
                bind (sasl_send tf c (ascii mech) data) (\<lambda>respOp.
                bind (sasl_loop n tf c lib (ascii mech) r conn respOp data) (\<lambda>r.
                if r \<noteq> SASL_OK \<and> r \<noteq> SASL_CONTINUE then saslfail r ''performing SASL negotiation'' else ret ())))"

text \<open>
  \<open>makeObject\<close> with authentication. When it fails nobody deletes the transport: it stays in the heap, connected.
\<close>

definition auth_makeObject ::
  "nat \<Rightarrow> network \<Rightarrow> codec \<Rightarrow> 'c sasl_lib \<Rightarrow> auth_config \<Rightarrow> inet \<Rightarrow> (world, nat) sm" where
  "auth_makeObject n net c lib conf a =
    bind (tcp_makeObject net a) (\<lambda>t.
    if auth_enabled conf
    then bind (on_conn id (\<lambda>w _. w) t DEFAULT_CACHE_TOPOLOGY (do_sasl_authentication n reentrant_tf c lib conf)) (\<lambda>_. ret t)
    else ret t)"

section \<open>The other end\<close>

datatype auth_msg = MechList | Auth bytes bytes

definition parse_auth :: "byte \<Rightarrow> (rstream, auth_msg) sm" where
  "parse_auth code =
    (if code = AUTH_MECH_LIST_REQUEST then ret MechList
     else if code = AUTH_REQUEST then bind readArray (\<lambda>m. bind readArray (\<lambda>r. ret (Auth m r)))
     else raise (InternalException ''unsupported''))"

definition auth_of :: "bytes \<Rightarrow> (request_header \<times> auth_msg) option" where
  "auth_of req = (case fst (parse_message (\<lambda>h. parse_auth (rq_opCode h)) \<lparr>rhost = [], rport = 0, pending = req\<rparr>) of
     Inl e \<Rightarrow> None | Inr x \<Rightarrow> Some x)"

text \<open>The responses a server has been given.\<close>

fun auth_responses :: "bytes list \<Rightarrow> (bytes \<times> bytes) list" where
  "auth_responses [] = []"
| "auth_responses (req # h) =
    (case auth_of req of Some (_, Auth m r) \<Rightarrow> (m, r) # auth_responses h | _ \<Rightarrow> auth_responses h)"

text \<open>
  \<open>srv\<close> is what the mechanism of the server makes of the responses it has been given: whether it is content, and the next challenge.
\<close>

definition serves_sasl :: "bytes list \<Rightarrow> ((bytes \<times> bytes) list \<Rightarrow> bool \<times> bytes) \<Rightarrow> (bytes list \<Rightarrow> exn + bytes) \<Rightarrow> bool" where
  "serves_sasl mechs srv peer \<longleftrightarrow> (\<forall>h req rh p. auth_of req = Some (rh, p) \<longrightarrow>
     peer (h @ [req]) = Inr (case p of
       MechList \<Rightarrow> reply_header (rq_messageId rh) AUTH_MECH_LIST_RESPONSE NO_ERROR_STATUS
         @ writeVInt (of_nat (length mechs)) @ concat (map writeString mechs)
     | Auth m r \<Rightarrow> (case srv (auth_responses h @ [(m, r)]) of (done, challenge) \<Rightarrow>
         reply_header (rq_messageId rh) AUTH_RESPONSE NO_ERROR_STATUS @ [if done then 1 else 0] @ writeArray challenge)))"

text \<open>What the client gets of a challenge: nothing any more when the server is content.\<close>

definition challenge :: "((bytes \<times> bytes) list \<Rightarrow> bool \<times> bytes) \<Rightarrow> (bytes \<times> bytes) list \<Rightarrow> bytes" where
  "challenge srv rs = (case srv rs of (done, c) \<Rightarrow> if done then [] else c)"

text \<open>
  The dialogue of library and server, without a network: the code the library ends with and the responses
  that were given. \<open>None\<close> when it takes more than \<open>n\<close> rounds.
\<close>

fun dialogue ::
  "nat \<Rightarrow> 'c sasl_lib \<Rightarrow> ((bytes \<times> bytes) list \<Rightarrow> bool \<times> bytes) \<Rightarrow> bytes \<Rightarrow> int \<Rightarrow> 'c \<Rightarrow> bytes \<Rightarrow> (bytes \<times> bytes) list
    \<Rightarrow> (int \<times> (bytes \<times> bytes) list) option" where
  "dialogue 0 lib srv mech r conn data rs = None"
| "dialogue (Suc n) lib srv mech r conn data rs =
    (if r = SASL_CONTINUE
     then case sasl_client_step lib conn (challenge srv rs) of
       (r', out, conn') \<Rightarrow>
         let data' = (case out of None \<Rightarrow> data | Some d \<Rightarrow> d) in
         dialogue n lib srv mech r' conn' data' (rs @ [(mech, data')])
     else Some (r, rs))"

section \<open>The client carries the dialogue out\<close>

lemma auth_resp_of [simp]: "toOpRespCode AUTH_REQUEST = Inr AUTH_RESPONSE" "toOpRespCode AUTH_MECH_LIST_REQUEST = Inr AUTH_MECH_LIST_RESPONSE"
  by (simp_all add: toOpRespCode_def op_resp_table_def)

lemma sasl_ctx_ok [simp]: "ctx_ok (sasl_ctx c)"
  by (simp add: ctx_ok_def sasl_ctx_def)

lemma auth_of_mechs: "auth_of (request_bytes (sasl_ctx c) AUTH_MECH_LIST_REQUEST resp i t [])
    = Some (sent_header (sasl_ctx c) AUTH_MECH_LIST_REQUEST i t, MechList)"
proof -
  have "parse_auth (rq_opCode (sent_header (sasl_ctx c) AUTH_MECH_LIST_REQUEST i t)) r = (Inr MechList, r\<lparr>pending := []\<rparr>)"
    if "pending r = []" for r
    using that by (simp add: parse_auth_def sent_header_def ret_run)
  from parse_message_run [where body = "\<lambda>h. parse_auth (rq_opCode h)", OF sasl_ctx_ok this] show ?thesis
    by (simp add: auth_of_def)
qed

lemma auth_of_request:
  assumes "length m < 2 ^ 32" "length r < 2 ^ 32"
  shows "auth_of (request_bytes (sasl_ctx c) AUTH_REQUEST resp i t (writeArray m @ writeArray r))
    = Some (sent_header (sasl_ctx c) AUTH_REQUEST i t, Auth m r)"
proof -
  have "parse_auth (rq_opCode (sent_header (sasl_ctx c) AUTH_REQUEST i t)) s = (Inr (Auth m r), s\<lparr>pending := []\<rparr>)"
    if "pending s = writeArray m @ writeArray r" for s
    using assms array.dec_enc [of m s "writeArray r"] array.dec_enc [of r "s\<lparr>pending := writeArray r\<rparr>" "[]"] that
    by (simp add: parse_auth_def sent_header_def ret_run)
  from parse_message_run [where body = "\<lambda>h. parse_auth (rq_opCode h)", OF sasl_ctx_ok this] show ?thesis
    by (simp add: auth_of_def)
qed

lemma auth_responses_snoc: "auth_responses (h @ [req]) =
    auth_responses h @ (case auth_of req of Some (_, Auth m r) \<Rightarrow> [(m, r)] | _ \<Rightarrow> [])"
  by (induction h) (auto split: option.splits auth_msg.splits)

text \<open>A connection between two requests, to a server that has been given the responses \<open>rs\<close>.\<close>

definition authenticating ::
  "bytes list \<Rightarrow> ((bytes \<times> bytes) list \<Rightarrow> bool \<times> bytes) \<Rightarrow> (bytes \<times> bytes) list \<Rightarrow> 'f io \<Rightarrow> bool" where
  "authenticating mechs srv rs s \<longleftrightarrow> quiet s \<and> serves_sasl mechs srv (t_peer (tr s)) \<and> auth_responses (t_sent (tr s)) = rs"

lemma sasl_send_run:
  assumes at: "authenticating mechs srv rs s" and m: "length m < 2 ^ 32" and d: "length d < 2 ^ 32"
    and srv: "\<And>rs. length (snd (srv rs)) < 2 ^ 32"
  shows "\<exists>s'. sasl_send tf c m d s = (Inr (challenge srv (rs @ [(m, d)])), s') \<and> authenticating mechs srv (rs @ [(m, d)]) s'"
proof -
  let ?s = "s\<lparr>topo := DEFAULT_CACHE_TOPOLOGY\<rparr>" and ?ctx = "sasl_ctx c"
  define req where "req = request_bytes ?ctx AUTH_REQUEST AUTH_RESPONSE (msgId s + 1) (- 1) (writeArray m @ writeArray d)"
  obtain fin ch where sv: "srv (rs @ [(m, d)]) = (fin, ch)" by fastforce
  have ch: "length ch < 2 ^ 32" using srv [of "rs @ [(m, d)]"] sv by simp
  let ?rest = "[if fin then 1 else 0] @ writeArray ch"
  have of: "auth_of req = Some (sent_header ?ctx AUTH_REQUEST (msgId s + 1) (- 1), Auth m d)"
    unfolding req_def by (rule auth_of_request [OF m d])
  then have peer: "t_peer (tr s) (t_sent (tr s) @ [req]) = Inr (reply_header (msgId s + 1) AUTH_RESPONSE NO_ERROR_STATUS @ ?rest)"
    using at sv by (simp add: authenticating_def serves_sasl_def sent_header_def)
  have "exchange tf ?ctx AUTH_REQUEST (seq (wr (writeArray m)) (wr (writeArray d))) ?s = (Inr NO_ERROR_STATUS, exchanged ?s req ?rest)"
    using exchange_run [of ?s AUTH_REQUEST AUTH_RESPONSE "seq (wr (writeArray m)) (wr (writeArray d))" "writeArray m @ writeArray d" ?ctx
        NO_ERROR_STATUS ?rest tf] at peer
    by (simp add: authenticating_def quiet_def inp_of_def req_def seq_run wr_run add_out_def)
  moreover have "rd readByte (exchanged ?s req ?rest) = (Inr (if fin then 1 else 0), exchanged ?s req (writeArray ch))"
    using rd_byte [of "exchanged ?s req ?rest" "if fin then 1 else 0" "writeArray ch"] by simp
  ultimately have "AuthOperation tf ?ctx m d ?s = (Inr (if fin then [] else ch), exchanged ?s req [])"
    using rd_array_last [OF ch, of ?s req] by (auto simp: AuthOperation_def bind_run ret_run)
  then have "sasl_send tf c m d s = (Inr (challenge srv (rs @ [(m, d)])), (exchanged ?s req [])\<lparr>topo := topo s\<rparr>)"
    using sv by (simp add: sasl_send_def own_topology_def challenge_def)
  moreover have "authenticating mechs srv (rs @ [(m, d)]) ((exchanged ?s req [])\<lparr>topo := topo s\<rparr>)"
    using at of by (simp add: authenticating_def quiet_def inp_of_def exchanged_def auth_responses_snoc)
  ultimately show ?thesis by blast
qed

lemma mechs_run:
  assumes at: "authenticating mechs srv rs s" and mechs: "list_all (\<lambda>m. length m < 2 ^ 32) mechs" "length mechs < 2 ^ 31"
  shows "\<exists>s'. own_topology (AuthMechListOperation tf (sasl_ctx c)) s = (Inr mechs, s') \<and> authenticating mechs srv rs s'"
proof -
  let ?s = "s\<lparr>topo := DEFAULT_CACHE_TOPOLOGY\<rparr>" and ?ctx = "sasl_ctx c"
  define req where "req = request_bytes ?ctx AUTH_MECH_LIST_REQUEST AUTH_MECH_LIST_RESPONSE (msgId s + 1) (- 1) []"
  let ?rest = "writeVInt (of_nat (length mechs)) @ concat (map writeString mechs)"
  have of: "auth_of req = Some (sent_header ?ctx AUTH_MECH_LIST_REQUEST (msgId s + 1) (- 1), MechList)"
    unfolding req_def by (rule auth_of_mechs)
  then have peer: "t_peer (tr s) (t_sent (tr s) @ [req])
      = Inr (reply_header (msgId s + 1) AUTH_MECH_LIST_RESPONSE NO_ERROR_STATUS @ ?rest)"
    using at by (simp add: authenticating_def serves_sasl_def sent_header_def)
  have "exchange tf ?ctx AUTH_MECH_LIST_REQUEST (ret ()) ?s = (Inr NO_ERROR_STATUS, exchanged ?s req ?rest)"
    using exchange_run [of ?s AUTH_MECH_LIST_REQUEST AUTH_MECH_LIST_RESPONSE "ret ()" "[]" ?ctx NO_ERROR_STATUS ?rest tf] at peer
    by (simp add: authenticating_def quiet_def inp_of_def req_def ret_run add_out_def)
  moreover have "rd readVInt (exchanged ?s req ?rest) = (Inr (of_nat (length mechs)), exchanged ?s req (concat (map writeString mechs)))"
    using vint.rd_dec [of "exchanged ?s req ?rest" "of_nat (length mechs)" "concat (map writeString mechs)"] by simp
  moreover have "rd (repeat_sm (length mechs) readString) (exchanged ?s req (concat (map writeString mechs))) = (Inr mechs, exchanged ?s req [])"
    using rd_Inr [of "repeat_sm (length mechs) readString" "exchanged ?s req (concat (map writeString mechs))" mechs "[]"]
      str.dec_repeat [OF mechs(1), of "t_inp (tr (exchanged ?s req (concat (map writeString mechs))))" "[]"]
    by (simp add: exchanged_def with_inp_def)
  moreover have "sint (word_of_int (int (length mechs)) :: u32) = int (length mechs)"
    using mechs(2) by (simp only: sint_sbintrunc') (rule signed_take_bit_int_eq_self, simp_all)
  then have "nat (sint (of_nat (length mechs) :: u32)) = length mechs" by simp
  ultimately have "AuthMechListOperation tf ?ctx ?s = (Inr mechs, exchanged ?s req [])"
    by (simp add: AuthMechListOperation_def bind_run)
  then have "own_topology (AuthMechListOperation tf ?ctx) s = (Inr mechs, (exchanged ?s req [])\<lparr>topo := topo s\<rparr>)"
    by (simp add: own_topology_def)
  moreover have "authenticating mechs srv rs ((exchanged ?s req [])\<lparr>topo := topo s\<rparr>)"
    using at of by (simp add: authenticating_def quiet_def inp_of_def exchanged_def auth_responses_snoc)
  ultimately show ?thesis by blast
qed

text \<open>What the library is relied on for: its responses fit a length field.\<close>

definition lib_ok :: "'c sasl_lib \<Rightarrow> bool" where
  "lib_ok lib \<longleftrightarrow> (\<forall>conn bs r out conn'. sasl_client_step lib conn bs = (r, out, conn') \<longrightarrow>
     (case out of None \<Rightarrow> True | Some d \<Rightarrow> length d < 2 ^ 32))"

lemma sasl_loop_run:
  assumes "authenticating mechs srv rs s" "dialogue n lib srv mech r conn data rs = Some (r', rs')" "respOp = challenge srv rs"
    and "lib_ok lib" "length mech < 2 ^ 32" "length data < 2 ^ 32" "\<And>rs. length (snd (srv rs)) < 2 ^ 32"
  shows "\<exists>s'. sasl_loop n tf c lib mech r conn respOp data s = (Inr r', s') \<and> authenticating mechs srv rs' s'"
  using assms
proof (induction n arbitrary: r conn respOp data rs s)
  case (Suc n)
  show ?case
  proof (cases "r = SASL_CONTINUE")
    case False
    then show ?thesis using Suc.prems by (auto simp: ret_run)
  next
    case True
    obtain r1 out conn1 where step: "sasl_client_step lib conn (challenge srv rs) = (r1, out, conn1)" by (metis prod_cases3)
    define d where "d = (case out of None \<Rightarrow> data | Some d \<Rightarrow> d)"
    have d: "length d < 2 ^ 32"
      using Suc.prems(4,6) step unfolding lib_ok_def d_def by (fastforce split: option.splits)
    from sasl_send_run [OF Suc.prems(1,5) d Suc.prems(7), of tf c] obtain s1
      where s1: "sasl_send tf c mech d s = (Inr (challenge srv (rs @ [(mech, d)])), s1)" "authenticating mechs srv (rs @ [(mech, d)]) s1"
      by blast
    have "dialogue n lib srv mech r1 conn1 d (rs @ [(mech, d)]) = Some (r', rs')"
      using Suc.prems(2) True step by (simp add: d_def Let_def)
    from Suc.IH [OF s1(2) this refl Suc.prems(4,5) d Suc.prems(7)] s1(1) show ?thesis
      using True step Suc.prems(3) by (simp add: d_def Let_def)
  qed
qed simp


text \<open>A mechanism with a challenge: the library answers it with its bytes reversed, and the server is then content.\<close>

definition example_lib :: "nat sasl_lib" where
  "example_lib = \<lparr>sasl_client_new = (\<lambda>_. (SASL_OK, 0)), sasl_client_start = (\<lambda>n m. (SASL_CONTINUE, Some m, Some [7], n + 1)),
     sasl_client_step = (\<lambda>n c. (if n = 1 then SASL_CONTINUE else SASL_OK, Some (take 100 (rev c)), n + 1))\<rparr>"

definition example_sasl_server :: "(bytes \<times> bytes) list \<Rightarrow> bool \<times> bytes" where
  "example_sasl_server rs = (if length rs < 2 then (False, [1, 2]) else (True, []))"

definition sasl_peer :: "bytes list \<Rightarrow> exn + bytes" where
  "sasl_peer h =
    (case auth_of (last h) of
       None \<Rightarrow> Inr []
     | Some (rh, MechList) \<Rightarrow> Inr (reply_header (rq_messageId rh) AUTH_MECH_LIST_RESPONSE NO_ERROR_STATUS @ writeVInt 0)
     | Some (rh, Auth m r) \<Rightarrow> (case example_sasl_server (auth_responses (butlast h) @ [(m, r)]) of (done, ch) \<Rightarrow>
         Inr (reply_header (rq_messageId rh) AUTH_RESPONSE NO_ERROR_STATUS @ [if done then 1 else 0] @ writeArray ch)))"


end
