(* ===== verification/HR_Manager.thy ===== *)
theory HR_Manager
  imports HR_Configuration HR_Listeners
begin

text \<open>
  \<open>impl/RemoteCacheManagerImpl.cpp\<close>, \<open>RemoteCacheManager.h\<close> and \<open>api/RemoteCacheManager.cpp\<close>: the life cycle of a client,
  the caches it hands out and the one transport factory they share. A shared pointer to a cache is
  an index into the objects of the manager; transport factories are numbered as they are made, so
  that a cache knows which one its operations factory was made with. A new transport factory works on the
  network the old one worked on.
\<close>

section \<open>State\<close>

record cache_impl =
  ci_name :: string
  ci_near :: "near_config option"
  ci_factory :: "nat option"
  ci_force :: bool
  ci_topo :: u32
  ci_flags :: u32
  ci_local :: near_local

record manager =
  mg_started :: bool
  mg_codec :: "codec option"
  mg_factory :: "(nat \<times> tfactory) option"
  mg_made :: nat
  mg_world :: world
  mg_notifier :: "notifier option"
  mg_counters :: "nat option"
  mg_objs :: "nat \<Rightarrow> cache_impl option"
  mg_next :: nat
  mg_caches :: "(string, nat) smap"

text \<open>
  What a manager is made from: the configuration, the network, the fuel of the pool and of the retry
  loop, and how the near cache of a name is registered at the server.
\<close>

record manager_env =
  me_config :: configuration
  me_net :: network
  me_fuel :: nat
  me_retries :: nat
  me_near :: "near_settings \<Rightarrow> string \<Rightarrow> near_config"

definition RemoteCacheManagerImpl :: "world \<Rightarrow> manager" where
  "RemoteCacheManagerImpl w =
    \<lparr>mg_started = False, mg_codec = None, mg_factory = None, mg_made = 0, mg_world = w, mg_notifier = None, mg_counters = None,
     mg_objs = Map.empty, mg_next = 0, mg_caches = []\<rparr>"

definition codec_for :: "manager_env \<Rightarrow> codec option" where
  "codec_for E = getCodec (protocolVersionName (me_config E))"

definition factory_config :: "manager_env \<Rightarrow> codec \<Rightarrow> tf_config" where
  "factory_config E c = tf_config_of (me_net E) (me_fuel E) c (me_config E)"

definition cache_config :: "manager_env \<Rightarrow> codec \<Rightarrow> cache_impl \<Rightarrow> rc_config" where
  "cache_config E c i = \<lparr>rc_tf = factory_config E c, rc_name = ascii (ci_name i), rc_force = ci_force i,
     rc_dataFormat = None, rc_fuel = me_retries E\<rparr>"

text \<open>Following a pointer that may be null.\<close>

definition deref :: "string \<Rightarrow> 'a option \<Rightarrow> ('s, 'a) sm" where
  "deref what p = (case p of None \<Rightarrow> raise (UndefinedBehaviour what) | Some x \<Rightarrow> ret x)"

definition on_factory :: "(tfactory, 'a) sm \<Rightarrow> (manager, 'a) sm" where
  "on_factory m s =
    (case mg_factory s of
       None \<Rightarrow> (Inl (UndefinedBehaviour ''transportFactory''), s)
     | Some (g, f) \<Rightarrow> (case m f of (r, f') \<Rightarrow> (r, s\<lparr>mg_factory := Some (g, f')\<rparr>)))"

section \<open>Calls on a cache\<close>

text \<open>
  A cache as the calls see it: its own flags, topology and near entries, the shared transport factory and whether the manager
  is started. While the manager is not started no call gets past \<open>assertRemoteCacheManagerIsStarted\<close>, and the factory in
  the view is not used.
\<close>

definition cache_view :: "bool \<Rightarrow> tfactory \<Rightarrow> cache_impl \<Rightarrow> near" where
  "cache_view started f c =
    \<lparr>nc_rc = \<lparr>rc_client = \<lparr>cl_fac = f, cl_topo = ci_topo c\<rparr>, rc_flags = ci_flags c, rc_started = started\<rparr>, nc_local = ci_local c\<rparr>"

definition store_view :: "near \<Rightarrow> cache_impl \<Rightarrow> cache_impl" where
  "store_view n c = c\<lparr>ci_topo := cl_topo (rc_client (nc_rc n)), ci_flags := rc_flags (nc_rc n), ci_local := nc_local n\<rparr>"

definition on_cache :: "nat \<Rightarrow> (near, 'a) sm \<Rightarrow> (manager, 'a) sm" where
  "on_cache i m s =
    (case mg_objs s i of
       None \<Rightarrow> (Inl (UndefinedBehaviour ''cache''), s)
     | Some c \<Rightarrow>
         (case mg_factory s of
            Some (g, f) \<Rightarrow>
              if ci_factory c = Some g
              then (case m (cache_view (mg_started s) f c) of (r, n) \<Rightarrow>
                     (r, s\<lparr>mg_factory := Some (g, cl_fac (rc_client (nc_rc n))), mg_objs := (mg_objs s)(i \<mapsto> store_view n c)\<rparr>))
              else if mg_started s then (Inl (UndefinedBehaviour ''operations factory of another transport factory''), s)
              else (case m (cache_view False f c) of (r, n) \<Rightarrow> (r, s\<lparr>mg_objs := (mg_objs s)(i \<mapsto> store_view n c)\<rparr>))
          | None \<Rightarrow>
              if mg_started s then (Inl (UndefinedBehaviour ''transportFactory''), s)
              else (case m (cache_view False (TransportFactory (mg_world s)) c) of (r, n) \<Rightarrow>
                     (r, s\<lparr>mg_objs := (mg_objs s)(i \<mapsto> store_view n c)\<rparr>))))"

definition on_obj :: "nat \<Rightarrow> (cache_impl \<Rightarrow> cache_impl) \<Rightarrow> (manager, unit) sm" where
  "on_obj i f = modify (\<lambda>s. s\<lparr>mg_objs := (mg_objs s)(i := map_option f (mg_objs s i))\<rparr>)"

definition the_obj :: "nat \<Rightarrow> (manager, cache_impl) sm" where
  "the_obj i = bind (gets (\<lambda>s. mg_objs s i)) (deref ''cache'')"

section \<open>Starting and stopping a cache\<close>

text \<open>The constructor of \<open>OperationsFactory\<close> asks a transport factory that is there for the topology of the cache.\<close>

definition new_operations_factory :: "string \<Rightarrow> (manager, nat option \<times> u32) sm" where
  "new_operations_factory name =
    bind (gets mg_factory) (\<lambda>fac.
    case fac of
      None \<Rightarrow> ret (None, - 1)
    | Some (g, _) \<Rightarrow> bind (on_factory (on_ti (createTopologyId (ascii name) (- 1)))) (\<lambda>t. ret (Some g, t)))"

definition startRemoteCache :: "manager_env \<Rightarrow> nat \<Rightarrow> bool \<Rightarrow> (manager, unit) sm" where
  "startRemoteCache E i frv =
    bind (the_obj i) (\<lambda>c.
    bind (deref ''codec'' (codec_for E)) (\<lambda>codec.
    bind (new_operations_factory (ci_name c)) (\<lambda>(g, t).
    seq (on_obj i (\<lambda>c. c\<lparr>ci_factory := g, ci_topo := t, ci_flags := 0, ci_force := frv\<rparr>))
        (case ci_near c of
           None \<Rightarrow> ret ()
         | Some N \<Rightarrow> bind (gets mg_notifier) (\<lambda>n. bind (deref ''listenerNotifier'' n) (\<lambda>_. on_cache i (startListener N)))))))"

definition stopRemoteCache :: "nat \<Rightarrow> (manager, unit) sm" where
  "stopRemoteCache i =
    bind (the_obj i) (\<lambda>c. case ci_near c of None \<Rightarrow> ret () | Some N \<Rightarrow> on_cache i (near_stop N))"

section \<open>The counters of the manager\<close>

definition rcm_start :: "(manager, unit) sm" where
  "rcm_start =
    bind (gets mg_factory) (\<lambda>fac.
    bind (deref ''transportFactory'' fac) (\<lambda>(g, _).
    seq (modify (\<lambda>s. s\<lparr>mg_counters := Some g\<rparr>))
        (bind (on_factory (on_ti (createTopologyId (ascii ''org.infinispan.counter'') (- 1)))) (\<lambda>_. ret ()))))"

definition rcm_stop :: "(manager, unit) sm" where
  "rcm_stop = modify (\<lambda>s. s\<lparr>mg_counters := None\<rparr>)"

section \<open>Start and stop\<close>

definition new_factory :: "(manager, unit) sm" where
  "new_factory = modify (\<lambda>s. s\<lparr>mg_factory := Some (mg_made s, TransportFactory
     (case mg_factory s of None \<Rightarrow> mg_world s | Some (_, f) \<Rightarrow> world (cpool f))), mg_made := mg_made s + 1\<rparr>)"

definition manager_start :: "manager_env \<Rightarrow> (manager, unit) sm" where
  "manager_start E =
    seq (modify (\<lambda>s. s\<lparr>mg_codec := codec_for E\<rparr>))
    (bind (gets mg_started) (\<lambda>started.
     if started then ret ()
     else seq new_factory
         (seq (modify (\<lambda>s. s\<lparr>mg_notifier := Some []\<rparr>))
         (bind (deref ''codec'' (codec_for E)) (\<lambda>codec.
          seq (on_factory (start (factory_config E codec)))
         (bind (gets mg_caches) (\<lambda>caches.
          seq (for_each caches (\<lambda>(_, i). bind (the_obj i) (\<lambda>c. startRemoteCache E i (ci_force c))))
         (seq rcm_start
              (modify (\<lambda>s. s\<lparr>mg_started := True\<rparr>))))))))))"

definition manager_stop :: "manager_env \<Rightarrow> (manager, unit) sm" where
  "manager_stop E =
    bind (gets mg_started) (\<lambda>started.
    if \<not> started then ret ()
    else bind (gets mg_caches) (\<lambda>caches.
         seq (for_each caches (\<lambda>(_, i). stopRemoteCache i))
        (seq rcm_stop
        (bind (gets mg_notifier) (\<lambda>n.
         seq (case n of None \<Rightarrow> ret () | Some n \<Rightarrow> on_factory (notifier_stop n))
        (bind (deref ''codec'' (codec_for E)) (\<lambda>codec.
         seq (on_factory (tf_destroy (factory_config E codec)))
             (modify (\<lambda>s. s\<lparr>mg_started := False\<rparr>)))))))))"

section \<open>Caches\<close>

definition cache_key :: "string \<Rightarrow> bool \<Rightarrow> string" where
  "cache_key name frv = (if frv then name @ ''/true'' else name @ ''/false'')"

definition new_cache :: "manager_env \<Rightarrow> string \<Rightarrow> near_settings \<Rightarrow> (manager, nat) sm" where
  "new_cache E name nc =
    bind (gets mg_next) (\<lambda>i.
    seq (modify (\<lambda>s. s\<lparr>mg_next := i + 1, mg_objs := (mg_objs s)(i \<mapsto>
          \<lparr>ci_name = name, ci_near = (if nm_mode nc = DISABLED then None else Some (me_near E nc name)), ci_factory = None,
           ci_force = False, ci_topo = - 1, ci_flags = 0, ci_local = NearRemoteCacheImpl\<rparr>)\<rparr>))
        (ret i))"

definition manager_ping :: "manager_env \<Rightarrow> nat \<Rightarrow> (manager, ping_result) sm" where
  "manager_ping E i =
    bind (gets mg_factory) (\<lambda>fac.
    case fac of
      None \<Rightarrow> ret FAIL
    | Some _ \<Rightarrow>
        bind (the_obj i) (\<lambda>c.
        bind (deref ''codec'' (codec_for E)) (\<lambda>codec.
        on_cache i (on_rc (impl_ping (cache_config E codec c))))))"

text \<open>The result is the pointer to the cache, \<open>None\<close> for null.\<close>

definition createRemoteCache :: "manager_env \<Rightarrow> string \<Rightarrow> bool \<Rightarrow> near_settings \<Rightarrow> (manager, nat option) sm" where
  "createRemoteCache E name frv nc =
    bind (gets (\<lambda>s. map_of (mg_caches s) (cache_key name frv))) (\<lambda>known.
    case known of
      Some i \<Rightarrow> ret (Some i)
    | None \<Rightarrow>
        bind (new_cache E name nc) (\<lambda>i.
        seq (startRemoteCache E i frv)
        (bind (if name \<noteq> [] then manager_ping E i else ret SUCCESS) (\<lambda>ping.
         if ping = CACHE_DOES_NOT_EXIST then ret None
         else seq (modify (\<lambda>s. s\<lparr>mg_caches := smap_put (cache_key name frv) i (mg_caches s)\<rparr>)) (ret (Some i))))))"

definition manager_clusterSwitch :: "manager_env \<Rightarrow> (manager, bool) sm" where
  "manager_clusterSwitch E =
    bind (deref ''codec'' (codec_for E)) (\<lambda>codec. on_factory (clusterSwitch (factory_config E codec)))"

definition manager_clusterSwitchTo :: "manager_env \<Rightarrow> string \<Rightarrow> (manager, bool) sm" where
  "manager_clusterSwitchTo E name =
    bind (deref ''codec'' (codec_for E)) (\<lambda>codec. on_factory (clusterSwitchTo (factory_config E codec) name))"

definition switchToDefaultCluster :: "manager_env \<Rightarrow> (manager, bool) sm" where
  "switchToDefaultCluster E = manager_clusterSwitchTo E DEFAULT_CLUSTER_NAME"

text \<open>\<open>RemoteCacheBase::putScript\<close>: the script goes to a cache of its own, in the data format of the cache the call is on.\<close>

definition putScript :: "manager_env \<Rightarrow> entry_media_types option \<Rightarrow> bytes \<Rightarrow> bytes \<Rightarrow> (manager, unit) sm" where
  "putScript E df name script =
    bind (createRemoteCache E ''___script_cache'' False NearCacheConfiguration) (\<lambda>rcImpl.
    bind (deref ''rcImpl'' rcImpl) (\<lambda>i.
    bind (the_obj i) (\<lambda>c.
    bind (deref ''codec'' (codec_for E)) (\<lambda>codec.
    bind (on_cache i (on_rc (putraw ((cache_config E codec c)\<lparr>rc_dataFormat := df\<rparr>) name script 0 0))) (\<lambda>_. ret ())))))"

section \<open>RemoteCacheManager\<close>

text \<open>
  The manager of the application: it keeps a \<open>RemoteCache\<close> object per key, whose member \<open>impl\<close> is the
  pointer \<open>createRemoteCache\<close> returned. The object that is there is handed out again, and every call sets its
  marshallers: those of the types, or the ones given by their addresses.
\<close>

datatype marshaller_pair = BasicMarshallers | GivenMarshallers nat nat

record remote_cache_obj =
  impl :: "nat option"
  obj_marshallers :: marshaller_pair

record cache_manager =
  rm_impl :: manager
  remoteCacheMap :: "(string, remote_cache_obj) smap"

definition on_impl :: "(manager, 'a) sm \<Rightarrow> (cache_manager, 'a) sm" where
  "on_impl m = on_part rm_impl (\<lambda>x s. s\<lparr>rm_impl := x\<rparr>) m"

text \<open>A name goes to the implementation as a C string, which ends at the first zero.\<close>

definition c_str :: "string \<Rightarrow> string" where
  "c_str name = takeWhile (\<lambda>c. c \<noteq> CHR 0x00) name"

definition initCache :: "manager_env \<Rightarrow> string \<Rightarrow> bool \<Rightarrow> near_settings \<Rightarrow> (cache_manager, nat option) sm" where
  "initCache E name frv nc = on_impl (createRemoteCache E (c_str name) frv nc)"

definition lookup_or_init ::
  "manager_env \<Rightarrow> string \<Rightarrow> bool \<Rightarrow> near_settings \<Rightarrow> marshaller_pair \<Rightarrow> (cache_manager, nat option) sm" where
  "lookup_or_init E name frv nc mm =
    (let key = cache_key name frv in
     bind (gets (\<lambda>s. map_of (remoteCacheMap s) key)) (\<lambda>known.
     bind (case known of
             Some obj \<Rightarrow> ret (impl obj)
           | None \<Rightarrow> initCache E name frv nc) (\<lambda>i.
     seq (modify (\<lambda>s. s\<lparr>remoteCacheMap := smap_put key \<lparr>impl = i, obj_marshallers = mm\<rparr> (remoteCacheMap s)\<rparr>)) (ret i))))"

text \<open>
  The versions of \<open>getCache\<close>: the one for a name without marshallers does not pass the near cache
  configuration on.
\<close>

definition getCache_default :: "manager_env \<Rightarrow> bool \<Rightarrow> (cache_manager, nat option) sm" where
  "getCache_default E force = lookup_or_init E [] force (nearCacheConfiguration (me_config E)) BasicMarshallers"

definition getCache :: "manager_env \<Rightarrow> (cache_manager, nat option) sm" where
  "getCache E = getCache_default E (forceReturnValue (me_config E))"

definition getCache_named :: "manager_env \<Rightarrow> string \<Rightarrow> bool \<Rightarrow> (cache_manager, nat option) sm" where
  "getCache_named E name force = lookup_or_init E name force NearCacheConfiguration BasicMarshallers"

definition getCache_plain :: "manager_env \<Rightarrow> string \<Rightarrow> (cache_manager, nat option) sm" where
  "getCache_plain E name = getCache_named E name (forceReturnValue (me_config E))"

definition getCache_default_marshallers :: "manager_env \<Rightarrow> nat \<Rightarrow> nat \<Rightarrow> bool \<Rightarrow> (cache_manager, nat option) sm" where
  "getCache_default_marshallers E km vm force =
    lookup_or_init E [] force (nearCacheConfiguration (me_config E)) (GivenMarshallers km vm)"

definition getCache_marshallers :: "manager_env \<Rightarrow> nat \<Rightarrow> nat \<Rightarrow> string \<Rightarrow> bool \<Rightarrow> (cache_manager, nat option) sm" where
  "getCache_marshallers E km vm name force =
    lookup_or_init E name force (nearCacheConfiguration (me_config E)) (GivenMarshallers km vm)"

definition getCache_marshallers_plain :: "manager_env \<Rightarrow> nat \<Rightarrow> nat \<Rightarrow> (cache_manager, nat option) sm" where
  "getCache_marshallers_plain E km vm = getCache_default_marshallers E km vm (forceReturnValue (me_config E))"

definition getCache_marshallers_named :: "manager_env \<Rightarrow> nat \<Rightarrow> nat \<Rightarrow> string \<Rightarrow> (cache_manager, nat option) sm" where
  "getCache_marshallers_named E km vm name = getCache_marshallers E km vm name (forceReturnValue (me_config E))"

definition removeFromMap :: "string \<Rightarrow> (cache_manager, unit) sm" where
  "removeFromMap name = modify (\<lambda>s. s\<lparr>remoteCacheMap :=
     smap_erase (cache_key name True) (smap_erase (cache_key name False) (remoteCacheMap s))\<rparr>)"

section \<open>Administration\<close>

text \<open>
  \<open>api/RemoteCacheManagerAdmin.cpp\<close>. The operations factory of the administration has the empty cache name; it asks for
  the topology when it is made. Parameters are a \<open>std::map\<close> in the order of their names. \<open>AdminFlag\<close> has one
  value, so a set of flags is whether it has \<open>PERMANENT\<close>.
\<close>

record admin =
  ad_factory :: "nat option"
  ad_codec :: codec
  ad_permanent :: bool

definition newRemoteCacheManagerAdmin :: "(cache_manager, admin) sm" where
  "newRemoteCacheManagerAdmin =
    bind (on_impl (gets mg_codec)) (\<lambda>c.
    bind (deref ''codec'' c) (\<lambda>codec.
    bind (on_impl (new_operations_factory [])) (\<lambda>(g, _).
    ret \<lparr>ad_factory = g, ad_codec = codec, ad_permanent = False\<rparr>)))"

definition flags2Params :: "admin \<Rightarrow> string" where
  "flags2Params a = (if ad_permanent a then ''PERMANENT'' else [])"

definition executeAdminOperation ::
  "manager_env \<Rightarrow> admin \<Rightarrow> string \<Rightarrow> (string, string) smap \<Rightarrow> (cache_manager, bytes) sm" where
  "executeAdminOperation E a adminCmd param =
    (let cfg = \<lparr>rc_tf = factory_config E (ad_codec a), rc_name = [], rc_force = False, rc_dataFormat = None, rc_fuel = me_retries E\<rparr>;
         args = fold (\<lambda>(k, v). smap_put (ascii k) (ascii v)) param [] in
     bind (gets (\<lambda>s. mg_factory (rm_impl s))) (\<lambda>fac.
     if Option.is_none fac \<or> ad_factory a \<noteq> map_option fst fac then raise (UndefinedBehaviour ''transportFactory'')
     else on_impl (on_factory (\<lambda>f.
       case bind (newAdminOperation cfg (ascii adminCmd) args) (run cfg)
              \<lparr>rc_client = \<lparr>cl_fac = f, cl_topo = - 1\<rparr>, rc_flags = 0, rc_started = True\<rparr> of
         (r, s) \<Rightarrow> (r, cl_fac (rc_client s))))))"

definition createCache :: "manager_env \<Rightarrow> admin \<Rightarrow> string \<Rightarrow> string \<Rightarrow> string \<Rightarrow> (cache_manager, unit) sm" where
  "createCache E a name model command =
    (let params = smap_put ''name'' name [];
         params = (if model \<noteq> [] then smap_put ''template'' model params else params);
         params = (if ad_permanent a then smap_put ''flags'' (flags2Params a) params else params) in
     bind (executeAdminOperation E a command params) (\<lambda>_. ret ()))"

definition createCacheWithXml :: "manager_env \<Rightarrow> admin \<Rightarrow> string \<Rightarrow> string \<Rightarrow> string \<Rightarrow> (cache_manager, unit) sm" where
  "createCacheWithXml E a name conf command =
    (let params = smap_put ''name'' name [];
         params = (if conf \<noteq> [] then smap_put ''configuration'' conf params else params);
         params = (if ad_permanent a then smap_put ''flags'' (flags2Params a) params else params) in
     bind (executeAdminOperation E a command params) (\<lambda>_. ret ()))"

definition admin_createCache :: "manager_env \<Rightarrow> admin \<Rightarrow> string \<Rightarrow> string \<Rightarrow> (cache_manager, nat option) sm" where
  "admin_createCache E a name model = seq (createCache E a name model ''@@cache@create'') (getCache_plain E name)"

definition admin_createCacheWithXml :: "manager_env \<Rightarrow> admin \<Rightarrow> string \<Rightarrow> string \<Rightarrow> (cache_manager, nat option) sm" where
  "admin_createCacheWithXml E a name conf = seq (createCacheWithXml E a name conf ''@@cache@create'') (getCache_plain E name)"

definition getOrCreateCache :: "manager_env \<Rightarrow> admin \<Rightarrow> string \<Rightarrow> string \<Rightarrow> (cache_manager, nat option) sm" where
  "getOrCreateCache E a name model = seq (createCache E a name model ''@@cache@getorcreate'') (getCache_plain E name)"

definition getOrCreateCacheWithXml :: "manager_env \<Rightarrow> admin \<Rightarrow> string \<Rightarrow> string \<Rightarrow> (cache_manager, nat option) sm" where
  "getOrCreateCacheWithXml E a name conf = seq (createCacheWithXml E a name conf ''@@cache@getorcreate'') (getCache_plain E name)"

definition removeCache :: "manager_env \<Rightarrow> admin \<Rightarrow> string \<Rightarrow> (cache_manager, unit) sm" where
  "removeCache E a name =
    seq (removeFromMap name)
    (let params = smap_put ''name'' name [];
         params = (if ad_permanent a then smap_put ''flags'' (flags2Params a) params else params) in
     bind (executeAdminOperation E a ''@@cache@remove'' params) (\<lambda>_. ret ()))"

definition reindexCache :: "manager_env \<Rightarrow> admin \<Rightarrow> string \<Rightarrow> (cache_manager, unit) sm" where
  "reindexCache E a name = bind (executeAdminOperation E a ''@@cache@reindex'' (smap_put ''name'' name [])) (\<lambda>_. ret ())"

definition admin_withFlags :: "bool \<Rightarrow> admin \<Rightarrow> admin" where
  "admin_withFlags permanent a = a\<lparr>ad_permanent := permanent\<rparr>"

lemma dropWhile_shorter: "dropWhile P xs = y # ys \<Longrightarrow> length ys < length xs"
  using length_dropWhile_le [of P xs] by simp

text \<open>
  The names in an array of strings: everything between two quotes that is not empty. When a quote has
  no second one the iterator is moved past the end.
\<close>

abbreviation (input) QUOTE :: byte where "QUOTE \<equiv> 0x22"

function digest_names :: "bytes \<Rightarrow> exn + bytes set" where
  "digest_names bs =
    (case dropWhile (\<lambda>b. b \<noteq> QUOTE) bs of
       [] \<Rightarrow> Inr {}
     | _ # found_begin \<Rightarrow>
         let s = takeWhile (\<lambda>b. b \<noteq> QUOTE) found_begin in
         (case dropWhile (\<lambda>b. b \<noteq> QUOTE) found_begin of
            [] \<Rightarrow> Inl (UndefinedBehaviour ''found_end++'')
          | _ # rest \<Rightarrow>
              (case digest_names rest of
                 Inl e \<Rightarrow> Inl e
               | Inr names \<Rightarrow> Inr (if s \<noteq> [] then insert s names else names))))"
  by auto

termination digest_names
proof (relation "measure length", simp, simp)
  fix bs x found_begin s y rest
  assume "dropWhile (\<lambda>b. b \<noteq> QUOTE) bs = x # found_begin" "dropWhile (\<lambda>b. b \<noteq> QUOTE) found_begin = y # rest"
  from this [THEN dropWhile_shorter] show "length rest < length (bs :: bytes)" by linarith
qed

definition getCacheNames :: "manager_env \<Rightarrow> admin \<Rightarrow> (cache_manager, bytes set) sm" where
  "getCacheNames E a =
    bind (executeAdminOperation E a ''@@cache@names'' []) (\<lambda>json.
    case digest_names json of Inl e \<Rightarrow> raise e | Inr names \<Rightarrow> ret names)"

end
