(* ===== verification/HR_Manager_Correct.thy ===== *)
theory HR_Manager_Correct
  imports HR_Manager HR_RemoteCache_Correct
begin

text \<open>
  The life cycle of a client: whatever is called and whatever fails, every cache of a started manager works on
  its transport factory, so that the calls on it are the calls of the remote cache implementation.
\<close>

section \<open>Keys\<close>

lemma cache_key_inj [simp]: "cache_key n f = cache_key n' f' \<longleftrightarrow> n = n' \<and> f = f'"
proof -
  have "n @ ''/true'' \<noteq> n' @ ''/false''" for n n'
  proof
    assume "n @ ''/true'' = n' @ ''/false''"
    then have "rev (n @ ''/true'') = rev (n' @ ''/false'')" by simp
    then show False by simp
  qed
  then show ?thesis by (auto simp: cache_key_def dest: sym)
qed

section \<open>What calls leave alone\<close>

text \<open>The part of the state that only the manager itself changes.\<close>

record skeleton =
  sk_started :: bool
  sk_caches :: "(string, nat) smap"
  sk_next :: nat
  sk_made :: nat
  sk_factory :: "nat option"
  sk_objs :: "nat \<Rightarrow> (string \<times> nat option \<times> bool) option"

definition skel :: "manager \<Rightarrow> skeleton" where
  "skel s = \<lparr>sk_started = mg_started s, sk_caches = mg_caches s, sk_next = mg_next s, sk_made = mg_made s,
     sk_factory = map_option fst (mg_factory s),
     sk_objs = (\<lambda>i. map_option (\<lambda>c. (ci_name c, ci_factory c, ci_force c)) (mg_objs s i))\<rparr>"

definition calm :: "(manager, 'a) sm \<Rightarrow> bool" where
  "calm m \<longleftrightarrow> (\<forall>s. skel (snd (m s)) = skel s)"

lemma calm_bind: "calm m \<Longrightarrow> (\<And>x. calm (f x)) \<Longrightarrow> calm (bind m f)"
  unfolding calm_def bind_run by (auto split: prod.splits sum.splits) (metis snd_conv)+

lemma calm_seq: "calm m \<Longrightarrow> calm k \<Longrightarrow> calm (seq m k)"
  unfolding seq_def by (rule calm_bind)

lemma calm_basic [simp]:
  "calm (ret x)" "calm (raise e)" "calm (gets g)" "calm (deref what p)" "calm (the_obj i)" "calm rcm_stop"
  "calm (modify (\<lambda>s. s\<lparr>mg_counters := n\<rparr>))" "calm (modify (\<lambda>s. s\<lparr>mg_notifier := k\<rparr>))" "calm (modify (\<lambda>s. s\<lparr>mg_codec := c\<rparr>))"
  by (auto simp: calm_def sm_simps deref_def the_obj_def rcm_stop_def skel_def split: option.splits)

lemma calm_on_factory [simp]: "calm (on_factory m)"
  by (auto simp: calm_def on_factory_def skel_def split: option.splits prod.splits)

lemma calm_on_cache [simp]: "calm (on_cache i m)"
  by (auto simp: calm_def on_cache_def skel_def store_view_def fun_eq_iff split: option.splits prod.splits)

lemmas calm_rules = calm_bind calm_seq

lemma calm_if: "calm m \<Longrightarrow> calm k \<Longrightarrow> calm (if b then m else k)"
  by simp

lemma calm_new_operations_factory [simp]: "calm (new_operations_factory name)"
  unfolding new_operations_factory_def by (auto intro!: calm_rules split: option.split)

lemma calm_stopRemoteCache [simp]: "calm (stopRemoteCache i)"
  unfolding stopRemoteCache_def by (auto intro!: calm_rules split: option.split)

lemma calm_rcm_start [simp]: "calm rcm_start"
  unfolding rcm_start_def by (auto intro!: calm_rules)

lemma calm_manager_ping [simp]: "calm (manager_ping E i)"
  unfolding manager_ping_def by (auto intro!: calm_rules split: option.split)

lemma calm_for_each: "(\<And>x. calm (f x)) \<Longrightarrow> calm (for_each xs f)"
  by (induction xs) (auto intro!: calm_rules)

lemma calm_clusterSwitch [simp]: "calm (manager_clusterSwitch E)" "calm (manager_clusterSwitchTo E name)"
  unfolding manager_clusterSwitch_def manager_clusterSwitchTo_def by (auto intro!: calm_rules)

lemma skel_started [simp]: "skel (s\<lparr>mg_started := b\<rparr>) = (skel s)\<lparr>sk_started := b\<rparr>"
  by (simp add: skel_def)

lemma skel_caches [simp]: "skel (s\<lparr>mg_caches := c\<rparr>) = (skel s)\<lparr>sk_caches := c\<rparr>"
  by (simp add: skel_def)

lemma skel_parts: "mg_caches s = sk_caches (skel s)" "mg_started s = sk_started (skel s)"
  by (simp_all add: skel_def)

lemma calmD: "calm m \<Longrightarrow> m s = (r, s') \<Longrightarrow> skel s' = skel s"
  unfolding calm_def by (metis snd_conv)

text \<open>Starting a cache ties it to the transport factory there is.\<close>

definition attach :: "nat \<Rightarrow> bool \<Rightarrow> skeleton \<Rightarrow> skeleton" where
  "attach i frv k = k\<lparr>sk_objs := (sk_objs k)(i := map_option (\<lambda>(n, g, f). (n, sk_factory k, frv)) (sk_objs k i))\<rparr>"

lemma factory_of_new: "new_operations_factory name s = (Inr (g, t), s') \<Longrightarrow> g = map_option fst (mg_factory s)"
  by (auto simp: new_operations_factory_def sm_simps on_factory_def split: option.splits prod.splits sum.splits)

lemma startRemoteCache_skel:
  assumes "startRemoteCache E i frv s = (r, s')"
  shows "skel s' = skel s \<or> skel s' = attach i frv (skel s)"
    and "r = Inr () \<Longrightarrow> skel s' = attach i frv (skel s) \<and> mg_objs s i \<noteq> None"
proof -
  have "(skel s' = skel s \<and> r \<noteq> Inr ()) \<or> (skel s' = attach i frv (skel s) \<and> mg_objs s i \<noteq> None)"
  proof (cases "mg_objs s i")
    case None
    then show ?thesis using assms by (auto simp: startRemoteCache_def the_obj_def deref_def sm_simps)
  next
    case (Some c)
    then have c: "the_obj i s = (Inr c, s)" by (simp add: the_obj_def deref_def sm_simps)
    show ?thesis
    proof (cases "codec_for E")
      case None
      then show ?thesis using assms c by (auto simp: startRemoteCache_def deref_def raise_run bind_run)
    next
      case codec: (Some codec)
      obtain x s1 where n: "new_operations_factory (ci_name c) s = (x, s1)" by fastforce
      have s1: "skel s1 = skel s" using calmD [OF calm_new_operations_factory n] .
      show ?thesis
      proof (cases x)
        case (Inl e)
        then show ?thesis using assms c codec n s1 by (auto simp: startRemoteCache_def deref_def sm_simps)
      next
        case (Inr gt)
        obtain g t where gt: "gt = (g, t)" by (cases gt)
        define s2 where "s2 = snd (on_obj i (\<lambda>c. c\<lparr>ci_factory := g, ci_topo := t, ci_flags := 0, ci_force := frv\<rparr>) s1)"
        define rest where "rest = (case ci_near c of None \<Rightarrow> ret ()
          | Some N \<Rightarrow> bind (gets mg_notifier) (\<lambda>n. bind (deref ''listenerNotifier'' n) (\<lambda>_. on_cache i (startListener N))))"
        have "g = sk_factory (skel s)" using factory_of_new n Inr gt by (simp add: skel_def)
        then have s2: "skel s2 = attach i frv (skel s)"
          unfolding s1 [symmetric] s2_def
          by (auto simp: on_obj_def modify_run skel_def attach_def fun_eq_iff option.map_comp o_def)
        have "startRemoteCache E i frv s = rest s2"
          using c codec n Inr gt
          by (simp add: startRemoteCache_def deref_def ret_run rest_def s2_def on_obj_def modify_run seq_Inr)
        moreover have "calm rest" unfolding rest_def by (auto intro!: calm_rules split: option.split)
        ultimately have "skel s' = skel s2" using calmD assms by metis
        then show ?thesis using s2 Some by simp
      qed
    qed
  qed
  then show "skel s' = skel s \<or> skel s' = attach i frv (skel s)"
    "r = Inr () \<Longrightarrow> skel s' = attach i frv (skel s) \<and> mg_objs s i \<noteq> None" by auto
qed

text \<open>
  The loop of \<open>start\<close>: names and flags stay, and a cache is tied to what it was tied to or to the new transport factory; when
  the loop is left normally all caches in the list are tied to the new one.
\<close>

definition tie :: "nat option \<Rightarrow> (string \<times> nat option \<times> bool) option \<Rightarrow> (string \<times> nat option \<times> bool) option" where
  "tie g = map_option (\<lambda>(n, _, f). (n, g, f))"

lemma tie_tie [simp]: "tie g (tie h x) = tie g x"
  by (cases x) (auto simp: tie_def)

definition same_frame :: "skeleton \<Rightarrow> skeleton \<Rightarrow> bool" where
  "same_frame k k' \<longleftrightarrow> sk_started k' = sk_started k \<and> sk_caches k' = sk_caches k \<and> sk_next k' = sk_next k
     \<and> sk_made k' = sk_made k \<and> sk_factory k' = sk_factory k"

definition restarting :: "skeleton \<Rightarrow> skeleton \<Rightarrow> bool" where
  "restarting k k' \<longleftrightarrow> same_frame k k' \<and> (\<forall>i. sk_objs k' i = sk_objs k i \<or> sk_objs k' i = tie (sk_factory k) (sk_objs k i))"

lemma restarting_refl [simp]: "restarting k k"
  by (simp add: restarting_def same_frame_def)

lemma restarting_trans:
  assumes "restarting k k1" "restarting k1 k2"
  shows "restarting k k2"
proof -
  have "sk_objs k2 i = sk_objs k i \<or> sk_objs k2 i = tie (sk_factory k) (sk_objs k i)" for i
    using assms unfolding restarting_def same_frame_def by (metis tie_tie)
  then show ?thesis using assms by (simp add: restarting_def same_frame_def)
qed

lemma attach_same_force:
  assumes "sk_objs k i = Some (n, g, f)"
  shows "restarting k (attach i f k)" "sk_objs (attach i f k) i = tie (sk_factory k) (sk_objs k i)"
  using assms by (simp_all add: restarting_def same_frame_def attach_def tie_def)

lemma tied_stays:
  "restarting k k' \<Longrightarrow> sk_objs k i = tie (sk_factory k) x \<Longrightarrow> sk_objs k' i = tie (sk_factory k) x"
  unfolding restarting_def by (metis tie_tie)

lemma restart_one:
  assumes "bind (the_obj i) (\<lambda>c. startRemoteCache E i (ci_force c)) s = (r, s')"
  shows "restarting (skel s) (skel s')"
    and "r = Inr () \<Longrightarrow> sk_objs (skel s') i = tie (sk_factory (skel s)) (sk_objs (skel s) i) \<and> mg_objs s i \<noteq> None"
proof -
  have "restarting (skel s) (skel s')
      \<and> (r = Inr () \<longrightarrow> sk_objs (skel s') i = tie (sk_factory (skel s)) (sk_objs (skel s) i) \<and> mg_objs s i \<noteq> None)"
  proof (cases "mg_objs s i")
    case None
    then show ?thesis using assms by (auto simp: the_obj_def deref_def sm_simps)
  next
    case (Some c)
    then have run: "startRemoteCache E i (ci_force c) s = (r, s')"
      and k: "sk_objs (skel s) i = Some (ci_name c, ci_factory c, ci_force c)"
      using assms by (simp_all add: the_obj_def deref_def sm_simps skel_def)
    then show ?thesis
      using startRemoteCache_skel [OF run] attach_same_force [OF k] Some by auto
  qed
  then show "restarting (skel s) (skel s')"
    "r = Inr () \<Longrightarrow> sk_objs (skel s') i = tie (sk_factory (skel s)) (sk_objs (skel s) i) \<and> mg_objs s i \<noteq> None" by auto
qed

lemma restart_all:
  assumes "for_each xs (\<lambda>(_, i). bind (the_obj i) (\<lambda>c. startRemoteCache E i (ci_force c))) s = (r, s')"
  shows "restarting (skel s) (skel s')
    \<and> (r = Inr () \<longrightarrow> (\<forall>(k, i) \<in> set xs. sk_objs (skel s') i = tie (sk_factory (skel s)) (sk_objs (skel s) i)))"
  using assms
proof (induction xs arbitrary: s)
  case Nil
  then show ?case by (simp add: ret_run)
next
  case (Cons x xs)
  obtain k i where x: "x = (k, i)" by (cases x)
  obtain r1 s1 where one: "bind (the_obj i) (\<lambda>c. startRemoteCache E i (ci_force c)) s = (r1, s1)" by fastforce
  note step = restart_one [OF one]
  show ?case
  proof (cases r1)
    case (Inl e)
    then show ?thesis using Cons.prems x one step(1) by (auto simp: seq_run)
  next
    case (Inr u)
    then have rest: "for_each xs (\<lambda>(_, i). bind (the_obj i) (\<lambda>c. startRemoteCache E i (ci_force c))) s1 = (r, s')"
      using Cons.prems x one by (simp add: seq_run)
    note IH = Cons.IH [OF rest]
    have frame: "sk_factory (skel s1) = sk_factory (skel s)" using step(1) by (simp add: restarting_def same_frame_def)
    have "sk_objs (skel s') i = tie (sk_factory (skel s)) (sk_objs (skel s) i)"
      using tied_stays [of "skel s1" "skel s'" i "sk_objs (skel s) i"] IH step(2) Inr frame by simp
    moreover have "tie (sk_factory (skel s)) (sk_objs (skel s1) j) = tie (sk_factory (skel s)) (sk_objs (skel s) j)" for j
      using step(1) unfolding restarting_def by (metis tie_tie)
    ultimately show ?thesis
      using IH restarting_trans [OF step(1)] x frame by auto
  qed
qed

section \<open>The invariant\<close>

definition skel_ok :: "skeleton \<Rightarrow> bool" where
  "skel_ok k \<longleftrightarrow> (\<forall>i. sk_objs k i \<noteq> None \<longrightarrow> i < sk_next k)
     \<and> (\<forall>key i. map_of (sk_caches k) key = Some i \<longrightarrow>
          (\<exists>n g f. sk_objs k i = Some (n, g, f) \<and> key = cache_key n f \<and> (sk_started k \<longrightarrow> g = sk_factory k)))
     \<and> (sk_started k \<longrightarrow> sk_factory k \<noteq> None)"

lemma skel_ok_restarting:
  assumes "restarting k k'" "skel_ok k" "\<not> sk_started k"
  shows "skel_ok k'"
proof -
  have "sk_objs k' i \<noteq> None \<longleftrightarrow> sk_objs k i \<noteq> None" for i
    using assms(1) unfolding restarting_def tie_def by (metis option.map_disc_iff)
  moreover have "\<exists>g'. sk_objs k' i = Some (n, g', f)" if "sk_objs k i = Some (n, g, f)" for i n g f
    using assms(1) that unfolding restarting_def tie_def by (metis (no_types, lifting) case_prod_conv option.simps(9))
  ultimately show ?thesis
    using assms unfolding skel_ok_def restarting_def same_frame_def by metis
qed

lemma manager_start_ok:
  assumes ok: "skel_ok (skel s)"
  shows "skel_ok (skel (snd (manager_start E s)))"
proof (cases "mg_started s")
  case True
  then show ?thesis using ok by (simp add: manager_start_def sm_simps skel_def)
next
  case False
  define s1 where "s1 = snd (seq new_factory (modify (\<lambda>s. s\<lparr>mg_notifier := Some []\<rparr>)) (s\<lparr>mg_codec := codec_for E\<rparr>))"
  have k1: "skel s1 = (skel s)\<lparr>sk_factory := Some (mg_made s), sk_made := mg_made s + 1\<rparr>"
    by (simp add: s1_def new_factory_def sm_simps skel_def)
  have ok1: "skel_ok (skel s1)" "\<not> sk_started (skel s1)"
    using ok False by (simp_all add: skel_ok_def k1) (simp_all add: skel_def)
  define tail where "tail = bind (deref ''codec'' (codec_for E)) (\<lambda>codec.
    seq (on_factory (start (factory_config E codec)))
   (bind (gets mg_caches) (\<lambda>caches.
    seq (for_each caches (\<lambda>(_, i). bind (the_obj i) (\<lambda>c. startRemoteCache E i (ci_force c))))
   (seq rcm_start (modify (\<lambda>s. s\<lparr>mg_started := True\<rparr>))))))"
  have run: "manager_start E s = tail s1"
    using False by (simp add: manager_start_def tail_def s1_def new_factory_def sm_simps)
  show ?thesis
  proof (cases "codec_for E")
    case None
    then show ?thesis using run ok1(1) by (simp add: tail_def deref_def sm_simps)
  next
    case (Some codec)
    obtain r2 s2 where 2: "on_factory (start (factory_config E codec)) s1 = (r2, s2)" by fastforce
    have k2: "skel s2 = skel s1" by (rule calmD [OF calm_on_factory 2])
    obtain r3 s3 where 3: "for_each (mg_caches s2) (\<lambda>(_, i). bind (the_obj i) (\<lambda>c. startRemoteCache E i (ci_force c))) s2 = (r3, s3)"
      by fastforce
    note loop = restart_all [OF 3, unfolded k2]
    have ok3: "skel_ok (skel s3)" using skel_ok_restarting loop ok1 by blast
    obtain r4 s4 where 4: "rcm_start s3 = (r4, s4)" by fastforce
    have k4: "skel s4 = skel s3" by (rule calmD [OF calm_rcm_start 4])
    have all: "skel_ok (skel s4\<lparr>sk_started := True\<rparr>)" if "r3 = Inr ()"
    proof -
      have frame: "sk_caches (skel s3) = mg_caches s2" "sk_factory (skel s3) = sk_factory (skel s1)"
        using loop k2 by (auto simp: restarting_def same_frame_def) (simp_all add: skel_def)
      have "g = sk_factory (skel s1)" if "map_of (mg_caches s2) key = Some i" "sk_objs (skel s3) i = Some (n, g, f)" for key i n g f
        using loop that \<open>r3 = Inr ()\<close> by (fastforce simp: tie_def dest: map_of_SomeD)
      then show ?thesis using ok3 frame unfolding skel_ok_def k4 by (simp add: k1) metis
    qed
    have "snd (manager_start E s) \<in> {s2, s3, s4} \<or> (snd (manager_start E s) = s4\<lparr>mg_started := True\<rparr> \<and> r3 = Inr ())"
      using 2 3 4 Some by (cases r2; cases r3; cases r4) (simp_all add: run tail_def deref_def sm_simps)
    then show ?thesis using all ok3 ok1(1) k2 k4 by auto
  qed
qed

lemma manager_stop_ok:
  assumes ok: "skel_ok (skel s)"
  shows "skel_ok (skel (snd (manager_stop E s)))"
proof (cases "mg_started s")
  case False
  then show ?thesis using ok by (simp add: manager_stop_def sm_simps)
next
  case True
  define m where "m = bind (gets mg_caches) (\<lambda>caches.
    seq (for_each caches (\<lambda>(_, i). stopRemoteCache i))
   (seq rcm_stop
   (bind (gets mg_notifier) (\<lambda>n.
    seq (case n of None \<Rightarrow> ret () | Some n \<Rightarrow> on_factory (notifier_stop n))
   (bind (deref ''codec'' (codec_for E)) (\<lambda>codec. on_factory (tf_destroy (factory_config E codec))))))))"
  have "calm m"
    unfolding m_def by (auto intro!: calm_rules calm_for_each split: option.split)
  moreover have "manager_stop E s = seq m (modify (\<lambda>s. s\<lparr>mg_started := False\<rparr>)) s"
    using True by (simp add: manager_stop_def m_def sm_simps deref_def split: prod.splits sum.splits option.splits)
  moreover obtain r s1 where "m s = (r, s1)" by fastforce
  ultimately have "skel s1 = skel s" "snd (manager_stop E s) \<in> {s1, s1\<lparr>mg_started := False\<rparr>}"
    by (auto dest: calmD simp: seq_run modify_run split: sum.splits)
  moreover have "skel_ok ((skel s)\<lparr>sk_started := False\<rparr>)" using ok unfolding skel_ok_def by (simp, metis)
  ultimately show ?thesis using ok by auto
qed

lemma skel_ok_new:
  assumes "skel_ok k" "sk_objs k' = (sk_objs k)(sk_next k \<mapsto> x)" "sk_next k' = sk_next k + 1" "sk_caches k' = sk_caches k"
    "sk_started k' = sk_started k" "sk_factory k' = sk_factory k"
  shows "skel_ok k'"
proof -
  have "i \<noteq> sk_next k" if "map_of (sk_caches k) key = Some i" for key i
    using assms(1) that unfolding skel_ok_def by (metis less_irrefl option.distinct(1))
  then show ?thesis using assms unfolding skel_ok_def by (auto simp: less_Suc_eq)
qed

lemma skel_ok_register:
  assumes "skel_ok k" "sk_objs k i = Some (n, sk_factory k, f)"
  shows "skel_ok (k\<lparr>sk_caches := smap_put (cache_key n f) i (sk_caches k)\<rparr>)"
  using assms unfolding skel_ok_def by auto

lemma registered:
  assumes 2: "m2 s1 = (r2, s2)" and 3: "m3 s2 = (r3, s3)"
  shows "snd (seq m2 (bind m3 (\<lambda>ping. if ping = no then ret None else seq (modify f) (ret (Some i)))) s1) \<in> {s2, s3}
    \<or> r2 = Inr () \<and> snd (seq m2 (bind m3 (\<lambda>ping. if ping = no then ret None else seq (modify f) (ret (Some i)))) s1) = f s3"
  using assms by (cases r2; cases r3) (simp_all add: seq_run bind_run modify_run ret_run)

lemma createRemoteCache_ok:
  assumes ok: "skel_ok (skel s)"
  shows "skel_ok (skel (snd (createRemoteCache E name frv nc s)))"
proof (cases "map_of (mg_caches s) (cache_key name frv)")
  case (Some i)
  then show ?thesis using ok by (simp add: createRemoteCache_def sm_simps)
next
  case None
  let ?i = "mg_next s"
  define s1 where "s1 = snd (new_cache E name nc s)"
  have new: "new_cache E name nc s = (Inr ?i, s1)" by (simp add: s1_def new_cache_def sm_simps)
  have k1: "sk_objs (skel s1) = (sk_objs (skel s))(sk_next (skel s) \<mapsto> (name, None, False))"
    "sk_next (skel s1) = sk_next (skel s) + 1" "sk_caches (skel s1) = sk_caches (skel s)"
    "sk_started (skel s1) = sk_started (skel s)" "sk_factory (skel s1) = sk_factory (skel s)"
    by (auto simp: s1_def new_cache_def sm_simps skel_def fun_eq_iff)
  obtain r2 s2 where 2: "startRemoteCache E ?i frv s1 = (r2, s2)" by fastforce
  define s3m where "s3m = (if name \<noteq> [] then manager_ping E ?i else ret SUCCESS)"
  obtain r3 s3 where 3: "s3m s2 = (r3, s3)" by fastforce
  have k3: "skel s3 = skel s2" using calmD [of s3m s2 r3 s3] 3 by (simp add: s3m_def)
  have att: "skel_ok (attach ?i frv (skel s1))" "sk_objs (attach ?i frv (skel s1)) ?i = Some (name, sk_factory (skel s1), frv)"
  proof -
    have nx: "sk_next (skel s) = ?i" by (simp add: skel_def)
    show "sk_objs (attach ?i frv (skel s1)) ?i = Some (name, sk_factory (skel s1), frv)"
      using k1(1) by (simp add: attach_def nx)
    show "skel_ok (attach ?i frv (skel s1))"
      by (rule skel_ok_new [OF ok]) (use k1 in \<open>simp_all add: attach_def nx\<close>)
  qed
  have "skel_ok (skel s2)"
    using startRemoteCache_skel(1) [OF 2] att(1) skel_ok_new [OF ok k1] by auto
  moreover have "skel_ok ((skel s2)\<lparr>sk_caches := smap_put (cache_key name frv) ?i (sk_caches (skel s2))\<rparr>)" if "r2 = Inr ()"
    using startRemoteCache_skel(2) [OF 2 that] skel_ok_register [OF att(1), of ?i name frv] att(2) by (simp add: attach_def)
  moreover have "snd (createRemoteCache E name frv nc s) \<in> {s2, s3}
      \<or> r2 = Inr () \<and> snd (createRemoteCache E name frv nc s) = s3\<lparr>mg_caches := smap_put (cache_key name frv) ?i (mg_caches s3)\<rparr>"
  proof -
    have "createRemoteCache E name frv nc s = seq (startRemoteCache E ?i frv) (bind s3m (\<lambda>ping.
        if ping = CACHE_DOES_NOT_EXIST then ret None
        else seq (modify (\<lambda>s'. s'\<lparr>mg_caches := smap_put (cache_key name frv) ?i (mg_caches s')\<rparr>)) (ret (Some ?i)))) s1"
      using None new by (simp add: createRemoteCache_def s3m_def bind_run gets_run)
    then show ?thesis
      using registered [where ?m2.0 = "startRemoteCache E ?i frv" and ?m3.0 = s3m and i = ?i and no = CACHE_DOES_NOT_EXIST, OF 2 3]
      by (simp only:)
  qed
  moreover have "mg_caches s3 = sk_caches (skel s2)" using k3 by (metis skel_parts(1))
  ultimately show ?thesis using k3 by fastforce
qed

text \<open>Everything that can happen to a manager, in any order; a call may do to the cache it is on whatever it wants.\<close>

inductive reached :: "manager_env \<Rightarrow> world \<Rightarrow> manager \<Rightarrow> bool" for E w where
  made: "reached E w (RemoteCacheManagerImpl w)"
| start: "reached E w s \<Longrightarrow> reached E w (snd (manager_start E s))"
| stop: "reached E w s \<Longrightarrow> reached E w (snd (manager_stop E s))"
| create: "reached E w s \<Longrightarrow> reached E w (snd (createRemoteCache E name frv nc s))"
| call: "reached E w s \<Longrightarrow> reached E w (snd (on_cache i (m :: (near, unit) sm) s))"
| switch: "reached E w s \<Longrightarrow> reached E w (snd (manager_clusterSwitch E s))"

lemma reached_ok: "reached E w s \<Longrightarrow> skel_ok (skel s)"
proof (induction rule: reached.induct)
  case made
  show ?case by (simp add: skel_ok_def skel_def RemoteCacheManagerImpl_def)
next
  case (call s i m)
  then show ?case using calm_on_cache [of i m] by (simp add: calm_def)
next
  case (switch s)
  then show ?case using calm_clusterSwitch(1) [of E] by (simp add: calm_def)
qed (simp_all add: manager_start_ok manager_stop_ok createRemoteCache_ok)

text \<open>
  C4. Whatever is called on a manager and in whatever order, and whatever fails on the way, every cache it has
  registered exists, is registered under its own name and flag, and, while the manager is started, works on the transport
  factory of the manager: a call on it is the call of the implementation on that factory, and never reaches a factory that was
  stopped or replaced.
\<close>

theorem manager_invariant:
  assumes "reached E w s" "map_of (mg_caches s) key = Some i"
  shows "\<exists>c. mg_objs s i = Some c \<and> key = cache_key (ci_name c) (ci_force c)
    \<and> (mg_started s \<longrightarrow> (\<exists>g f. mg_factory s = Some (g, f) \<and> ci_factory c = Some g
         \<and> (\<forall>m r n. m (cache_view True f c) = (r, n) \<longrightarrow>
              on_cache i m s = (r, s\<lparr>mg_factory := Some (g, cl_fac (rc_client (nc_rc n))),
                mg_objs := (mg_objs s)(i \<mapsto> store_view n c)\<rparr>))))"
proof -
  have ok: "skel_ok (skel s)" by (rule reached_ok [OF assms(1)])
  have "map_of (sk_caches (skel s)) key = Some i" using assms(2) by (simp add: skel_def)
  then obtain n g f where k: "sk_objs (skel s) i = Some (n, g, f)" "key = cache_key n f"
    "sk_started (skel s) \<longrightarrow> g = sk_factory (skel s)"
    using ok unfolding skel_ok_def by blast
  then obtain c where c: "mg_objs s i = Some c" "ci_name c = n" "ci_factory c = g" "ci_force c = f"
    by (auto simp: skel_def)
  have "\<exists>g f. mg_factory s = Some (g, f) \<and> ci_factory c = Some g" if "mg_started s"
    using ok k(3) c that unfolding skel_ok_def by (auto simp: skel_def)
  then show ?thesis using c k(2) by (auto simp: on_cache_def)
qed

text \<open>A manager that is made, asked for the default cache and then started.\<close>

definition cluster_env :: manager_env where
  "cluster_env = \<lparr>me_config = create (addCluster ''c'' (set_protocolVersion ''2.8'' ConfigurationBuilder)),
     me_net = (\<lambda>_ _. Inl (TransportException [] 0 [])), me_fuel = 2, me_retries = 1,
     me_near = (\<lambda>_ _. \<lparr>maxEntries = 1, addClientListener = ret (), removeClientListener = ret ()\<rparr>)\<rparr>"

definition early_manager :: manager where
  "early_manager = snd (createRemoteCache cluster_env [] False NearCacheConfiguration (RemoteCacheManagerImpl example_world))"

definition running_manager :: manager where
  "running_manager = snd (manager_start cluster_env early_manager)"

lemma running_manager_reached: "reached cluster_env example_world running_manager"
  unfolding running_manager_def early_manager_def by (intro reached.intros)

theorem manager_invariant_witness:
  "mg_started running_manager \<and> map_of (mg_caches running_manager) (cache_key [] False) = Some 0
    \<and> (\<exists>c g f. mg_objs running_manager 0 = Some c \<and> ci_name c = [] \<and> mg_factory running_manager = Some (g, f) \<and> ci_factory c = Some g)"
proof -
  have run: "mg_started running_manager" "map_of (mg_caches running_manager) (cache_key [] False) = Some 0"
    by code_simp+
  from manager_invariant [OF running_manager_reached run(2)] run show ?thesis by auto
qed

section \<open>Handing out caches\<close>

lemma createRemoteCache_known:
  "map_of (mg_caches s) (cache_key name frv) = Some i \<Longrightarrow> createRemoteCache E name frv nc s = (Inr (Some i), s)"
  by (simp add: createRemoteCache_def sm_simps)

lemma register_result:
  assumes "m2 s1 = (r2, s2)" "m3 s2 = (r3, s3)"
    "seq m2 (bind m3 (\<lambda>ping. if ping = no then ret None else seq (modify f) (ret (Some i)))) s1 = (r, s')"
  shows "(case r of Inr (Some j) \<Rightarrow> j = i \<and> r2 = Inr () \<and> s' = f s3 | _ \<Rightarrow> s' = s2 \<or> s' = s3)"
  using assms by (cases r2; cases r3) (auto simp: seq_run bind_run modify_run ret_run split: if_splits)

text \<open>No ping ever has the result \<open>CACHE_DOES_NOT_EXIST\<close>.\<close>

definition gives :: "('s, 'a) sm \<Rightarrow> ('a \<Rightarrow> bool) \<Rightarrow> bool" where
  "gives m P \<longleftrightarrow> (\<forall>s x s'. m s = (Inr x, s') \<longrightarrow> P x)"

lemma gives_bind: "(\<And>x. gives (f x) P) \<Longrightarrow> gives (bind m f) P"
  unfolding gives_def by (auto simp: bind_eq_Inr)

lemma gives_bind_fst: "gives m Q \<Longrightarrow> (\<And>x. Q x \<Longrightarrow> gives (f x) P) \<Longrightarrow> gives (bind m f) P"
  unfolding gives_def by (fastforce simp: bind_eq_Inr)

lemma gives_catch: "gives m P \<Longrightarrow> (\<And>e. gives (h e) P) \<Longrightarrow> gives (catch m h) P"
  unfolding gives_def catch_run by (auto split: prod.splits sum.splits)

lemma gives_basic [simp]: "gives (ret x) P \<longleftrightarrow> P x" "gives (raise e) P"
  by (auto simp: gives_def sm_simps)

lemma gives_retry_loop:
  assumes "\<And>t. gives (ro_executeOperation R t) P"
  shows "gives (retry_loop n R k failed) P"
proof (induction n arbitrary: k failed)
  case (Suc n)
  have "gives (retry_round R k failed) (\<lambda>r. case r of Inl v \<Rightarrow> P v | Inr _ \<Rightarrow> True)"
    unfolding retry_round_def seq_def
    by (intro gives_bind allI) (auto split: sum.splits intro!: gives_bind gives_catch gives_bind_fst [OF assms])
  then show ?case
    by (auto intro!: gives_bind_fst split: sum.splits simp: Suc.IH)
qed simp

lemma ping_never_missing: "gives (manager_ping E i) (\<lambda>p. p \<noteq> CACHE_DOES_NOT_EXIST)"
proof -
  have op: "gives (FaultTolerantPingOperation tf ctx :: (tfactory io, ping_result) sm) (\<lambda>p. p \<noteq> CACHE_DOES_NOT_EXIST)" for tf ctx
    unfolding FaultTolerantPingOperation_def PingOperation_def by (auto intro!: gives_bind)
  have "gives (on_transport t m) P" if "gives m P" for t and m :: "(tfactory io, ping_result) sm" and P
    using that by (fastforce simp: gives_def on_transport_def split: option.splits prod.splits)
  then have "gives (execute n (operation_on cfg nm key (FaultTolerantPingOperation tf ctx))) (\<lambda>p. p \<noteq> CACHE_DOES_NOT_EXIST)"
    for n cfg nm key tf ctx
    unfolding execute_def by (intro gives_retry_loop) (simp add: operation_on_def op)
  moreover have "gives (on_part g p m) P" if "gives m P" for g p P and m :: "(client, ping_result) sm"
    using that by (auto simp: gives_def on_part_run split: prod.splits)
  ultimately have "gives (impl_ping cfg) (\<lambda>p. p \<noteq> CACHE_DOES_NOT_EXIST)" for cfg
    unfolding impl_ping_def newFaultTolerantPingOperation_def newOperation_def run_def sm_bind_assoc bind_ret
    by (intro gives_bind) blast
  then have "gives (on_cache i (on_rc (impl_ping cfg))) (\<lambda>p. p \<noteq> CACHE_DOES_NOT_EXIST)" for cfg
    by (fastforce simp: gives_def on_cache_def on_rc_def on_part_run split: option.splits prod.splits if_splits)
  then show ?thesis
    unfolding manager_ping_def by (auto intro!: gives_bind split: option.split)
qed



section \<open>Calls through a manager\<close>

definition manager_call :: "rc_config \<Rightarrow> ('k, 'v) marshallers \<Rightarrow> nat \<Rightarrow> ('k, 'v) call \<Rightarrow> (manager, 'v answer) sm" where
  "manager_call cfg m i c = on_cache i (on_rc (api_call cfg m c))"

definition cache_serving ::
  "rc_config \<Rightarrow> ('k, 'v) marshallers \<Rightarrow> inet \<Rightarrow> nat \<Rightarrow> nat \<Rightarrow> ('k, 'v) vmap \<Rightarrow> manager \<Rightarrow> bool" where
  "cache_serving cfg m srv t i M s \<longleftrightarrow>
    (\<exists>c g f. mg_objs s i = Some c \<and> mg_factory s = Some (g, f) \<and> ci_factory c = Some g
       \<and> serving cfg m srv t M (nc_rc (cache_view (mg_started s) f c)))"

text \<open>What a call on cache \<open>i\<close> leaves alone.\<close>

definition only_cache :: "nat \<Rightarrow> manager \<Rightarrow> manager \<Rightarrow> bool" where
  "only_cache i s0 s \<longleftrightarrow> skel s = skel s0 \<and> (\<forall>j. j \<noteq> i \<longrightarrow> mg_objs s j = mg_objs s0 j)"

lemma serving_started: "serving cfg m srv t M r \<Longrightarrow> rc_started r"
  by (auto simp: serving_def attached_def Let_def)

lemma view_store [simp]:
  "nc_rc (cache_view b (cl_fac (rc_client (nc_rc n))) (store_view n c)) = (nc_rc n)\<lparr>rc_started := b\<rparr>"
  by (simp add: cache_view_def store_view_def)

lemma on_cache_step:
  assumes "mg_objs s i = Some c" "mg_factory s = Some (g, f)" "ci_factory c = Some g" "m (cache_view (mg_started s) f c) = (r, n)"
  shows "on_cache i m s = (r, s\<lparr>mg_factory := Some (g, cl_fac (rc_client (nc_rc n))), mg_objs := (mg_objs s)(i \<mapsto> store_view n c)\<rparr>)"
  using assms by (simp add: on_cache_def)

interpretation mc: versioned_map "manager_call cfg m i" "\<lambda>M s. cache_serving cfg m srv t i M s \<and> only_cache i s0 s" "\<lambda>c. True" "rc_force cfg"
  for cfg and m :: "('k, 'v) marshallers" and srv t i s0
proof
  fix M :: "('k, 'v) vmap" and s a
  assume s: "cache_serving cfg m srv t i M s \<and> only_cache i s0 s"
  then obtain c g f where c: "mg_objs s i = Some c" "mg_factory s = Some (g, f)" "ci_factory c = Some g"
    and sv: "serving cfg m srv t M (nc_rc (cache_view (mg_started s) f c))" by (auto simp: cache_serving_def)
  let ?v = "cache_view (mg_started s) f c"
  from rc.step [OF sv, of a] obtain r' where
    r': "api_call cfg m a (nc_rc ?v) = (Inr (vm_answer (rc_force cfg) a M), r')" "serving cfg m srv t (vm_after a M) r'" by auto
  then have "on_rc (api_call cfg m a) ?v = (Inr (vm_answer (rc_force cfg) a M), ?v\<lparr>nc_rc := r'\<rparr>)"
    by (simp add: on_rc_def on_part_run)
  note run = on_cache_step [where m = "on_rc (api_call cfg m a)", OF c this]
  let ?s = "s\<lparr>mg_factory := Some (g, cl_fac (rc_client r')), mg_objs := (mg_objs s)(i \<mapsto> store_view (?v\<lparr>nc_rc := r'\<rparr>) c)\<rparr>"
  have "mg_started s = rc_started (nc_rc ?v)" by (simp add: cache_view_def)
  then have "mg_started s" "rc_started r'" using serving_started sv r'(2) by metis+
  then have "nc_rc (cache_view (mg_started s) (cl_fac (rc_client r')) (store_view (?v\<lparr>nc_rc := r'\<rparr>) c)) = r'"
    using view_store [of "mg_started s" "?v\<lparr>nc_rc := r'\<rparr>" c] by simp
  then have "cache_serving cfg m srv t i (vm_after a M) ?s"
    using c(3) r'(2) by (simp add: cache_serving_def store_view_def)
  moreover have "only_cache i s0 ?s"
    using s calmD [OF calm_on_cache run] by (simp add: only_cache_def)
  ultimately show "\<exists>s'. manager_call cfg m i a s = (Inr (vm_answer (rc_force cfg) a M), s')
      \<and> cache_serving cfg m srv t i (vm_after a M) s' \<and> only_cache i s0 s'"
    using run by (auto simp: manager_call_def)
qed


definition one_server_manager :: manager where
  "one_server_manager = (RemoteCacheManagerImpl example_world)
    \<lparr>mg_started := True, mg_factory := Some (0, cl_fac (rc_client one_server)), mg_next := 1, mg_caches := [(cache_key ''c'' False, 0)],
     mg_objs := [0 \<mapsto> \<lparr>ci_name = ''c'', ci_near = None, ci_factory = Some 0, ci_force = False, ci_topo = 0, ci_flags = 0,
       ci_local = NearRemoteCacheImpl\<rparr>]\<rparr>"




section \<open>The near cache over a restart\<close>

text \<open>
  \<open>stop\<close> tells the near cache that it is shutting down and nothing ever takes that back: when the
  manager has been stopped and started again, the fail over handler of its near caches does nothing, whatever
  happened in between. Entries that the server changed while the connection was down are then still served.
\<close>

theorem near_restart_deaf:
  "let s1 = snd (near_stop N s); s2 = snd (startListener N s1) in
     failOverHandler N s2 = (Inr (), s2) \<and> shutdown (nc_local s2)"
proof -
  have shut: "shutdown (nc_local (snd (near_stop N s)))"
    by (auto simp: near_stop_def catch_run sm_simps local_def on_rc_def on_part_run invalidateCache_def
        split: prod.splits sum.splits if_splits)
  have "shutdown (nc_local (snd (startListener N s1))) = shutdown (nc_local s1)" for s1
    by (auto simp: startListener_def sm_simps local_def on_rc_def on_part_run split: prod.splits sum.splits)
  then show ?thesis using shut by (simp add: Let_def failOverHandler_def sm_simps)
qed

section \<open>The caches of the application\<close>

lemma on_impl_map [simp]: "on_impl m s = (r, s') \<Longrightarrow> remoteCacheMap s' = remoteCacheMap s"
  by (auto simp: on_impl_def on_part_run split: prod.splits)

lemma executeAdminOperation_map: "executeAdminOperation E a cmd ps s = (r, s') \<Longrightarrow> remoteCacheMap s' = remoteCacheMap s"
  by (auto simp: executeAdminOperation_def Let_def sm_simps split: if_splits)

lemma lookup_known:
  "map_of (remoteCacheMap s) (cache_key name frv) = Some obj \<Longrightarrow>
    lookup_or_init E name frv nc mm s = (Inr (impl obj),
      s\<lparr>remoteCacheMap := smap_put (cache_key name frv) \<lparr>impl = impl obj, obj_marshallers = mm\<rparr> (remoteCacheMap s)\<rparr>)"
  by (simp add: lookup_or_init_def Let_def sm_simps)

lemma executeAdminOperation_caches: "executeAdminOperation E a cmd ps s = (r, s') \<Longrightarrow> mg_caches (rm_impl s') = mg_caches (rm_impl s)"
  using calmD [OF calm_on_factory] skel_parts(1)
  by (fastforce simp: executeAdminOperation_def Let_def sm_simps on_impl_def on_part_run split: if_splits prod.splits)

lemma lookup_unknown:
  "map_of (remoteCacheMap s) (cache_key name frv) = None \<Longrightarrow> c_str name = name \<Longrightarrow>
   map_of (mg_caches (rm_impl s)) (cache_key name frv) = Some i \<Longrightarrow>
    lookup_or_init E name frv nc mm s = (Inr (Some i),
      s\<lparr>remoteCacheMap := smap_put (cache_key name frv) \<lparr>impl = Some i, obj_marshallers = mm\<rparr> (remoteCacheMap s)\<rparr>)"
  by (simp add: lookup_or_init_def Let_def sm_simps initCache_def on_impl_def on_part_run createRemoteCache_known)

text \<open>
  Removing a cache through the administration interface takes its \<open>RemoteCache\<close> objects out of the map of the
  application but leaves the implementation registered: \<open>getCache\<close> after it hands that implementation
  out again, without asking the server whether there is such a cache, whatever the server has answered.
\<close>

theorem removed_cache_known:
  assumes "map_of (mg_caches (rm_impl s)) (cache_key name (forceReturnValue (me_config E))) = Some i" "c_str name = name"
    and "removeCache E a name s = (r, s1)"
  shows "\<exists>s2. getCache_plain E name s1 = (Inr (Some i), s2) \<and> rm_impl s2 = rm_impl s1"
proof -
  let ?f = "forceReturnValue (me_config E)"
  define s0 where "s0 = snd (removeFromMap name s)"
  have s0: "removeFromMap name s = (Inr (), s0)" "rm_impl s0 = rm_impl s" "map_of (remoteCacheMap s0) (cache_key name ?f) = None"
    by (cases ?f; simp add: s0_def removeFromMap_def modify_run)+
  obtain ps r' where "executeAdminOperation E a ''@@cache@remove'' ps s0 = (r', s1)"
    using assms(3) s0(1) by (auto simp: removeCache_def Let_def seq_Inr bind_run ret_run split: prod.splits sum.splits)
  then have "remoteCacheMap s1 = remoteCacheMap s0" "mg_caches (rm_impl s1) = mg_caches (rm_impl s0)"
    by (rule executeAdminOperation_map executeAdminOperation_caches)+
  then show ?thesis
    using lookup_unknown [of s1 name ?f i] assms(1,2) s0(2,3) by (simp add: getCache_plain_def getCache_named_def)
qed

theorem removed_cache_known_witness:
  "\<exists>s2. getCache_plain cluster_env [] (snd (removeCache cluster_env \<lparr>ad_factory = None, ad_codec = Codec28, ad_permanent = False\<rparr> []
      \<lparr>rm_impl = running_manager, remoteCacheMap = []\<rparr>)) = (Inr (Some 0), s2)"
proof -
  let ?a = "\<lparr>ad_factory = None, ad_codec = Codec28, ad_permanent = False\<rparr>"
  have "map_of (mg_caches running_manager) (cache_key [] (forceReturnValue (me_config cluster_env))) = Some 0" by code_simp
  then have known: "map_of (mg_caches (rm_impl \<lparr>rm_impl = running_manager, remoteCacheMap = []\<rparr>))
      (cache_key [] (forceReturnValue (me_config cluster_env))) = Some 0" by simp
  obtain r s1 where "removeCache cluster_env ?a [] \<lparr>rm_impl = running_manager, remoteCacheMap = []\<rparr> = (r, s1)" by fastforce
  from removed_cache_known [OF known _ this] this show ?thesis by (auto simp: c_str_def)
qed

section \<open>The names of the caches\<close>

definition json_name :: "bytes \<Rightarrow> bytes" where
  "json_name n = QUOTE # n @ [QUOTE]"

text \<open>An array of names as the server prints it, with commas and spaces between.\<close>

fun json_rest :: "bytes list \<Rightarrow> bytes" where
  "json_rest [] = [0x5D]"
| "json_rest (n # ns) = [0x2C, 0x20] @ json_name n @ json_rest ns"

fun json_array :: "bytes list \<Rightarrow> bytes" where
  "json_array [] = [0x5B, 0x5D]"
| "json_array (n # ns) = 0x5B # json_name n @ json_rest ns"

declare digest_names.simps [simp del]

lemma digest_name:
  assumes "QUOTE \<notin> set pre" "QUOTE \<notin> set n" "n \<noteq> []"
  shows "digest_names (pre @ json_name n @ rest) = map_sum id (insert n) (digest_names rest)"
proof -
  have to_quote: "dropWhile (\<lambda>b. b \<noteq> QUOTE) (xs @ QUOTE # ys) = QUOTE # ys" "takeWhile (\<lambda>b. b \<noteq> QUOTE) (xs @ QUOTE # ys) = xs"
    if "QUOTE \<notin> set xs" for xs ys :: bytes
    using that by (induction xs) auto
  show ?thesis
    using to_quote [OF assms(1), of "n @ QUOTE # rest"] to_quote [OF assms(2), of rest] assms(3)
    by (subst digest_names.simps) (simp add: json_name_def split: sum.splits)
qed

lemma digest_rest: "list_all (\<lambda>n. n \<noteq> [] \<and> QUOTE \<notin> set n) ns \<Longrightarrow> digest_names (json_rest ns) = Inr (set ns)"
proof (induction ns)
  case Nil
  show ?case by (subst digest_names.simps) simp
next
  case (Cons n ns)
  then show ?case using digest_name [of "[0x2C, 0x20]" n "json_rest ns"] by simp
qed

text \<open>
  The names of the caches are read back from the array the server prints them in, as long as none is empty and none has a
  double quote in it; the scan ends, and does not run past the end of the reply.
\<close>

theorem names_roundtrip:
  assumes "list_all (\<lambda>n. n \<noteq> [] \<and> QUOTE \<notin> set n) ns"
  shows "digest_names (json_array ns) = Inr (set ns)"
proof (cases ns)
  case Nil
  then show ?thesis by (subst digest_names.simps) simp
next
  case (Cons n ms)
  then show ?thesis
    using assms digest_name [of "[0x5B]" n "json_rest ms"] digest_rest [of ms] by simp
qed

theorem names_roundtrip_witness: "digest_names (json_array [[100, 102], [99]]) = Inr {[100, 102], [99]}"
  using names_roundtrip [of "[[100, 102], [99]]"] by simp

end
