(* ===== verification/HR_API.thy ===== *)
theory HR_API
  imports HR_TxCache
begin

text \<open>
  \<open>RemoteCache.h\<close>: the calls of the application on a cache. They convert times to seconds and go to
  \<open>RemoteCacheBase\<close>. A call with a future is the task it leaves to \<open>std::async\<close>: it is run by a thread of its own,
  \<open>w\<close>, some time later; what it refers to is taken to be alive then. Some of these tasks take the transaction of the
  caller with them (\<open>tid\<close>), others have the transaction of the thread that runs them.
\<close>

section \<open>Times\<close>

text \<open>
  The arithmetic of \<open>double\<close> on what \<open>toSeconds\<close> does: 53 bits, rounding to the nearest and to the even one between two.
  \<open>ceil_quotient a d\<close> is \<open>ceil\<close> of the double nearest to \<open>a / d\<close>.
\<close>

fun bits :: "nat \<Rightarrow> nat" where
  "bits n = (if n = 0 then 0 else Suc (bits (n div 2)))"

declare bits.simps [simp del]

definition round_div :: "nat \<Rightarrow> nat \<Rightarrow> nat" where
  "round_div a b =
    (let q = a div b; r = a mod b in
     if 2 * r < b then q else if b < 2 * r then q + 1 else if even q then q else q + 1)"

definition double_of :: "nat \<Rightarrow> nat" where
  "double_of n = (let k = bits n - 53 in round_div n (2 ^ k) * 2 ^ k)"

definition ceil_quotient :: "nat \<Rightarrow> nat \<Rightarrow> nat" where
  "ceil_quotient a d =
    (if a = 0 then 0
     else if a < d then 1
     else let b = bits (a div d) in
       if b \<le> 53 then (let s = 53 - b in (round_div (a * 2 ^ s) d + 2 ^ s - 1) div 2 ^ s)
       else (let k = b - 53 in round_div a (d * 2 ^ k) * 2 ^ k))"

fun toSeconds :: "u64 \<Rightarrow> time_unit \<Rightarrow> exn + u64" where
  "toSeconds time NANOSECONDS = Inr (of_nat (ceil_quotient (double_of (unat time)) 1000000000))"
| "toSeconds time MICROSECONDS = Inr (of_nat (ceil_quotient (double_of (unat time)) 1000000))"
| "toSeconds time MILLISECONDS = Inr (of_nat (ceil_quotient (double_of (unat time)) 1000))"
| "toSeconds time SECONDS = Inr time"
| "toSeconds time MINUTES = Inr (time * 60)"
| "toSeconds time HOURS = Inr (time * 3600)"
| "toSeconds time DAYS = Inr (time * 86400)"
| "toSeconds time DEFAULT = Inl (StdException ''invalid_argument'')"
| "toSeconds time INFINITUM = Inl (StdException ''invalid_argument'')"

definition in_seconds :: "u64 \<Rightarrow> time_unit \<Rightarrow> u64 \<Rightarrow> time_unit \<Rightarrow> (u64 \<Rightarrow> u64 \<Rightarrow> ('s, 'a) sm) \<Rightarrow> ('s, 'a) sm" where
  "in_seconds life lu idl iu f =
    (case toSeconds life lu of
       Inl e \<Rightarrow> raise e
     | Inr l \<Rightarrow> (case toSeconds idl iu of Inl e \<Rightarrow> raise e | Inr i \<Rightarrow> f l i))"

section \<open>Reading\<close>

definition remote_get :: "('s, 'k, 'v) rcb \<Rightarrow> nat \<Rightarrow> 'k \<Rightarrow> (('s, 'v) tx_sys, 'v option) sm" where
  "remote_get B tid k = base_get B tid k"

text \<open>The values are read with the unmarshaller of the keys.\<close>

definition remote_getAll ::
  "rc_config \<Rightarrow> ('k, 'v) marshallers \<Rightarrow> 'k list \<Rightarrow> ((rcache, 'v) tx_sys, ('k \<times> 'k) set) sm" where
  "remote_getAll cfg m ks =
    bind (on_env (impl_getAll cfg (remdups (map (keyMarshall m) ks)))) (\<lambda>res.
    ret {(keyUnmarshall m k, keyUnmarshall m v) | k v. res k = Some v})"

definition remote_containsKey :: "('s, 'k, 'v) rcb \<Rightarrow> nat \<Rightarrow> 'k \<Rightarrow> (('s, 'v) tx_sys, bool) sm" where
  "remote_containsKey B tid k = base_containsKey B tid k"

definition remote_getWithVersion :: "('s, 'k, 'v) rcb \<Rightarrow> nat \<Rightarrow> 'k \<Rightarrow> (('s, 'v) tx_sys, 'v option \<times> u64) sm" where
  "remote_getWithVersion B tid k = base_getWithVersion B tid k 0"

definition remote_getWithMetadata :: "('s, 'k, 'v) rcb \<Rightarrow> nat \<Rightarrow> 'k \<Rightarrow> (('s, 'v) tx_sys, 'v option \<times> metadata) sm" where
  "remote_getWithMetadata B tid k = base_getWithMetadata B tid k MetadataValue"

section \<open>Writing\<close>

definition remote_put_units ::
  "('s, 'k, 'v) rcb \<Rightarrow> nat \<Rightarrow> 'k \<Rightarrow> 'v \<Rightarrow> u64 \<Rightarrow> time_unit \<Rightarrow> u64 \<Rightarrow> time_unit \<Rightarrow> (('s, 'v) tx_sys, 'v option) sm" where
  "remote_put_units B tid k v life lu idl iu = in_seconds life lu idl iu (base_put B tid k v)"

definition remote_put :: "('s, 'k, 'v) rcb \<Rightarrow> nat \<Rightarrow> 'k \<Rightarrow> 'v \<Rightarrow> u64 \<Rightarrow> u64 \<Rightarrow> (('s, 'v) tx_sys, 'v option) sm" where
  "remote_put B tid k v life idl = remote_put_units B tid k v life SECONDS idl SECONDS"

definition remote_put_unit ::
  "('s, 'k, 'v) rcb \<Rightarrow> nat \<Rightarrow> 'k \<Rightarrow> 'v \<Rightarrow> u64 \<Rightarrow> time_unit \<Rightarrow> (('s, 'v) tx_sys, 'v option) sm" where
  "remote_put_unit B tid k v life lu = remote_put_units B tid k v life lu 0 SECONDS"

definition remote_putIfAbsent_units ::
  "('s, 'k, 'v) rcb \<Rightarrow> nat \<Rightarrow> 'k \<Rightarrow> 'v \<Rightarrow> u64 \<Rightarrow> time_unit \<Rightarrow> u64 \<Rightarrow> time_unit \<Rightarrow> (('s, 'v) tx_sys, 'v option) sm" where
  "remote_putIfAbsent_units B tid k v life lu idl iu = in_seconds life lu idl iu (base_putIfAbsent B tid k v)"

definition remote_putIfAbsent :: "('s, 'k, 'v) rcb \<Rightarrow> nat \<Rightarrow> 'k \<Rightarrow> 'v \<Rightarrow> u64 \<Rightarrow> u64 \<Rightarrow> (('s, 'v) tx_sys, 'v option) sm" where
  "remote_putIfAbsent B tid k v life idl = remote_putIfAbsent_units B tid k v life SECONDS idl SECONDS"

definition remote_putIfAbsent_unit ::
  "('s, 'k, 'v) rcb \<Rightarrow> nat \<Rightarrow> 'k \<Rightarrow> 'v \<Rightarrow> u64 \<Rightarrow> time_unit \<Rightarrow> (('s, 'v) tx_sys, 'v option) sm" where
  "remote_putIfAbsent_unit B tid k v life lu = remote_putIfAbsent_units B tid k v life lu 0 SECONDS"

text \<open>\<open>putAll\<close> goes over a map of addresses: in the order of the addresses the entries have, which is that of the list here.\<close>

definition remote_putAll_units ::
  "('s, 'k, 'v) rcb \<Rightarrow> nat \<Rightarrow> ('k \<times> 'v) list \<Rightarrow> u64 \<Rightarrow> time_unit \<Rightarrow> u64 \<Rightarrow> time_unit \<Rightarrow> (('s, 'v) tx_sys, unit) sm" where
  "remote_putAll_units B tid kvs life lu idl iu = in_seconds life lu idl iu (base_putAll B tid kvs)"

definition remote_putAll :: "('s, 'k, 'v) rcb \<Rightarrow> nat \<Rightarrow> ('k \<times> 'v) list \<Rightarrow> u64 \<Rightarrow> u64 \<Rightarrow> (('s, 'v) tx_sys, unit) sm" where
  "remote_putAll B tid kvs life idl = remote_putAll_units B tid kvs life SECONDS idl SECONDS"

definition remote_putAll_unit ::
  "('s, 'k, 'v) rcb \<Rightarrow> nat \<Rightarrow> ('k \<times> 'v) list \<Rightarrow> u64 \<Rightarrow> time_unit \<Rightarrow> (('s, 'v) tx_sys, unit) sm" where
  "remote_putAll_unit B tid kvs life lu = remote_putAll_units B tid kvs life lu 0 SECONDS"

definition remote_replace_units ::
  "('s, 'k, 'v) rcb \<Rightarrow> nat \<Rightarrow> 'k \<Rightarrow> 'v \<Rightarrow> u64 \<Rightarrow> time_unit \<Rightarrow> u64 \<Rightarrow> time_unit \<Rightarrow> (('s, 'v) tx_sys, 'v option) sm" where
  "remote_replace_units B tid k v life lu idl iu = in_seconds life lu idl iu (base_replace B tid k v)"

definition remote_replace :: "('s, 'k, 'v) rcb \<Rightarrow> nat \<Rightarrow> 'k \<Rightarrow> 'v \<Rightarrow> u64 \<Rightarrow> u64 \<Rightarrow> (('s, 'v) tx_sys, 'v option) sm" where
  "remote_replace B tid k v life idl = remote_replace_units B tid k v life SECONDS idl SECONDS"

definition remote_replace_unit ::
  "('s, 'k, 'v) rcb \<Rightarrow> nat \<Rightarrow> 'k \<Rightarrow> 'v \<Rightarrow> u64 \<Rightarrow> time_unit \<Rightarrow> (('s, 'v) tx_sys, 'v option) sm" where
  "remote_replace_unit B tid k v life lu = remote_replace_units B tid k v life lu 0 SECONDS"

text \<open>What the protocol has no operation for.\<close>

definition remote_replace_old :: "'k \<Rightarrow> 'v \<Rightarrow> 'v \<Rightarrow> u64 \<Rightarrow> time_unit \<Rightarrow> u64 \<Rightarrow> time_unit \<Rightarrow> (('s, 'v) tx_sys, 'v option) sm" where
  "remote_replace_old k oldVal v life lu idl iu = raise UnsupportedOperationException"

definition remote_containsValue :: "'v \<Rightarrow> (('s, 'v) tx_sys, bool) sm" where
  "remote_containsValue v = raise UnsupportedOperationException"

definition remote_entrySet :: "(('s, 'v) tx_sys, ('k \<times> 'v) set) sm" where
  "remote_entrySet = raise UnsupportedOperationException"

definition remote_values :: "(('s, 'v) tx_sys, 'v list) sm" where
  "remote_values = raise UnsupportedOperationException"

definition remote_remove :: "('s, 'k, 'v) rcb \<Rightarrow> nat \<Rightarrow> 'k \<Rightarrow> (('s, 'v) tx_sys, 'v option) sm" where
  "remote_remove B tid k = base_remove B tid k"

definition remote_replaceWithVersion ::
  "('s, 'k, 'v) rcb \<Rightarrow> nat \<Rightarrow> 'k \<Rightarrow> 'v \<Rightarrow> u64 \<Rightarrow> u64 \<Rightarrow> u64 \<Rightarrow> (('s, 'v) tx_sys, bool) sm" where
  "remote_replaceWithVersion B tid k v version life idl = base_replaceWithVersion B tid k v version life idl"

definition remote_removeWithVersion :: "('s, 'k, 'v) rcb \<Rightarrow> nat \<Rightarrow> 'k \<Rightarrow> u64 \<Rightarrow> (('s, 'v) tx_sys, bool) sm" where
  "remote_removeWithVersion B tid k version = base_removeWithVersion B tid k version"

section \<open>The whole cache\<close>

text \<open>\<open>getBulk\<close> is the one of a cache that is not in a transaction.\<close>

definition remote_getBulk :: "rc_config \<Rightarrow> ('k, 'v) marshallers \<Rightarrow> u32 \<Rightarrow> (rcache, ('k \<times> 'k) set) sm" where
  "remote_getBulk cfg m nrOfEntries = impl_getBulk cfg m nrOfEntries"

definition remote_keySet :: "rc_config \<Rightarrow> ('k, 'v) marshallers \<Rightarrow> (rcache, 'k set) sm" where
  "remote_keySet cfg m = impl_keySet cfg m 0"

definition remote_size :: "rc_config \<Rightarrow> (rcache, u64) sm" where
  "remote_size cfg = impl_size cfg"

definition remote_isEmpty :: "rc_config \<Rightarrow> (rcache, bool) sm" where
  "remote_isEmpty cfg = bind (remote_size cfg) (\<lambda>n. ret (n = 0))"

definition remote_stats :: "rc_config \<Rightarrow> (rcache, bytes \<rightharpoonup> bytes) sm" where
  "remote_stats cfg = impl_stats cfg"

definition remote_clear :: "rc_config \<Rightarrow> (rcache, unit) sm" where
  "remote_clear cfg = impl_clear cfg"

definition remote_ping :: "rc_config \<Rightarrow> (rcache, unit) sm" where
  "remote_ping cfg = bind (impl_ping cfg) (\<lambda>_. ret ())"

definition remote_withFlags :: "u32 \<Rightarrow> (rcache, unit) sm" where
  "remote_withFlags flags = impl_withFlags flags"

text \<open>Executing a task: names and arguments are sent as the bytes of the strings.\<close>

definition string_args :: "(string, string) smap \<Rightarrow> (bytes, bytes) smap" where
  "string_args args = fold (\<lambda>(k, v). smap_insert (ascii k) (ascii v)) args []"

definition base_execute :: "rc_config \<Rightarrow> string \<Rightarrow> (string, string) smap \<Rightarrow> (rcache, bytes) sm" where
  "base_execute cfg cmdName args = impl_execute cfg (ascii cmdName) (string_args args)"

definition base_execute_bytes :: "rc_config \<Rightarrow> string \<Rightarrow> (bytes, bytes) smap \<Rightarrow> (rcache, bytes) sm" where
  "base_execute_bytes cfg cmdName args = impl_execute cfg (ascii cmdName) args"

definition base_execute_key ::
  "rc_config \<Rightarrow> ('k, 'v) marshallers \<Rightarrow> 'k \<Rightarrow> string \<Rightarrow> (string, string) smap \<Rightarrow> (rcache, bytes) sm" where
  "base_execute_key cfg m k cmdName args = impl_executeKey cfg m k (ascii cmdName) (string_args args)"

definition base_execute_key_bytes ::
  "rc_config \<Rightarrow> ('k, 'v) marshallers \<Rightarrow> 'k \<Rightarrow> string \<Rightarrow> (bytes, bytes) smap \<Rightarrow> (rcache, bytes) sm" where
  "base_execute_key_bytes cfg m k cmdName args = impl_executeKey cfg m k (ascii cmdName) args"

text \<open>\<open>RemoteExecution.h\<close>: arguments are collected, the result is read with the marshaller \<open>M\<close>.\<close>

definition addArg :: "('a \<Rightarrow> bytes) \<Rightarrow> string \<Rightarrow> 'a \<Rightarrow> (bytes, bytes) smap \<Rightarrow> (bytes, bytes) smap" where
  "addArg marshall name v args = smap_put (ascii name) (marshall v) args"

definition execution_execute :: "rc_config \<Rightarrow> (bytes \<Rightarrow> 'r) \<Rightarrow> string \<Rightarrow> (bytes, bytes) smap \<Rightarrow> (rcache, 'r) sm" where
  "execution_execute cfg unmarshall name args = bind (impl_execute cfg (ascii name) args) (\<lambda>bs. ret (unmarshall bs))"

definition execution_execute_key ::
  "rc_config \<Rightarrow> ('k, 'v) marshallers \<Rightarrow> (bytes \<Rightarrow> 'r) \<Rightarrow> 'k \<Rightarrow> string \<Rightarrow> (bytes, bytes) smap \<Rightarrow> (rcache, 'r) sm" where
  "execution_execute_key cfg m unmarshall k name args =
    bind (impl_executeKey cfg m k (ascii name) args) (\<lambda>bs. ret (unmarshall bs))"

section \<open>Calls with a future\<close>

text \<open>What such a call is given: the callbacks for success and for failure.\<close>

type_synonym ('s, 'a) with_callbacks = "('a \<Rightarrow> ('s, 'a) sm) option \<Rightarrow> (exn \<Rightarrow> ('s, 'a) sm) option \<Rightarrow> ('s, 'a) sm"

type_synonym 's with_void_callbacks = "('s, unit) sm option \<Rightarrow> (exn \<Rightarrow> ('s, unit) sm) option \<Rightarrow> ('s, unit) sm"

text \<open>
  \<open>throw ex\<close> throws a copy of what the reference is declared as, a \<open>std::exception\<close>. When the function has
  a success callback and no result, the callback is called in its place.
\<close>

definition async_failed :: "(exn \<Rightarrow> ('s, 'a) sm) option \<Rightarrow> exn \<Rightarrow> ('s, 'a) sm" where
  "async_failed fail e =
    (if is_std_exception e then (case fail of Some h \<Rightarrow> h e | None \<Rightarrow> raise (StdException ''std::exception'')) else raise e)"

definition goAsync :: "('s, 'a) sm \<Rightarrow> ('s, 'a) with_callbacks" where
  "goAsync f success fail = catch (case success of None \<Rightarrow> f | Some g \<Rightarrow> bind f g) (async_failed fail)"

definition goAsync_void :: "('s, unit) sm \<Rightarrow> 's with_void_callbacks" where
  "goAsync_void f success fail = catch (case success of None \<Rightarrow> f | Some g \<Rightarrow> g) (async_failed fail)"

definition getAsync ::
  "('s, 'k, 'v) rcb \<Rightarrow> nat \<Rightarrow> nat \<Rightarrow> 'k \<Rightarrow> (('s, 'v) tx_sys, 'v option) with_callbacks" where
  "getAsync B tid w k = goAsync (base_get B tid k)"

definition putAsync ::
  "('s, 'k, 'v) rcb \<Rightarrow> nat \<Rightarrow> nat \<Rightarrow> 'k \<Rightarrow> 'v \<Rightarrow> u64 \<Rightarrow> u64 \<Rightarrow> (('s, 'v) tx_sys, 'v option) with_callbacks" where
  "putAsync B tid w k v life idl = goAsync (base_put B tid k v life idl)"

text \<open>The unit is passed as the maximum idle time, the lifespan as it is.\<close>

definition putAsync_unit ::
  "('s, 'k, 'v) rcb \<Rightarrow> nat \<Rightarrow> nat \<Rightarrow> 'k \<Rightarrow> 'v \<Rightarrow> u64 \<Rightarrow> time_unit \<Rightarrow> (('s, 'v) tx_sys, 'v option) with_callbacks" where
  "putAsync_unit B tid w k v life lu = goAsync (base_put B tid k v life (ucast (time_code lu)))"

definition putAsync_units ::
  "('s, 'k, 'v) rcb \<Rightarrow> nat \<Rightarrow> nat \<Rightarrow> 'k \<Rightarrow> 'v \<Rightarrow> u64 \<Rightarrow> time_unit \<Rightarrow> u64 \<Rightarrow> time_unit \<Rightarrow> (('s, 'v) tx_sys, 'v option) with_callbacks" where
  "putAsync_units B tid w k v life lu idl iu = goAsync (in_seconds life lu idl iu (base_put B tid k v))"

definition putIfAbsentAsync ::
  "('s, 'k, 'v) rcb \<Rightarrow> nat \<Rightarrow> nat \<Rightarrow> 'k \<Rightarrow> 'v \<Rightarrow> u64 \<Rightarrow> u64 \<Rightarrow> (('s, 'v) tx_sys, 'v option) with_callbacks" where
  "putIfAbsentAsync B tid w k v life idl = goAsync (base_putIfAbsent B tid k v life idl)"

definition putIfAbsentAsync_unit ::
  "('s, 'k, 'v) rcb \<Rightarrow> nat \<Rightarrow> nat \<Rightarrow> 'k \<Rightarrow> 'v \<Rightarrow> u64 \<Rightarrow> time_unit \<Rightarrow> (('s, 'v) tx_sys, 'v option) with_callbacks" where
  "putIfAbsentAsync_unit B tid w k v life lu = goAsync (in_seconds life lu 0 SECONDS (base_putIfAbsent B tid k v))"

definition putIfAbsentAsync_units ::
  "('s, 'k, 'v) rcb \<Rightarrow> nat \<Rightarrow> nat \<Rightarrow> 'k \<Rightarrow> 'v \<Rightarrow> u64 \<Rightarrow> time_unit \<Rightarrow> u64 \<Rightarrow> time_unit \<Rightarrow> (('s, 'v) tx_sys, 'v option) with_callbacks" where
  "putIfAbsentAsync_units B tid w k v life lu idl iu = goAsync (in_seconds life lu idl iu (base_putIfAbsent B tid k v))"

definition putAllAsync ::
  "('s, 'k, 'v) rcb \<Rightarrow> nat \<Rightarrow> nat \<Rightarrow> ('k \<times> 'v) list \<Rightarrow> u64 \<Rightarrow> u64 \<Rightarrow> ('s, 'v) tx_sys with_void_callbacks" where
  "putAllAsync B tid w kvs life idl = goAsync_void (remote_putAll B w kvs life idl)"

definition putAllAsync_unit ::
  "('s, 'k, 'v) rcb \<Rightarrow> nat \<Rightarrow> nat \<Rightarrow> ('k \<times> 'v) list \<Rightarrow> u64 \<Rightarrow> time_unit \<Rightarrow> ('s, 'v) tx_sys with_void_callbacks" where
  "putAllAsync_unit B tid w kvs life lu = goAsync_void (remote_putAll_unit B w kvs life lu)"

definition putAllAsync_units ::
  "('s, 'k, 'v) rcb \<Rightarrow> nat \<Rightarrow> nat \<Rightarrow> ('k \<times> 'v) list \<Rightarrow> u64 \<Rightarrow> time_unit \<Rightarrow> u64 \<Rightarrow> time_unit \<Rightarrow> ('s, 'v) tx_sys with_void_callbacks" where
  "putAllAsync_units B tid w kvs life lu idl iu = goAsync_void (remote_putAll_units B w kvs life lu idl iu)"

definition replaceAsync ::
  "('s, 'k, 'v) rcb \<Rightarrow> nat \<Rightarrow> nat \<Rightarrow> 'k \<Rightarrow> 'v \<Rightarrow> u64 \<Rightarrow> u64 \<Rightarrow> (('s, 'v) tx_sys, 'v option) with_callbacks" where
  "replaceAsync B tid w k v life idl = goAsync (remote_replace B w k v life idl)"

definition replaceAsync_unit ::
  "('s, 'k, 'v) rcb \<Rightarrow> nat \<Rightarrow> nat \<Rightarrow> 'k \<Rightarrow> 'v \<Rightarrow> u64 \<Rightarrow> time_unit \<Rightarrow> (('s, 'v) tx_sys, 'v option) with_callbacks" where
  "replaceAsync_unit B tid w k v life lu = goAsync (remote_replace_unit B w k v life lu)"

definition replaceAsync_units ::
  "('s, 'k, 'v) rcb \<Rightarrow> nat \<Rightarrow> nat \<Rightarrow> 'k \<Rightarrow> 'v \<Rightarrow> u64 \<Rightarrow> time_unit \<Rightarrow> u64 \<Rightarrow> time_unit \<Rightarrow> (('s, 'v) tx_sys, 'v option) with_callbacks" where
  "replaceAsync_units B tid w k v life lu idl iu = goAsync (remote_replace_units B w k v life lu idl iu)"

definition replaceAsync_old ::
  "'k \<Rightarrow> 'v \<Rightarrow> 'v \<Rightarrow> u64 \<Rightarrow> time_unit \<Rightarrow> u64 \<Rightarrow> time_unit \<Rightarrow> (('s, 'v) tx_sys, 'v option) with_callbacks" where
  "replaceAsync_old k oldVal v life lu idl iu = goAsync (remote_replace_old k oldVal v life lu idl iu)"

definition removeAsync ::
  "('s, 'k, 'v) rcb \<Rightarrow> nat \<Rightarrow> nat \<Rightarrow> 'k \<Rightarrow> (('s, 'v) tx_sys, 'v option) with_callbacks" where
  "removeAsync B tid w k = goAsync (remote_remove B w k)"

definition replaceWithVersionAsync ::
  "('s, 'k, 'v) rcb \<Rightarrow> nat \<Rightarrow> nat \<Rightarrow> 'k \<Rightarrow> 'v \<Rightarrow> u64 \<Rightarrow> u64 \<Rightarrow> u64 \<Rightarrow> (('s, 'v) tx_sys, bool) with_callbacks" where
  "replaceWithVersionAsync B tid w k v version life idl = goAsync (remote_replaceWithVersion B w k v version life idl)"

definition removeWithVersionAsync ::
  "('s, 'k, 'v) rcb \<Rightarrow> nat \<Rightarrow> nat \<Rightarrow> 'k \<Rightarrow> u64 \<Rightarrow> (('s, 'v) tx_sys, bool) with_callbacks" where
  "removeWithVersionAsync B tid w k version = goAsync (remote_removeWithVersion B w k version)"

definition clearAsync :: "rc_config \<Rightarrow> rcache with_void_callbacks" where
  "clearAsync cfg = goAsync_void (remote_clear cfg)"

end
