(* ===== verification/HR_API_Correct.thy ===== *)
theory HR_API_Correct
  imports HR_API HR_RemoteCache_Correct
begin

text \<open>
  The calls of the application: times are converted exactly, the calls outside of a transaction implement a map, and
  what becomes of the calls with a future.
\<close>

section \<open>Times\<close>

lemma bits_bounds: "0 < n \<Longrightarrow> 2 ^ (bits n - 1) \<le> n \<and> n < 2 ^ bits n \<and> 0 < bits n"
proof (induction n rule: bits.induct)
  case (1 n)
  show ?case
  proof (cases "n div 2 = 0")
    case True
    then have "n = 1" using "1.prems" by linarith
    then show ?thesis by (simp add: bits.simps)
  next
    case False
    then have IH: "2 ^ (bits (n div 2) - 1) \<le> n div 2" "n div 2 < 2 ^ bits (n div 2)" "0 < bits (n div 2)" using 1 by auto
    then obtain b where b: "bits (n div 2) = Suc b" by (auto simp: gr0_conv_Suc)
    have n: "bits n = Suc (Suc b)" using "1.prems" b by (subst bits.simps) simp
    have "2 ^ Suc b \<le> n" "n < 2 * 2 ^ Suc b" using IH b by auto
    then show ?thesis using n by simp
  qed
qed

lemma bits_le: "n < 2 ^ k \<Longrightarrow> bits n \<le> k"
proof (rule ccontr)
  assume n: "n < 2 ^ k" and b: "\<not> bits n \<le> k"
  have "0 < n" using b by (cases "n = 0") (auto simp: bits.simps)
  then have "2 ^ (bits n - 1) \<le> n" using bits_bounds by blast
  moreover have "2 ^ k \<le> (2 :: nat) ^ (bits n - 1)" by (rule power_increasing) (use b in auto)
  ultimately show False using n by linarith
qed

lemma round_div_near:
  assumes "0 < b"
  shows "2 * (round_div a b * b) \<le> 2 * a + b" "2 * a \<le> 2 * (round_div a b * b) + b"
proof -
  define q r where "q = a div b" and "r = a mod b"
  have a: "a = q * b + r" "r < b" using assms by (simp_all add: q_def r_def)
  have "round_div a b = q \<and> 2 * r \<le> b \<or> round_div a b = q + 1 \<and> b \<le> 2 * r"
    by (auto simp: round_div_def Let_def q_def r_def)
  then have "2 * (round_div a b * b) \<le> 2 * a + b \<and> 2 * a \<le> 2 * (round_div a b * b) + b"
    using a(2) unfolding a(1) by (auto simp: algebra_simps)
  then show "2 * (round_div a b * b) \<le> 2 * a + b" "2 * a \<le> 2 * (round_div a b * b) + b" by auto
qed

lemma round_div_exact: "0 < b \<Longrightarrow> round_div (q * b) b = q"
  by (simp add: round_div_def)

lemma double_of_small: "n < 2 ^ 53 \<Longrightarrow> double_of n = n"
  using round_div_exact [of 1 n] bits_le [of n 53] by (simp add: double_of_def)

lemma ceil_div_eq:
  assumes "0 < (b :: nat)" "q * b < m" "m \<le> (q + 1) * b"
  shows "(m + b - 1) div b = q + 1"
proof -
  have "(q + 1) * b \<le> m + b - 1" "m + b - 1 < (q + 1) * b + b" using assms by (auto simp: algebra_simps)
  then show ?thesis
    by (metis assms(1) div_nat_eqI mult.commute mult_Suc_right add.commute Suc_eq_plus1)
qed

text \<open>One rounding does not push a quotient of a number of 53 bits down to the next whole number.\<close>

lemma ceil_quotient_exact:
  assumes n: "n < 2 ^ 53" and d: "0 < d"
  shows "ceil_quotient n d = (n + d - 1) div d"
proof (cases "n < d")
  case True
  then show ?thesis using ceil_div_eq [OF d, of 0 n] by (auto simp: ceil_quotient_def)
next
  case False
  define q where "q = n div d"
  define b where "b = bits q"
  define s where "s = 53 - b"
  have q: "0 < q" using False d by (simp add: q_def div_greater_zero_iff)
  have "q < 2 ^ 53" using n by (metis q_def div_le_dividend le_less_trans)
  then have b: "2 ^ (b - 1) \<le> q" "0 < b" "b \<le> 53" using bits_bounds [OF q] bits_le by (auto simp: b_def)
  have "2 ^ (b - 1) * d \<le> n"
    using b(1) by (metis div_times_less_eq_dividend le_trans mult_le_mono1 q_def)
  moreover have "(b - 1) + (s + 1) = 53" using b(2,3) by (simp add: s_def)
  then have "2 ^ (b - 1) * 2 ^ (s + 1) = (2 :: nat) ^ 53" by (metis power_add)
  ultimately have "2 ^ (b - 1) * d < 2 ^ (b - 1) * 2 ^ (s + 1)" using n by linarith
  then have wide: "d < 2 * 2 ^ s" by simp
  define m where "m = round_div (n * 2 ^ s) d"
  have run: "ceil_quotient n d = (m + 2 ^ s - 1) div 2 ^ s"
    using False b(3) d by (simp add: ceil_quotient_def b_def q_def s_def m_def Let_def)
  show ?thesis
  proof (cases "n mod d = 0")
    case True
    then have nq: "n = q * d" by (simp add: q_def mult.commute mod_0_imp_dvd)
    have "m = q * 2 ^ s" using round_div_exact [OF d, of "q * 2 ^ s"] by (simp add: m_def nq ac_simps)
    moreover have "(q * p + p - 1) div p = q" if "0 < p" for p :: nat
    proof -
      obtain k where "q = Suc k" using q by (cases q) auto
      then show ?thesis using ceil_div_eq [OF that, of k "q * p"] that by simp
    qed
    ultimately show ?thesis using run d nq by simp
  next
    case False
    define r where "r = n mod d"
    have r: "n = q * d + r" "0 < r" "r < d" using False d by (simp_all add: q_def r_def)
    note near = round_div_near [OF d, of "n * 2 ^ s", folded m_def]
    have e: "n * 2 ^ s = q * 2 ^ s * d + r * 2 ^ s" by (simp add: r(1) algebra_simps)
    have "1 * (2 * 2 ^ s) \<le> r * (2 * 2 ^ s)" by (rule mult_le_mono1) (use r(2) in simp)
    then have "q * 2 ^ s * d < m * d" using near(2) e wide by linarith
    then have low: "q * 2 ^ s < m" by simp
    have above: "2 * A \<le> 2 * N + D \<Longrightarrow> N = X + R \<Longrightarrow> R < Y \<Longrightarrow> 2 * A < 2 * (X + Y) + D" for A N D X R Y :: nat by simp
    have "2 * (m * d) < 2 * (q * 2 ^ s * d + d * 2 ^ s) + d" by (rule above [OF near(1) e]) (use r(3) in simp)
    then have "2 * m * d < (2 * ((q + 1) * 2 ^ s) + 1) * d" by (simp add: algebra_simps)
    then have "2 * m < 2 * ((q + 1) * 2 ^ s) + 1" by (rule mult_less_cancel2 [THEN iffD1, THEN conjunct2])
    then have high: "m \<le> (q + 1) * 2 ^ s" by simp
    have "(m + 2 ^ s - 1) div 2 ^ s = q + 1" using ceil_div_eq [OF _ low high] by simp
    moreover have "(n + d - 1) div d = q + 1" using ceil_div_eq [OF d, of q n] r by simp
    ultimately show ?thesis using run by simp
  qed
qed

text \<open>What the conversion is meant to be; the first three are quotients, rounded up.\<close>

fun seconds_in :: "nat \<Rightarrow> time_unit \<Rightarrow> nat option" where
  "seconds_in t NANOSECONDS = Some ((t + 10 ^ 9 - 1) div 10 ^ 9)"
| "seconds_in t MICROSECONDS = Some ((t + 10 ^ 6 - 1) div 10 ^ 6)"
| "seconds_in t MILLISECONDS = Some ((t + 10 ^ 3 - 1) div 10 ^ 3)"
| "seconds_in t SECONDS = Some t"
| "seconds_in t MINUTES = Some (t * 60 mod 2 ^ 64)"
| "seconds_in t HOURS = Some (t * 3600 mod 2 ^ 64)"
| "seconds_in t DAYS = Some (t * 86400 mod 2 ^ 64)"
| "seconds_in t DEFAULT = None"
| "seconds_in t INFINITUM = None"

text \<open>
  C32. Times up to \<open>2 ^ 53\<close> are converted to seconds as they are meant to be, in spite of the arithmetic of doubles in between: parts
  of a second are rounded up, so that an entry does not live shorter than asked and a time above 0 does not
  become 0, which stands for the default; longer units are multiplied, modulo \<open>2 ^ 64\<close>. The units \<open>DEFAULT\<close> and
  \<open>INFINITUM\<close> are refused.
\<close>

theorem toSeconds_exact:
  assumes "unat t < 2 ^ 53"
  shows "(case toSeconds t u of Inl e \<Rightarrow> None | Inr s \<Rightarrow> Some (unat s)) = seconds_in (unat t) u"
proof -
  have sub: "unat (of_nat (ceil_quotient (double_of (unat t)) d) :: u64) = (unat t + d - 1) div d" if "0 < d" for d
  proof -
    have "ceil_quotient (double_of (unat t)) d = (unat t + d - 1) div d"
      using double_of_small [OF assms] ceil_quotient_exact [OF assms that] by simp
    moreover have "(unat t + d - 1) div d \<le> unat t"
    proof -
      have "unat t * 1 \<le> unat t * d" by (rule mult_le_mono2) (use that in simp)
      then have "unat t + d - 1 < unat t * d + d" using that by linarith
      then have "unat t + d - 1 < (unat t + 1) * d" by (simp add: algebra_simps)
      then have "(unat t + d - 1) div d < unat t + 1" by (rule less_mult_imp_div_less)
      then show ?thesis by simp
    qed
    ultimately show ?thesis using assms by (simp add: unat_of_nat take_bit_eq_mod)
  qed
  show ?thesis
    using sub [of 1000000000] sub [of 1000000] sub [of 1000]
    by (cases u) (simp_all add: unat_word_ariths)
qed

theorem toSeconds_exact_witness:
  "map (\<lambda>u. case toSeconds 1500 u of Inl e \<Rightarrow> None | Inr s \<Rightarrow> Some (unat s)) [MILLISECONDS, NANOSECONDS, MINUTES, INFINITUM]
    = [Some 2, Some 1, Some 90000, None]"
  using toSeconds_exact [of 1500 MILLISECONDS] toSeconds_exact [of 1500 NANOSECONDS] toSeconds_exact [of 1500 MINUTES]
    toSeconds_exact [of 1500 INFINITUM] by simp

section \<open>The calls implement a map\<close>

text \<open>A cache of \<open>RemoteCache.h\<close> whose calls are not in a transaction.\<close>

definition plain_cache :: "rc_config \<Rightarrow> ('k, 'v) marshallers \<Rightarrow> bool \<Rightarrow> (rcache, 'k, 'v) rcb" where
  "plain_cache cfg m frv = \<lparr>rb_id = 0, rb_transactional = False, rb_forceReturnValue = frv, rb_keyMarshall = keyMarshall m,
     rb_impl = RemoteCacheImpl_ops cfg m\<rparr>"

fun remote_call ::
  "rc_config \<Rightarrow> ('k, 'v) marshallers \<Rightarrow> (rcache, 'k, 'v) rcb \<Rightarrow> nat \<Rightarrow> ('k, 'v) call \<Rightarrow> ((rcache, 'v) tx_sys, 'v answer) sm" where
  "remote_call cfg m B tid (Get k) = bind (remote_get B tid k) (\<lambda>v. ret (AValue v))"
| "remote_call cfg m B tid (GetWithVersion k) = bind (remote_getWithVersion B tid k) (\<lambda>v. ret (AVersioned v))"
| "remote_call cfg m B tid (ContainsKey k) = bind (remote_containsKey B tid k) (\<lambda>b. ret (ABool b))"
| "remote_call cfg m B tid (Put k v life idl) = bind (remote_put B tid k v life idl) (\<lambda>v. ret (AValue v))"
| "remote_call cfg m B tid (PutIfAbsent k v life idl) = bind (remote_putIfAbsent B tid k v life idl) (\<lambda>v. ret (AValue v))"
| "remote_call cfg m B tid (Replace k v life idl) = bind (remote_replace B tid k v life idl) (\<lambda>v. ret (AValue v))"
| "remote_call cfg m B tid (Remove k) = bind (remote_remove B tid k) (\<lambda>v. ret (AValue v))"
| "remote_call cfg m B tid (ReplaceWithVersion k v version life idl) =
     bind (remote_replaceWithVersion B tid k v version life idl) (\<lambda>b. ret (ABool b))"
| "remote_call cfg m B tid (RemoveWithVersion k version) = bind (remote_removeWithVersion B tid k version) (\<lambda>b. ret (ABool b))"
| "remote_call cfg m B tid Clear = bind (on_env (remote_clear cfg)) (\<lambda>_. ret AUnit)"
| "remote_call cfg m B tid (WithFlags flags) = bind (on_env (remote_withFlags flags)) (\<lambda>_. ret AUnit)"

lemma on_env_bind: "on_env (bind m f) = bind (on_env m) (\<lambda>x. on_env (f x))"
  by (rule ext) (simp add: on_env_def on_part_run bind_run split: prod.splits sum.splits)

lemma on_env_ret [simp]: "on_env (ret x) = ret x"
  by (rule ext) (simp add: on_env_def on_part_run ret_run)

lemma remote_call_plain: "remote_call cfg m (plain_cache cfg m frv) tid c = on_env (api_call cfg m c)"
  by (cases c) (simp_all add: plain_cache_def in_tx_def RemoteCacheImpl_ops_def on_env_bind remote_get_def base_get_def
      remote_getWithVersion_def base_getWithVersion_def remote_containsKey_def base_containsKey_def remote_put_def remote_put_units_def
      in_seconds_def base_put_def remote_putIfAbsent_def remote_putIfAbsent_units_def base_putIfAbsent_def remote_replace_def
      remote_replace_units_def base_replace_def remote_remove_def base_remove_def remote_replaceWithVersion_def
      base_replaceWithVersion_def remote_removeWithVersion_def base_removeWithVersion_def remote_clear_def remote_withFlags_def)

interpretation ra: versioned_map "remote_call cfg m (plain_cache cfg m frv) tid" "\<lambda>M s. serving cfg m srv t M (tx_env s)" "\<lambda>c. True"
  "rc_force cfg" for cfg and m :: "('k, 'v) marshallers" and frv tid srv t
proof
  fix M :: "('k, 'v) vmap" and s :: "(rcache, 'v) tx_sys" and c
  assume "serving cfg m srv t M (tx_env s)"
  from rc.step [OF this, of c] show "\<exists>s'. remote_call cfg m (plain_cache cfg m frv) tid c s = (Inr (vm_answer (rc_force cfg) c M), s')
      \<and> serving cfg m srv t (vm_after c M) (tx_env s')"
    by (auto simp: remote_call_plain on_env_def on_part_run)
qed


definition one_server_api :: "(rcache, byte) tx_sys" where
  "one_server_api = \<lparr>currentTransactions = Map.empty, freshXid = (\<lambda>n. \<lparr>globalId = [], branchId = []\<rparr>), xidCount = 0, tx_env = one_server\<rparr>"


section \<open>Calls with a future\<close>

text \<open>
  A call with a future and a result does what the call does, hands a result to the success callback, an exception to the other one, and
  without a callback throws a plain \<open>std::exception\<close>, whatever the exception was. A call without a result that is given a
  success callback does not do its work at all: \<open>putAllAsync\<close> and \<open>clearAsync\<close> only call the callback.
\<close>

theorem async_callbacks:
  "goAsync f None None s = (case f s of (Inl e, s') \<Rightarrow> (Inl (if is_std_exception e then StdException ''std::exception'' else e), s')
      | (Inr x, s') \<Rightarrow> (Inr x, s'))
    \<and> goAsync f (Some (\<lambda>x. ret x)) (Some h) s = (case f s of (Inl e, s') \<Rightarrow> if is_std_exception e then h e s' else (Inl e, s')
      | (Inr x, s') \<Rightarrow> (Inr x, s'))
    \<and> putAllAsync B tid w kvs life idl (Some (ret ())) fail s' = (Inr (), s')
    \<and> putAllAsync_unit B tid w kvs life lu (Some (ret ())) fail s' = (Inr (), s')
    \<and> putAllAsync_units B tid w kvs life lu idl iu (Some (ret ())) fail s' = (Inr (), s')
    \<and> clearAsync cfg (Some (ret ())) fail' r = (Inr (), r)"
  by (auto simp: goAsync_def goAsync_void_def async_failed_def putAllAsync_def putAllAsync_unit_def putAllAsync_units_def clearAsync_def
      catch_run bind_run ret_run raise_run split: prod.splits sum.splits)

definition no_transaction :: "nat \<Rightarrow> ('s, 'v) tx_sys \<Rightarrow> bool" where
  "no_transaction w s \<longleftrightarrow> (case currentTransactions s w of None \<Rightarrow> True | Some t \<Rightarrow> tx_status t = NO_TRANSACTION)"

lemma in_tx_outside:
  assumes "no_transaction w s"
  shows "in_tx B w tx plain s = plain (if rb_transactional B then snd (getCurrentTransaction w s) else s)"
  using assms by (auto simp: in_tx_def no_transaction_def bind_run getCurrentTransaction_def Let_def split: option.splits)

lemma goAsync_cong: "f s = g s0 \<Longrightarrow> goAsync f success fail s = goAsync g success fail s0"
  by (simp add: goAsync_def catch_run bind_run split: option.splits)



text \<open>
  \<open>putAsync\<close> with a unit does not convert: the number is taken as seconds and the code of the unit becomes the maximum
  idle time. In every other call with a unit the time is converted.
\<close>

theorem putAsync_unit_wrong:
  "putAsync_unit B tid w k v 5000 MILLISECONDS = goAsync (remote_put B tid k v 5000 1)
    \<and> putAsync_units B tid w k v 5000 MILLISECONDS 0 SECONDS = goAsync (remote_put B tid k v 5 0)"
proof -
  have "toSeconds 5000 MILLISECONDS = Inr 5" by (simp add: double_of_small ceil_quotient_exact)
  then show ?thesis
    by (simp add: putAsync_unit_def putAsync_units_def in_seconds_def remote_put_def remote_put_units_def time_code_def)
qed

end
