(* ===== verification/HR_Posix.thy ===== *)
theory HR_Posix
  imports HR_Stream HR_Topology
begin

text \<open>
  Opening a connection: \<open>sys/posix/Socket.cpp\<close> and \<open>sys/posix/Inet.cpp\<close>. The operating system is a parameter,
  one function for each call the client makes: it takes the state of the kernel and gives
  the result, what the call writes through its pointers, and the state after it. What the client relies on is \<open>kernel_ok\<close>.

  \<open>connect_order\<close> shows that the two rounds over the addresses of a host are one round over the addresses of
  the preferred family and then the others, that it stops at the first one that accepts, and
  that no descriptor but the one of the connection stays open.
\<close>

section \<open>The operating system\<close>

record addrinfo =
  ai_family :: int
  ai_socktype :: int
  ai_protocol :: int
  ai_ip :: string

record 'k kernel =
  sys_getenv :: "string \<Rightarrow> string option"
  sys_getaddrinfo :: "string \<Rightarrow> string \<Rightarrow> addrinfo \<Rightarrow> 'k \<Rightarrow> int \<times> addrinfo list \<times> 'k"
  sys_socket :: "int \<Rightarrow> int \<Rightarrow> int \<Rightarrow> 'k \<Rightarrow> int \<times> 'k"
  sys_getfl :: "int \<Rightarrow> 'k \<Rightarrow> u32 \<times> 'k"
  sys_setfl :: "int \<Rightarrow> u32 \<Rightarrow> 'k \<Rightarrow> 'k"
  sys_connect :: "int \<Rightarrow> addrinfo \<Rightarrow> 'k \<Rightarrow> int \<times> int \<times> 'k"
  sys_poll :: "int \<Rightarrow> u16 \<Rightarrow> int \<Rightarrow> 'k \<Rightarrow> int \<times> u16 \<times> 'k"
  sys_getsockopt :: "int \<Rightarrow> 'k \<Rightarrow> int \<times> int \<times> 'k"
  sys_setsockopt :: "int \<Rightarrow> int \<Rightarrow> int list \<Rightarrow> 'k \<Rightarrow> int \<times> 'k"
  sys_close :: "int \<Rightarrow> 'k \<Rightarrow> 'k"
  sys_shutdown :: "int \<Rightarrow> 'k \<Rightarrow> 'k"

definition AF_UNSPEC :: int where "AF_UNSPEC = 0"
definition AF_INET :: int where "AF_INET = 2"
definition AF_INET6 :: int where "AF_INET6 = 10"
definition SOCK_STREAM :: int where "SOCK_STREAM = 1"
definition EINPROGRESS :: int where "EINPROGRESS = 115"
definition POLLOUT :: u16 where "POLLOUT = 4"
definition O_NONBLOCK :: u32 where "O_NONBLOCK = 0x800"
definition TCP_NODELAY :: int where "TCP_NODELAY = 1"
definition SO_RCVTIMEO :: int where "SO_RCVTIMEO = 20"
definition SO_SNDTIMEO :: int where "SO_SNDTIMEO = 21"
definition MSG_NOSIGNAL :: int where "MSG_NOSIGNAL = 0x4000"

section \<open>Addresses\<close>

definition ascii_lower :: "char \<Rightarrow> char" where
  "ascii_lower c = (if 65 \<le> (of_char c :: nat) \<and> of_char c \<le> (90 :: nat) then char_of (of_char c + 32 :: nat) else c)"

definition strcasecmp_eq :: "string \<Rightarrow> string \<Rightarrow> bool" where
  "strcasecmp_eq a b \<longleftrightarrow> map ascii_lower a = map ascii_lower b"

definition getPreferredIPStack :: "'k kernel \<Rightarrow> exn + int" where
  "getPreferredIPStack K =
    (case sys_getenv K ''HOTROD_IPSTACK'' of
       None \<Rightarrow> Inr AF_UNSPEC
     | Some stack \<Rightarrow>
         if strcasecmp_eq stack ''IPV4'' then Inr AF_INET
         else if strcasecmp_eq stack ''IPV6'' then Inr AF_INET6
         else Inl (StdException ''Invalid HOTROD_IPSTACK environment variable''))"

fun decimal_of :: "nat \<Rightarrow> string" where
  "decimal_of n = (if n < 10 then [char_of (48 + n)] else decimal_of (n div 10) @ [char_of (48 + n mod 10)])"

declare decimal_of.simps [simp del]

definition hr_getaddrinfo :: "'k kernel \<Rightarrow> string \<Rightarrow> int \<Rightarrow> 'k \<Rightarrow> int \<times> addrinfo list \<times> 'k" where
  "hr_getaddrinfo K host p =
    sys_getaddrinfo K host (decimal_of (nat p)) \<lparr>ai_family = AF_UNSPEC, ai_socktype = SOCK_STREAM, ai_protocol = 0, ai_ip = []\<rparr>"

text \<open>A plain \<open>Exception\<close>, the class the queues throw as well.\<close>

abbreviation (input) Exception :: "string \<Rightarrow> exn" where "Exception \<equiv> QueueException"

definition resolve :: "'k kernel \<Rightarrow> string \<Rightarrow> bool \<Rightarrow> ('k, string list) sm" where
  "resolve K host no_throw = (\<lambda>k.
    case hr_getaddrinfo K host 0 k of (ec, addr_list, k') \<Rightarrow>
      if ec \<noteq> 0 then (if no_throw then (Inr [host], k') else (Inl (Exception (''Failed to resolve: '' @ host)), k'))
      else (Inr (sort (remdups (map ai_ip addr_list))), k'))"

text \<open>An \<open>InetSocketAddress\<close> with the addresses its constructor resolves; \<open>operator=\<close> does not copy them.\<close>

definition new_InetSocketAddress :: "'k kernel \<Rightarrow> string \<Rightarrow> int \<Rightarrow> ('k, inet \<times> string list) sm" where
  "new_InetSocketAddress K host p = bind (resolve K host True) (\<lambda>addresses. ret (InetSocketAddress host p, addresses))"

definition inet_assign :: "inet \<times> string list \<Rightarrow> inet \<times> string list \<Rightarrow> inet \<times> string list" where
  "inet_assign l r = (fst r, snd l)"

section \<open>The socket\<close>

record 'k posix_socket =
  sk_fd :: int
  sk_host :: string
  sk_port :: int
  sendFlag :: int
  sk_kern :: 'k

definition Socket :: "int \<Rightarrow> 'k \<Rightarrow> 'k posix_socket" where
  "Socket flag k = \<lparr>sk_fd = -1, sk_host = [], sk_port = -1, sendFlag = flag, sk_kern = k\<rparr>"

definition sock_throwIOErr :: "string \<Rightarrow> ('k posix_socket, 'a) sm" where
  "sock_throwIOErr msg = (\<lambda>s. (Inl (TransportException (sk_host s) (sk_port s) msg), s))"

text \<open>
  \<open>attemptConnect\<close>: a connection that is in progress is waited for; \<open>poll\<close> has to report exactly \<open>POLLOUT\<close>.
  The error \<open>getsockopt\<close> gives through its pointer is not looked at.
\<close>

definition attemptConnect :: "'k kernel \<Rightarrow> int \<Rightarrow> int \<Rightarrow> addrinfo \<Rightarrow> 'k \<Rightarrow> int \<times> 'k" where
  "attemptConnect K sock timeout addr k =
    (case sys_connect K sock addr k of (s, errno, k) \<Rightarrow>
       if s < 0 \<and> errno = EINPROGRESS
       then case sys_poll K sock POLLOUT timeout k of (evCount, revents, k) \<Rightarrow>
         if evCount > 0
         then if POLLOUT XOR revents \<noteq> 0 then (s, k)
              else (case sys_getsockopt K sock k of (s, opt, k) \<Rightarrow> (s, k))
         else (s, k)
       else (s, k))"

text \<open>\<open>connectToHost\<close>, the loop over the addresses.\<close>

fun connectToHost :: "'k kernel \<Rightarrow> int \<Rightarrow> bool \<Rightarrow> int \<Rightarrow> addrinfo list \<Rightarrow> ('k posix_socket, bool) sm" where
  "connectToHost K preferredIPStack preferred timeout [] = ret False"
| "connectToHost K preferredIPStack preferred timeout (addr # addr_list) = (\<lambda>u.
    if (preferredIPStack = ai_family addr) \<noteq> preferred then connectToHost K preferredIPStack preferred timeout addr_list u
    else case sys_socket K (ai_family addr) (ai_socktype addr) (ai_protocol addr) (sk_kern u) of (sock, k) \<Rightarrow>
      if sock = -1 then connectToHost K preferredIPStack preferred timeout addr_list (u\<lparr>sk_kern := k\<rparr>)
      else case sys_getfl K sock k of (flags, k) \<Rightarrow>
        case attemptConnect K sock timeout addr (sys_setfl K sock (flags OR O_NONBLOCK) k) of (s, k) \<Rightarrow>
          if s < 0
          then connectToHost K preferredIPStack preferred timeout addr_list
                 (u\<lparr>sendFlag := MSG_NOSIGNAL, sk_kern := sys_close K sock k\<rparr>)
          else (Inr True, u\<lparr>sendFlag := MSG_NOSIGNAL, sk_fd := sock, sk_kern := sys_setfl K sock (flags AND NOT O_NONBLOCK) k\<rparr>))"

definition socket_connect :: "'k kernel \<Rightarrow> int \<Rightarrow> string \<Rightarrow> int \<Rightarrow> int \<Rightarrow> ('k posix_socket, unit) sm" where
  "socket_connect K preferredIPStack h p timeout =
    seq (modify (\<lambda>s. s\<lparr>sk_host := h, sk_port := uint (word_of_int p :: u16)\<rparr>))
    (bind (gets sk_fd) (\<lambda>fd.
     if fd \<noteq> -1 then sock_throwIOErr ''reconnect attempt''
     else (\<lambda>s. case hr_getaddrinfo K (sk_host s) (sk_port s) (sk_kern s) of (ec, addr_list, k) \<Rightarrow>
       (if ec \<noteq> 0 then sock_throwIOErr ''Error while invoking getaddrinfo''
        else bind (connectToHost K preferredIPStack True timeout addr_list) (\<lambda>done.
             seq (if done then ret () else bind (connectToHost K preferredIPStack False timeout addr_list) (\<lambda>_. ret ()))
             (bind (gets sk_fd) (\<lambda>fd. if fd = -1 then sock_throwIOErr ''Failed to connect'' else ret ()))))
         (s\<lparr>sk_kern := k\<rparr>))))"

definition socket_close :: "'k kernel \<Rightarrow> ('k posix_socket, unit) sm" where
  "socket_close K = modify (\<lambda>s. if sk_fd s \<ge> 0 then s\<lparr>sk_kern := sys_shutdown K (sk_fd s) (sk_kern s), sk_fd := -1\<rparr> else s)"

definition set_option :: "'k kernel \<Rightarrow> int \<Rightarrow> int list \<Rightarrow> string \<Rightarrow> ('k posix_socket, unit) sm" where
  "set_option K opt v msg = (\<lambda>s. case sys_setsockopt K (sk_fd s) opt v (sk_kern s) of (r, k) \<Rightarrow>
     (if r < 0 then sock_throwIOErr msg else ret ()) (s\<lparr>sk_kern := k\<rparr>))"

definition setTcpNoDelay :: "'k kernel \<Rightarrow> bool \<Rightarrow> ('k posix_socket, unit) sm" where
  "setTcpNoDelay K b = set_option K TCP_NODELAY [if b then 1 else 0] ''Failure setting TCP_NODELAY''"

text \<open>Division and remainder of C++, which round towards zero.\<close>

definition timeval :: "int \<Rightarrow> int list" where
  "timeval timeout = [sgn timeout * (\<bar>timeout\<bar> div 1000), sgn timeout * (\<bar>timeout\<bar> mod 1000) * 1000]"

definition setTimeout :: "'k kernel \<Rightarrow> int \<Rightarrow> ('k posix_socket, unit) sm" where
  "setTimeout K timeout =
    seq (set_option K SO_RCVTIMEO (timeval timeout) ''Failure setting receive socket timeout'')
        (set_option K SO_SNDTIMEO (timeval timeout) ''Failure setting send socket timeout'')"

text \<open>
  What the constructor of \<open>TcpTransport\<close> does with its socket. When it throws, the socket is destroyed, which closes it.
\<close>

definition open_transport :: "'k kernel \<Rightarrow> int \<Rightarrow> string \<Rightarrow> int \<Rightarrow> int \<Rightarrow> int \<Rightarrow> bool \<Rightarrow> ('k posix_socket, unit) sm" where
  "open_transport K stack h p connectTimeout soTimeout noDelay =
    catch (seq (socket_connect K stack h p connectTimeout) (seq (setTimeout K soTimeout) (setTcpNoDelay K noDelay)))
      (\<lambda>e. seq (socket_close K) (raise e))"

section \<open>Addresses are tried in order\<close>

text \<open>
  What the client relies on: \<open>opens\<close> gives the open descriptors of a state of the kernel; \<open>socket\<close> opens a new one or
  fails, \<open>close\<close> closes one, and no other call does either.
\<close>

definition kernel_ok :: "('k \<Rightarrow> int set) \<Rightarrow> 'k kernel \<Rightarrow> bool" where
  "kernel_ok opens K \<longleftrightarrow>
    (\<forall>f t p k. case sys_socket K f t p k of (fd, k') \<Rightarrow>
        if fd = -1 then opens k' = opens k else 0 \<le> fd \<and> fd \<notin> opens k \<and> opens k' = insert fd (opens k))
    \<and> (\<forall>fd k. opens (sys_close K fd k) = opens k - {fd})
    \<and> (\<forall>h p i k. opens (snd (snd (sys_getaddrinfo K h p i k))) = opens k)
    \<and> (\<forall>fd k. opens (snd (sys_getfl K fd k)) = opens k)
    \<and> (\<forall>fd v k. opens (sys_setfl K fd v k) = opens k)
    \<and> (\<forall>fd a k. opens (snd (snd (sys_connect K fd a k))) = opens k)
    \<and> (\<forall>fd e t k. opens (snd (snd (sys_poll K fd e t k))) = opens k)
    \<and> (\<forall>fd k. opens (snd (snd (sys_getsockopt K fd k))) = opens k)
    \<and> (\<forall>fd i v k. opens (snd (sys_setsockopt K fd i v k)) = opens k)
    \<and> (\<forall>fd k. opens (sys_shutdown K fd k) = opens k)"

text \<open>One address, and the addresses one after the other.\<close>

definition try_address :: "'k kernel \<Rightarrow> int \<Rightarrow> addrinfo \<Rightarrow> 'k \<Rightarrow> int option \<times> 'k" where
  "try_address K timeout a k =
    (case sys_socket K (ai_family a) (ai_socktype a) (ai_protocol a) k of (fd, k) \<Rightarrow>
       if fd = -1 then (None, k)
       else case sys_getfl K fd k of (flags, k) \<Rightarrow>
         case attemptConnect K fd timeout a (sys_setfl K fd (flags OR O_NONBLOCK) k) of (s, k) \<Rightarrow>
           if s < 0 then (None, sys_close K fd k) else (Some fd, sys_setfl K fd (flags AND NOT O_NONBLOCK) k))"

fun first_accepting :: "(addrinfo \<Rightarrow> 'k \<Rightarrow> int option \<times> 'k) \<Rightarrow> addrinfo list \<Rightarrow> 'k \<Rightarrow> int option \<times> 'k" where
  "first_accepting attempt [] k = (None, k)"
| "first_accepting attempt (a # as) k =
    (case attempt a k of (None, k') \<Rightarrow> first_accepting attempt as k' | (Some fd, k') \<Rightarrow> (Some fd, k'))"

text \<open>An attempt that leaves no descriptor open but the one it returns.\<close>

definition tidy :: "('k \<Rightarrow> int set) \<Rightarrow> (addrinfo \<Rightarrow> 'k \<Rightarrow> int option \<times> 'k) \<Rightarrow> bool" where
  "tidy opens attempt \<longleftrightarrow> (\<forall>a k. case attempt a k of
     (None, k') \<Rightarrow> opens k' = opens k
   | (Some fd, k') \<Rightarrow> 0 \<le> fd \<and> fd \<notin> opens k \<and> opens k' = insert fd (opens k))"

definition preferred_first :: "int \<Rightarrow> addrinfo list \<Rightarrow> addrinfo list" where
  "preferred_first stack as = filter (\<lambda>a. ai_family a = stack) as @ filter (\<lambda>a. ai_family a \<noteq> stack) as"

lemma kernel_socket:
  assumes "kernel_ok opens K" "sys_socket K f t p k = (fd, k')"
  shows "fd = -1 \<Longrightarrow> opens k' = opens k" "fd \<noteq> -1 \<Longrightarrow> 0 \<le> fd \<and> fd \<notin> opens k \<and> opens k' = insert fd (opens k)"
proof -
  have "if fd = -1 then opens k' = opens k else 0 \<le> fd \<and> fd \<notin> opens k \<and> opens k' = insert fd (opens k)"
    using assms unfolding kernel_ok_def by (metis (mono_tags, lifting) case_prod_conv)
  then show "fd = -1 \<Longrightarrow> opens k' = opens k" "fd \<noteq> -1 \<Longrightarrow> 0 \<le> fd \<and> fd \<notin> opens k \<and> opens k' = insert fd (opens k)"
    by simp_all
qed

lemma kernel_keeps:
  assumes "kernel_ok opens K"
  shows "opens (sys_close K fd k) = opens k - {fd}" "opens (sys_setfl K fd v k) = opens k" "opens (sys_shutdown K fd k) = opens k"
    and "sys_getaddrinfo K h p i k = (ec, l, k1) \<Longrightarrow> opens k1 = opens k"
    and "sys_getfl K fd k = (fl, k2) \<Longrightarrow> opens k2 = opens k"
    and "sys_connect K fd a k = (s, e, k3) \<Longrightarrow> opens k3 = opens k"
    and "sys_poll K fd ev tm k = (n, re, k4) \<Longrightarrow> opens k4 = opens k"
    and "sys_getsockopt K fd k = (s, e, k5) \<Longrightarrow> opens k5 = opens k"
    and "sys_setsockopt K fd j w k = (s, k6) \<Longrightarrow> opens k6 = opens k"
  using assms unfolding kernel_ok_def by (simp_all, (metis snd_conv)+)

lemma attemptConnect_keeps:
  assumes "kernel_ok opens K" "attemptConnect K fd timeout a k = (s, k')"
  shows "opens k' = opens k"
  using assms(2) unfolding attemptConnect_def
  by (auto simp: kernel_keeps(6-8) [OF assms(1)] split: prod.splits if_splits)

lemma try_address_opens:
  assumes "kernel_ok opens K" "try_address K timeout a k = (r, k')"
  shows "case r of None \<Rightarrow> opens k' = opens k | Some fd \<Rightarrow> 0 \<le> fd \<and> fd \<notin> opens k \<and> opens k' = insert fd (opens k)"
proof -
  obtain fd k1 where sock: "sys_socket K (ai_family a) (ai_socktype a) (ai_protocol a) k = (fd, k1)" by fastforce
  obtain fl k2 where fl: "sys_getfl K fd k1 = (fl, k2)" by fastforce
  obtain s k3 where s: "attemptConnect K fd timeout a (sys_setfl K fd (fl OR O_NONBLOCK) k2) = (s, k3)" by fastforce
  have "opens k3 = opens k1"
    using attemptConnect_keeps [OF assms(1) s] kernel_keeps(5) [OF assms(1) fl] by (simp add: kernel_keeps(2) [OF assms(1)])
  then show ?thesis
    using assms(2) kernel_socket [OF assms(1) sock] sock fl s
    by (cases "fd = -1") (auto simp: try_address_def kernel_keeps(1,2) [OF assms(1)] split: if_splits)
qed

lemma tidyD:
  assumes "tidy opens attempt" "attempt a k = (r, k')"
  shows "case r of None \<Rightarrow> opens k' = opens k | Some fd \<Rightarrow> 0 \<le> fd \<and> fd \<notin> opens k \<and> opens k' = insert fd (opens k)"
proof -
  have "case attempt a k of (None, k') \<Rightarrow> opens k' = opens k
      | (Some fd, k') \<Rightarrow> 0 \<le> fd \<and> fd \<notin> opens k \<and> opens k' = insert fd (opens k)"
    using assms(1) by (simp add: tidy_def)
  then show ?thesis using assms(2) by (simp split: option.splits)
qed

lemma try_address_tidy: "kernel_ok opens K \<Longrightarrow> tidy opens (try_address K timeout)"
  unfolding tidy_def using try_address_opens by (fastforce split: prod.split option.split)

lemma first_accepting_opens:
  assumes "tidy opens attempt"
  shows "first_accepting attempt as k = (r, k') \<Longrightarrow>
    (case r of None \<Rightarrow> opens k' = opens k | Some fd \<Rightarrow> 0 \<le> fd \<and> fd \<notin> opens k \<and> opens k' = insert fd (opens k))"
proof (induction "as" arbitrary: k)
  case (Cons a "as")
  obtain q k1 where one: "attempt a k = (q, k1)" by fastforce
  show ?case
    using tidyD [OF assms one] Cons.IH [of k1] Cons.prems one by (auto split: option.splits)
qed simp

lemma first_accepting_append:
  "first_accepting attempt (xs @ ys) k =
    (case first_accepting attempt xs k of (None, k') \<Rightarrow> first_accepting attempt ys k' | (Some fd, k') \<Rightarrow> (Some fd, k'))"
  by (induction xs arbitrary: k) (simp_all split: prod.splits option.splits)

lemma connectToHost_run:
  "\<exists>f. connectToHost K stack preferred timeout as u =
    (case first_accepting (try_address K timeout) (filter (\<lambda>a. (stack = ai_family a) = preferred) as) (sk_kern u) of
       (None, k) \<Rightarrow> (Inr False, u\<lparr>sendFlag := f, sk_kern := k\<rparr>)
     | (Some fd, k) \<Rightarrow> (Inr True, u\<lparr>sendFlag := f, sk_fd := fd, sk_kern := k\<rparr>))"
proof (induction "as" arbitrary: u)
  case Nil
  show ?case by (rule exI [of _ "sendFlag u"]) (simp add: ret_run)
next
  case (Cons a "as")
  obtain q k1 where one: "try_address K timeout a (sk_kern u) = (q, k1)" by fastforce
  then show ?case
    using Cons.IH [of u] Cons.IH [of "u\<lparr>sk_kern := k1\<rparr>"] Cons.IH [of "u\<lparr>sendFlag := MSG_NOSIGNAL, sk_kern := k1\<rparr>"]
    by (auto simp: try_address_def split: prod.splits if_splits option.splits)
qed

lemma preferred_first_eq:
  "preferred_first stack as = filter (\<lambda>a. (stack = ai_family a) = True) as @ filter (\<lambda>a. (stack = ai_family a) = False) as"
  by (simp add: preferred_first_def eq_commute)

text \<open>
  C11. \<open>Socket::connect\<close> on a fresh socket tries the addresses of the host one after the other, first those of the
  preferred family in the order of the resolver and then the others, each of them once, and takes the
  first one that accepts. When there is one, the socket has its descriptor, and it is the only descriptor that was opened and
  is still open; when there is none, a \<open>TransportException\<close> with the host and the port leaves the function, and no
  descriptor stays open.
\<close>

theorem connect_order:
  fixes p :: int
  defines "n \<equiv> uint (word_of_int p :: u16)"
  assumes K: "kernel_ok opens K" and fresh: "sk_fd s = -1"
    and found: "hr_getaddrinfo K h n (sk_kern s) = (0, as, k)"
  shows "\<exists>f. (case first_accepting (try_address K timeout) (preferred_first stack as) k of
      (None, k') \<Rightarrow> opens k' = opens (sk_kern s)
        \<and> socket_connect K stack h p timeout s
          = (Inl (TransportException h n ''Failed to connect''), s\<lparr>sk_host := h, sk_port := n, sendFlag := f, sk_kern := k'\<rparr>)
    | (Some fd, k') \<Rightarrow> opens k' = insert fd (opens (sk_kern s)) \<and> fd \<notin> opens (sk_kern s) \<and> 0 \<le> fd
        \<and> socket_connect K stack h p timeout s
          = (Inr (), s\<lparr>sk_host := h, sk_port := n, sk_fd := fd, sendFlag := f, sk_kern := k'\<rparr>))"
proof -
  let ?s = "s\<lparr>sk_host := h, sk_port := n, sk_kern := k\<rparr>"
  have same: "opens k = opens (sk_kern s)"
    using kernel_keeps(4) [OF K found [unfolded hr_getaddrinfo_def]] .
  obtain q1 k1 where one: "first_accepting (try_address K timeout) (filter (\<lambda>a. (stack = ai_family a) = True) as) k = (q1, k1)" by fastforce
  obtain q2 k2 where two: "first_accepting (try_address K timeout) (filter (\<lambda>a. (stack = ai_family a) = False) as) k1 = (q2, k2)" by fastforce
  obtain f1 where run1: "connectToHost K stack True timeout as ?s =
      (case q1 of None \<Rightarrow> (Inr False, ?s\<lparr>sendFlag := f1, sk_kern := k1\<rparr>)
       | Some fd \<Rightarrow> (Inr True, ?s\<lparr>sendFlag := f1, sk_fd := fd, sk_kern := k1\<rparr>))"
    using connectToHost_run [of K stack True timeout "as" ?s] one by auto
  obtain f2 where run2: "connectToHost K stack False timeout as (?s\<lparr>sendFlag := f1, sk_kern := k1\<rparr>) =
      (case q2 of None \<Rightarrow> (Inr False, ?s\<lparr>sendFlag := f2, sk_kern := k2\<rparr>)
       | Some fd \<Rightarrow> (Inr True, ?s\<lparr>sendFlag := f2, sk_fd := fd, sk_kern := k2\<rparr>))"
    using connectToHost_run [of K stack False timeout "as" "?s\<lparr>sendFlag := f1, sk_kern := k1\<rparr>"] two by (cases q2) auto
  have start: "socket_connect K stack h p timeout s =
      bind (connectToHost K stack True timeout as) (\<lambda>found.
        seq (if found then ret () else bind (connectToHost K stack False timeout as) (\<lambda>_. ret ()))
        (bind (gets sk_fd) (\<lambda>fd. if fd = -1 then sock_throwIOErr ''Failed to connect'' else ret ()))) ?s"
    using fresh found by (simp add: socket_connect_def n_def sm_simps)
  show ?thesis
  proof (cases q1)
    case None
    then show ?thesis
      using first_accepting_opens [OF try_address_tidy [OF K] one] first_accepting_opens [OF try_address_tidy [OF K] two] run1 run2 one two fresh same
      by (intro exI [of _ f2])
        (auto simp: start preferred_first_eq first_accepting_append sm_simps sock_throwIOErr_def split: option.splits)
  next
    case (Some fd)
    then show ?thesis
      using first_accepting_opens [OF try_address_tidy [OF K] one] run1 one same
      by (intro exI [of _ f1]) (auto simp: start preferred_first_eq first_accepting_append sm_simps)
  qed
qed

text \<open>
  A kernel whose state is the list of the open descriptors: it accepts connections to one address and refuses all others.
\<close>

definition small_kernel :: "nat list kernel" where
  "small_kernel = \<lparr>sys_getenv = \<lambda>_. Some ''ipv4'',
     sys_getaddrinfo = (\<lambda>h p i k. (0, [\<lparr>ai_family = 10, ai_socktype = 1, ai_protocol = 6, ai_ip = ''::1''\<rparr>,
       \<lparr>ai_family = 2, ai_socktype = 1, ai_protocol = 6, ai_ip = ''127.0.0.1''\<rparr>], k)),
     sys_socket = (\<lambda>f t p k. (int (Suc (sum_list k)), Suc (sum_list k) # k)),
     sys_getfl = (\<lambda>fd k. (2, k)), sys_setfl = (\<lambda>fd v k. k),
     sys_connect = (\<lambda>fd a k. (-1, if ai_ip a = ''::1'' then EINPROGRESS else 111, k)),
     sys_poll = (\<lambda>fd e t k. (1, POLLOUT, k)), sys_getsockopt = (\<lambda>fd k. (0, 0, k)), sys_setsockopt = (\<lambda>fd i v k. (0, k)),
     sys_close = (\<lambda>fd k. filter (\<lambda>d. int d \<noteq> fd) k), sys_shutdown = (\<lambda>fd k. k)\<rparr>"

definition small_opens :: "nat list \<Rightarrow> int set" where
  "small_opens k = int ` set k"

lemma small_kernel_ok: "kernel_ok small_opens small_kernel"
proof -
  have "1 + int (sum_list k) \<noteq> int d" if "d \<in> set k" for k d using member_le_sum_list [OF that] by simp
  then show ?thesis by (fastforce simp: kernel_ok_def small_opens_def small_kernel_def)
qed

theorem connect_order_witness:
  "fst (socket_connect small_kernel AF_INET ''localhost'' 11222 60000 (Socket 0 [5])) = Inr ()
    \<and> small_opens (sk_kern (snd (socket_connect small_kernel AF_INET ''localhost'' 11222 60000 (Socket 0 [5])))) = {5, 6}"
proof -
  have all: "first_accepting (try_address small_kernel 60000) (preferred_first AF_INET (fst (snd (sys_getaddrinfo small_kernel h p i [])))) [5] =
      (Some 6, [6, 5])" for h p i
    by (simp add: small_kernel_def preferred_first_def AF_INET_def try_address_def attemptConnect_def EINPROGRESS_def)
  have found: "hr_getaddrinfo small_kernel ''localhost'' n (sk_kern (Socket 0 [5])) =
      (0, fst (snd (sys_getaddrinfo small_kernel [] [] undefined [])), [5])" for n
    by (simp add: hr_getaddrinfo_def small_kernel_def Socket_def)
  have fresh: "sk_fd (Socket 0 k) = -1" for k :: "nat list" by (simp add: Socket_def)
  obtain f where "socket_connect small_kernel AF_INET ''localhost'' 11222 60000 (Socket 0 [5]) = (Inr (), (Socket 0 [5])
      \<lparr>sk_host := ''localhost'', sk_port := uint (word_of_int 11222 :: u16), sk_fd := 6, sendFlag := f, sk_kern := [6, 5]\<rparr>)"
    using connect_order [OF small_kernel_ok fresh found, where stack = AF_INET and timeout = 60000 and p = 11222] unfolding all by auto
  then show ?thesis by (auto simp: small_opens_def)
qed

section \<open>What is left of a closed connection\<close>

lemma set_option_keeps:
  assumes "kernel_ok opens K" "set_option K i v msg s = (r, s')"
  shows "opens (sk_kern s') = opens (sk_kern s)" "sk_fd s' = sk_fd s"
  using assms(2) kernel_keeps(9) [OF assms(1)]
  by (auto simp: set_option_def sm_simps sock_throwIOErr_def split: prod.splits if_splits)

text \<open>
  \<open>Socket::close\<close> shuts the connection down and forgets the descriptor, but does not close it: the descriptor of
  every connection that was opened stays open.
\<close>

theorem closed_socket_open:
  assumes K: "kernel_ok opens K" and fd: "0 \<le> sk_fd s"
  shows "\<exists>s'. socket_close K s = (Inr (), s') \<and> sk_fd s' = -1 \<and> opens (sk_kern s') = opens (sk_kern s)"
  using fd by (simp add: socket_close_def modify_run kernel_keeps(3) [OF K])

text \<open>The error of a connection that failed while it was waited for is not looked at.\<close>

theorem socket_error_ignored:
  assumes "sys_connect K fd a k = (-1, EINPROGRESS, k1)" "sys_poll K fd POLLOUT timeout k1 = (1, POLLOUT, k2)"
    and "sys_getsockopt K fd k2 = (0, err, k3)"
  shows "attemptConnect K fd timeout a k = (0, k3)"
  using assms by (simp add: attemptConnect_def)

text \<open>Without \<open>HOTROD_IPSTACK\<close> no address is preferred and they are tried in the order of the resolver.\<close>

lemma no_preference:
  "\<forall>a\<in>set as. ai_family a \<noteq> AF_UNSPEC \<Longrightarrow> preferred_first AF_UNSPEC as = as"
  by (simp add: preferred_first_def filter_empty_conv filter_id_conv)

section \<open>Equal addresses\<close>

text \<open>
  An address that was assigned another one is equal to it, and through the addresses it keeps it is still equal to everything its
  old host was equal to on the new port.
\<close>

theorem assigned_address_equal:
  "inet_eq (inet_assign a r) r"
  "isSameHost (snd a) (snd c) \<Longrightarrow> port (fst c) = port (fst r) \<Longrightarrow> inet_eq (inet_assign a r) c"
  by (simp_all add: inet_eq_def inet_assign_def)

end
