(* ===== verification/HR_Windows.thy ===== *)
theory HR_Windows
  imports HR_Posix
begin

text \<open>
  The sockets of Windows: \<open>sys/windows/Socket.cpp\<close> and \<open>sys/windows/Inet.cpp\<close>, over Winsock as a parameter. A call that can fail gives its result together with
  what \<open>WSAGetLastError\<close> says after it.
\<close>

section \<open>Winsock\<close>

record 'k winsock =
  ws_getenv :: "string \<Rightarrow> string option"
  ws_startup :: "'k \<Rightarrow> int \<times> 'k"
  ws_getaddrinfo :: "string \<Rightarrow> string \<Rightarrow> addrinfo \<Rightarrow> 'k \<Rightarrow> int \<times> addrinfo list \<times> 'k"
  ws_socket :: "int \<Rightarrow> int \<Rightarrow> int \<Rightarrow> 'k \<Rightarrow> int \<times> 'k"
  ws_ioctlsocket :: "int \<Rightarrow> bool \<Rightarrow> 'k \<Rightarrow> 'k"
  ws_connect :: "int \<Rightarrow> addrinfo \<Rightarrow> 'k \<Rightarrow> int \<times> int \<times> 'k"
  ws_select :: "int \<Rightarrow> int list \<Rightarrow> 'k \<Rightarrow> int \<times> bool \<times> int \<times> 'k"
  ws_getsockopt :: "int \<Rightarrow> 'k \<Rightarrow> int \<times> int \<times> 'k"
  ws_setsockopt :: "int \<Rightarrow> int \<Rightarrow> int \<Rightarrow> 'k \<Rightarrow> int \<times> 'k"
  ws_closesocket :: "int \<Rightarrow> 'k \<Rightarrow> 'k"
  ws_recv :: "int \<Rightarrow> nat \<Rightarrow> 'k \<Rightarrow> recv_result \<times> 'k"
  ws_send :: "int \<Rightarrow> bytes \<Rightarrow> 'k \<Rightarrow> int \<times> 'k"

definition INVALID_SOCKET :: int where "INVALID_SOCKET = -1"
definition WSAEWOULDBLOCK :: int where "WSAEWOULDBLOCK = 10035"
definition WSAETIMEDOUT :: int where "WSAETIMEDOUT = 10060"

section \<open>Names\<close>

text \<open>\<open>getenv_s\<close> fills a buffer of 256 characters; a longer value leaves it empty, and has a size that is not 0.\<close>

definition win_getPreferredIPStack :: "'k winsock \<Rightarrow> exn + int" where
  "win_getPreferredIPStack W =
    (case ws_getenv W ''HOTROD_IPSTACK'' of
       None \<Rightarrow> Inr AF_UNSPEC
     | Some v \<Rightarrow>
         let stack = if length v < 256 then v else []
         in if strcasecmp_eq stack ''IPV4'' then Inr AF_INET
            else if strcasecmp_eq stack ''IPV6'' then Inr AF_INET6
            else Inl (StdException ''Invalid HOTROD_IPSTACK environment variable''))"

definition win_getaddrinfo :: "'k winsock \<Rightarrow> string \<Rightarrow> int \<Rightarrow> 'k \<Rightarrow> int \<times> addrinfo list \<times> 'k" where
  "win_getaddrinfo W host p =
    ws_getaddrinfo W host (decimal_of (nat p)) \<lparr>ai_family = AF_UNSPEC, ai_socktype = SOCK_STREAM, ai_protocol = 0, ai_ip = []\<rparr>"

definition win_resolve :: "'k winsock \<Rightarrow> string \<Rightarrow> bool \<Rightarrow> ('k, string list) sm" where
  "win_resolve W host no_throw = (\<lambda>k.
    case win_getaddrinfo W host 0 k of (ec, addr_list, k') \<Rightarrow>
      if ec \<noteq> 0 then (if no_throw then (Inr [host], k') else (Inl (Exception (''Failed to resolve: '' @ host)), k'))
      else (Inr (sort (remdups (map ai_ip addr_list))), k'))"

section \<open>The socket\<close>

text \<open>\<open>wk_started\<close> is the static member.\<close>

record 'k win_socket =
  wk_fd :: int
  wk_host :: string
  wk_port :: int
  wk_started :: bool
  wk_kern :: 'k

definition win_throwIOErr :: "string \<Rightarrow> ('k win_socket, 'a) sm" where
  "win_throwIOErr msg = (\<lambda>s. (Inl (TransportException (wk_host s) (wk_port s) msg), s))"

definition WinSocket :: "'k winsock \<Rightarrow> ('k win_socket, unit) sm" where
  "WinSocket W = (\<lambda>s.
    if wk_started s then (Inr (), s\<lparr>wk_fd := INVALID_SOCKET\<rparr>)
    else case ws_startup W (wk_kern s) of (err, k) \<Rightarrow>
      if err \<noteq> 0 then (Inl (TransportException [] 0 ''windows WSAStartup failed''), s\<lparr>wk_fd := INVALID_SOCKET, wk_kern := k\<rparr>)
      else (Inr (), s\<lparr>wk_fd := INVALID_SOCKET, wk_started := True, wk_kern := k\<rparr>))"

text \<open>
  One address: the socket when it accepts. The variable \<open>error\<close> lives across the addresses; it is \<open>None\<close> until it is assigned.
\<close>

definition win_try :: "'k winsock \<Rightarrow> int \<Rightarrow> addrinfo \<Rightarrow> int option \<Rightarrow> 'k \<Rightarrow> int option \<times> int option \<times> 'k" where
  "win_try W timeout addr error k =
    (case ws_socket W (ai_family addr) (ai_socktype addr) (ai_protocol addr) k of (sock, k) \<Rightarrow>
       if sock = INVALID_SOCKET then (None, error, k)
       else case ws_connect W sock addr (ws_ioctlsocket W sock True k) of (s, error, k) \<Rightarrow>
         if s < 0
         then if error = WSAEWOULDBLOCK
              then case ws_select W sock (timeval timeout) k of (s, failed, lastError, k) \<Rightarrow>
                if s > 0
                then if failed
                     then case ws_getsockopt W sock k of (rcode, so_error_value, k) \<Rightarrow>
                       (None, Some (if rcode \<noteq> -1 then so_error_value else error), ws_closesocket W sock k)
                     else (Some sock, Some error, k)
                else if s = 0 then (None, Some error, ws_closesocket W sock k)
                else (None, Some lastError, ws_closesocket W sock k)
              else (None, Some error, ws_closesocket W sock k)
         else (Some sock, Some error, k))"

fun win_scan :: "'k winsock \<Rightarrow> int \<Rightarrow> bool \<Rightarrow> int \<Rightarrow> addrinfo list \<Rightarrow> int option \<Rightarrow> 'k \<Rightarrow> int option \<times> int option \<times> 'k" where
  "win_scan W stack preferred timeout [] error k = (None, error, k)"
| "win_scan W stack preferred timeout (addr # addr_list) error k =
    (if (preferred \<and> stack \<noteq> ai_family addr) \<or> (\<not> preferred \<and> stack = ai_family addr)
     then win_scan W stack preferred timeout addr_list error k
     else case win_try W timeout addr error k of
       (None, error, k) \<Rightarrow> win_scan W stack preferred timeout addr_list error k
     | (Some sock, error, k) \<Rightarrow> (Some sock, error, k))"

definition win_connect :: "'k winsock \<Rightarrow> int \<Rightarrow> string \<Rightarrow> int \<Rightarrow> int \<Rightarrow> ('k win_socket, unit) sm" where
  "win_connect W stack h p timeout =
    seq (modify (\<lambda>s. s\<lparr>wk_host := h, wk_port := p\<rparr>))
    (bind (gets wk_fd) (\<lambda>fd.
     if fd \<noteq> INVALID_SOCKET then win_throwIOErr ''reconnect attempt''
     else (\<lambda>s. case win_getaddrinfo W h p (wk_kern s) of (ec, addr_list, k) \<Rightarrow>
       if ec \<noteq> 0 then win_throwIOErr ''Error while invoking getaddrinfo'' (s\<lparr>wk_kern := k\<rparr>)
       else case (case win_scan W stack True timeout addr_list None k of
                    (Some sock, error, k) \<Rightarrow> (Some sock, error, k)
                  | (None, error, k) \<Rightarrow> win_scan W stack False timeout addr_list error k) of
         (Some sock, error, k) \<Rightarrow> (Inr (), s\<lparr>wk_fd := sock, wk_kern := ws_ioctlsocket W sock False k\<rparr>)
       | (None, None, k) \<Rightarrow> (Inl (UndefinedBehaviour ''error is not initialised''), s\<lparr>wk_kern := k\<rparr>)
       | (None, Some error, k) \<Rightarrow> win_throwIOErr ''Failed to connect'' (s\<lparr>wk_kern := k\<rparr>))))"

definition win_close :: "'k winsock \<Rightarrow> ('k win_socket, unit) sm" where
  "win_close W = modify (\<lambda>s. s\<lparr>wk_kern := ws_closesocket W (wk_fd s) (wk_kern s), wk_fd := INVALID_SOCKET\<rparr>)"

definition win_option :: "'k winsock \<Rightarrow> int \<Rightarrow> int \<Rightarrow> string \<Rightarrow> ('k win_socket, unit) sm" where
  "win_option W opt v msg = (\<lambda>s. case ws_setsockopt W (wk_fd s) opt v (wk_kern s) of (r, k) \<Rightarrow>
     (if r < 0 then win_throwIOErr msg else ret ()) (s\<lparr>wk_kern := k\<rparr>))"

definition win_setTcpNoDelay :: "'k winsock \<Rightarrow> bool \<Rightarrow> ('k win_socket, unit) sm" where
  "win_setTcpNoDelay W b = win_option W TCP_NODELAY (if b then 1 else 0) ''Failure setting TCP_NODELAY''"

text \<open>The timeout is stored in a \<open>DWORD\<close>.\<close>

definition win_setTimeout :: "'k winsock \<Rightarrow> int \<Rightarrow> ('k win_socket, unit) sm" where
  "win_setTimeout W timeout =
    seq (win_option W 0x1006 (timeout mod 2 ^ 32) ''Failure setting receive socket timeout'')
        (win_option W 0x1005 (timeout mod 2 ^ 32) ''Failure setting send socket timeout'')"

definition win_read :: "'k winsock \<Rightarrow> nat \<Rightarrow> ('k win_socket, bytes) sm" where
  "win_read W n = (\<lambda>s. case ws_recv W (wk_fd s) n (wk_kern s) of
     (Received d, k) \<Rightarrow> (if d = [] then win_throwIOErr ''no read'' else ret d) (s\<lparr>wk_kern := k\<rparr>)
   | (RecvError e, k) \<Rightarrow> win_throwIOErr (if e = WSAETIMEDOUT then ''timeout'' else ''read'') (s\<lparr>wk_kern := k\<rparr>))"

definition win_write :: "'k winsock \<Rightarrow> bytes \<Rightarrow> ('k win_socket, unit) sm" where
  "win_write W p = (\<lambda>s. case ws_send W (wk_fd s) p (wk_kern s) of (n, k) \<Rightarrow>
     (if n = -1 then win_throwIOErr ''write''
      else if n \<noteq> int (length p) then win_throwIOErr ''write error incomplete'' else ret ()) (s\<lparr>wk_kern := k\<rparr>))"

section \<open>Addresses are tried in order\<close>

definition winsock_ok :: "('k \<Rightarrow> int set) \<Rightarrow> 'k winsock \<Rightarrow> bool" where
  "winsock_ok opens W \<longleftrightarrow>
    (\<forall>f t p k. case ws_socket W f t p k of (fd, k') \<Rightarrow>
        if fd = -1 then opens k' = opens k else 0 \<le> fd \<and> fd \<notin> opens k \<and> opens k' = insert fd (opens k))
    \<and> (\<forall>fd k. opens (ws_closesocket W fd k) = opens k - {fd})
    \<and> (\<forall>h p hints k. opens (snd (snd (ws_getaddrinfo W h p hints k))) = opens k)
    \<and> (\<forall>fd b k. opens (ws_ioctlsocket W fd b k) = opens k)
    \<and> (\<forall>fd a k. opens (snd (snd (ws_connect W fd a k))) = opens k)
    \<and> (\<forall>fd tv k. opens (snd (snd (snd (ws_select W fd tv k)))) = opens k)
    \<and> (\<forall>fd k. opens (snd (snd (ws_getsockopt W fd k))) = opens k)"

text \<open>What a try does apart from the last error.\<close>

definition win_attempt :: "'k winsock \<Rightarrow> int \<Rightarrow> addrinfo \<Rightarrow> 'k \<Rightarrow> int option \<times> 'k" where
  "win_attempt W timeout a k = (case win_try W timeout a None k of (r, _, k') \<Rightarrow> (r, k'))"

lemma win_try_attempt: "win_try W timeout a error k = (r, e, k') \<Longrightarrow> win_attempt W timeout a k = (r, k')"
  by (auto simp: win_attempt_def win_try_def split: prod.splits if_splits)

lemma win_scan_first:
  "win_scan W stack preferred timeout as error k = (r, e, k') \<Longrightarrow>
    first_accepting (win_attempt W timeout) (filter (\<lambda>a. (stack = ai_family a) = preferred) as) k = (r, k')"
proof (induction "as" arbitrary: error k)
  case (Cons a "as")
  obtain q e1 k1 where one: "win_try W timeout a error k = (q, e1, k1)" by (metis prod_cases3)
  show ?case
    using Cons.prems Cons.IH [of error k] Cons.IH [of e1 k1] one win_try_attempt [OF one]
    by (cases preferred) (auto split: if_splits option.splits)
qed simp

lemma winsock_keeps:
  assumes "winsock_ok opens W"
  shows "opens (ws_closesocket W fd k) = opens k - {fd}" "opens (ws_ioctlsocket W fd b k) = opens k"
    and "win_getaddrinfo W h q k = (ec, l, k1) \<Longrightarrow> opens k1 = opens k"
    and "ws_connect W fd a k = (s, e, k2) \<Longrightarrow> opens k2 = opens k"
    and "ws_select W fd tv k = (n, x, e, k3) \<Longrightarrow> opens k3 = opens k"
    and "ws_getsockopt W fd k = (s, e, k4) \<Longrightarrow> opens k4 = opens k"
  using assms unfolding winsock_ok_def win_getaddrinfo_def by (simp_all, (metis snd_conv)+)

lemma winsock_socket:
  assumes "winsock_ok opens W" "ws_socket W f t p k = (fd, k')"
  shows "if fd = -1 then opens k' = opens k else 0 \<le> fd \<and> fd \<notin> opens k \<and> opens k' = insert fd (opens k)"
  using assms unfolding winsock_ok_def by (metis (mono_tags, lifting) case_prod_conv)

lemma win_attempt_tidy:
  assumes W: "winsock_ok opens W"
  shows "tidy opens (win_attempt W timeout)"
  unfolding tidy_def
proof (intro allI)
  fix a :: addrinfo and k
  obtain fd k1 where sock: "ws_socket W (ai_family a) (ai_socktype a) (ai_protocol a) k = (fd, k1)" by fastforce
  obtain s e k2 where con: "ws_connect W fd a (ws_ioctlsocket W fd True k1) = (s, e, k2)" by (metis prod_cases3)
  obtain n x e3 k3 where sel: "ws_select W fd (timeval timeout) k2 = (n, x, e3, k3)" by (metis prod_cases4)
  obtain r so k4 where opt: "ws_getsockopt W fd k3 = (r, so, k4)" by (metis prod_cases3)
  have same: "opens k2 = opens k1" "opens k3 = opens k1" "opens k4 = opens k1"
    using winsock_keeps(4) [OF W con] winsock_keeps(5) [OF W sel] winsock_keeps(6) [OF W opt] by (simp_all add: winsock_keeps(2) [OF W])
  show "case win_attempt W timeout a k of (None, k') \<Rightarrow> opens k' = opens k
      | (Some fd, k') \<Rightarrow> 0 \<le> fd \<and> fd \<notin> opens k \<and> opens k' = insert fd (opens k)"
    using winsock_socket [OF W sock] sock con sel opt same
    by (cases "fd = -1") (simp_all add: win_attempt_def win_try_def INVALID_SOCKET_def winsock_keeps(1) [OF W])
qed

text \<open>
  The sockets of Windows try the addresses in the same order as those of POSIX, and leave as little behind: when an
  address accepts, its descriptor is the only new one; when none does, no new one is open.
\<close>

theorem win_connect_order:
  assumes W: "winsock_ok opens W" and fresh: "wk_fd s = INVALID_SOCKET"
    and found: "win_getaddrinfo W h p (wk_kern s) = (0, as, k)"
  shows "case first_accepting (win_attempt W timeout) (preferred_first stack as) k of
      (None, k') \<Rightarrow> opens k' = opens (wk_kern s)
        \<and> (\<exists>x. win_connect W stack h p timeout s = (Inl x, s\<lparr>wk_host := h, wk_port := p, wk_kern := k'\<rparr>))
    | (Some fd, k') \<Rightarrow> opens k' = insert fd (opens (wk_kern s)) \<and> fd \<notin> opens (wk_kern s) \<and> 0 \<le> fd
        \<and> win_connect W stack h p timeout s
          = (Inr (), s\<lparr>wk_host := h, wk_port := p, wk_fd := fd, wk_kern := ws_ioctlsocket W fd False k'\<rparr>)"
proof -
  obtain q1 e1 k1 where one: "win_scan W stack True timeout as None k = (q1, e1, k1)" by (metis prod_cases3)
  obtain q2 e2 k2 where two: "win_scan W stack False timeout as e1 k1 = (q2, e2, k2)" by (metis prod_cases3)
  have all: "first_accepting (win_attempt W timeout) (preferred_first stack as) k = (if q1 = None then q2 else q1, if q1 = None then k2 else k1)"
    using win_scan_first [OF one] win_scan_first [OF two]
    by (auto simp: preferred_first_eq first_accepting_append split: option.splits)
  have same: "opens k = opens (wk_kern s)" using winsock_keeps(3) [OF W found] .
  show ?thesis
    using first_accepting_opens [OF win_attempt_tidy [OF W] all] one two same fresh found unfolding all
    by (auto simp: win_connect_def INVALID_SOCKET_def sm_simps win_throwIOErr_def split: option.splits)
qed

text \<open>When no address could be given a socket, the text of the exception is made from a variable that was never assigned.\<close>

theorem win_error_uninitialised:
  assumes "\<And>f t p k. fst (ws_socket W f t p k) = INVALID_SOCKET" "wk_fd s = INVALID_SOCKET"
    and "fst (win_getaddrinfo W h p (wk_kern s)) = 0"
  shows "fst (win_connect W stack h p timeout s) = Inl (UndefinedBehaviour ''error is not initialised'')"
proof -
  have no_sock: "\<exists>k'. win_try W timeout a e k = (None, e, k')" for a e k
    using assms(1) by (auto simp: win_try_def split: prod.split) (metis fst_conv)+
  have scan: "\<exists>k'. win_scan W stack b timeout as e k = (None, e, k')" for b "as" e k
  proof (induction "as" arbitrary: k)
    case (Cons a "as")
    obtain k1 where "win_try W timeout a e k = (None, e, k1)" using no_sock by blast
    then show ?case using Cons.IH [of k] Cons.IH [of k1] by simp
  qed simp
  obtain l k where found: "win_getaddrinfo W h p (wk_kern s) = (0, l, k)" using assms(3) by (metis prod_cases3 fst_conv)
  obtain k1 where one: "win_scan W stack True timeout l None k = (None, None, k1)" using scan by blast
  obtain k2 where two: "win_scan W stack False timeout l None k1 = (None, None, k2)" using scan by blast
  show ?thesis using assms(2) found one two by (simp add: win_connect_def sm_simps)
qed

end
