(* ===== verification/HR_Tls.thy ===== *)
theory HR_Tls
  imports HR_Posix
begin

text \<open>
  Connections over TLS: \<open>sys/SSLSocket.cpp\<close>. OpenSSL is a parameter: what it answers to a call after the calls before it, 0 for a
  null pointer or a failure. A pointer to an object of the library is null, points to an object, or points to one that was freed.
\<close>

section \<open>The library\<close>

datatype tls_call =
    SSL_CTX_new
  | SSL_CTX_set_verify_peer
  | SSL_CTX_set_options_tls12
  | SSL_CTX_set_default_verify_paths
  | SSL_CTX_load_verify_locations "string option" "string option"
  | SSL_CTX_use_certificate_file string
  | SSL_CTX_use_PrivateKey_file string
  | SSL_new
  | SSL_set_cipher_list string
  | BIO_new_socket int
  | SSL_set_bio
  | SSL_set_tlsext_host_name string
  | SSL_connect
  | SSL_get_peer_certificate
  | SSL_read nat
  | SSL_write bytes
  | ERR_peek_error
  | SSL_shutdown
  | SSL_free
  | SSL_CTX_free

type_synonym openssl = "tls_call list \<Rightarrow> tls_call \<Rightarrow> int"

text \<open>What \<open>SSL_read\<close> writes to the buffer, and what \<open>SSL_get_error\<close> says about it.\<close>

type_synonym ssl_reader = "tls_call list \<Rightarrow> nat \<Rightarrow> bytes \<times> int"

datatype lib_ptr = Null | Live | Freed

record tls_settings =
  serverCAPath :: string
  serverCAFile :: string
  clientCertificateFile :: string
  sniHostName :: string

record 'k tls_socket =
  m_socket :: "'k posix_socket"
  m_ctx :: lib_ptr
  m_ssl :: lib_ptr
  tl_host :: string
  tl_port :: int
  tl_calls :: "tls_call list"

definition SSLSocket :: "int \<Rightarrow> 'k \<Rightarrow> 'k tls_socket" where
  "SSLSocket flag k = \<lparr>m_socket = Socket flag k, m_ctx = Null, m_ssl = Null, tl_host = [], tl_port = 0, tl_calls = []\<rparr>"

definition on_socket :: "('k posix_socket, 'a) sm \<Rightarrow> ('k tls_socket, 'a) sm" where
  "on_socket m = on_part m_socket (\<lambda>k s. s\<lparr>m_socket := k\<rparr>) m"

definition lib_call :: "openssl \<Rightarrow> tls_call \<Rightarrow> ('k tls_socket, int) sm" where
  "lib_call lib c = (\<lambda>s. (Inr (lib (tl_calls s) c), s\<lparr>tl_calls := tl_calls s @ [c]\<rparr>))"

text \<open>A call on an object that is not there any more, or a null pointer the library does not check.\<close>

definition on_live :: "('k tls_socket \<Rightarrow> lib_ptr) \<Rightarrow> string \<Rightarrow> ('k tls_socket, 'a) sm \<Rightarrow> ('k tls_socket, 'a) sm" where
  "on_live p what m = (\<lambda>s. if p s = Live then m s else (Inl (UndefinedBehaviour what), s))"

definition logAndThrow :: "string \<Rightarrow> int \<Rightarrow> string \<Rightarrow> ('k tls_socket, 'a) sm" where
  "logAndThrow host p msg = raise (TransportException host p msg)"

section \<open>SSLSocket\<close>

definition free_ssl :: "openssl \<Rightarrow> ('k tls_socket, unit) sm" where
  "free_ssl lib = bind (gets m_ssl) (\<lambda>p. if p = Null then ret ()
     else on_live m_ssl ''SSL_free(m_ssl)'' (seq (lib_call lib SSL_free) (modify (\<lambda>s. s\<lparr>m_ssl := Freed\<rparr>))))"

definition free_ctx :: "openssl \<Rightarrow> ('k tls_socket, unit) sm" where
  "free_ctx lib = bind (gets m_ctx) (\<lambda>p. if p = Null then ret ()
     else on_live m_ctx ''SSL_CTX_free(m_ctx)'' (seq (lib_call lib SSL_CTX_free) (modify (\<lambda>s. s\<lparr>m_ctx := Freed\<rparr>))))"

definition tls_close :: "openssl \<Rightarrow> 'k kernel \<Rightarrow> ('k tls_socket, unit) sm" where
  "tls_close lib K =
    seq (on_live m_ssl ''SSL_shutdown(m_ssl)'' (lib_call lib SSL_shutdown))
    (seq (free_ssl lib) (seq (free_ctx lib) (on_socket (socket_close K))))"

text \<open>\<open>if (!call) { cleanup; logAndThrow(host, port, msg); }\<close>\<close>

definition unless_fails ::
  "openssl \<Rightarrow> tls_call \<Rightarrow> ('k tls_socket, unit) sm \<Rightarrow> string \<Rightarrow> int \<Rightarrow> string \<Rightarrow> ('k tls_socket, unit) sm" where
  "unless_fails lib c cleanup host p msg =
    bind (lib_call lib c) (\<lambda>r. if r = 0 then seq cleanup (logAndThrow host p msg) else ret ())"

definition lit :: "string \<Rightarrow> string option" where
  "lit s = (if s = [] then None else Some s)"

definition PREFERRED_CIPHERS :: string where
  "PREFERRED_CIPHERS = ''HIGH:!aNULL:!kRSA:!PSK:!SRP:!MD5:!RC4''"

text \<open>What \<open>connect\<close> does once the TCP connection is made.\<close>

definition tls_handshake :: "openssl \<Rightarrow> 'k kernel \<Rightarrow> tls_settings \<Rightarrow> string \<Rightarrow> int \<Rightarrow> ('k tls_socket, unit) sm" where
  "tls_handshake lib K cfg host p =
     seq (unless_fails lib SSL_CTX_new (modify (\<lambda>s. s\<lparr>m_ctx := Null\<rparr>)) host p ''SSL_CTX_new'')
    (seq (modify (\<lambda>s. s\<lparr>m_ctx := Live\<rparr>))
    (seq (lib_call lib SSL_CTX_set_verify_peer)
    (seq (lib_call lib SSL_CTX_set_options_tls12)
    (let give_up = seq (free_ctx lib) (on_socket (socket_close K)) in
     seq (if serverCAFile cfg = [] \<and> serverCAPath cfg = []
          then unless_fails lib SSL_CTX_set_default_verify_paths give_up host p ''SSL_CTX_set_default_verify_paths'' else ret ())
    (seq (unless_fails lib (SSL_CTX_load_verify_locations (lit (serverCAFile cfg)) (lit (serverCAPath cfg))) give_up
            host p ''SSL_CTX_load_verify_locations'')
    (seq (if clientCertificateFile cfg \<noteq> []
          then seq (unless_fails lib (SSL_CTX_use_certificate_file (clientCertificateFile cfg)) (ret ()) host p ''SSL_CTX_use_certificate_file'')
                   (unless_fails lib (SSL_CTX_use_PrivateKey_file (clientCertificateFile cfg)) (ret ()) host p ''SSL_CTX_use_certificate_file'')
          else ret ())
    (seq (unless_fails lib SSL_new (seq (modify (\<lambda>s. s\<lparr>m_ssl := Null\<rparr>)) give_up) host p ''SSL_new'')
    (seq (modify (\<lambda>s. s\<lparr>m_ssl := Live\<rparr>))
    (seq (unless_fails lib (SSL_set_cipher_list PREFERRED_CIPHERS) (tls_close lib K) host p ''SSL_set_cipher_list'')
    (bind (gets (\<lambda>s. sk_fd (m_socket s))) (\<lambda>fd.
     seq (unless_fails lib (BIO_new_socket fd) (tls_close lib K) host p ''BIO_new_socket'')
    (seq (lib_call lib SSL_set_bio)
    (seq (if sniHostName cfg \<noteq> []
          then unless_fails lib (SSL_set_tlsext_host_name (sniHostName cfg)) (tls_close lib K) host p ''SSL_set_tlsext_host_name''
          else ret ())
    (seq (unless_fails lib SSL_connect (ret ()) host p ''SSL_connect'')
         (unless_fails lib SSL_get_peer_certificate (tls_close lib K) host p ''SSL_get_peer_certificate'')))))))))))))))"

definition tls_connect ::
  "openssl \<Rightarrow> 'k kernel \<Rightarrow> int \<Rightarrow> tls_settings \<Rightarrow> string \<Rightarrow> int \<Rightarrow> int \<Rightarrow> ('k tls_socket, unit) sm" where
  "tls_connect lib K stack cfg host p timeout =
    seq (on_socket (socket_connect K stack host p timeout))
    (seq (modify (\<lambda>s. s\<lparr>tl_host := host, tl_port := p\<rparr>)) (tls_handshake lib K cfg host p))"

definition tls_read :: "openssl \<Rightarrow> ssl_reader \<Rightarrow> nat \<Rightarrow> ('k tls_socket, bytes) sm" where
  "tls_read lib rd n =
    on_live m_ssl ''SSL_read(m_ssl)'' (\<lambda>s.
      case rd (tl_calls s) n of (data, errcode) \<Rightarrow>
      bind (lib_call lib (SSL_read n)) (\<lambda>r.
        if r > 0 then ret (take (nat r) data)
        else raise (TransportException (tl_host s) (tl_port s)
          (if r < 0 then ''SSL: Read error. Error code: ''
           else if errcode = 6 then ''SSL: No read. Shutdown complete.'' else ''SSL: No read. Shutdown incomplete.''))) s)"

definition tls_write :: "openssl \<Rightarrow> bytes \<Rightarrow> ('k tls_socket, unit) sm" where
  "tls_write lib p =
    on_live m_ssl ''SSL_write(m_ssl)'' (seq (lib_call lib (SSL_write p))
      (bind (lib_call lib ERR_peek_error) (\<lambda>e. if e \<noteq> 0 then logAndThrow [] 0 ''BIO_write'' else ret ())))"

section \<open>What a connection was made with\<close>

text \<open>The calls of a connection, in order, and the ones whose answer is not looked at.\<close>

definition handshake :: "tls_settings \<Rightarrow> int \<Rightarrow> tls_call list" where
  "handshake cfg fd =
    [SSL_CTX_new, SSL_CTX_set_verify_peer, SSL_CTX_set_options_tls12]
    @ (if serverCAFile cfg = [] \<and> serverCAPath cfg = [] then [SSL_CTX_set_default_verify_paths] else [])
    @ [SSL_CTX_load_verify_locations (lit (serverCAFile cfg)) (lit (serverCAPath cfg))]
    @ (if clientCertificateFile cfg \<noteq> []
       then [SSL_CTX_use_certificate_file (clientCertificateFile cfg), SSL_CTX_use_PrivateKey_file (clientCertificateFile cfg)] else [])
    @ [SSL_new, SSL_set_cipher_list PREFERRED_CIPHERS, BIO_new_socket fd, SSL_set_bio]
    @ (if sniHostName cfg \<noteq> [] then [SSL_set_tlsext_host_name (sniHostName cfg)] else [])
    @ [SSL_connect, SSL_get_peer_certificate]"

definition not_looked_at :: "tls_call \<Rightarrow> bool" where
  "not_looked_at c \<longleftrightarrow> c \<in> {SSL_CTX_set_verify_peer, SSL_CTX_set_options_tls12, SSL_set_bio}"

fun answered :: "openssl \<Rightarrow> tls_call list \<Rightarrow> tls_call list \<Rightarrow> bool" where
  "answered lib before [] = True"
| "answered lib before (c # cs) \<longleftrightarrow> (not_looked_at c \<or> lib before c \<noteq> 0) \<and> answered lib (before @ [c]) cs"

text \<open>
  \<open>does\<close>: with the pointers and the descriptor given, \<open>m\<close> makes the calls \<open>cs\<close> and only changes the pointers, or throws because one
  of the calls failed.
\<close>

definition does ::
  "openssl \<Rightarrow> int \<Rightarrow> string \<Rightarrow> int \<Rightarrow> lib_ptr \<times> lib_ptr \<Rightarrow> ('k tls_socket, 'a) sm \<Rightarrow> tls_call list \<Rightarrow> lib_ptr \<times> lib_ptr \<Rightarrow> bool" where
  "does lib fd host p a m cs b \<longleftrightarrow> (\<forall>s. (m_ctx s, m_ssl s) = a \<and> sk_fd (m_socket s) = fd \<longrightarrow>
     (if answered lib (tl_calls s) cs
      then \<exists>x. m s = (Inr x, s\<lparr>m_ctx := fst b, m_ssl := snd b, tl_calls := tl_calls s @ cs\<rparr>)
      else \<exists>msg s'. m s = (Inl (TransportException host p msg), s')))"

lemma doesD:
  assumes "does lib fd host p a m cs b" "(m_ctx s, m_ssl s) = a" "sk_fd (m_socket s) = fd"
  shows "if answered lib (tl_calls s) cs
      then \<exists>x. m s = (Inr x, s\<lparr>m_ctx := fst b, m_ssl := snd b, tl_calls := tl_calls s @ cs\<rparr>)
      else \<exists>msg s'. m s = (Inl (TransportException host p msg), s')"
  using assms by (simp add: does_def)

lemma answered_append: "answered lib h (cs @ ds) \<longleftrightarrow> answered lib h cs \<and> answered lib (h @ cs) ds"
  by (induction cs arbitrary: h) auto

lemma does_seq:
  assumes m: "does lib fd host p a m cs b" and k: "does lib fd host p b k ds c"
  shows "does lib fd host p a (seq m k) (cs @ ds) c"
  unfolding does_def
proof (intro allI impI)
  fix s :: "'a tls_socket"
  assume s: "(m_ctx s, m_ssl s) = a \<and> sk_fd (m_socket s) = fd"
  let ?s = "s\<lparr>m_ctx := fst b, m_ssl := snd b, tl_calls := tl_calls s @ cs\<rparr>"
  show "if answered lib (tl_calls s) (cs @ ds)
      then \<exists>x. seq m k s = (Inr x, s\<lparr>m_ctx := fst c, m_ssl := snd c, tl_calls := tl_calls s @ cs @ ds\<rparr>)
      else \<exists>msg s'. seq m k s = (Inl (TransportException host p msg), s')"
  proof (cases "answered lib (tl_calls s) cs")
    case True
    then obtain x where "m s = (Inr x, ?s)" using doesD [OF m, of s] s by auto
    then show ?thesis using doesD [OF k, of ?s] s True by (auto simp: answered_append split: if_splits)
  next
    case False
    then show ?thesis using doesD [OF m, of s] s by (auto simp: answered_append)
  qed
qed

lemma does_unless_fails:
  assumes "\<not> not_looked_at c" "\<And>s. (m_ctx s, m_ssl s) = a \<Longrightarrow> fst (cleanup s) = Inr ()"
  shows "does lib fd host p a (unless_fails lib c cleanup host p msg) [c] a"
  unfolding does_def
proof (intro allI impI)
  fix s :: "'a tls_socket"
  assume s: "(m_ctx s, m_ssl s) = a \<and> sk_fd (m_socket s) = fd"
  obtain r s' where cleaned: "cleanup (s\<lparr>tl_calls := tl_calls s @ [c]\<rparr>) = (r, s')" by fastforce
  then have "r = Inr ()" using assms(2) [of "s\<lparr>tl_calls := tl_calls s @ [c]\<rparr>"] s by simp
  then show "if answered lib (tl_calls s) [c]
      then \<exists>x. unless_fails lib c cleanup host p msg s = (Inr x, s\<lparr>m_ctx := fst a, m_ssl := snd a, tl_calls := tl_calls s @ [c]\<rparr>)
      else \<exists>m s'. unless_fails lib c cleanup host p msg s = (Inl (TransportException host p m), s')"
    using assms(1) s cleaned by (auto simp: unless_fails_def lib_call_def logAndThrow_def sm_simps)
qed

lemma does_call: "not_looked_at c \<Longrightarrow> does lib fd host p a (lib_call lib c) [c] a"
  by (auto simp: does_def lib_call_def)

lemma does_new:
  "does lib fd host p (a, b) (modify (\<lambda>s. s\<lparr>m_ctx := c\<rparr>)) [] (c, b)"
  "does lib fd host p (a, b) (modify (\<lambda>s. s\<lparr>m_ssl := c\<rparr>)) [] (a, c)"
  by (auto simp: does_def modify_run)

lemma does_if: "(b \<Longrightarrow> does lib fd host p a m cs a) \<Longrightarrow> does lib fd host p a (if b then m else ret ()) (if b then cs else []) a"
  by (cases b) (auto simp: does_def ret_run)

lemma does_fd: "does lib fd host p a (f fd) cs b \<Longrightarrow> does lib fd host p a (bind (gets (\<lambda>s. sk_fd (m_socket s))) f) cs b"
  by (auto simp: does_def sm_simps)

lemma tls_close_run:
  assumes "m_ssl s = Live" "m_ctx s = Live"
  shows "tls_close lib K s = (Inr (), s\<lparr>tl_calls := tl_calls s @ [SSL_shutdown, SSL_free, SSL_CTX_free],
      m_ssl := Freed, m_ctx := Freed, m_socket := snd (socket_close K (m_socket s))\<rparr>)"
  using assms
  by (simp add: tls_close_def free_ssl_def free_ctx_def on_live_def lib_call_def on_socket_def socket_close_def sm_simps)

lemma give_up_run: "m_ctx s = Live \<Longrightarrow> fst (seq (free_ctx lib) (on_socket (socket_close K)) s) = Inr ()"
  by (simp add: free_ctx_def on_live_def lib_call_def on_socket_def socket_close_def sm_simps)

lemmas does_rules = does_seq [OF does_unless_fails] does_seq [OF does_new(1)] does_seq [OF does_new(2)] does_seq [OF does_call]
  does_seq [OF does_if] does_fd

lemma handshake_does: "does lib fd host p (c, b) (tls_handshake lib K cfg host p) (handshake cfg fd) (Live, Live)"
proof -
  have calls: "handshake cfg fd =
    [SSL_CTX_new] @ [] @ [SSL_CTX_set_verify_peer] @ [SSL_CTX_set_options_tls12]
    @ (if serverCAFile cfg = [] \<and> serverCAPath cfg = [] then [SSL_CTX_set_default_verify_paths] else [])
    @ [SSL_CTX_load_verify_locations (lit (serverCAFile cfg)) (lit (serverCAPath cfg))]
    @ (if clientCertificateFile cfg \<noteq> []
       then [SSL_CTX_use_certificate_file (clientCertificateFile cfg)] @ [SSL_CTX_use_PrivateKey_file (clientCertificateFile cfg)] else [])
    @ [SSL_new] @ [] @ [SSL_set_cipher_list PREFERRED_CIPHERS] @ [BIO_new_socket fd] @ [SSL_set_bio]
    @ (if sniHostName cfg \<noteq> [] then [SSL_set_tlsext_host_name (sniHostName cfg)] else [])
    @ [SSL_connect] @ [SSL_get_peer_certificate]"
    by (simp add: handshake_def)
  show ?thesis
    unfolding tls_handshake_def calls Let_def
    by (intro does_rules does_unless_fails)
      (simp_all add: not_looked_at_def modify_run ret_run give_up_run [unfolded seq_run] tls_close_run seq_run)
qed


definition small_settings :: tls_settings where
  "small_settings = \<lparr>serverCAPath = [], serverCAFile = ''ca.pem'', clientCertificateFile = [], sniHostName = ''sni''\<rparr>"

lemma small_connect: "\<exists>k. socket_connect small_kernel AF_INET ''localhost'' 11222 60000 (Socket 0 [5]) = (Inr (), k) \<and> sk_fd k = 6"
  by (simp add: socket_connect_def hr_getaddrinfo_def small_kernel_def Socket_def attemptConnect_def AF_INET_def EINPROGRESS_def sm_simps)


section \<open>What goes wrong\<close>

text \<open>\<open>SSL_connect\<close> answers a fatal error with a negative number, which the test for 0 takes for a success.\<close>

theorem tls_failed_handshake_accepted:
  assumes "socket_connect K stack host p timeout (m_socket s) = (Inr (), k)" "tl_calls s = []"
  shows "fst (tls_connect (\<lambda>h c. if c = SSL_connect then -1 else 1) K stack cfg host p timeout s) = Inr ()"
proof -
  let ?lib = "\<lambda>h c. if c = SSL_connect then -1 else 1"
  have "answered ?lib h cs" for h cs by (induction cs arbitrary: h) auto
  then show ?thesis
    using assms doesD [OF handshake_does [of ?lib "sk_fd k" host p "m_ctx s" "m_ssl s" K cfg],
        of "s\<lparr>m_socket := k, tl_host := host, tl_port := p\<rparr>"]
    by (auto simp: tls_connect_def on_socket_def sm_simps)
qed

text \<open>Closing a socket twice, as the removal of a listener does with its connection, uses an object that was freed.\<close>

theorem tls_closed_twice:
  assumes "m_ssl s = Live" "m_ctx s = Live"
  shows "fst (tls_close lib K (snd (tls_close lib K s))) = Inl (UndefinedBehaviour ''SSL_shutdown(m_ssl)'')"
proof -
  have "fst (tls_close lib K s') = Inl (UndefinedBehaviour ''SSL_shutdown(m_ssl)'')" if "m_ssl s' = Freed" for s' :: "'a tls_socket"
    using that by (simp add: tls_close_def on_live_def seq_run)
  then show ?thesis using tls_close_run [OF assms, of lib K] by simp
qed

text \<open>A write whose result says that nothing was written is not noticed, unless the library has queued an error.\<close>

theorem tls_write_lost:
  assumes "m_ssl s = Live" "\<And>h. lib h ERR_peek_error = 0"
  shows "fst (tls_write lib bs s) = Inr ()"
  using assms by (simp add: tls_write_def on_live_def lib_call_def sm_simps)

end
