(* ===== verification/HR_SChannel.thy ===== *)
theory HR_SChannel
  imports HR_Tls
begin

text \<open>
  TLS on Windows: \<open>sys/SChannelSocket.cpp\<close>. Winsock, the security package and the certificate stores of the system are a
  parameter, functions of the state \<open>'k\<close> of the system. Status codes keep their 32 bits, buffers their length: a copy past the
  end of one is \<open>UndefinedBehaviour\<close>.
\<close>

section \<open>The system\<close>

definition SEC_E_OK :: u32 where "SEC_E_OK = 0"
definition SEC_I_CONTINUE_NEEDED :: u32 where "SEC_I_CONTINUE_NEEDED = 0x00090312"
definition SEC_I_CONTEXT_EXPIRED :: u32 where "SEC_I_CONTEXT_EXPIRED = 0x00090317"
definition SEC_I_INCOMPLETE_CREDENTIALS :: u32 where "SEC_I_INCOMPLETE_CREDENTIALS = 0x00090320"
definition SEC_I_RENEGOTIATE :: u32 where "SEC_I_RENEGOTIATE = 0x00090321"
definition SEC_E_INCOMPLETE_MESSAGE :: u32 where "SEC_E_INCOMPLETE_MESSAGE = 0x80090318"
definition SEC_E_INTERNAL_ERROR :: u32 where "SEC_E_INTERNAL_ERROR = 0x80090304"
definition SEC_E_INSUFFICIENT_MEMORY :: u32 where "SEC_E_INSUFFICIENT_MEMORY = 0x80090300"
definition SEC_E_WRONG_PRINCIPAL :: u32 where "SEC_E_WRONG_PRINCIPAL = 0x80090322"
definition CERT_E_UNTRUSTEDROOT :: u32 where "CERT_E_UNTRUSTEDROOT = 0x800B0109"
definition CRYPT_E_SELF_SIGNED :: u32 where "CRYPT_E_SELF_SIGNED = 0x80092007"
definition CERT_STORE_REVOCATION_FLAG :: u32 where "CERT_STORE_REVOCATION_FLAG = 4"
definition CERT_STORE_NO_CRL_FLAG :: u32 where "CERT_STORE_NO_CRL_FLAG = 0x10000"

lemmas sec_codes = SEC_E_OK_def SEC_I_CONTINUE_NEEDED_def SEC_I_CONTEXT_EXPIRED_def SEC_I_INCOMPLETE_CREDENTIALS_def
  SEC_I_RENEGOTIATE_def SEC_E_INCOMPLETE_MESSAGE_def SEC_E_INTERNAL_ERROR_def SEC_E_INSUFFICIENT_MEMORY_def
  SEC_E_WRONG_PRINCIPAL_def CERT_E_UNTRUSTEDROOT_def CRYPT_E_SELF_SIGNED_def

definition FAILED :: "u32 \<Rightarrow> bool" where
  "FAILED st \<longleftrightarrow> 0x80000000 \<le> st"

text \<open>
  \<open>InitializeSecurityContext\<close>: the status, whether the attributes have \<open>ISC_RET_EXTENDED_ERROR\<close>, the token to send (\<open>None\<close> is a null
  pointer), and the length of the input it has not used (\<open>None\<close> when there is no buffer of type \<open>SECBUFFER_EXTRA\<close>).
\<close>

record init_result =
  ir_status :: u32
  ir_extended :: bool
  ir_out :: "bytes option"
  ir_extra :: "nat option"

text \<open>\<open>DecryptMessage\<close>: the status, what the buffer holds afterwards, the data and the bytes after the record.\<close>

record decrypt_result =
  dr_status :: u32
  dr_buffer :: bytes
  dr_data :: "bytes option"
  dr_extra :: "bytes option"

record stream_sizes =
  cbHeader :: nat
  cbMaximumMessage :: nat
  cbTrailer :: nat

datatype file_read = OpenFailed | ReadFailed | FileBytes bytes

text \<open>Certificates, stores and sockets are the numbers of their handles.\<close>

record 'k schannel =
  sc_interface :: "'k \<Rightarrow> bool \<times> 'k"
  sc_startup :: "'k \<Rightarrow> int \<times> 'k"
  sc_socket :: "'k \<Rightarrow> int \<times> 'k"
  sc_gethostbyname :: "string \<Rightarrow> 'k \<Rightarrow> bytes option \<times> 'k"
  sc_connect :: "int \<Rightarrow> bytes \<Rightarrow> u16 \<Rightarrow> 'k \<Rightarrow> bool \<times> 'k"
  sc_closesocket :: "int \<Rightarrow> 'k \<Rightarrow> 'k"
  sc_lastError :: "'k \<Rightarrow> u32"
  sc_recv :: "int \<Rightarrow> nat \<Rightarrow> 'k \<Rightarrow> bytes option \<times> 'k"
  sc_send :: "int \<Rightarrow> bytes \<Rightarrow> 'k \<Rightarrow> int \<times> 'k"
  sc_alloc :: "nat \<Rightarrow> 'k \<Rightarrow> bool"
  sc_acquire :: "int option \<Rightarrow> bool \<Rightarrow> 'k \<Rightarrow> u32 \<times> 'k"
  sc_init :: "bool \<Rightarrow> string option \<Rightarrow> bytes option \<Rightarrow> 'k \<Rightarrow> init_result \<times> 'k"
  sc_shutdown :: "'k \<Rightarrow> 'k"
  sc_delete :: "'k \<Rightarrow> 'k"
  sc_freeCreds :: "'k \<Rightarrow> 'k"
  sc_remoteCert :: "'k \<Rightarrow> u32 \<times> int option \<times> 'k"
  sc_sizes :: "'k \<Rightarrow> stream_sizes"
  sc_encrypt :: "bytes \<Rightarrow> 'k \<Rightarrow> u32 \<times> bytes \<times> 'k"
  sc_decrypt :: "bytes \<Rightarrow> 'k \<Rightarrow> decrypt_result \<times> 'k"
  sc_readFile :: "string \<Rightarrow> 'k \<Rightarrow> file_read"
  sc_stringToBinary :: "bytes \<Rightarrow> bytes option"
  sc_certificate :: "bytes \<Rightarrow> int option"
  sc_openStore :: "'k \<Rightarrow> int option \<times> 'k"
  sc_addToStore :: "int \<Rightarrow> int \<Rightarrow> 'k \<Rightarrow> bool \<times> 'k"
  sc_importStore :: "bytes \<Rightarrow> 'k \<Rightarrow> int option \<times> 'k"
  sc_findAny :: "int \<Rightarrow> 'k \<Rightarrow> int option"
  sc_closeStore :: "int \<Rightarrow> 'k \<Rightarrow> 'k"
  sc_freeCert :: "int \<Rightarrow> 'k \<Rightarrow> 'k"
  sc_duplicate :: "int \<Rightarrow> 'k \<Rightarrow> bool"
  sc_issuer :: "int \<Rightarrow> int \<Rightarrow> 'k \<Rightarrow> (u32, int \<times> u32) sum"
  sc_inStore :: "int \<Rightarrow> int \<Rightarrow> 'k \<Rightarrow> bool"
  sc_multiByte :: "string \<Rightarrow> 'k \<Rightarrow> nat"
  sc_chain :: "int \<Rightarrow> 'k \<Rightarrow> (u32, int) sum"
  sc_policy :: "int \<Rightarrow> u32 \<Rightarrow> string \<Rightarrow> 'k \<Rightarrow> (u32, u32) sum"

definition SChannelInitializer :: "'k schannel \<Rightarrow> ('k, unit) sm" where
  "SChannelInitializer L = (\<lambda>k. case sc_interface L k of (ok, k) \<Rightarrow>
     if \<not> ok then (Inl (HotRodClientException ''InitSecurityInferface: initialization failure''), k)
     else case sc_startup L k of (err, k) \<Rightarrow>
       if err \<noteq> 0 then (Inl (HotRodClientException ''Could not initialize winsock''), k) else (Inr (), k))"

section \<open>The connection and the handshake\<close>

text \<open>The status that is returned, and the socket that is stored through the pointer. The port is cut to 16 bits.\<close>

definition connectToServer :: "'k schannel \<Rightarrow> string \<Rightarrow> int \<Rightarrow> 'k \<Rightarrow> (u32 \<times> int option) \<times> 'k" where
  "connectToServer L host p k =
    (case sc_socket L k of (sock, k) \<Rightarrow>
       if sock = -1 then ((sc_lastError L k, None), k)
       else case sc_gethostbyname L host k of
         (None, k) \<Rightarrow> ((sc_lastError L k, None), k)
       | (Some addr, k) \<Rightarrow>
           case sc_connect L sock (take 4 addr) (word_of_int p) k of (ok, k) \<Rightarrow>
             if \<not> ok then let k = sc_closesocket L sock k in ((sc_lastError L k, None), k)
             else ((SEC_E_OK, Some sock), k))"

text \<open>What \<open>pExtraData\<close> holds: nothing was written, a null pointer, or the bytes after the handshake.\<close>

datatype extra_data = NotSet | NoExtra | Extra bytes

definition IO_BUFFER_SIZE :: nat where "IO_BUFFER_SIZE = 0x10000"

text \<open>Sending a token: nothing to send counts as sent.\<close>

definition send_token :: "'k schannel \<Rightarrow> int \<Rightarrow> bytes option \<Rightarrow> 'k \<Rightarrow> bool \<times> 'k" where
  "send_token L fd out k =
    (case out of
       None \<Rightarrow> (True, k)
     | Some tok \<Rightarrow> if tok = [] then (True, k)
         else case sc_send L fd tok k of (n, k) \<Rightarrow> if n = -1 \<or> n = 0 then (False, sc_delete L k) else (True, k))"

definition goes_on :: "u32 \<Rightarrow> bool" where
  "goes_on st \<longleftrightarrow> st = SEC_I_CONTINUE_NEEDED \<or> st = SEC_E_INCOMPLETE_MESSAGE \<or> st = SEC_I_INCOMPLETE_CREDENTIALS"

text \<open>
  What the loop does with an answer of \<open>InitializeSecurityContext\<close>: it stops, or goes around again with new values of \<open>fDoRead\<close>, \<open>scRet\<close> and
  of the part \<open>io\<close> of the buffer that is in use. After a fatal error the security context is deleted.
\<close>

datatype hs_next = HsStop u32 extra_data | HsAgain bool u32 bytes

definition handshake_answer :: "'k schannel \<Rightarrow> int \<Rightarrow> bool \<Rightarrow> bytes \<Rightarrow> init_result \<Rightarrow> 'k \<Rightarrow> hs_next \<times> 'k" where
  "handshake_answer L fd fDoRead io r k =
    (let st = ir_status r; rest = (\<lambda>n. drop (length io - n) io) in
     case (if st = SEC_E_OK \<or> st = SEC_I_CONTINUE_NEEDED \<or> (FAILED st \<and> ir_extended r)
           then send_token L fd (ir_out r) k else (True, k)) of (sent, k) \<Rightarrow>
     if \<not> sent then (HsStop SEC_E_INTERNAL_ERROR NotSet, k)
     else if st = SEC_E_INCOMPLETE_MESSAGE then (HsAgain fDoRead st io, k)
     else if st = SEC_E_OK then
       (case ir_extra r of
          None \<Rightarrow> (HsStop SEC_E_OK NoExtra, k)
        | Some n \<Rightarrow> if sc_alloc L n k then (HsStop SEC_E_OK (Extra (rest n)), k) else (HsStop SEC_E_INTERNAL_ERROR NotSet, k))
     else if FAILED st then (HsStop st NotSet, sc_delete L k)
     else if st = SEC_I_INCOMPLETE_CREDENTIALS then (HsAgain False SEC_I_CONTINUE_NEEDED io, k)
     else if st = SEC_I_CONTINUE_NEEDED then (HsAgain fDoRead st (case ir_extra r of Some n \<Rightarrow> rest n | None \<Rightarrow> []), k)
     else (HsStop st NotSet, k))"

fun clientHandshakeLoop ::
  "nat \<Rightarrow> 'k schannel \<Rightarrow> int \<Rightarrow> string option \<Rightarrow> bool \<Rightarrow> u32 \<Rightarrow> bytes \<Rightarrow> 'k \<Rightarrow> (u32 \<times> extra_data) option \<times> 'k" where
  "clientHandshakeLoop 0 L fd target fDoRead st io k = (None, k)"
| "clientHandshakeLoop (Suc fuel) L fd target fDoRead st io k =
    (let reads = io = [] \<or> st = SEC_E_INCOMPLETE_MESSAGE in
     case (if reads \<and> fDoRead then sc_recv L fd (IO_BUFFER_SIZE - length io) k else (Some [], k)) of (got, k) \<Rightarrow>
     if reads \<and> fDoRead \<and> (got = None \<or> got = Some []) then (Some (SEC_E_INTERNAL_ERROR, NotSet), sc_delete L k)
     else let io = io @ the got in
       case sc_init L False target (Some io) k of (r, k) \<Rightarrow>
       case handshake_answer L fd (fDoRead \<or> reads) io r k of
         (HsStop st ex, k) \<Rightarrow> (Some (st, ex), k)
       | (HsAgain fDoRead st io, k) \<Rightarrow> clientHandshakeLoop fuel L fd target fDoRead st io k)"

definition performClientHandshake ::
  "nat \<Rightarrow> 'k schannel \<Rightarrow> int \<Rightarrow> string \<Rightarrow> string option \<Rightarrow> 'k \<Rightarrow> (u32 \<times> extra_data) option \<times> 'k" where
  "performClientHandshake fuel L fd host target k =
    (case sc_init L True (Some host) None k of (r, k) \<Rightarrow>
       if ir_status r \<noteq> SEC_I_CONTINUE_NEEDED then (Some (ir_status r, NotSet), k)
       else case send_token L fd (ir_out r) k of (sent, k) \<Rightarrow>
         if \<not> sent then (Some (SEC_E_INTERNAL_ERROR, NotSet), k)
         else clientHandshakeLoop fuel L fd target True SEC_I_CONTINUE_NEEDED [] k)"

section \<open>The certificate of the server\<close>

text \<open>The checks that failed, when a missing revocation list does not count.\<close>

definition flags_left :: "u32 \<Rightarrow> u32" where
  "flags_left flags = (if flags AND CERT_STORE_NO_CRL_FLAG \<noteq> 0
     then flags AND NOT (CERT_STORE_NO_CRL_FLAG OR CERT_STORE_REVOCATION_FLAG) else flags)"

text \<open>
  \<open>CustomVerifyCertificate\<close>. \<open>sc_issuer\<close> gives the issuer and the flags of the checks that failed, or \<open>GetLastError\<close>. \<open>return FALSE\<close> is 0.
\<close>

fun verify_issuers :: "nat \<Rightarrow> 'k schannel \<Rightarrow> int \<Rightarrow> int \<Rightarrow> 'k \<Rightarrow> u32 option" where
  "verify_issuers 0 L st subject k = None"
| "verify_issuers (Suc fuel) L st subject k =
    (case sc_issuer L st subject k of
       Inr (issuer, flags) \<Rightarrow> if flags_left flags \<noteq> 0 then Some 0 else verify_issuers fuel L st issuer k
     | Inl lastErr \<Rightarrow>
         if lastErr = CRYPT_E_SELF_SIGNED then Some (if sc_inStore L st subject k then SEC_E_OK else CERT_E_UNTRUSTEDROOT)
         else Some lastErr)"

definition CustomVerifyCertificate :: "nat \<Rightarrow> 'k schannel \<Rightarrow> int \<Rightarrow> int \<Rightarrow> 'k \<Rightarrow> u32 option" where
  "CustomVerifyCertificate fuel L st subject k =
    (if \<not> sc_duplicate L subject k then Some 0 else verify_issuers fuel L st subject k)"

definition verifyServerCertificate ::
  "nat \<Rightarrow> 'k schannel \<Rightarrow> int option \<Rightarrow> int option \<Rightarrow> string \<Rightarrow> u32 \<Rightarrow> 'k \<Rightarrow> u32 option" where
  "verifyServerCertificate fuel L st cert host dwCertFlags k =
    (case cert of
       None \<Rightarrow> Some SEC_E_WRONG_PRINCIPAL
     | Some c \<Rightarrow>
       if host = [] then Some SEC_E_WRONG_PRINCIPAL
       else case st of
         Some st \<Rightarrow> CustomVerifyCertificate fuel L st c k
       | None \<Rightarrow>
           if \<not> sc_alloc L (2 * sc_multiByte L host k) k then Some SEC_E_INSUFFICIENT_MEMORY
           else if sc_multiByte L host k = 0 then Some SEC_E_WRONG_PRINCIPAL
           else case sc_chain L c k of
             Inl lastErr \<Rightarrow> Some lastErr
           | Inr chain \<Rightarrow> (case sc_policy L chain dwCertFlags host k of
               Inl lastErr \<Rightarrow> Some lastErr
             | Inr dwError \<Rightarrow> Some (if dwError \<noteq> 0 then dwError else SEC_E_OK)))"

section \<open>The socket\<close>

text \<open>
  \<open>sh_store\<close> is the static \<open>hMemStore\<close>. \<open>Client_Socket\<close> has no value before \<open>connect\<close> assigns it. \<open>None\<close> is a null pointer for a buffer.
\<close>

record 'k sch_socket =
  sh_store :: "int option"
  sh_remoteCert :: "int option"
  sh_host :: string
  sh_port :: int
  sh_fd :: "int option"
  pbRBuffer :: "bytes option"
  pbWBuffer :: "bytes option"
  recvBuff :: "bytes option"
  cbRBuffer :: nat
  ready_bytes :: nat
  offset_bytes :: nat
  isContextInitialized :: bool
  isCredsInitialized :: bool
  onlyVerified :: bool
  sh_kern :: 'k

definition SChannelSocket :: "int option \<Rightarrow> 'k \<Rightarrow> 'k sch_socket" where
  "SChannelSocket st k = \<lparr>sh_store = st, sh_remoteCert = None, sh_host = [], sh_port = 0, sh_fd = None, pbRBuffer = None,
     pbWBuffer = None, recvBuff = None, cbRBuffer = 0, ready_bytes = 0, offset_bytes = 0, isContextInitialized = False,
     isCredsInitialized = False, onlyVerified = True, sh_kern = k\<rparr>"

text \<open>A call of the system with a result, one without, and one that only looks.\<close>

definition sys_call :: "('k \<Rightarrow> 'a \<times> 'k) \<Rightarrow> ('k sch_socket, 'a) sm" where
  "sys_call f = (\<lambda>s. case f (sh_kern s) of (x, k) \<Rightarrow> (Inr x, s\<lparr>sh_kern := k\<rparr>))"

definition sys_do :: "('k \<Rightarrow> 'k) \<Rightarrow> ('k sch_socket, unit) sm" where
  "sys_do f = modify (\<lambda>s. s\<lparr>sh_kern := f (sh_kern s)\<rparr>)"

definition sys_see :: "('k \<Rightarrow> 'a) \<Rightarrow> ('k sch_socket, 'a) sm" where
  "sys_see f = gets (\<lambda>s. f (sh_kern s))"

lemma sys_run [sm_simps]:
  "sys_call f s = (case f (sh_kern s) of (x, k) \<Rightarrow> (Inr x, s\<lparr>sh_kern := k\<rparr>))"
  "sys_do g s = (Inr (), s\<lparr>sh_kern := g (sh_kern s)\<rparr>)" "sys_see h s = (Inr (h (sh_kern s)), s)"
  by (simp_all add: sys_call_def sys_do_def sys_see_def modify_run gets_run)

definition client_socket :: "('k sch_socket, int) sm" where
  "client_socket = bind (gets sh_fd) (\<lambda>fd. case fd of
     None \<Rightarrow> raise (UndefinedBehaviour ''Client_Socket is not initialised'') | Some n \<Rightarrow> ret n)"

definition sch_logAndThrow :: "string \<Rightarrow> ('k sch_socket, 'a) sm" where
  "sch_logAndThrow msg = (\<lambda>s. raise (TransportException (sh_host s) (sh_port s) msg) s)"

text \<open>\<open>MoveMemory(buf + i, d, n)\<close>.\<close>

definition move_memory :: "bytes option \<Rightarrow> nat \<Rightarrow> bytes \<Rightarrow> ('s, bytes option) sm" where
  "move_memory buf i d =
    (case buf of
       None \<Rightarrow> raise (UndefinedBehaviour ''MoveMemory to a null pointer'')
     | Some b \<Rightarrow> if i + length d \<le> length b then ret (Some (take i b @ d @ drop (i + length d) b))
                 else raise (UndefinedBehaviour ''MoveMemory past the end of the buffer''))"

definition to_recvBuff :: "bytes \<Rightarrow> ('k sch_socket, unit) sm" where
  "to_recvBuff d = bind (gets recvBuff) (\<lambda>b. bind (move_memory b 0 d) (\<lambda>b. modify (\<lambda>s. s\<lparr>recvBuff := b\<rparr>)))"

definition to_pbRBuffer :: "nat \<Rightarrow> bytes \<Rightarrow> ('k sch_socket, unit) sm" where
  "to_pbRBuffer i d = bind (gets pbRBuffer) (\<lambda>b. bind (move_memory b i d) (\<lambda>b. modify (\<lambda>s. s\<lparr>pbRBuffer := b\<rparr>)))"

subsection \<open>Closing\<close>

definition DisconnectFromServer :: "'k schannel \<Rightarrow> ('k sch_socket, u32) sm" where
  "DisconnectFromServer L =
    bind (gets isContextInitialized) (\<lambda>c.
    if \<not> c then ret SEC_E_OK
    else seq (sys_do (sc_shutdown L))
    (bind (sys_call (sc_init L False None None)) (\<lambda>r.
     bind (if ir_out r = None \<or> ir_out r = Some [] then ret (ir_status r)
           else bind client_socket (\<lambda>fd.
             if fd = -1 then ret (ir_status r)
             else bind (sys_call (sc_send L fd (the (ir_out r)))) (\<lambda>n.
               bind (if n = -1 \<or> n = 0 then sys_see (sc_lastError L) else ret (ir_status r)) (\<lambda>st.
               seq (sys_do (sc_closesocket L fd)) (seq (modify (\<lambda>s. s\<lparr>sh_fd := Some (-1)\<rparr>)) (ret st))))))
     (\<lambda>st. seq (sys_do (sc_delete L)) (ret st)))))"

definition cleanup :: "'k schannel \<Rightarrow> ('k sch_socket, unit) sm" where
  "cleanup L =
     seq (DisconnectFromServer L)
    (seq (\<lambda>s. case sh_remoteCert s of None \<Rightarrow> ret () s
       | Some c \<Rightarrow> seq (sys_do (sc_freeCert L c)) (modify (\<lambda>s. s\<lparr>sh_remoteCert := None\<rparr>)) s)
    (seq (\<lambda>s. if isContextInitialized s then seq (sys_do (sc_delete L)) (modify (\<lambda>s. s\<lparr>isContextInitialized := False\<rparr>)) s else ret () s)
    (seq (\<lambda>s. if isCredsInitialized s then seq (sys_do (sc_freeCreds L)) (modify (\<lambda>s. s\<lparr>isCredsInitialized := False\<rparr>)) s else ret () s)
    (seq (bind client_socket (\<lambda>fd. if fd \<noteq> -1 then sys_do (sc_closesocket L fd) else ret ()))
    (seq (\<lambda>s. case sh_store s of None \<Rightarrow> ret () s | Some st \<Rightarrow> sys_do (sc_closeStore L st) s)
         (modify (\<lambda>s. s\<lparr>sh_store := None, recvBuff := None, pbWBuffer := None, pbRBuffer := None\<rparr>)))))))"

subsection \<open>Connecting\<close>

definition is_pem_filename :: "string \<Rightarrow> bool" where
  "is_pem_filename str \<longleftrightarrow> 4 \<le> length str \<and> drop (length str - 4) str = ''.pem''"

definition hr_throw :: "string \<Rightarrow> ('k sch_socket, 'a) sm" where
  "hr_throw msg = raise (HotRodClientException msg)"

text \<open>The first 8192 bytes of a file.\<close>

definition read_cert_file :: "'k schannel \<Rightarrow> string \<Rightarrow> string \<Rightarrow> ('k sch_socket, bytes) sm" where
  "read_cert_file L file what = bind (sys_see (sc_readFile L file)) (\<lambda>r. case r of
     OpenFailed \<Rightarrow> hr_throw (''Failed to open '' @ what @ '' certificate file.'')
   | ReadFailed \<Rightarrow> hr_throw (''Failed to read '' @ what @ '' certificate file.'')
   | FileBytes d \<Rightarrow> ret (take 8192 d))"

definition setupCertStoreServer :: "'k schannel \<Rightarrow> tls_settings \<Rightarrow> ('k sch_socket, unit) sm" where
  "setupCertStoreServer L cfg =
    bind (read_cert_file L (serverCAFile cfg) ''server'') (\<lambda>d.
    if is_pem_filename (serverCAFile cfg)
    then case sc_stringToBinary L d of
      None \<Rightarrow> hr_throw ''CryptStringToBinary failed.''
    | Some der \<Rightarrow> (case sc_certificate L der of
        None \<Rightarrow> hr_throw ''CertCreateCertificateContext failed.''
      | Some cert \<Rightarrow>
          bind (sys_call (sc_openStore L)) (\<lambda>st.
          seq (modify (\<lambda>s. s\<lparr>sh_store := st\<rparr>))
          (case st of
             None \<Rightarrow> hr_throw ''CertOpenStor failed.''
           | Some n \<Rightarrow> bind (sys_call (sc_addToStore L n cert)) (\<lambda>ok.
               if \<not> ok then hr_throw ''CertAddCertificateContextToStore failed.'' else ret ()))))
    else bind (sys_call (sc_importStore L d)) (\<lambda>servCertStore.
      if servCertStore = None then hr_throw ''PFXImportCertStore failed.'' else ret ()))"

definition setupCertClient :: "'k schannel \<Rightarrow> tls_settings \<Rightarrow> ('k sch_socket, int) sm" where
  "setupCertClient L cfg =
    bind (read_cert_file L (clientCertificateFile cfg) ''client'') (\<lambda>d.
    bind (sys_call (sc_importStore L d)) (\<lambda>certStore. case certStore of
      None \<Rightarrow> hr_throw ''PFXImportCertStore failed.''
    | Some st \<Rightarrow> bind (sys_see (sc_findAny L st)) (\<lambda>c. case c of
        None \<Rightarrow> hr_throw ''CertFindCertificateInStore failed.'' | Some c \<Rightarrow> ret c)))"

text \<open>A loop that has not ended.\<close>

definition with_fuel :: "'a option \<Rightarrow> ('s, 'a) sm" where
  "with_fuel r = (case r of None \<Rightarrow> raise OutOfFuel | Some x \<Rightarrow> ret x)"

definition local_alloc :: "'k schannel \<Rightarrow> nat \<Rightarrow> 'k \<Rightarrow> bytes option" where
  "local_alloc L n k = (if sc_alloc L n k then Some (replicate n 0) else None)"

definition buffer_length :: "stream_sizes \<Rightarrow> nat" where
  "buffer_length sz = cbHeader sz + cbMaximumMessage sz + cbTrailer sz"

text \<open>The buffers, once the server is trusted.\<close>

definition setup_buffers :: "'k schannel \<Rightarrow> extra_data \<Rightarrow> ('k sch_socket, unit) sm" where
  "setup_buffers L ex =
    bind (sys_see (sc_sizes L)) (\<lambda>sz.
    bind (sys_see (local_alloc L (buffer_length sz))) (\<lambda>b.
    seq (modify (\<lambda>s. s\<lparr>pbRBuffer := b, pbWBuffer := b, recvBuff := b, cbRBuffer := 0\<rparr>))
    (case ex of
       NotSet \<Rightarrow> raise (UndefinedBehaviour ''ExtraData is not initialised'')
     | NoExtra \<Rightarrow> ret ()
     | Extra d \<Rightarrow> if d = [] then ret () else seq (to_recvBuff d) (modify (\<lambda>s. s\<lparr>cbRBuffer := length d\<rparr>)))))"

text \<open>The certificate of the server is asked for and verified; \<open>0x1000\<close> is \<open>SECURITY_FLAG_IGNORE_CERT_CN_INVALID\<close>.\<close>

definition check_server :: "nat \<Rightarrow> 'k schannel \<Rightarrow> string \<Rightarrow> ('k sch_socket, unit) sm" where
  "check_server fuel L host =
    bind (\<lambda>s. case sc_remoteCert L (sh_kern s) of (st, c, k) \<Rightarrow> (Inr st, s\<lparr>sh_remoteCert := c, sh_kern := k\<rparr>)) (\<lambda>st.
    if st \<noteq> SEC_E_OK then seq (cleanup L) (sch_logAndThrow ''Error querying remote certificate'')
    else bind (gets (\<lambda>s. s)) (\<lambda>s.
      if onlyVerified s
      then bind (with_fuel (verifyServerCertificate fuel L (sh_store s) (sh_remoteCert s) host 0x1000 (sh_kern s))) (\<lambda>st.
        if st \<noteq> 0 then seq (cleanup L) (sch_logAndThrow ''**** The server certificate did not validate correctly.'') else ret ())
      else ret ()))"

text \<open>The files of the configuration, the socket and the handshake, whose statuses are not looked at.\<close>

definition open_context :: "nat \<Rightarrow> 'k schannel \<Rightarrow> tls_settings \<Rightarrow> string \<Rightarrow> int \<Rightarrow> ('k sch_socket, u32 \<times> extra_data) sm" where
  "open_context fuel L cfg host p =
     seq (\<lambda>s. if sh_store s = None \<and> serverCAFile cfg \<noteq> [] then setupCertStoreServer L cfg s else ret () s)
    (bind (if clientCertificateFile cfg \<noteq> [] then bind (setupCertClient L cfg) (\<lambda>c. ret (Some c)) else ret None) (\<lambda>cert.
     seq (sys_call (sc_acquire L cert (sniHostName cfg \<noteq> [])))
    (bind (sys_call (connectToServer L host p)) (\<lambda>(st, sock).
     seq (modify (\<lambda>s. s\<lparr>sh_fd := Some (case sock of None \<Rightarrow> -1 | Some fd \<Rightarrow> fd)\<rparr>))
    (bind client_socket (\<lambda>fd.
     bind (sys_call (performClientHandshake fuel L fd (if sniHostName cfg = [] then host else sniHostName cfg) (lit (sniHostName cfg))))
       with_fuel))))))"

definition sch_connect :: "nat \<Rightarrow> 'k schannel \<Rightarrow> tls_settings \<Rightarrow> string \<Rightarrow> int \<Rightarrow> ('k sch_socket, unit) sm" where
  "sch_connect fuel L cfg host p =
     seq (modify (\<lambda>s. s\<lparr>sh_host := host, sh_port := p\<rparr>))
    (bind (open_context fuel L cfg host p) (\<lambda>(st, ex).
     seq (modify (\<lambda>s. s\<lparr>isContextInitialized := True\<rparr>))
    (seq (check_server fuel L host)
    (seq (\<lambda>s. case sh_remoteCert s of None \<Rightarrow> ret () s | Some c \<Rightarrow> sys_do (sc_freeCert L c) s)
    (seq (modify (\<lambda>s. s\<lparr>sh_remoteCert := None\<rparr>)) (setup_buffers L ex))))))"

subsection \<open>Reading\<close>

text \<open>
  \<open>readDecrypt\<close>: the status and what \<open>read_counter\<close> holds. Received bytes are written to the start of the buffer and added to the ones that count.
\<close>

fun readDecrypt :: "nat \<Rightarrow> 'k schannel \<Rightarrow> string option \<Rightarrow> nat \<Rightarrow> u32 \<Rightarrow> nat \<Rightarrow> ('k sch_socket, u32 \<times> nat) sm" where
  "readDecrypt 0 L target bufsize scRet counter = raise OutOfFuel"
| "readDecrypt (Suc fuel) L target bufsize scRet counter =
    bind (gets cbRBuffer) (\<lambda>n.
    bind (if n = 0 \<or> scRet = SEC_E_INCOMPLETE_MESSAGE
          then bind client_socket (\<lambda>fd. bind (sys_call (sc_recv L fd bufsize)) (\<lambda>got. case got of
            None \<Rightarrow> ret (Some SEC_E_OK)
          | Some d \<Rightarrow> if d = [] then ret (Some (if n \<noteq> 0 then SEC_E_INTERNAL_ERROR else SEC_E_OK))
                      else seq (to_recvBuff d) (seq (modify (\<lambda>s. s\<lparr>cbRBuffer := n + length d\<rparr>)) (ret None))))
          else ret None) (\<lambda>stop. case stop of
       Some st \<Rightarrow> ret (st, counter)
     | None \<Rightarrow>
    bind (gets cbRBuffer) (\<lambda>n.
    bind (gets recvBuff) (\<lambda>b.
    if b = None \<or> length (the b) < n then raise (UndefinedBehaviour ''cbRBuffer is more than the buffer has'')
    else bind (sys_call (sc_decrypt L (take n (the b)))) (\<lambda>r.
    seq (to_recvBuff (dr_buffer r))
    (if dr_status r = SEC_I_CONTEXT_EXPIRED then ret (SEC_E_OK, counter)
     else if dr_status r \<noteq> SEC_E_OK \<and> dr_status r \<noteq> SEC_I_RENEGOTIATE then ret (dr_status r, counter)
     else case dr_data r of
       None \<Rightarrow> raise (UndefinedBehaviour ''pDataBuffer is null'')
     | Some d \<Rightarrow>
         seq (to_pbRBuffer counter d)
        (seq (case dr_extra r of
                Some e \<Rightarrow> seq (to_recvBuff e) (modify (\<lambda>s. s\<lparr>cbRBuffer := length e\<rparr>))
              | None \<Rightarrow> modify (\<lambda>s. s\<lparr>cbRBuffer := 0\<rparr>))
        (bind (if dr_status r = SEC_I_RENEGOTIATE
               then bind client_socket (\<lambda>fd.
                    bind (sys_call (clientHandshakeLoop fuel L fd target False SEC_I_CONTINUE_NEEDED [])) (\<lambda>h.
                    bind (with_fuel h) (\<lambda>(st, ex).
                      if st \<noteq> SEC_E_OK then ret (Some st)
                      else case ex of
                        Extra e \<Rightarrow> seq (to_pbRBuffer 0 e) (seq (modify (\<lambda>s. s\<lparr>cbRBuffer := length e\<rparr>)) (ret None))
                      | _ \<Rightarrow> ret None)))
               else ret None) (\<lambda>stop. case stop of
             Some st \<Rightarrow> ret (st, counter + length d)
           | None \<Rightarrow>
               bind (gets cbRBuffer) (\<lambda>n.
               if n > 0 then readDecrypt fuel L target bufsize SEC_E_OK (counter + length d)
               else ret (SEC_E_OK, counter + length d)))))))))))"

definition sch_read :: "nat \<Rightarrow> 'k schannel \<Rightarrow> string option \<Rightarrow> nat \<Rightarrow> ('k sch_socket, bytes) sm" where
  "sch_read fuel L target len =
     seq (\<lambda>s. if ready_bytes s - offset_bytes s = 0
            then bind (sys_see (sc_sizes L)) (\<lambda>sz.
                 bind (readDecrypt fuel L target (buffer_length sz) SEC_E_INCOMPLETE_MESSAGE 0) (\<lambda>(st, read_counter).
                   modify (\<lambda>s. s\<lparr>offset_bytes := 0, ready_bytes := read_counter\<rparr>))) s
            else ret () s)
    (\<lambda>s. case pbRBuffer s of
       None \<Rightarrow> raise (UndefinedBehaviour ''memcpy from a null pointer'') s
     | Some b \<Rightarrow>
         let count = ready_bytes s - offset_bytes s in
         if count \<le> len then (Inr (take count (drop (offset_bytes s) b)), s\<lparr>offset_bytes := 0, ready_bytes := 0\<rparr>)
         else (Inr (take len (drop (offset_bytes s) b)), s\<lparr>offset_bytes := offset_bytes s + len\<rparr>))"

subsection \<open>Writing\<close>

text \<open>\<open>sc_encrypt\<close> gives the header, the message and the trailer as they lie in the buffer.\<close>

definition encryptSend :: "'k schannel \<Rightarrow> bytes \<Rightarrow> stream_sizes \<Rightarrow> ('k sch_socket, u32) sm" where
  "encryptSend L msg sz = bind (gets pbWBuffer) (\<lambda>b.
     if b = None \<or> length (the b) < cbHeader sz + length msg + cbTrailer sz
     then raise (UndefinedBehaviour ''the trailer is past the end of the buffer'')
     else bind (sys_call (\<lambda>k. case sc_encrypt L msg k of (st, out, k) \<Rightarrow> ((st, out), k))) (\<lambda>(st, out).
       if FAILED st then ret st
       else bind client_socket (\<lambda>fd. bind (sys_call (sc_send L fd out)) (\<lambda>n. ret (word_of_int n)))))"

definition sch_write :: "'k schannel \<Rightarrow> bytes \<Rightarrow> ('k sch_socket, unit) sm" where
  "sch_write L p =
    bind (sys_see (sc_sizes L)) (\<lambda>sz.
    bind (gets pbWBuffer) (\<lambda>b. bind (move_memory b (cbHeader sz) p) (\<lambda>b.
    seq (modify (\<lambda>s. s\<lparr>pbWBuffer := b\<rparr>)) (seq (encryptSend L p sz) (ret ())))))"

section \<open>The handshake\<close>

text \<open>
  When the loop ends, its status is final, and the bytes after the handshake are set exactly when it succeeded.
\<close>

definition final_status :: "u32 \<Rightarrow> extra_data \<Rightarrow> bool" where
  "final_status st ex \<longleftrightarrow> \<not> goes_on st \<and> (ex \<noteq> NotSet \<longleftrightarrow> st = SEC_E_OK)"

lemma handshake_answer_stops: "handshake_answer L fd b io r k = (HsStop st ex, k') \<Longrightarrow> final_status st ex"
  by (auto simp: final_status_def handshake_answer_def Let_def goes_on_def sec_codes FAILED_def
      split: prod.splits if_splits option.splits)

theorem handshake_final:
  "clientHandshakeLoop fuel L fd target fDoRead st io k = (Some (st', ex), k') \<Longrightarrow> final_status st' ex"
proof (induction fuel arbitrary: fDoRead st io k)
  case (Suc fuel)
  have error: "final_status SEC_E_INTERNAL_ERROR NotSet" by (simp add: final_status_def goes_on_def sec_codes)
  show ?case
    using Suc.prems error by (auto simp: Let_def dest: handshake_answer_stops Suc.IH split: prod.splits if_splits hs_next.splits)
qed simp

lemma performClientHandshake_final:
  assumes "performClientHandshake fuel L fd host target k = (Some (st, ex), k')" "ex \<noteq> NotSet"
  shows "st = SEC_E_OK"
  using assms
  by (auto simp: performClientHandshake_def final_status_def dest: handshake_final split: prod.splits if_splits)

section \<open>Which servers are accepted\<close>

text \<open>The issuers \<open>is\<close> of a certificate, one after the other, with no check that failed.\<close>

fun issuer_path :: "'k schannel \<Rightarrow> int \<Rightarrow> 'k \<Rightarrow> int \<Rightarrow> int list \<Rightarrow> bool" where
  "issuer_path L st k c [] = True"
| "issuer_path L st k c (i # is) \<longleftrightarrow>
    (case sc_issuer L st c k of Inr (j, flags) \<Rightarrow> j = i \<and> flags_left flags = 0 | Inl e \<Rightarrow> False) \<and> issuer_path L st k i is"

lemma verify_issuers_path:
  "issuer_path L st k c is \<Longrightarrow> verify_issuers (length is + fuel) L st c k = verify_issuers fuel L st (last (c # is)) k"
  by (induction "is" arbitrary: c) (auto split: sum.splits)

text \<open>
  A certificate whose chain ends in a certificate that signed itself is accepted exactly when that one is in the store.
\<close>

theorem custom_verify_root:
  assumes "issuer_path L st k c is" "sc_issuer L st (last (c # is)) k = Inl CRYPT_E_SELF_SIGNED" "length is < fuel"
    and "sc_duplicate L c k"
  shows "CustomVerifyCertificate fuel L st c k = Some SEC_E_OK \<longleftrightarrow> sc_inStore L st (last (c # is)) k"
proof -
  obtain n where n: "fuel = length is + Suc n" using assms(3) by (metis add_Suc_right less_iff_Suc_add)
  show ?thesis using assms(2,4) verify_issuers_path [OF assms(1), of "Suc n"]
    by (simp add: CustomVerifyCertificate_def n sec_codes)
qed

text \<open>
  A chain in which a check failed, of a signature, of the dates or of revocation, is accepted as well: the loop is left, and the \<open>FALSE\<close> that is
  returned after it is the code of success.
\<close>

theorem failed_check_accepted:
  assumes "issuer_path L st k c is" "sc_issuer L st (last (c # is)) k = Inr (i, flags)" "flags_left flags \<noteq> 0" "length is < fuel"
    and "host \<noteq> []"
  shows "verifyServerCertificate fuel L (Some st) (Some c) host dwCertFlags k = Some SEC_E_OK"
proof -
  obtain n where n: "fuel = length is + Suc n" using assms(4) by (metis add_Suc_right less_iff_Suc_add)
  show ?thesis using assms(2,3,5) verify_issuers_path [OF assms(1), of "Suc n"]
    by (simp add: verifyServerCertificate_def CustomVerifyCertificate_def n sec_codes)
qed

lemma bind_returns: "bind m f s = (Inr x, s') \<longleftrightarrow> (\<exists>y s1. m s = (Inr y, s1) \<and> f y s1 = (Inr x, s'))"
  by (auto simp: bind_def split: prod.splits sum.splits)

lemma seq_returns: "seq m f s = (Inr x, s') \<longleftrightarrow> (\<exists>y s1. m s = (Inr y, s1) \<and> f s1 = (Inr x, s'))"
  by (simp add: seq_def bind_returns)

lemma sys_returns:
  "sys_call f s = (Inr x, s') \<longleftrightarrow> (\<exists>k. f (sh_kern s) = (x, k) \<and> s' = s\<lparr>sh_kern := k\<rparr>)"
  by (auto simp: sys_call_def split: prod.splits)

lemma with_fuel_returns: "with_fuel r s = (Inr x, s') \<longleftrightarrow> r = Some x \<and> s' = s"
  by (auto simp: with_fuel_def ret_run raise_run split: option.splits)

lemma client_socket_returns: "client_socket s = (Inr fd, s') \<longleftrightarrow> sh_fd s = Some fd \<and> s' = s"
  by (auto simp: client_socket_def bind_returns gets_run ret_run raise_run split: option.splits)

lemmas returns = bind_returns seq_returns sys_returns with_fuel_returns client_socket_returns

lemma check_server_returns:
  assumes "check_server fuel L host s = (Inr (), s')" "onlyVerified s"
  shows "\<exists>c k. sc_remoteCert L (sh_kern s) = (SEC_E_OK, c, k) \<and> s' = s\<lparr>sh_remoteCert := c, sh_kern := k\<rparr>
    \<and> verifyServerCertificate fuel L (sh_store s) c host 0x1000 k = Some SEC_E_OK"
  using assms
  by (auto simp: check_server_def returns gets_run with_fuel_def ret_run raise_run sch_logAndThrow_def sec_codes
      split: prod.splits if_splits option.splits)

lemma to_recvBuff_returns: "to_recvBuff d s = (Inr x, s') \<Longrightarrow> \<exists>b. s' = s\<lparr>recvBuff := b\<rparr>"
  by (auto simp: to_recvBuff_def returns sm_simps move_memory_def split: option.splits if_splits)

lemma setup_buffers_returns:
  assumes "setup_buffers L ex s = (Inr (), s')"
  shows "ex \<noteq> NotSet \<and> sh_store s' = sh_store s \<and> sh_fd s' = sh_fd s \<and> isContextInitialized s' = isContextInitialized s"
  using assms
  by (auto simp: setup_buffers_def returns gets_run modify_run sys_run raise_run ret_run dest!: to_recvBuff_returns
      split: extra_data.splits if_splits)

lemma setup_certs_keep:
  "setupCertStoreServer L cfg s = (Inr x, s') \<Longrightarrow> onlyVerified s' = onlyVerified s"
  "setupCertClient L cfg s = (Inr y, s') \<Longrightarrow> onlyVerified s' = onlyVerified s"
  by (auto simp: setupCertStoreServer_def setupCertClient_def returns sm_simps read_cert_file_def hr_throw_def
      split: prod.splits if_splits option.splits file_read.splits)

lemma open_context_returns:
  assumes "open_context fuel L cfg host p s = (Inr (st, ex), s')"
  shows "onlyVerified s' = onlyVerified s \<and> (\<exists>fd k. sh_fd s' = Some fd
    \<and> performClientHandshake fuel L fd (if sniHostName cfg = [] then host else sniHostName cfg) (lit (sniHostName cfg)) k
        = (Some (st, ex), sh_kern s'))"
proof -
  obtain y s1 c s2 where
    store: "(if sh_store s = None \<and> serverCAFile cfg \<noteq> [] then setupCertStoreServer L cfg s else ret () s) = (Inr y, s1)"
    and client: "(if clientCertificateFile cfg \<noteq> [] then bind (setupCertClient L cfg) (\<lambda>c. ret (Some c)) else ret None) s1 = (Inr c, s2)"
    and rest: "seq (sys_call (sc_acquire L c (sniHostName cfg \<noteq> [])))
      (bind (sys_call (connectToServer L host p)) (\<lambda>(st, sock).
       seq (modify (\<lambda>s. s\<lparr>sh_fd := Some (case sock of None \<Rightarrow> -1 | Some fd \<Rightarrow> fd)\<rparr>))
      (bind client_socket (\<lambda>fd.
       bind (sys_call (performClientHandshake fuel L fd (if sniHostName cfg = [] then host else sniHostName cfg) (lit (sniHostName cfg))))
         with_fuel)))) s2 = (Inr (st, ex), s')"
    using assms unfolding open_context_def seq_returns bind_returns by blast
  have "onlyVerified s1 = onlyVerified s" using store by (auto simp: ret_run dest: setup_certs_keep split: if_splits)
  moreover have "onlyVerified s2 = onlyVerified s1" using client by (auto simp: returns ret_run dest: setup_certs_keep split: if_splits)
  ultimately show ?thesis using rest by (auto simp: returns modify_run simp del: if_split_asm)
qed


text \<open>A system whose store has the certificate 8, which signed itself and the certificate 7 of the server.\<close>

definition small_schannel :: "unit schannel" where
  "small_schannel = \<lparr>
    sc_interface = (\<lambda>k. (True, k)), sc_startup = (\<lambda>k. (0, k)), sc_socket = (\<lambda>k. (5, k)),
    sc_gethostbyname = (\<lambda>h k. (Some [127, 0, 0, 1], k)), sc_connect = (\<lambda>fd a p k. (True, k)), sc_closesocket = (\<lambda>fd k. k),
    sc_lastError = (\<lambda>k. 0), sc_recv = (\<lambda>fd n k. (Some [2], k)), sc_send = (\<lambda>fd d k. (int (length d), k)), sc_alloc = (\<lambda>n k. True),
    sc_acquire = (\<lambda>c b k. (SEC_E_OK, k)),
    sc_init = (\<lambda>first target input k.
      (\<lparr>ir_status = if first then SEC_I_CONTINUE_NEEDED else SEC_E_OK, ir_extended = False, ir_out = Some [1], ir_extra = None\<rparr>, k)),
    sc_shutdown = (\<lambda>k. k), sc_delete = (\<lambda>k. k), sc_freeCreds = (\<lambda>k. k), sc_remoteCert = (\<lambda>k. (SEC_E_OK, Some 7, k)),
    sc_sizes = (\<lambda>k. \<lparr>cbHeader = 5, cbMaximumMessage = 16, cbTrailer = 8\<rparr>), sc_encrypt = (\<lambda>d k. (SEC_E_OK, d, k)),
    sc_decrypt = (\<lambda>d k. (\<lparr>dr_status = SEC_E_OK, dr_buffer = d, dr_data = Some d, dr_extra = None\<rparr>, k)),
    sc_readFile = (\<lambda>f k. FileBytes [8]), sc_stringToBinary = (\<lambda>d. Some d), sc_certificate = (\<lambda>d. Some 8),
    sc_openStore = (\<lambda>k. (Some 3, k)), sc_addToStore = (\<lambda>st c k. (True, k)), sc_importStore = (\<lambda>d k. (Some 4, k)),
    sc_findAny = (\<lambda>st k. Some 9), sc_closeStore = (\<lambda>st k. k), sc_freeCert = (\<lambda>c k. k), sc_duplicate = (\<lambda>c k. True),
    sc_issuer = (\<lambda>st c k. if c = 7 then Inr (8, 0) else Inl CRYPT_E_SELF_SIGNED), sc_inStore = (\<lambda>st c k. c = 8),
    sc_multiByte = (\<lambda>n k. length n), sc_chain = (\<lambda>c k. Inr c), sc_policy = (\<lambda>c f h k. Inr 0)\<rparr>"

lemma small_fields:
  "sc_socket small_schannel k = (5, k)" "sc_gethostbyname small_schannel h k = (Some [127, 0, 0, 1], k)"
  "sc_connect small_schannel fd a p k = (True, k)" "sc_recv small_schannel fd n k = (Some [2], k)"
  "sc_send small_schannel fd d k = (int (length d), k)" "sc_alloc small_schannel n k" "sc_acquire small_schannel own b k = (SEC_E_OK, k)"
  "sc_remoteCert small_schannel k = (SEC_E_OK, Some 7, k)" "sc_freeCert small_schannel cert k = k"
  "sc_readFile small_schannel f k = FileBytes [8]" "sc_stringToBinary small_schannel d = Some d" "sc_certificate small_schannel d = Some 8"
  "sc_openStore small_schannel k = (Some 3, k)" "sc_addToStore small_schannel st c k = (True, k)" "sc_duplicate small_schannel c k"
  "sc_issuer small_schannel st c k = (if c = 7 then Inr (8, 0) else Inl CRYPT_E_SELF_SIGNED)" "sc_inStore small_schannel st c k \<longleftrightarrow> c = 8"
  "sc_init small_schannel first target input k
    = (\<lparr>ir_status = if first then SEC_I_CONTINUE_NEEDED else SEC_E_OK, ir_extended = False, ir_out = Some [1], ir_extra = None\<rparr>, k)"
  by (simp_all add: small_schannel_def)

lemma small_handshake: "performClientHandshake (Suc n) small_schannel fd h target k = (Some (SEC_E_OK, NoExtra), k)"
proof -
  have codes: "(SEC_E_OK = SEC_E_INCOMPLETE_MESSAGE) = False" "(SEC_I_CONTINUE_NEEDED = SEC_E_INCOMPLETE_MESSAGE) = False"
    by (simp_all add: sec_codes)
  show ?thesis
    by (simp add: performClientHandshake_def send_token_def handshake_answer_def small_fields codes Let_def)
qed

lemma small_verify: "verifyServerCertificate (Suc (Suc n)) small_schannel (Some 3) (Some 7) ''localhost'' f k = Some SEC_E_OK"
  by (simp add: verifyServerCertificate_def CustomVerifyCertificate_def small_fields flags_left_def)

lemma small_open: "open_context (Suc n) small_schannel small_settings ''localhost'' 11222 s
    = (Inr (SEC_E_OK, NoExtra), s\<lparr>sh_store := Some 3, sh_fd := Some 5\<rparr>)" if "sh_store s = None"
  using that
  by (simp add: open_context_def setupCertStoreServer_def read_cert_file_def is_pem_filename_def small_settings_def connectToServer_def
      client_socket_def with_fuel_def small_handshake small_fields sm_simps)


section \<open>Reading and writing\<close>

definition unread :: "'k sch_socket \<Rightarrow> bytes" where
  "unread s = take (ready_bytes s - offset_bytes s) (drop (offset_bytes s) (the (pbRBuffer s)))"

text \<open>
  The documented behaviour of \<open>DecryptMessage\<close> on a record \<open>enc p\<close> of the plain text \<open>p\<close>: it decrypts one record in place and says what follows it.
\<close>

definition decrypts :: "'k schannel \<Rightarrow> (bytes \<Rightarrow> bytes) \<Rightarrow> bool" where
  "decrypts L enc \<longleftrightarrow> (\<forall>p. enc p \<noteq> []) \<and> (\<forall>p rest k. \<exists>b k'. length b = length (enc p @ rest) \<and>
     sc_decrypt L (enc p @ rest) k
       = (\<lparr>dr_status = SEC_E_OK, dr_buffer = b, dr_data = Some p, dr_extra = if rest = [] then None else Some rest\<rparr>, k'))"

lemma to_recvBuff_run:
  "recvBuff s = Some b \<Longrightarrow> length d \<le> length b \<Longrightarrow> to_recvBuff d s = (Inr (), s\<lparr>recvBuff := Some (d @ drop (length d) b)\<rparr>)"
  by (simp add: to_recvBuff_def move_memory_def sm_simps)

lemma to_pbRBuffer_run:
  "pbRBuffer s = Some b \<Longrightarrow> i + length d \<le> length b \<Longrightarrow>
    to_pbRBuffer i d s = (Inr (), s\<lparr>pbRBuffer := Some (take i b @ d @ drop (i + length d) b)\<rparr>)"
  by (simp add: to_pbRBuffer_def move_memory_def sm_simps)

lemma decryptsD:
  assumes "decrypts L enc"
  obtains b k' where "length b = length (enc p @ rest)" "sc_decrypt L (enc p @ rest) k
    = (\<lparr>dr_status = SEC_E_OK, dr_buffer = b, dr_data = Some p, dr_extra = if rest = [] then None else Some rest\<rparr>, k')"
  using assms unfolding decrypts_def by blast

text \<open>Received bytes go to the start of the buffer, over the ones that are there, and count in addition to them.\<close>

lemma readDecrypt_receive:
  assumes "sh_fd s = Some fd" "sc_recv L fd bufsize (sh_kern s) = (Some d, k)" "d \<noteq> []" "recvBuff s = Some b" "length d \<le> length b"
  shows "readDecrypt (Suc n) L target bufsize SEC_E_INCOMPLETE_MESSAGE counter s
    = readDecrypt (Suc n) L target bufsize SEC_E_OK counter
        (s\<lparr>sh_kern := k, recvBuff := Some (d @ drop (length d) b), cbRBuffer := cbRBuffer s + length d\<rparr>)"
proof -
  have ok: "(SEC_E_OK = SEC_E_INCOMPLETE_MESSAGE) = False" by (simp add: sec_codes)
  have run: "client_socket s = (Inr fd, s)" "sys_call (sc_recv L fd bufsize) s = (Inr (Some d), s\<lparr>sh_kern := k\<rparr>)"
    using assms(1,2) by (simp_all add: client_socket_def sm_simps)
  show ?thesis
    using assms(3-) unfolding readDecrypt.simps(2) ok
    by (simp add: bind_run [of "gets cbRBuffer"] gets_run run to_recvBuff_run modify_run ret_run del: readDecrypt.simps)
qed

text \<open>One round on a buffer that starts with a record.\<close>

lemma readDecrypt_record:
  assumes D: "decrypts L enc" and n: "cbRBuffer s \<noteq> 0" and recv: "recvBuff s = Some b" and sc: "scRet \<noteq> SEC_E_INCOMPLETE_MESSAGE"
    and here: "take (cbRBuffer s) b = enc p @ rest" and fits: "cbRBuffer s \<le> length b"
    and plain: "pbRBuffer s = Some r" "counter + length p \<le> length r"
  shows "\<exists>b' k'. length b' = length b \<and> take (length rest) b' = rest \<and>
    readDecrypt (Suc fuel) L target bufsize scRet counter s =
      (let s' = s\<lparr>sh_kern := k', pbRBuffer := Some (take counter r @ p @ drop (counter + length p) r),
          recvBuff := Some b', cbRBuffer := length rest\<rparr>
       in if rest \<noteq> [] then readDecrypt fuel L target bufsize SEC_E_OK (counter + length p) s'
          else (Inr (SEC_E_OK, counter + length p), s'))"
proof -
  obtain d k' where d: "length d = length (enc p @ rest)" "sc_decrypt L (enc p @ rest) (sh_kern s)
      = (\<lparr>dr_status = SEC_E_OK, dr_buffer = d, dr_data = Some p, dr_extra = if rest = [] then None else Some rest\<rparr>, k')"
    using decryptsD [OF D] by blast
  have len: "length d = cbRBuffer s" "length rest \<le> length b"
    using d(1) arg_cong [OF here, of length] fits by simp_all
  let ?b = "d @ drop (length d) b"
  show ?thesis
    using n sc recv here fits plain d(2) len
    by (intro exI [of _ "rest @ drop (length rest) ?b"] exI [of _ k'])
      (auto simp: sm_simps to_recvBuff_run to_pbRBuffer_run Let_def SEC_E_OK_def SEC_I_CONTEXT_EXPIRED_def SEC_I_RENEGOTIATE_def)
qed

lemma readDecrypt_records:
  assumes D: "decrypts L enc" and "ps \<noteq> []" "length ps \<le> fuel" "recvBuff s = Some b" "cbRBuffer s \<le> length b"
    and "take (cbRBuffer s) b = concat (map enc ps)" "scRet \<noteq> SEC_E_INCOMPLETE_MESSAGE"
    and "pbRBuffer s = Some r" "counter + length (concat ps) \<le> length r"
  shows "\<exists>s'. readDecrypt fuel L target bufsize scRet counter s = (Inr (SEC_E_OK, counter + length (concat ps)), s')
    \<and> pbRBuffer s' = Some (take counter r @ concat ps @ drop (counter + length (concat ps)) r) \<and> cbRBuffer s' = 0"
  using assms(2-)
proof (induction ps arbitrary: fuel s b r counter scRet)
  case (Cons p ps)
  obtain n where fuel: "fuel = Suc n" "length ps \<le> n" using Cons.prems(2) by (cases fuel) auto
  let ?rest = "concat (map enc ps)"
  have ne: "enc q \<noteq> []" for q using D by (simp add: decrypts_def)
  have n0: "cbRBuffer s \<noteq> 0" using Cons.prems(5) ne [of p] by (intro notI) simp
  obtain b' k' where b': "length b' = length b" "take (length ?rest) b' = ?rest" and
    run: "readDecrypt fuel L target bufsize scRet counter s =
      (let s' = s\<lparr>sh_kern := k', pbRBuffer := Some (take counter r @ p @ drop (counter + length p) r),
          recvBuff := Some b', cbRBuffer := length ?rest\<rparr>
       in if ?rest \<noteq> [] then readDecrypt n L target bufsize SEC_E_OK (counter + length p) s'
          else (Inr (SEC_E_OK, counter + length p), s'))"
    using readDecrypt_record [OF D n0 Cons.prems(3,6) _ Cons.prems(4,7), of p ?rest counter n target bufsize] Cons.prems(5,8) fuel(1)
    by auto
  show ?case
  proof (cases "ps = []")
    case True
    then show ?thesis using run by (simp add: Let_def)
  next
    case False
    let ?s = "s\<lparr>sh_kern := k', pbRBuffer := Some (take counter r @ p @ drop (counter + length p) r),
      recvBuff := Some b', cbRBuffer := length ?rest\<rparr>"
    have "?rest \<noteq> []" using False ne by (cases ps) auto
    moreover have "length ?rest \<le> length b'" using b'(2) by (metis length_take min.cobounded1 min_def)
    moreover have "SEC_E_OK \<noteq> SEC_E_INCOMPLETE_MESSAGE" by (simp add: sec_codes)
    ultimately show ?thesis
      using run Cons.IH [OF False fuel(2), of ?s b' SEC_E_OK "take counter r @ p @ drop (counter + length p) r" "counter + length p"]
        b'(2) Cons.prems(8) by (auto simp: Let_def ac_simps)
  qed
qed simp


text \<open>
  Reading on a connection on which the system delivers whole records: what is buffered is handed out first; when nothing is, the plain texts of
  all the records that are received at once, in order. What the caller has no room for stays for the next call.
\<close>

theorem sch_read_buffered:
  assumes "offset_bytes s < ready_bytes s" "pbRBuffer s = Some b" "ready_bytes s \<le> length b"
  shows "\<exists>s'. sch_read fuel L target len s = (Inr (take len (unread s)), s') \<and> unread s' = drop len (unread s)"
  using assms by (simp add: sch_read_def unread_def Let_def sm_simps min_def drop_take ac_simps)

theorem sch_read_records:
  assumes D: "decrypts L enc" and empty: "ready_bytes s = offset_bytes s" "cbRBuffer s = 0"
    and fd: "sh_fd s = Some fd" and got: "sc_recv L fd (buffer_length (sc_sizes L (sh_kern s))) (sh_kern s) = (Some (concat (map enc ps)), k)"
    and ps: "ps \<noteq> []" "length ps \<le> fuel" and b: "recvBuff s = Some b" "length (concat (map enc ps)) \<le> length b"
    and r: "pbRBuffer s = Some r" "length (concat ps) \<le> length r"
  shows "\<exists>s'. sch_read fuel L target len s = (Inr (take len (concat ps)), s') \<and> unread s' = drop len (concat ps)"
proof -
  let ?d = "concat (map enc ps)"
  let ?s = "s\<lparr>sh_kern := k, recvBuff := Some (?d @ drop (length ?d) b), cbRBuffer := length ?d\<rparr>"
  have ne: "?d \<noteq> []" using D ps(1) by (cases ps) (auto simp: decrypts_def)
  obtain n where n: "fuel = Suc n" using ps by (cases fuel) auto
  have first: "readDecrypt fuel L target (buffer_length (sc_sizes L (sh_kern s))) SEC_E_INCOMPLETE_MESSAGE 0 s
      = readDecrypt fuel L target (buffer_length (sc_sizes L (sh_kern s))) SEC_E_OK 0 ?s"
    using readDecrypt_receive [OF fd got ne b, of n target 0] empty(2) n by simp
  obtain s' where "readDecrypt fuel L target (buffer_length (sc_sizes L (sh_kern s))) SEC_E_INCOMPLETE_MESSAGE 0 s
      = (Inr (SEC_E_OK, length (concat ps)), s')"
    "pbRBuffer s' = Some (concat ps @ drop (length (concat ps)) r)"
    using readDecrypt_records [OF D ps, of ?s "?d @ drop (length ?d) b" SEC_E_OK r 0 target] b r
    unfolding first by (auto simp: sec_codes)
  then show ?thesis using empty by (auto simp: sch_read_def sm_simps unread_def Let_def)
qed

text \<open>Such a system exists: records that start with their length, in unary.\<close>

definition unary_record :: "bytes \<Rightarrow> bytes" where
  "unary_record p = replicate (length p) 1 @ 0 # p"

definition unary_decrypt :: "bytes \<Rightarrow> 'k \<Rightarrow> decrypt_result \<times> 'k" where
  "unary_decrypt d k = (let n = length (takeWhile (\<lambda>b. b = 1) d); rest = drop (2 * n + 1) d in
     (\<lparr>dr_status = SEC_E_OK, dr_buffer = d, dr_data = Some (take n (drop (n + 1) d)),
       dr_extra = if rest = [] then None else Some rest\<rparr>, k))"

lemma unary_decrypts: "decrypts (small_schannel\<lparr>sc_decrypt := unary_decrypt\<rparr>) unary_record"
proof -
  have n: "takeWhile (\<lambda>b. b = 1) (replicate n 1 @ 0 # xs) = replicate n (1 :: byte)" for n xs by (induction n) auto
  show ?thesis by (simp add: decrypts_def unary_decrypt_def unary_record_def n Let_def)
qed

text \<open>A message that fits is encrypted and sent; what \<open>send\<close> says is not looked at.\<close>

theorem sch_write_sends:
  assumes "sc_sizes L (sh_kern s) = sz" "pbWBuffer s = Some b" "length b = buffer_length sz" "length p \<le> cbMaximumMessage sz"
    and "sh_fd s = Some fd" "sc_encrypt L p (sh_kern s) = (st, out, k)" "\<not> FAILED st"
  shows "\<exists>s'. sch_write L p s = (Inr (), s') \<and> sh_kern s' = snd (sc_send L fd out k)"
  using assms
  by (auto simp: sch_write_def encryptSend_def move_memory_def buffer_length_def client_socket_def sm_simps split: prod.split)

section \<open>What goes wrong\<close>

text \<open>A message that is longer than a record is copied past the end of the buffer.\<close>

theorem sch_write_overflows:
  assumes "pbWBuffer s = Some b" "length b < cbHeader (sc_sizes L (sh_kern s)) + length p"
  shows "fst (sch_write L p s) = Inl (UndefinedBehaviour ''MoveMemory past the end of the buffer'')"
  using assms by (simp add: sch_write_def move_memory_def sm_simps)

text \<open>A record that has not arrived as a whole is no error: nothing is read, and its bytes stay where the next \<open>recv\<close> writes.\<close>

theorem split_record_read_nothing:
  assumes "ready_bytes s = offset_bytes s" "cbRBuffer s = 0" "sh_fd s = Some fd"
    and got: "sc_recv L fd (buffer_length (sc_sizes L (sh_kern s))) (sh_kern s) = (Some d, k)" "d \<noteq> []"
    and "recvBuff s = Some b" "length d \<le> length b" "pbRBuffer s = Some r"
    and "sc_decrypt L d k = (\<lparr>dr_status = SEC_E_INCOMPLETE_MESSAGE, dr_buffer = d, dr_data = None, dr_extra = None\<rparr>, k')"
  shows "\<exists>s'. sch_read (Suc fuel) L target len s = (Inr [], s') \<and> cbRBuffer s' = length d"
proof -
  let ?s = "s\<lparr>sh_kern := k, recvBuff := Some (d @ drop (length d) b), cbRBuffer := length d\<rparr>"
  have "readDecrypt (Suc fuel) L target (buffer_length (sc_sizes L (sh_kern s))) SEC_E_INCOMPLETE_MESSAGE 0 s
      = (Inr (SEC_E_INCOMPLETE_MESSAGE, 0), ?s\<lparr>sh_kern := k'\<rparr>)"
    using readDecrypt_receive [OF assms(3) got assms(6,7), of fuel target 0] assms
    by (simp add: sm_simps to_recvBuff_run sec_codes)
  then show ?thesis using assms(1,8) by (simp add: sch_read_def sm_simps Let_def del: readDecrypt.simps)
qed

text \<open>The end of the connection, and an error of \<open>recv\<close>, are reported as no bytes instead of an exception.\<close>

theorem closed_connection_read_nothing:
  assumes "ready_bytes s = offset_bytes s" "cbRBuffer s = 0" "sh_fd s = Some fd" "pbRBuffer s = Some r"
    and "sc_recv L fd (buffer_length (sc_sizes L (sh_kern s))) (sh_kern s) = (got, k)" "got \<in> {None, Some []}"
  shows "fst (sch_read (Suc fuel) L target len s) = Inr []"
  using assms by (auto simp: sch_read_def sm_simps Let_def client_socket_def)

text \<open>A store in the other format is imported and forgotten: the server is verified against the stores of the system.\<close>

theorem pfx_store_not_used:
  assumes "\<not> is_pem_filename (serverCAFile cfg)" "setupCertStoreServer L cfg s = (Inr (), s')"
  shows "sh_store s' = sh_store s"
  using assms
  by (auto simp: setupCertStoreServer_def read_cert_file_def returns sys_run(3) hr_throw_def ret_run raise_run
      split: if_splits file_read.splits)

text \<open>A socket that was never connected closes the socket whose number happens to be in its memory.\<close>

theorem cleanup_unconnected:
  assumes "sh_fd s = None" "\<not> isContextInitialized s"
  shows "fst (cleanup L s) = Inl (UndefinedBehaviour ''Client_Socket is not initialised'')"
  using assms by (auto simp: cleanup_def DisconnectFromServer_def client_socket_def sm_simps split: option.splits)

text \<open>
  When the library has no message for the end of the connection, \<open>close\<close> leaves the number of the closed socket, and the destructor
  closes it again.
\<close>

lemma cleanup_run:
  assumes "sh_fd s = Some fd" "isContextInitialized s \<Longrightarrow> ir_out (fst (sc_init L False None None (sc_shutdown L (sh_kern s)))) = None"
  shows "\<exists>s'. cleanup L s = (Inr (), s') \<and> sh_fd s' = Some fd \<and> \<not> isContextInitialized s' \<and> \<not> isCredsInitialized s'
    \<and> sh_store s' = None \<and> sh_remoteCert s' = None"
  using assms
  by (auto simp: cleanup_def DisconnectFromServer_def client_socket_def sm_simps split: prod.splits option.splits)

theorem closed_again:
  assumes "sh_fd s = Some fd" "fd \<noteq> -1"
    and "isContextInitialized s \<Longrightarrow> ir_out (fst (sc_init L False None None (sc_shutdown L (sh_kern s)))) = None"
  shows "\<exists>s' s''. cleanup L s = (Inr (), s') \<and> cleanup L s' = (Inr (), s'') \<and> sh_kern s'' = sc_closesocket L fd (sh_kern s')"
proof -
  obtain s' where "cleanup L s = (Inr (), s')" "sh_fd s' = Some fd" "\<not> isContextInitialized s'" "\<not> isCredsInitialized s'"
    "sh_store s' = None" "sh_remoteCert s' = None"
    using cleanup_run [OF assms(1,3)] by blast
  then show ?thesis
    using assms(2) by (simp add: cleanup_def DisconnectFromServer_def client_socket_def sm_simps)
qed

end
