(* ===== verification/HR_Query.thy ===== *)
theory HR_Query
  imports Complex_Main HR_RemoteCache HR_Listeners
begin

text \<open>
  Queries: \<open>QueryUtils.h\<close>, \<open>Query.h\<close>, \<open>ContinuousQueryListener.h\<close> and the parts of \<open>RemoteCacheBase\<close> that serve them. The messages are
  those of the \<open>.proto\<close> files, with the fields the client reads; the protocol buffers library, which is
  generated code, is a parameter: how it serializes and parses a message. A \<open>double\<close> is the rational number it stands for; the tuples of C++ templates are lists
  of values with the list of their types as an argument.
\<close>

section \<open>Messages\<close>

record wrapped_message =
  wrappedDouble :: "rat option"
  wrappedInt64 :: "u64 option"
  wrappedInt32 :: "u32 option"
  wrappedString :: "bytes option"
  wrappedBytes :: "bytes option"
  wrappedMessageBytes :: "bytes option"

definition WrappedMessage :: wrapped_message where
  "WrappedMessage = \<lparr>wrappedDouble = None, wrappedInt64 = None, wrappedInt32 = None, wrappedString = None, wrappedBytes = None,
     wrappedMessageBytes = None\<rparr>"

record query_response =
  numResults :: int
  projectionSize :: int
  results :: "wrapped_message list"
  totalResults :: int

definition QueryResponse :: query_response where
  "QueryResponse = \<lparr>numResults = 0, projectionSize = 0, results = [], totalResults = 0\<rparr>"

record query_request =
  queryString :: "bytes option"
  query_local :: "bool option"

definition QueryRequest :: query_request where
  "QueryRequest = \<lparr>queryString = None, query_local = Some False\<rparr>"

definition set_querystring :: "bytes \<Rightarrow> query_request \<Rightarrow> query_request" where
  "set_querystring v q = q\<lparr>queryString := Some v\<rparr>"

definition clear_querystring :: "query_request \<Rightarrow> query_request" where
  "clear_querystring q = q\<lparr>queryString := None\<rparr>"

definition set_local :: "bool \<Rightarrow> query_request \<Rightarrow> query_request" where
  "set_local v q = q\<lparr>query_local := Some v\<rparr>"

definition has_local :: "query_request \<Rightarrow> bool" where
  "has_local q \<longleftrightarrow> query_local q \<noteq> None"

datatype result_type = LEAVING | JOINING | UPDATED

record continuous_query_result =
  resultType :: result_type
  cq_key :: bytes
  cq_value :: "bytes option"
  cq_projection :: "wrapped_message list"

text \<open>What the library makes of bytes, and of messages.\<close>

record 'e protobuf =
  pb_parse_wrapped :: "bytes \<Rightarrow> wrapped_message"
  pb_parse_entity :: "bytes \<Rightarrow> 'e"
  pb_parse_result :: "bytes \<Rightarrow> continuous_query_result"
  pb_parse_request :: "bytes \<Rightarrow> query_request"
  pb_parse_response :: "bytes \<Rightarrow> query_response"
  pb_request :: "query_request \<Rightarrow> bytes"
  pb_response :: "query_response \<Rightarrow> bytes"
  pb_base_string :: "bytes \<Rightarrow> bytes"

section \<open>Results of a query\<close>

datatype column_type = TString | TInt | TDouble

datatype column = VString bytes | VInt u32 | VDouble rat

fun unwrapSingleValue :: "column_type \<Rightarrow> wrapped_message \<Rightarrow> exn + column" where
  "unwrapSingleValue TString wm =
    (case wrappedString wm of Some v \<Rightarrow> Inr (VString v) | None \<Rightarrow> Inl (ThrownText ''std::string type not found in response''))"
| "unwrapSingleValue TInt wm =
    (case wrappedInt32 wm of Some v \<Rightarrow> Inr (VInt v)
     | None \<Rightarrow> (case wrappedInt64 wm of Some v \<Rightarrow> Inr (VInt (ucast v)) | None \<Rightarrow> Inl (ThrownText ''int type not found in response'')))"
| "unwrapSingleValue TDouble wm =
    (case wrappedDouble wm of Some v \<Rightarrow> Inr (VDouble v) | None \<Rightarrow> Inl (ThrownText ''double type not found in response''))"

text \<open>\<open>results(k)\<close> and \<open>Get(k)\<close> do not check the index.\<close>

definition result_at :: "wrapped_message list \<Rightarrow> nat \<Rightarrow> exn + wrapped_message" where
  "result_at ms k = (if k < length ms then Inr (ms ! k) else Inl (UndefinedBehaviour ''index of a repeated field''))"

definition unwrap_at :: "column_type \<Rightarrow> wrapped_message list \<Rightarrow> nat \<Rightarrow> exn + column" where
  "unwrap_at t ms k = (case result_at ms k of Inl e \<Rightarrow> Inl e | Inr wm \<Rightarrow> unwrapSingleValue t wm)"

definition unwrapSingleResult :: "column_type \<Rightarrow> query_response \<Rightarrow> exn + column" where
  "unwrapSingleResult t qr = unwrap_at t (results qr) 0"

text \<open>
  \<open>popTuple<double>\<close>: the value passes through a variable of type \<open>int\<close>, which cuts it off and is undefined out of the range.
\<close>

definition through_int :: "column \<Rightarrow> exn + column" where
  "through_int c =
    (case c of
       VDouble d \<Rightarrow> (let i = (if d < 0 then - \<lfloor>- d\<rfloor> else \<lfloor>d\<rfloor>) in
         if - (2 ^ 31) \<le> i \<and> i < 2 ^ 31 then Inr (VDouble (of_int i)) else Inl (UndefinedBehaviour ''double to int''))
     | _ \<Rightarrow> Inr c)"

text \<open>
  \<open>popTuple<Params...>\<close>: one value for each type, from position \<open>k\<close> on, which is moved. There is no
  instance for an empty list of types, nor for a last type \<open>double\<close> on the projection of a continuous query.
\<close>

fun popTuple :: "column_type list \<Rightarrow> wrapped_message list \<Rightarrow> nat \<Rightarrow> (exn + column list) \<times> nat" where
  "popTuple [] ms k = (Inr [], k)"
| "popTuple [t] ms k =
    (case unwrap_at t ms k of
       Inl e \<Rightarrow> (Inl e, k + 1)
     | Inr v \<Rightarrow> (case through_int v of Inl e \<Rightarrow> (Inl e, k + 1) | Inr v' \<Rightarrow> (Inr [v'], k + 1)))"
| "popTuple (t # u # ts) ms k =
    (case unwrap_at t ms k of
       Inl e \<Rightarrow> (Inl e, k + 1)
     | Inr s \<Rightarrow> (case popTuple (u # ts) ms (k + 1) of (Inl e, k') \<Rightarrow> (Inl e, k') | (Inr p, k') \<Rightarrow> (Inr (s # p), k')))"

text \<open>The loop of \<open>unwrapProjection\<close>; the rows are appended to the vector the caller gives.\<close>

fun pop_rows :: "nat \<Rightarrow> column_type list \<Rightarrow> wrapped_message list \<Rightarrow> nat \<Rightarrow> (column list list, unit) sm" where
  "pop_rows 0 ts ms k = ret ()"
| "pop_rows (Suc n) ts ms k =
    (case popTuple ts ms k of
       (Inl e, k') \<Rightarrow> raise e
     | (Inr tp, k') \<Rightarrow> seq (modify (\<lambda>prjRes. prjRes @ [tp])) (pop_rows n ts ms k'))"

definition quotient :: "int \<Rightarrow> int \<Rightarrow> int" where
  "quotient a b = sgn a * sgn b * (\<bar>a\<bar> div \<bar>b\<bar>)"

definition unwrapProjection :: "column_type list \<Rightarrow> query_response \<Rightarrow> (column list list, bool) sm" where
  "unwrapProjection ts resp =
    (if projectionSize resp = 0 then ret False
     else seq (pop_rows (nat (quotient (int (length (results resp))) (projectionSize resp))) ts (results resp) 0) (ret True))"

text \<open>\<open>unwrapResults\<close>; a result that is not a wrapped message is left out.\<close>

definition unwrap_entity :: "'e protobuf \<Rightarrow> wrapped_message \<Rightarrow> 'e list" where
  "unwrap_entity P wm =
    (case wrappedBytes wm of
       None \<Rightarrow> []
     | Some b \<Rightarrow> (case wrappedMessageBytes (pb_parse_wrapped P b) of None \<Rightarrow> [] | Some m \<Rightarrow> [pb_parse_entity P m]))"

definition unwrapResults :: "'e protobuf \<Rightarrow> query_response \<Rightarrow> ('e list, bool) sm" where
  "unwrapResults P resp =
    (if projectionSize resp > 0 then ret False
     else seq (modify (\<lambda>res. res @ concat (map (unwrap_entity P) (results resp)))) (ret True))"

section \<open>Sending a query\<close>

definition newQueryOperation :: "'e protobuf \<Rightarrow> rc_config \<Rightarrow> query_request \<Rightarrow> (rcache, query_response operation) sm" where
  "newQueryOperation P cfg qr =
    newOperation cfg None (\<lambda>tf ctx. QueryOperation (pb_request P) (pb_parse_response P) QueryResponse tf ctx qr)"

definition impl_query :: "'e protobuf \<Rightarrow> rc_config \<Rightarrow> query_request \<Rightarrow> (rcache, query_response) sm" where
  "impl_query P cfg qr = bind (newQueryOperation P cfg qr) (\<lambda>op. run cfg op)"

definition base_query :: "'e protobuf \<Rightarrow> rc_config \<Rightarrow> query_request \<Rightarrow> (rcache, query_response) sm" where
  "base_query P cfg qr = impl_query P cfg qr"

definition base_query_char :: "'e protobuf \<Rightarrow> rc_config \<Rightarrow> bytes \<Rightarrow> nat \<Rightarrow> (rcache, bytes) sm" where
  "base_query_char P cfg qr n =
    (let req = pb_parse_request P (take n qr);
         req = (if \<not> has_local req then set_local False req else req)
     in bind (impl_query P cfg req) (\<lambda>resp. ret (pb_response P resp)))"

section \<open>Continuous queries\<close>

text \<open>\<open>'r\<close> is what a listener is given beside the key: a value, or a tuple. A listener that is not set is an empty \<open>std::function\<close>.\<close>

record ('k, 'r, 'u) cq_listener =
  cq_query :: bytes
  joiningListener :: "('k \<Rightarrow> 'r \<Rightarrow> ('u, unit) sm) option"
  leavingListener :: "('k \<Rightarrow> 'r \<Rightarrow> ('u, unit) sm) option"
  updatedListener :: "('k \<Rightarrow> 'r \<Rightarrow> ('u, unit) sm) option"
  failoverListener :: "('u, unit) sm option"

definition ContinuousQueryListener :: "bytes \<Rightarrow> ('k, 'r, 'u) cq_listener" where
  "ContinuousQueryListener query = \<lparr>cq_query = query, joiningListener = None, leavingListener = None, updatedListener = None,
     failoverListener = None\<rparr>"

definition setJoiningListener where "setJoiningListener f l = l\<lparr>joiningListener := Some f\<rparr>"
definition setLeavingListener where "setLeavingListener f l = l\<lparr>leavingListener := Some f\<rparr>"
definition setUpdatedListener where "setUpdatedListener f l = l\<lparr>updatedListener := Some f\<rparr>"
definition setFailoverListener where "setFailoverListener f l = l\<lparr>failoverListener := Some f\<rparr>"

definition call_listener :: "('k \<Rightarrow> 'r \<Rightarrow> ('u, unit) sm) option \<Rightarrow> 'k \<Rightarrow> 'r \<Rightarrow> ('u, unit) sm" where
  "call_listener f k v = (case f of None \<Rightarrow> raise (StdException ''bad_function_call'') | Some g \<Rightarrow> g k v)"

definition listener_for :: "result_type \<Rightarrow> ('k, 'r, 'u) cq_listener \<Rightarrow> ('k \<Rightarrow> 'r \<Rightarrow> ('u, unit) sm) option" where
  "listener_for t cql = (case t of JOINING \<Rightarrow> joiningListener cql | LEAVING \<Rightarrow> leavingListener cql | UPDATED \<Rightarrow> updatedListener cql)"

text \<open>A string field that is not there reads as an empty one.\<close>

definition str_field :: "bytes option \<Rightarrow> bytes" where
  "str_field f = (case f of None \<Rightarrow> [] | Some b \<Rightarrow> b)"

definition cq_result_of :: "'e protobuf \<Rightarrow> bytes \<Rightarrow> continuous_query_result" where
  "cq_result_of P d = pb_parse_result P (str_field (wrappedMessageBytes (pb_parse_wrapped P d)))"

definition cq_custom_event ::
  "'e protobuf \<Rightarrow> ('k, 'v) marshallers \<Rightarrow> ('k, 'v, 'u) cq_listener \<Rightarrow> bytes \<Rightarrow> bool \<Rightarrow> ('u, unit) sm" where
  "cq_custom_event P m cql d retried =
    (let r = cq_result_of P d in
     call_listener (listener_for (resultType r) cql) (keyUnmarshall m (cq_key r)) (valueUnmarshall m (str_field (cq_value r))))"

definition cq_custom_event_projection ::
  "'e protobuf \<Rightarrow> ('k, 'v) marshallers \<Rightarrow> column_type list \<Rightarrow> ('k, column list, 'u) cq_listener \<Rightarrow> bytes \<Rightarrow> bool \<Rightarrow> ('u, unit) sm" where
  "cq_custom_event_projection P m ts cql d retried =
    (let r = cq_result_of P d in
     case fst (popTuple ts (cq_projection r) 0) of
       Inl e \<Rightarrow> raise e
     | Inr tp \<Rightarrow> call_listener (listener_for (resultType r) cql) (keyUnmarshall m (cq_key r)) tp)"

text \<open>What \<open>base_addContinuousQueryListener\<close> registers: the listener, its callbacks and the parameters of its filter.\<close>

definition CONTINUOUS_QUERY_FILTER_FACTORY_NAME :: string where
  "CONTINUOUS_QUERY_FILTER_FACTORY_NAME = ''continuous-query-filter-converter-factory''"

definition cq_client_listener :: "client_listener \<Rightarrow> client_listener" where
  "cq_client_listener cl = cl\<lparr>filterFactoryName := ascii CONTINUOUS_QUERY_FILTER_FACTORY_NAME,
     converterFactoryName := ascii CONTINUOUS_QUERY_FILTER_FACTORY_NAME, useRawData := True\<rparr>"

definition cq_filter_params :: "'e protobuf \<Rightarrow> ('k, 'r, 'u) cq_listener \<Rightarrow> bytes list" where
  "cq_filter_params P cql = [pb_base_string P (cq_query cql)]"

end
