(* ===== verification/HR_Query_Correct.thy ===== *)
theory HR_Query_Correct
  imports HR_Query HR_Events_Correct HR_RemoteCache_Correct
begin

text \<open>
  Queries are read back as they were answered: the rows of a projection have the types that were asked for
  and are the rows the server has sent, and the listeners of a continuous query are called for every result, in order.
\<close>

section \<open>Rows of a projection\<close>

fun type_of_column :: "column \<Rightarrow> column_type" where
  "type_of_column (VString s) = TString"
| "type_of_column (VInt i) = TInt"
| "type_of_column (VDouble d) = TDouble"

lemma unwrapSingleValue_typed: "unwrapSingleValue t wm = Inr v \<Longrightarrow> type_of_column v = t"
  by (cases t) (auto split: option.splits)

lemma unwrap_at_typed: "unwrap_at t ms k = Inr v \<Longrightarrow> type_of_column v = t"
  by (auto simp: unwrap_at_def unwrapSingleValue_typed split: sum.splits)

lemma through_int_typed: "through_int v = Inr v' \<Longrightarrow> type_of_column v' = type_of_column v"
  by (auto simp: through_int_def Let_def split: column.splits if_splits)

lemma unwrap_int_typed: "unwrap_at t ms k = Inr v \<Longrightarrow> through_int v = Inr v' \<Longrightarrow> type_of_column v' = t"
  using unwrap_at_typed through_int_typed by metis

lemma popTuple_typed: "popTuple ts ms k = (Inr row, k') \<Longrightarrow> map type_of_column row = ts"
  by (induction ts ms k arbitrary: row k' rule: popTuple.induct)
    (auto split: sum.splits prod.splits dest: unwrap_at_typed unwrap_int_typed)

lemma pop_rows_typed:
  "\<exists>new. snd (pop_rows n ts ms k rows) = rows @ new \<and> list_all (\<lambda>row. map type_of_column row = ts) new \<and> length new \<le> n"
proof (induction n arbitrary: k rows)
  case 0
  show ?case by (simp add: ret_run)
next
  case (Suc n)
  obtain r k' where pop: "popTuple ts ms k = (r, k')" by fastforce
  show ?case
  proof (cases r)
    case (Inl e)
    then show ?thesis using pop by (simp add: raise_run)
  next
    case (Inr row)
    from Suc.IH [of k' "rows @ [row]"] obtain new where
      "snd (pop_rows n ts ms k' (rows @ [row])) = rows @ row # new"
      "list_all (\<lambda>row. map type_of_column row = ts) new" "length new \<le> n" by auto
    then show ?thesis using pop Inr popTuple_typed [of ts ms k row k'] by (intro exI [of _ "row # new"]) (simp add: sm_simps)
  qed
qed


text \<open>How a server wraps a value, and a response with rows.\<close>

fun wrap :: "column \<Rightarrow> wrapped_message" where
  "wrap (VString s) = WrappedMessage\<lparr>wrappedString := Some s\<rparr>"
| "wrap (VInt i) = WrappedMessage\<lparr>wrappedInt32 := Some i\<rparr>"
| "wrap (VDouble d) = WrappedMessage\<lparr>wrappedDouble := Some d\<rparr>"

definition projection_response :: "column_type list \<Rightarrow> column list list \<Rightarrow> query_response" where
  "projection_response ts rows = \<lparr>numResults = int (length rows), projectionSize = int (length ts),
     results = concat (map (map wrap) rows), totalResults = int (length rows)\<rparr>"

lemma unwrap_wrap: "unwrapSingleValue (type_of_column v) (wrap v) = Inr v"
  by (cases v) (simp_all add: WrappedMessage_def)

lemma unwrap_at_wrap: "unwrap_at (type_of_column v) (pre @ wrap v # post) (length pre) = Inr v"
  by (simp add: unwrap_at_def result_at_def unwrap_wrap)

lemma through_int_id: "type_of_column v \<noteq> TDouble \<Longrightarrow> through_int v = Inr v"
  by (cases v) (simp_all add: through_int_def)

lemma popTuple_wrap:
  assumes "row \<noteq> []" "type_of_column (last row) \<noteq> TDouble"
  shows "popTuple (map type_of_column row) (pre @ map wrap row @ post) (length pre) = (Inr row, length pre + length row)"
  using assms
proof (induction row arbitrary: pre rule: induct_list012)
  case (2 v)
  then show ?case by (simp add: unwrap_at_wrap through_int_id)
next
  case (3 v w row)
  then show ?case using "3.IH"(2) [of "pre @ [wrap v]"] by (simp add: unwrap_at_wrap)
qed simp

lemma pop_rows_wrap:
  assumes "ts \<noteq> []" "last ts \<noteq> TDouble" "list_all (\<lambda>row. map type_of_column row = ts) new"
  shows "pop_rows (length new) ts (pre @ concat (map (map wrap) new)) (length pre) rows = (Inr (), rows @ new)"
  using assms(3)
proof (induction new arbitrary: pre rows)
  case (Cons row new)
  then have "row \<noteq> []" "type_of_column (last row) \<noteq> TDouble" "map type_of_column row = ts"
    using assms(1,2) by (auto simp: last_map)
  then show ?case
    using popTuple_wrap [of row pre "concat (map (map wrap) new)"] Cons.IH [of "pre @ map wrap row"] Cons.prems
    by (simp add: sm_simps)
qed (simp add: ret_run)

lemma quotient_nonneg: "0 \<le> a \<Longrightarrow> 0 < b \<Longrightarrow> quotient a b = a div b"
  by (cases "a = 0") (simp_all add: quotient_def)

lemma length_rows: "list_all (\<lambda>row. map type_of_column row = ts) rows \<Longrightarrow> length (concat (map (map wrap) rows)) = length rows * length ts"
  by (induction rows) auto

text \<open>
  Rows come back: what a server sends for the rows of a projection is read back by \<open>unwrapProjection\<close> as
  exactly these rows in their order, when it is asked for the types the rows have and the last of them is not \<open>double\<close>. With a
  last column of type \<open>double\<close> the rows are not read back, see \<open>last_double_cut\<close>.
\<close>

theorem projection_roundtrip:
  assumes "ts \<noteq> []" "last ts \<noteq> TDouble" "list_all (\<lambda>row. map type_of_column row = ts) rows"
  shows "unwrapProjection ts (projection_response ts rows) [] = (Inr True, rows)"
proof -
  have "nat (quotient (int (length rows * length ts)) (int (length ts))) = length rows"
    using assms(1) by (simp add: quotient_nonneg)
  then show ?thesis
    using pop_rows_wrap [OF assms, of "[]" "[]"] assms(1) length_rows [OF assms(3)]
    by (simp add: unwrapProjection_def projection_response_def sm_simps)
qed

theorem projection_roundtrip_witness:
  "unwrapProjection [TString, TDouble, TInt]
     (projection_response [TString, TDouble, TInt] [[VString [1], VDouble (5 / 2), VInt 3], [VString [], VDouble (- 1), VInt (- 4)]]) [] =
   (Inr True, [[VString [1], VDouble (5 / 2), VInt 3], [VString [], VDouble (- 1), VInt (- 4)]])"
  by (rule projection_roundtrip) simp_all

text \<open>A last column of type \<open>double\<close> loses what is after the point, and a 64 bit number its upper half.\<close>

theorem last_double_cut:
  "unwrapProjection [TInt, TDouble] (projection_response [TInt, TDouble] [[VInt 1, VDouble (5 / 2)]]) [] = (Inr True, [[VInt 1, VDouble 2]])"
  using floor_unique [of 2 "5 / 2 :: rat"]
  by (simp add: unwrapProjection_def projection_response_def quotient_def WrappedMessage_def unwrap_at_def result_at_def through_int_def sm_simps)

theorem int64_cut: "unwrapSingleValue TInt (WrappedMessage\<lparr>wrappedInt64 := Some 0x100000002\<rparr>) = Inr (VInt 2)"
  by (simp add: WrappedMessage_def)

text \<open>More types than the projection has columns: the values after the last one are read.\<close>

theorem too_many_types:
  "fst (unwrapProjection [TInt, TInt] (projection_response [TInt] [[VInt 1]]) []) = Inl (UndefinedBehaviour ''index of a repeated field'')"
  by (simp add: unwrapProjection_def projection_response_def quotient_def WrappedMessage_def unwrap_at_def result_at_def sm_simps)

section \<open>A query from end to end\<close>

text \<open>A server that answers queries: \<open>answer\<close> is the response it sends for a request.\<close>

definition query_of :: "bytes \<Rightarrow> (request_header \<times> bytes) option" where
  "query_of req = (case fst (parse_message (\<lambda>h. if rq_opCode h = QUERY_REQUEST then readArray else raise (InternalException ''unsupported''))
       \<lparr>rhost = [], rport = 0, pending = req\<rparr>) of Inl e \<Rightarrow> None | Inr x \<Rightarrow> Some x)"

definition serves_queries :: "(bytes \<Rightarrow> bytes) \<Rightarrow> (bytes list \<Rightarrow> exn + bytes) \<Rightarrow> bool" where
  "serves_queries answer peer \<longleftrightarrow> (\<forall>h req rh q. query_of req = Some (rh, q) \<longrightarrow>
     peer (h @ [req]) = Inr (reply_header (rq_messageId rh) QUERY_RESPONSE NO_ERROR_STATUS @ writeArray (answer q)))"

definition querying :: "rc_config \<Rightarrow> (bytes \<Rightarrow> bytes) \<Rightarrow> inet \<Rightarrow> nat \<Rightarrow> rcache \<Rightarrow> bool" where
  "querying cfg answer srv t s \<longleftrightarrow> rc_ok cfg \<and> (\<exists>c. attached srv t c s \<and> serves_queries answer (t_peer c))"

lemma query_resp_of [simp]: "toOpRespCode QUERY_REQUEST = Inr QUERY_RESPONSE"
  by (simp add: toOpRespCode_def op_resp_table_def)

lemma query_of_request:
  assumes "ctx_ok ctx" "length q < 2 ^ 32"
  shows "query_of (request_bytes ctx QUERY_REQUEST resp i t (writeArray q)) = Some (sent_header ctx QUERY_REQUEST i t, q)"
proof -
  have "(if rq_opCode (sent_header ctx QUERY_REQUEST i t) = QUERY_REQUEST then readArray else raise e) r = (Inr q, r\<lparr>pending := []\<rparr>)"
    if "pending r = writeArray q" for r e
    using array.dec_enc [of q r "[]"] assms(2) that by (simp add: sent_header_def)
  from parse_message_run [where body = "\<lambda>h. if rq_opCode h = QUERY_REQUEST then readArray else raise (InternalException ''unsupported'')",
      OF assms(1) this] show ?thesis
    by (simp add: query_of_def)
qed

lemma query_exchange:
  assumes q: "quiet x" "serves_queries answer (t_peer (tr x))" "ctx_ok ctx" "length (ser r) < 2 ^ 32" "length (answer (ser r)) < 2 ^ 32"
  shows "\<exists>req. QueryOperation ser parse dflt tf ctx r x = (Inr (parse (answer (ser r))), exchanged x req [])"
proof -
  let ?req = "request_bytes ctx QUERY_REQUEST QUERY_RESPONSE (msgId x + 1) (topo x) (writeArray (ser r))"
  have "t_peer (tr x) (t_sent (tr x) @ [?req]) = Inr (reply_header (msgId x + 1) QUERY_RESPONSE NO_ERROR_STATUS @ writeArray (answer (ser r)))"
    using q(2) query_of_request [OF q(3,4), of QUERY_RESPONSE "msgId x + 1" "topo x"] by (simp add: serves_queries_def sent_header_def)
  then have "exchange tf ctx QUERY_REQUEST (wr (writeArray (ser r))) x = (Inr NO_ERROR_STATUS, exchanged x ?req (writeArray (answer (ser r))))"
    by (intro exchange_run) (use q(1) in \<open>simp_all add: wr_run\<close>)
  then show ?thesis
    using rd_array_last [OF q(5), of x ?req] by (auto simp: QueryOperation_def isSuccess_def bind_run ret_run)
qed

lemma base_query_run:
  assumes "querying cfg answer srv t s" "length (pb_request P q) < 2 ^ 32" "length (answer (pb_request P q)) < 2 ^ 32"
  shows "\<exists>s'. base_query P cfg q s = (Inr (pb_parse_response P (answer (pb_request P q))), s') \<and> querying cfg answer srv t s'"
proof -
  define flags where "flags = (if rc_force cfg then rc_flags s OR FORCE_RETURN_VALUE else rc_flags s)"
  let ?tf = "TransportFactory_iface (rc_tf cfg)" and ?ctx = "op_context cfg flags"
  obtain c where c: "attached srv t c s" "serves_queries answer (t_peer c)" and cfg: "rc_ok cfg"
    using assms(1) by (auto simp: querying_def)
  have ctx: "ctx_ok ?ctx" using cfg by (simp add: rc_ok_def ctx_ok_def op_context_def)
  have "\<exists>req. QueryOperation (pb_request P) (pb_parse_response P) QueryResponse ?tf ?ctx q x =
      (Inr (pb_parse_response P (answer (pb_request P q))), exchanged x req []) \<and> True" if "tr x = c" for x :: "tfactory io"
    using query_exchange [of x answer ?ctx "pb_request P" q] ctx assms(2,3) c that by (simp add: quiet_def inp_of_def attached_def Let_def)
  from run_attached [OF cfg, of srv t c "s\<lparr>rc_flags := 0\<rparr>", OF _ this, of "rc_name cfg" None] c(1) obtain req s'
    where run: "run cfg (operation_on (rc_tf cfg) (rc_name cfg) None
        (QueryOperation (pb_request P) (pb_parse_response P) QueryResponse ?tf ?ctx q)) (s\<lparr>rc_flags := 0\<rparr>) =
        (Inr (pb_parse_response P (answer (pb_request P q))), s')" "attached srv t (sent_on req c) s'"
    by auto
  have "base_query P cfg q s = (Inr (pb_parse_response P (answer (pb_request P q))), s')"
    using run(1) by (simp add: base_query_def impl_query_def newQueryOperation_def newOperation_def getFlags_def sm_simps flags_def)
  moreover have "querying cfg answer srv t s'"
    using run(2) c(2) cfg by (auto simp: querying_def sent_on_def)
  ultimately show ?thesis by blast
qed

text \<open>
  C8. A query with a projection returns the rows the server has found: when the server answers the request with these rows and the
  library reads its response, \<open>query\<close> followed by \<open>unwrapProjection\<close> gives exactly these rows in their order, through the whole client
  stack, for all types of columns, when the last of them is not \<open>double\<close>; the connection is left ready for the next call. With a last
  column of type \<open>double\<close> the rows are not read back, see \<open>last_double_cut\<close>.
\<close>

theorem query_projection:
  assumes "querying cfg answer srv t s" "length (pb_request P q) < 2 ^ 32" "length (answer (pb_request P q)) < 2 ^ 32"
    and "pb_parse_response P (answer (pb_request P q)) = projection_response ts rows"
    and "ts \<noteq> []" "last ts \<noteq> TDouble" "list_all (\<lambda>row. map type_of_column row = ts) rows"
  shows "\<exists>resp s'. base_query P cfg q s = (Inr resp, s') \<and> querying cfg answer srv t s' \<and> unwrapProjection ts resp [] = (Inr True, rows)"
  using base_query_run [OF assms(1-3)] projection_roundtrip [OF assms(5-7)] assms(4) by auto

text \<open>A server that has two rows for every query, and a library that knows this response.\<close>

definition two_rows :: "column list list" where
  "two_rows = [[VDouble (1 / 2), VString [7]], [VDouble 3, VString []]]"

definition row_protobuf :: "unit protobuf" where
  "row_protobuf = \<lparr>pb_parse_wrapped = (\<lambda>bs. WrappedMessage\<lparr>wrappedMessageBytes := Some bs\<rparr>), pb_parse_entity = (\<lambda>_. ()),
     pb_parse_result = (\<lambda>bs. \<lparr>resultType = LEAVING, cq_key = bs, cq_value = None, cq_projection = []\<rparr>),
     pb_parse_request = (\<lambda>_. QueryRequest),
     pb_parse_response = (\<lambda>bs. if bs = [1] then projection_response [TDouble, TString] two_rows else QueryResponse),
     pb_request = (\<lambda>q. case queryString q of None \<Rightarrow> [] | Some s \<Rightarrow> s), pb_response = (\<lambda>_. [1]), pb_base_string = id\<rparr>"

definition query_server :: "bytes list \<Rightarrow> exn + bytes" where
  "query_server h = (case query_of (last h) of
     None \<Rightarrow> Inr []
   | Some (rh, q) \<Rightarrow> Inr (reply_header (rq_messageId rh) QUERY_RESPONSE NO_ERROR_STATUS @ writeArray [1]))"

definition query_client :: rcache where
  "query_client = one_server\<lparr>rc_client :=
     \<lparr>cl_fac = (TransportFactory example_world)
       \<lparr>ti := TopologyInfo [example_server], balancer := \<lparr>rr_servers = [example_server], rr_index = 0\<rparr>,
        cpool := (ConnectionPool example_world)
          \<lparr>idle := [(example_server, Some [0])], busy := [(example_server, Some [])], totalIdle := 1,
           world := \<lparr>conns = [0 \<mapsto> (example_server, TcpTransport example_server query_server)],
             next_addr = 1, attempts = 1, w_msgId = 0\<rparr>\<rparr>\<rparr>, cl_topo = 0\<rparr>\<rparr>"

lemma query_client_querying: "querying one_server_config (\<lambda>_. [1]) example_server 0 query_client"
proof -
  have "rc_ok one_server_config"
    by (simp add: rc_ok_def one_server_config_def plain_tf_config_def example_tf_config_def example_cfg_def plain_pool_def)
  moreover have "attached example_server 0 (TcpTransport example_server query_server) query_client"
    by (simp add: attached_def query_client_def one_server_def ConnectionPool_def rr_ok_def ti_ok_init smap_ok_def TcpTransport_def)
  moreover have "serves_queries (\<lambda>_. [1]) (t_peer (TcpTransport example_server query_server))"
    by (simp add: serves_queries_def query_server_def TcpTransport_def)
  ultimately show ?thesis by (auto simp: querying_def)
qed

theorem query_projection_witness:
  "\<exists>resp s'. base_query row_protobuf one_server_config (set_querystring [65] QueryRequest) query_client = (Inr resp, s')
    \<and> unwrapProjection [TDouble, TString] resp [] = (Inr True, [[VDouble (1 / 2), VString [7]], [VDouble 3, VString []]])"
  using query_projection [OF query_client_querying, of row_protobuf "set_querystring [65] QueryRequest" "[TDouble, TString]" two_rows]
  by (auto simp: row_protobuf_def set_querystring_def two_rows_def)

section \<open>Continuous queries\<close>

text \<open>What the listeners of a continuous query are told.\<close>

definition cq_note :: "'e protobuf \<Rightarrow> ('k, 'v) marshallers \<Rightarrow> bytes \<Rightarrow> result_type \<times> 'k \<times> 'v" where
  "cq_note P m d = (let r = cq_result_of P d in
     (resultType r, keyUnmarshall m (cq_key r), valueUnmarshall m (str_field (cq_value r))))"

definition noting :: "bytes \<Rightarrow> ('u, unit) sm \<Rightarrow> (result_type \<Rightarrow> 'k \<Rightarrow> 'v \<Rightarrow> 'u \<Rightarrow> 'u) \<Rightarrow> ('k, 'v, 'u) cq_listener" where
  "noting query recovery f =
    setFailoverListener recovery (setUpdatedListener (\<lambda>k v. modify (f UPDATED k v))
      (setLeavingListener (\<lambda>k v. modify (f LEAVING k v)) (setJoiningListener (\<lambda>k v. modify (f JOINING k v)) (ContinuousQueryListener query))))"

definition cq_callbacks :: "'e protobuf \<Rightarrow> ('k, 'v) marshallers \<Rightarrow> ('k, 'v, 'u) cq_listener \<Rightarrow> 'u listener" where
  "cq_callbacks P m cql = processEvent (keyUnmarshall m) (add_custom_listener (cq_custom_event P m cql) CacheClientListener)"

lemma noting_event:
  "cq_custom_event P m (noting q rec f) d retried u = (Inr (), case cq_note P m d of (t, k, v) \<Rightarrow> f t k v u)"
  by (cases "resultType (cq_result_of P d)")
    (simp_all add: cq_custom_event_def Let_def call_listener_def listener_for_def noting_def setFailoverListener_def setUpdatedListener_def
      setLeavingListener_def setJoiningListener_def ContinuousQueryListener_def cq_note_def modify_run)

definition cq_step :: "'e protobuf \<Rightarrow> ('k, 'v) marshallers \<Rightarrow> (result_type \<Rightarrow> 'k \<Rightarrow> 'v \<Rightarrow> 'u \<Rightarrow> 'u) \<Rightarrow> client_event \<Rightarrow> 'u \<Rightarrow> 'u" where
  "cq_step P m f ev u = (case ev of CustomEvent d retried \<Rightarrow> (case cq_note P m d of (t, k, v) \<Rightarrow> f t k v u) | _ \<Rightarrow> u)"

lemma cq_handles: "handles (cq_callbacks P m (noting q rec f)) (cq_step P m f)"
  by (auto simp: handles_def cq_callbacks_def processEvent_def add_custom_listener_def CacheClientListener_def noting_event cq_step_def
      ret_run seq_run split: client_event.split)

lemma cq_fold:
  "fold (cq_step P m (\<lambda>t k v told. told @ [(t, k, v)])) (map (\<lambda>(mid, lid, ev). ev) (map (\<lambda>(mid, lid, d). (mid, lid, CustomEvent d False)) evs)) told
   = told @ map (\<lambda>(mid, lid, d). cq_note P m d) evs"
  by (induction evs arbitrary: told) (auto simp: cq_step_def split: prod.splits)


text \<open>A library whose message is the bytes themselves: the first byte is the type of the result, the second the key, the rest the value.\<close>

definition plain_protobuf :: "unit protobuf" where
  "plain_protobuf = \<lparr>pb_parse_wrapped = (\<lambda>bs. WrappedMessage\<lparr>wrappedMessageBytes := Some bs\<rparr>), pb_parse_entity = (\<lambda>_. ()),
     pb_parse_result = (\<lambda>bs. \<lparr>resultType = (if hd bs = 0 then LEAVING else if hd bs = 1 then JOINING else UPDATED),
       cq_key = [bs ! 1], cq_value = (if length bs = 2 then None else Some (drop 2 bs)), cq_projection = []\<rparr>),
     pb_parse_request = (\<lambda>_. QueryRequest), pb_parse_response = (\<lambda>_. QueryResponse), pb_request = (\<lambda>_. []), pb_response = (\<lambda>_. []),
     pb_base_string = id\<rparr>"

definition raw_marshallers :: "(bytes, bytes) marshallers" where
  "raw_marshallers = \<lparr>keyMarshall = id, valueMarshall = id, keyUnmarshall = id, valueUnmarshall = id\<rparr>"

definition cq_events :: "(u64 \<times> bytes \<times> bytes) list" where
  "cq_events = [(0, [9], [1, 5, 7]), (0, [9], [2, 5, 8]), (0, [9], [0, 5])]"


text \<open>
  An entry that leaves has no projection in its result, but the listener for projections reads one before it looks at
  the type of the result.
\<close>

theorem leaving_without_projection:
  assumes "cq_projection (cq_result_of P d) = []" "ts \<noteq> []"
  shows "fst (cq_custom_event_projection P m ts cql d retried u) = Inl (UndefinedBehaviour ''index of a repeated field'')"
proof -
  have "fst (popTuple ts [] 0) = Inl (UndefinedBehaviour ''index of a repeated field'')"
    using assms(2) by (induction ts rule: induct_list012) (simp_all add: unwrap_at_def result_at_def)
  then show ?thesis using assms(1) by (simp add: cq_custom_event_projection_def Let_def raise_run)
qed

text \<open>A result for which no listener was set throws \<open>std::bad_function_call\<close>, which no handler of the dispatcher accepts.\<close>

theorem listener_not_set:
  assumes "listener_for (resultType (cq_result_of P d)) cql = None"
  shows "cq_custom_event P m cql d retried u = (Inl (StdException ''bad_function_call''), u)"
  using assms by (simp add: cq_custom_event_def Let_def call_listener_def raise_run)

end
